(* ===== verification/Prelude.thy ===== *)
theory Prelude
  imports Main "HOL-Library.Word"
begin

text \<open>
  Shared vocabulary of the firmware model: the C integer types as words, the bit idioms the C code
  uses (\<open>x & (1 << n)\<close>, \<open>x |= 1 << n\<close>, \<open>x &= ~(1 << n)\<close>), overwriting a window of a byte array
  (\<open>memcpy\<close> into an array), and the rules for loops that visit every cell of an array once.
\<close>

unbundle bit_operations_syntax

type_synonym uint8 = "8 word"
type_synonym uint16 = "16 word"
type_synonym uint32 = "32 word"
type_synonym uint64 = "64 word"

named_theorems c_bits \<open>bitwise C idioms read as statements about single bits\<close>

subsection \<open>C bit masks\<close>

text \<open>\<open>1 << n\<close> at the width of the result type.\<close>

definition shl1 :: "nat \<Rightarrow> 'a::len word" where
  "shl1 n = push_bit n 1"

text \<open>\<open>(x & (1 << n)) != 0\<close>\<close>

definition test_mask :: "'a::len word \<Rightarrow> nat \<Rightarrow> bool" where
  "test_mask x n \<longleftrightarrow> x AND shl1 n \<noteq> 0"

subsection \<open>Timer differences\<close>

definition TIMER_DIFF_32 :: "uint32 \<Rightarrow> uint32 \<Rightarrow> uint32" where
  "TIMER_DIFF_32 a b = a - b"

definition TIMER_DIFF_16 :: "uint16 \<Rightarrow> uint16 \<Rightarrow> uint16" where
  "TIMER_DIFF_16 a b = a - b"

subsection \<open>Byte arrays\<close>

text \<open>\<open>memcpy(&xs[a], v, length v)\<close>\<close>

definition patch :: "nat \<Rightarrow> 'a list \<Rightarrow> 'a list \<Rightarrow> 'a list" where
  "patch a v xs = take a xs @ v @ drop (a + length v) xs"

text \<open>\<open>&xs[a]\<close> read for \<open>n\<close> elements\<close>

definition window :: "nat \<Rightarrow> nat \<Rightarrow> 'a list \<Rightarrow> 'a list" where
  "window a n xs = take n (drop a xs)"

lemma word_bits_eq_iff: "x = y \<longleftrightarrow> (\<forall>k<LENGTH('a). bit x k = bit (y :: 'a::len word) k)"
  by (auto intro: bit_word_eqI)

lemma bit_shl1 [c_bits]: "bit (shl1 n :: 'a::len word) k \<longleftrightarrow> k = n \<and> n < LENGTH('a)"
  by (auto simp: shl1_def bit_exp_iff)

lemma shl1_eq_0_iff: "(shl1 n :: 'a::len word) = 0 \<longleftrightarrow> LENGTH('a) \<le> n"
  by (auto simp: word_bits_eq_iff bit_shl1 not_less [symmetric])

lemma test_mask_iff [c_bits]: "test_mask (x :: 'a::len word) n \<longleftrightarrow> bit x n"
proof -
  have "x AND shl1 n \<noteq> 0 \<longleftrightarrow> (\<exists>k. bit x k \<and> k = n \<and> n < LENGTH('a))"
    by (auto simp: word_bits_eq_iff bit_and_iff bit_shl1)
  then show ?thesis
    by (auto simp: test_mask_def dest: bit_imp_le_length)
qed

lemma bit_set_mask [c_bits]:
  "bit (x OR shl1 n :: 'a::len word) k \<longleftrightarrow> bit x k \<or> (k = n \<and> n < LENGTH('a))"
  by (simp add: bit_or_iff bit_shl1)

lemma bit_clear_mask [c_bits]:
  "bit (x AND NOT (shl1 n) :: 'a::len word) k \<longleftrightarrow> bit x k \<and> k \<noteq> n"
  by (auto simp: bit_and_iff bit_not_iff bit_shl1 dest: bit_imp_le_length)

lemma bit_flip_mask [c_bits]:
  "bit (x XOR shl1 n :: 'a::len word) k \<longleftrightarrow> (if k = n \<and> n < LENGTH('a) then \<not> bit x k else bit x k)"
  by (auto simp: bit_xor_iff bit_shl1)

lemma unat_of_nat_small: "n < 2 ^ LENGTH('a) \<Longrightarrow> unat (of_nat n :: 'a::len word) = n"
  by (simp add: unat_of_nat take_bit_nat_eq_self)

lemma block_bound: "i < n \<Longrightarrow> i * p + p \<le> n * (p :: nat)"
  by (metis Suc_leI add.commute mult_Suc mult_le_mono1)

subsection \<open>Bytes bit by bit\<close>

lemma byte_eqI:
  assumes "\<And>n. n = 7 \<or> n = 6 \<or> n = 5 \<or> n = 4 \<or> n = 3 \<or> n = 2 \<or> n = 1 \<or> n = 0 \<Longrightarrow> bit a n = bit b n"
  shows "a = (b :: uint8)"
proof (rule bit_word_eqI)
  fix n assume "n < LENGTH(8)"
  then have "n < 8" by simp
  then have "n = 7 \<or> n = 6 \<or> n = 5 \<or> n = 4 \<or> n = 3 \<or> n = 2 \<or> n = 1 \<or> n = 0" by linarith
  then show "bit a n = bit b n" by (rule assms)
qed

lemma byte_bit_high [simp]: "8 \<le> (numeral n :: nat) \<Longrightarrow> \<not> bit (k :: uint8) (numeral n)"
  using bit_imp_le_length [of k "numeral n"] by auto

subsection \<open>Overwriting part of an array\<close>

lemma length_patch [simp]: "a + length v \<le> length xs \<Longrightarrow> length (patch a v xs) = length xs"
  by (simp add: patch_def)

lemma patch_Nil [simp]: "a \<le> length xs \<Longrightarrow> patch a [] xs = xs"
  by (simp add: patch_def)

lemma nth_patch:
  "a + length v \<le> length xs \<Longrightarrow> i < length xs \<Longrightarrow>
   patch a v xs ! i = (if a \<le> i \<and> i < a + length v then v ! (i - a) else xs ! i)"
  by (auto simp: patch_def nth_append min_def not_less)

lemma length_window [simp]: "a + n \<le> length xs \<Longrightarrow> length (window a n xs) = n"
  by (simp add: window_def)

lemma nth_window: "a + n \<le> length xs \<Longrightarrow> i < n \<Longrightarrow> window a n xs ! i = xs ! (a + i)"
  by (simp add: window_def)

lemma window_patch_same [simp]:
  "a + length v \<le> length xs \<Longrightarrow> n = length v \<Longrightarrow> window a n (patch a v xs) = v"
  by (simp add: window_def patch_def)

lemma window_patch_disjoint:
  assumes "a + length v \<le> length xs" "b + n \<le> length xs" "b + n \<le> a \<or> a + length v \<le> b"
  shows "window b n (patch a v xs) = window b n xs"
  using assms by (intro nth_equalityI) (auto simp: nth_window nth_patch)

lemma patch_window_same: "a + n \<le> length xs \<Longrightarrow> patch a (window a n xs) xs = xs"
  by (intro nth_equalityI) (auto simp: nth_window nth_patch)

lemma patch_append:
  "a + length v + length w \<le> length xs \<Longrightarrow>
   patch (a + length v) w (patch a v xs) = patch a (v @ w) xs"
  by (intro nth_equalityI) (auto simp: nth_patch nth_append)

lemma patch_patch_same:
  "a + length v \<le> length xs \<Longrightarrow> length w = length v \<Longrightarrow> patch a w (patch a v xs) = patch a w xs"
  by (intro nth_equalityI) (auto simp: nth_patch)

lemma take_patch_before:
  "n \<le> a \<Longrightarrow> a + length v \<le> length xs \<Longrightarrow> take n (patch a v xs) = take n xs"
  by (simp add: patch_def min_def)

lemma drop_patch_after:
  "a + length v \<le> n \<Longrightarrow> n \<le> length xs \<Longrightarrow> drop n (patch a v xs) = drop n xs"
  by (intro nth_equalityI) (auto simp: nth_patch)

lemma patch_all: "length v = length xs \<Longrightarrow> patch 0 v xs = v"
  by (simp add: patch_def)

subsection \<open>Loops over the cells of an array\<close>

text \<open>
  A C loop that visits each index of a list once and whose body only touches the cell it visits.
  \<open>get s i\<close> is cell \<open>i\<close> of the state, \<open>step i\<close> the loop body.
\<close>

locale cellwise =
  fixes get :: "'s \<Rightarrow> 'i \<Rightarrow> 'c"
    and step :: "'i \<Rightarrow> 's \<Rightarrow> 's"
    and upd :: "'i \<Rightarrow> 'c \<Rightarrow> 'c"
    and ok :: "'s \<Rightarrow> bool"
    and dom :: "'i set"
  assumes step_ok: "ok s \<Longrightarrow> i \<in> dom \<Longrightarrow> ok (step i s)"
    and get_same: "ok s \<Longrightarrow> i \<in> dom \<Longrightarrow> get (step i s) i = upd i (get s i)"
    and get_other: "ok s \<Longrightarrow> i \<in> dom \<Longrightarrow> j \<in> dom \<Longrightarrow> i \<noteq> j \<Longrightarrow> get (step i s) j = get s j"
begin

lemma fold_ok: "ok s \<Longrightarrow> set xs \<subseteq> dom \<Longrightarrow> ok (fold step xs s)"
  by (induction xs arbitrary: s) (auto simp: step_ok)

lemma get_fold:
  "ok s \<Longrightarrow> set xs \<subseteq> dom \<Longrightarrow> distinct xs \<Longrightarrow> j \<in> dom \<Longrightarrow>
   get (fold step xs s) j = (if j \<in> set xs then upd j (get s j) else get s j)"
proof (induction xs arbitrary: s)
  case Nil
  then show ?case by simp
next
  case (Cons x xs)
  then show ?case
    by (cases "x = j") (auto simp: step_ok get_same get_other)
qed

lemma flag_fold:
  assumes "\<And>s i. ok s \<Longrightarrow> i \<in> dom \<Longrightarrow> flag (step i s) \<longleftrightarrow> flag s \<or> P i (get s i)"
    and "ok s" "set xs \<subseteq> dom" "distinct xs"
  shows "flag (fold step xs s) \<longleftrightarrow> flag s \<or> (\<exists>i\<in>set xs. P i (get s i))"
  using assms(2-4)
proof (induction xs arbitrary: s)
  case Nil
  then show ?case by simp
next
  case (Cons x xs)
  from Cons.prems have s': "ok (step x s)" "set xs \<subseteq> dom" "distinct xs" "x \<in> dom"
    by (auto simp: step_ok)
  have "get (step x s) i = get s i" if "i \<in> set xs" for i
    using Cons.prems that by (intro get_other) auto
  then show ?case
    using Cons.IH [OF s'(1-3)] assms(1) [OF Cons.prems(1) s'(4)] by auto
qed

end

text \<open>A nested loop over rows and columns is a loop over the pairs.\<close>

lemma fold_rows_cols:
  "fold (\<lambda>r s. fold (\<lambda>c s. f (r, c) s) cs s) rs s = fold f (List.product rs cs) s"
  by (induction rs arbitrary: s) (simp_all add: fold_map comp_def)

text \<open>Halfwords bit by bit, and what their leading bits say about their size.\<close>

lemma half_eqI:
  assumes "\<And>n. n = 15 \<or> n = 14 \<or> n = 13 \<or> n = 12 \<or> n = 11 \<or> n = 10
    \<or> n = 9 \<or> n = 8 \<or> n = 7 \<or> n = 6 \<or> n = 5 \<or> n = 4 \<or> n = 3 \<or> n = 2 \<or> n = 1 \<or> n = 0 \<Longrightarrow> bit a n = bit b n"
  shows "a = (b :: uint16)"
proof (rule bit_word_eqI)
  fix n assume "n < LENGTH(16)"
  then have "n < 16" by simp
  then show "bit a n = bit b n" by (intro assms) presburger
qed

lemma prefix_range:
  assumes "drop_bit n x = (c :: uint16)"
  shows "unat c * 2 ^ n \<le> unat x" "unat x < Suc (unat c) * 2 ^ n"
proof -
  have "take_bit 16 (unat x) = unat x" by (rule take_bit_nat_eq_self) (use unsigned_less [of x] in simp)
  then have "unat x div 2 ^ n = unat c" unfolding assms [symmetric] unsigned_drop_bit_eq by (simp add: drop_bit_eq_div)
  then have e: "unat x = unat c * 2 ^ n + unat x mod 2 ^ n" using div_mult_mod_eq [of "unat x" "2 ^ n"] by simp
  have "unat x mod 2 ^ n < 2 ^ n" by simp
  then show "unat c * 2 ^ n \<le> unat x" "unat x < Suc (unat c) * 2 ^ n" using e unfolding mult_Suc by linarith+
qed

lemma xor_zero_iff: "a XOR b = 0 \<longleftrightarrow> a = (b :: 'a::len word)"
  by (auto simp: bit_eq_iff bit_xor_iff)

subsection \<open>Folds\<close>

lemma fold_transfer: "(\<And>x s. g (f x s) = f' x (g s)) \<Longrightarrow> g (fold f xs s) = fold f' xs (g s)"
  by (induction xs arbitrary: s) simp_all

lemma fold_kept: "(\<And>x s. P s \<Longrightarrow> P (f x s)) \<Longrightarrow> P s \<Longrightarrow> P (fold f xs s)"
  by (induction xs arbitrary: s) simp_all

end
