(* ===== verification/Log_Entry.thy ===== *)
theory Log_Entry
  imports Prelude
begin

text \<open>
  The write-log entries of \<^verbatim>\<open>quantum/wear_leveling/wear_leveling_internal.h\<close>. The union
  \<open>write_log_entry_t\<close> is modelled by its byte view \<open>raw8\<close>, a list of 8 bytes; \<open>raw16[i]\<close>, \<open>raw32[i]\<close>
  and \<open>raw64\<close> are the little-endian views, that is the slices of that list, so that a value of type
  \<open>backing_store_int_t\<close> is the list of its \<open>BACKING_STORE_WRITE_SIZE\<close> bytes.
\<close>

subsection \<open>Definitions\<close>

text \<open>\<open>BACKING_STORE_WRITE_SIZE\<close>: 2, 4 or 8, every other value is an \<open>#error\<close>.\<close>

datatype write_size = W2 | W4 | W8

fun bytes_of :: "write_size \<Rightarrow> nat" where
  "bytes_of W2 = 2"
| "bytes_of W4 = 4"
| "bytes_of W8 = 8"

text \<open>The discriminator, in the top two bits of the first byte; the fourth code is unused.\<close>

definition LOG_ENTRY_TYPE_MULTIBYTE :: uint8 where "LOG_ENTRY_TYPE_MULTIBYTE = 0"
definition LOG_ENTRY_TYPE_OPTIMIZED_64 :: uint8 where "LOG_ENTRY_TYPE_OPTIMIZED_64 = 1"
definition LOG_ENTRY_TYPE_WORD_01 :: uint8 where "LOG_ENTRY_TYPE_WORD_01 = 2"

definition LOG_ENTRY_GET_TYPE :: "uint8 list \<Rightarrow> uint8" where
  "LOG_ENTRY_GET_TYPE e = drop_bit 6 (e ! 0) AND 3"

definition LOG_ENTRY_MULTIBYTE_MAX_BYTES :: nat where
  "LOG_ENTRY_MULTIBYTE_MAX_BYTES = 5"

definition LOG_ENTRY_MULTIBYTE_GET_ADDRESS :: "uint8 list \<Rightarrow> uint32" where
  "LOG_ENTRY_MULTIBYTE_GET_ADDRESS e =
     push_bit 16 (ucast (e ! 0) AND 7) OR push_bit 8 (ucast (e ! 1)) OR ucast (e ! 2)"

definition LOG_ENTRY_MULTIBYTE_GET_LENGTH :: "uint8 list \<Rightarrow> uint8" where
  "LOG_ENTRY_MULTIBYTE_GET_LENGTH e = drop_bit 3 (e ! 0) AND 7"

definition LOG_ENTRY_MAKE_MULTIBYTE :: "uint32 \<Rightarrow> uint8 \<Rightarrow> uint8 list" where
  "LOG_ENTRY_MAKE_MULTIBYTE address len =
     [push_bit 6 (LOG_ENTRY_TYPE_MULTIBYTE AND 3) OR push_bit 3 (len AND 7)
        OR (ucast (drop_bit 16 address) AND 7),
      ucast (drop_bit 8 address), ucast address, 0, 0, 0, 0, 0]"

definition LOG_ENTRY_OPTIMIZED_64_GET_ADDRESS :: "uint8 list \<Rightarrow> uint32" where
  "LOG_ENTRY_OPTIMIZED_64_GET_ADDRESS e = ucast (e ! 0 AND 63)"

definition LOG_ENTRY_OPTIMIZED_64_GET_VALUE :: "uint8 list \<Rightarrow> uint8" where
  "LOG_ENTRY_OPTIMIZED_64_GET_VALUE e = e ! 1"

definition LOG_ENTRY_MAKE_OPTIMIZED_64 :: "uint32 \<Rightarrow> uint8 \<Rightarrow> uint8 list" where
  "LOG_ENTRY_MAKE_OPTIMIZED_64 address v =
     [push_bit 6 (LOG_ENTRY_TYPE_OPTIMIZED_64 AND 3) OR (ucast address AND 63), v, 0, 0, 0, 0, 0, 0]"

definition LOG_ENTRY_WORD_01_GET_ADDRESS :: "uint8 list \<Rightarrow> uint32" where
  "LOG_ENTRY_WORD_01_GET_ADDRESS e = push_bit 9 (ucast (e ! 0 AND 31)) OR push_bit 1 (ucast (e ! 1))"

definition LOG_ENTRY_WORD_01_GET_VALUE :: "uint8 list \<Rightarrow> uint8" where
  "LOG_ENTRY_WORD_01_GET_VALUE e = drop_bit 5 (e ! 0) AND 1"

definition LOG_ENTRY_MAKE_WORD_01 :: "uint32 \<Rightarrow> uint16 \<Rightarrow> uint8 list" where
  "LOG_ENTRY_MAKE_WORD_01 address v =
     [push_bit 6 (LOG_ENTRY_TYPE_WORD_01 AND 3) OR push_bit 5 ((if v \<noteq> 0 then 1 else 0) AND 1)
        OR (ucast (drop_bit 9 address) AND 31),
      ucast (drop_bit 1 address), 0, 0, 0, 0, 0, 0]"

text \<open>\<open>log.raw16[i]\<close>, \<open>log.raw32[i]\<close>, \<open>log.raw64\<close>: the \<open>i\<close>-th \<open>backing_store_int_t\<close> of the entry.\<close>

definition entry_cell :: "write_size \<Rightarrow> nat \<Rightarrow> uint8 list \<Rightarrow> uint8 list" where
  "entry_cell w i e = window (i * bytes_of w) (bytes_of w) e"

text \<open>\<open>entry.raw64\<close> as a number, and the bytes of a number, both little endian.\<close>

fun le_bytes :: "nat \<Rightarrow> 'a::len word \<Rightarrow> uint8 list" where
  "le_bytes 0 x = []"
| "le_bytes (Suc n) x = ucast x # le_bytes n (drop_bit 8 x)"

fun le_value :: "uint8 list \<Rightarrow> 'a::len word" where
  "le_value [] = 0"
| "le_value (b # bs) = ucast b OR push_bit 8 (le_value bs)"

subsection \<open>Round trips\<close>

lemma bytes_of_pos [simp]: "0 < bytes_of w"
  by (cases w) simp_all

lemma bytes_of_dvd_8: "bytes_of w dvd 8"
  by (cases w) simp_all

lemma word_less_exp_bit:
  fixes a :: "'a::len word"
  assumes "unat a < 2 ^ n" "n \<le> k"
  shows "\<not> bit a k"
proof -
  have "take_bit n (unat a) = unat a" using assms(1) by (rule take_bit_nat_eq_self)
  then have "\<not> bit (unat a) k" using assms(2) by (metis bit_take_bit_iff not_le)
  then show ?thesis by (simp add: bit_unsigned_iff)
qed

lemma bit_low_masks [c_bits]:
  "bit (3 :: int) k \<longleftrightarrow> k < 2" "bit (7 :: int) k \<longleftrightarrow> k < 3"
  "bit (31 :: int) k \<longleftrightarrow> k < 5" "bit (63 :: int) k \<longleftrightarrow> k < 6"
proof -
  have "(3 :: int) = mask 2" "(7 :: int) = mask 3" "(31 :: int) = mask 5" "(63 :: int) = mask 6"
    by (simp_all add: mask_eq_exp_minus_1)
  then show "bit (3 :: int) k \<longleftrightarrow> k < 2" "bit (7 :: int) k \<longleftrightarrow> k < 3"
    "bit (31 :: int) k \<longleftrightarrow> k < 5" "bit (63 :: int) k \<longleftrightarrow> k < 6"
    by (simp_all only: bit_mask_iff) auto
qed

lemmas log_entry_defs =
  LOG_ENTRY_GET_TYPE_def
  LOG_ENTRY_MULTIBYTE_GET_ADDRESS_def LOG_ENTRY_MULTIBYTE_GET_LENGTH_def LOG_ENTRY_MAKE_MULTIBYTE_def
  LOG_ENTRY_OPTIMIZED_64_GET_ADDRESS_def LOG_ENTRY_OPTIMIZED_64_GET_VALUE_def LOG_ENTRY_MAKE_OPTIMIZED_64_def
  LOG_ENTRY_WORD_01_GET_ADDRESS_def LOG_ENTRY_WORD_01_GET_VALUE_def LOG_ENTRY_MAKE_WORD_01_def

lemmas log_entry_types =
  LOG_ENTRY_TYPE_MULTIBYTE_def LOG_ENTRY_TYPE_OPTIMIZED_64_def LOG_ENTRY_TYPE_WORD_01_def

text \<open>Reading a bit of an entry field: the shifts and masks of the macros, bit by bit.\<close>

lemmas entry_bits =
  log_entry_defs log_entry_types nth_Cons_0 nth_Cons_Suc One_nat_def numeral_2_eq_2 list.sel
  bit_or_iff bit_and_iff bit_push_bit_iff bit_drop_bit_eq comp_apply bit_unsigned_iff bit_numeral_word_iff
  possible_bit_word bit_low_masks bit_1_iff bit_0_eq

lemma get_type_multibyte: "LOG_ENTRY_GET_TYPE (hd (LOG_ENTRY_MAKE_MULTIBYTE a l) # bs) = LOG_ENTRY_TYPE_MULTIBYTE"
  by (rule bit_word_eqI, simp only: entry_bits) auto

lemma get_type_optimized_64:
  "LOG_ENTRY_GET_TYPE (hd (LOG_ENTRY_MAKE_OPTIMIZED_64 a v) # bs) = LOG_ENTRY_TYPE_OPTIMIZED_64"
  by (rule bit_word_eqI, simp only: entry_bits) auto

lemma get_type_word_01:
  "LOG_ENTRY_GET_TYPE (hd (LOG_ENTRY_MAKE_WORD_01 a v) # bs) = LOG_ENTRY_TYPE_WORD_01"
  by (rule bit_word_eqI, simp only: entry_bits) (auto simp: bit_2_iff)

lemma multibyte_address_roundtrip:
  assumes "unat a < 2 ^ 19"
  shows "LOG_ENTRY_MULTIBYTE_GET_ADDRESS (LOG_ENTRY_MAKE_MULTIBYTE a l) = a"
proof (rule bit_word_eqI)
  fix k assume "k < LENGTH(32)"
  then show "bit (LOG_ENTRY_MULTIBYTE_GET_ADDRESS (LOG_ENTRY_MAKE_MULTIBYTE a l)) k = bit a k"
    using word_less_exp_bit [OF assms, of k]
    by (cases "k < 8"; cases "k < 16"; cases "k < 19") (simp_all only: entry_bits, auto)
qed

lemma multibyte_length_roundtrip:
  assumes "unat l < 2 ^ 3"
  shows "LOG_ENTRY_MULTIBYTE_GET_LENGTH (LOG_ENTRY_MAKE_MULTIBYTE a l) = l"
proof (rule bit_word_eqI)
  fix k assume "k < LENGTH(8)"
  then show "bit (LOG_ENTRY_MULTIBYTE_GET_LENGTH (LOG_ENTRY_MAKE_MULTIBYTE a l)) k = bit l k"
    using word_less_exp_bit [OF assms, of k]
    by (cases "k < 3") (simp_all only: entry_bits, auto)
qed

lemma optimized_64_address_roundtrip:
  assumes "unat a < 2 ^ 6"
  shows "LOG_ENTRY_OPTIMIZED_64_GET_ADDRESS (LOG_ENTRY_MAKE_OPTIMIZED_64 a v) = a"
proof (rule bit_word_eqI)
  fix k assume "k < LENGTH(32)"
  then show "bit (LOG_ENTRY_OPTIMIZED_64_GET_ADDRESS (LOG_ENTRY_MAKE_OPTIMIZED_64 a v)) k = bit a k"
    using word_less_exp_bit [OF assms, of k]
    by (cases "k < 6") (simp_all only: entry_bits, auto)
qed

lemma optimized_64_value_roundtrip:
  "LOG_ENTRY_OPTIMIZED_64_GET_VALUE (LOG_ENTRY_MAKE_OPTIMIZED_64 a v) = v"
  by (simp add: log_entry_defs)

lemma word_01_address_roundtrip:
  assumes "unat a < 2 ^ 14" "even (unat a)"
  shows "LOG_ENTRY_WORD_01_GET_ADDRESS (LOG_ENTRY_MAKE_WORD_01 a v) = a"
proof (rule bit_word_eqI)
  fix k assume "k < LENGTH(32)"
  moreover have "\<not> bit (unat a) 0" using assms(2) by (simp add: bit_0)
  then have "\<not> bit a 0" by (simp add: bit_unsigned_iff)
  ultimately show "bit (LOG_ENTRY_WORD_01_GET_ADDRESS (LOG_ENTRY_MAKE_WORD_01 a v)) k = bit a k"
    using word_less_exp_bit [OF assms(1), of k]
    by (cases "k = 0"; cases "k < 9"; cases "k < 14") (simp_all only: entry_bits, auto)
qed

lemma word_01_value_roundtrip:
  "LOG_ENTRY_WORD_01_GET_VALUE (LOG_ENTRY_MAKE_WORD_01 a v) = (if v = 0 then 0 else 1)"
  by (cases "v = 0"; rule bit_word_eqI, simp only: entry_bits if_True if_False not_True_eq_False) auto

lemma length_le_bytes [simp]: "length (le_bytes n x) = n"
  by (induction n arbitrary: x) simp_all

lemma bit_le_value_le_bytes:
  "bit (le_value (le_bytes n (x :: 'a::len word)) :: 'a word) k \<longleftrightarrow> bit x k \<and> k < 8 * n"
proof (induction n arbitrary: x k)
  case 0
  then show ?case by simp
next
  case (Suc n)
  show ?case
    by (simp add: bit_or_iff bit_push_bit_iff Suc.IH bit_drop_bit_eq bit_unsigned_iff)
      (auto dest: bit_imp_le_length)
qed

lemma le_value_le_bytes: "LENGTH('a) \<le> 8 * n \<Longrightarrow> le_value (le_bytes n x) = (x :: 'a::len word)"
  by (rule bit_word_eqI) (simp add: bit_le_value_le_bytes)

end
