(* ===== verification/Backing_Store.thy ===== *)
theory Backing_Store
  imports Log_Entry
begin

text \<open>
  The backing store below the wear-leveling algorithm: its configuration, the driver functions that
  \<^verbatim>\<open>wear_leveling_internal.h\<close> declares, the weak bulk functions of \<^verbatim>\<open>wear_leveling.c\<close>, and the
  contract a driver keeps, as a locale. Addresses and sizes are natural numbers: they are all at most
  \<open>WEAR_LEVELING_BACKING_SIZE\<close>, so no \<open>uint32_t\<close> arithmetic on them wraps (the one sum that can wrap,
  in the argument check of \<open>wear_leveling_write\<close>, is written with its wrap-around). A
  \<open>backing_store_int_t\<close> is the list of its bytes.
\<close>

subsection \<open>Configuration and driver interface\<close>

record wl_config =
  WRITE_SIZE :: write_size
  BACKING_SIZE :: nat
  LOGICAL_SIZE :: nat

text \<open>\<open>BACKING_STORE_WRITE_SIZE\<close> as a number of bytes\<close>

abbreviation cell_size :: "wl_config \<Rightarrow> nat" where
  "cell_size cfg \<equiv> bytes_of (WRITE_SIZE cfg)"

text \<open>
  The static assertions of \<^verbatim>\<open>wear_leveling_internal.h\<close>, and what the comment at the top of
  \<^verbatim>\<open>wear_leveling.c\<close> states beside them: the address field of a log entry has 19 bits. The last
  conjunct, that the write log behind the logical area and the eight checksum bytes is not empty, is
  not asserted by the code; it holds for every logical size above 8.
\<close>

definition valid_config :: "wl_config \<Rightarrow> bool" where
  "valid_config cfg \<longleftrightarrow>
     LOGICAL_SIZE cfg * 2 \<le> BACKING_SIZE cfg
     \<and> LOGICAL_SIZE cfg mod cell_size cfg = 0
     \<and> BACKING_SIZE cfg mod LOGICAL_SIZE cfg = 0
     \<and> LOGICAL_SIZE cfg \<le> 2 ^ 19
     \<and> LOGICAL_SIZE cfg + 8 < BACKING_SIZE cfg"

text \<open>
  The driver: each function threads the device state \<open>'d\<close>; a read returns the bytes read, or
  \<open>None\<close> where the C function returns \<open>false\<close>. The bulk functions take and return the concatenated
  bytes of the values; the second argument of the bulk read is \<open>item_count\<close>.
\<close>

record 'd backing_ops =
  backing_store_init :: "'d \<Rightarrow> bool \<times> 'd"
  backing_store_unlock :: "'d \<Rightarrow> bool \<times> 'd"
  backing_store_erase :: "'d \<Rightarrow> bool \<times> 'd"
  backing_store_write :: "nat \<Rightarrow> uint8 list \<Rightarrow> 'd \<Rightarrow> bool \<times> 'd"
  backing_store_write_bulk :: "nat \<Rightarrow> uint8 list \<Rightarrow> 'd \<Rightarrow> bool \<times> 'd"
  backing_store_lock :: "'d \<Rightarrow> bool \<times> 'd"
  backing_store_read :: "nat \<Rightarrow> 'd \<Rightarrow> uint8 list option \<times> 'd"
  backing_store_read_bulk :: "nat \<Rightarrow> nat \<Rightarrow> 'd \<Rightarrow> uint8 list option \<times> 'd"

text \<open>The weak default implementations of the bulk functions, loops over the single-cell functions.\<close>

fun weak_read_bulk ::
  "nat \<Rightarrow> (nat \<Rightarrow> 'd \<Rightarrow> uint8 list option \<times> 'd) \<Rightarrow> nat \<Rightarrow> nat \<Rightarrow> 'd \<Rightarrow> uint8 list option \<times> 'd" where
  "weak_read_bulk w rd address 0 d = (Some [], d)"
| "weak_read_bulk w rd address (Suc n) d =
     (case rd address d of
        (None, d) \<Rightarrow> (None, d)
      | (Some v, d) \<Rightarrow>
          (case weak_read_bulk w rd (address + w) n d of
             (None, d) \<Rightarrow> (None, d)
           | (Some vs, d) \<Rightarrow> (Some (v @ vs), d)))"

fun weak_write_bulk ::
  "nat \<Rightarrow> (nat \<Rightarrow> uint8 list \<Rightarrow> 'd \<Rightarrow> bool \<times> 'd) \<Rightarrow> nat \<Rightarrow> nat \<Rightarrow> uint8 list \<Rightarrow> 'd \<Rightarrow> bool \<times> 'd" where
  "weak_write_bulk w wr address 0 values d = (True, d)"
| "weak_write_bulk w wr address (Suc n) values d =
     (case wr address (take w values) d of
        (False, d) \<Rightarrow> (False, d)
      | (True, d) \<Rightarrow> weak_write_bulk w wr (address + w) n (drop w values) d)"

subsection \<open>The contract of a driver\<close>

text \<open>
  \<open>contents d\<close> is the store as the algorithm sees it (erased cells read as zero), \<open>ready d\<close> the
  driver's own invariant. Every law is conditional on the call reporting success, so a driver may
  fail at any time; only erased cells may be written.
\<close>

definition blank :: "nat \<Rightarrow> nat \<Rightarrow> uint8 list \<Rightarrow> bool" where
  "blank a n m \<longleftrightarrow> (\<forall>i<n. m ! (a + i) = 0)"

locale backing_store =
  fixes cfg :: wl_config
    and ops :: "'d backing_ops"
    and contents :: "'d \<Rightarrow> uint8 list"
    and ready :: "'d \<Rightarrow> bool"
  assumes length_contents: "ready d \<Longrightarrow> length (contents d) = BACKING_SIZE cfg"
    and init_ok: "ready d \<Longrightarrow> backing_store_init ops d = (True, d') \<Longrightarrow> ready d' \<and> contents d' = contents d"
    and unlock_ok: "ready d \<Longrightarrow> backing_store_unlock ops d = (r, d') \<Longrightarrow> ready d' \<and> contents d' = contents d"
    and lock_ok: "ready d \<Longrightarrow> backing_store_lock ops d = (r, d') \<Longrightarrow> ready d' \<and> contents d' = contents d"
    and erase_ok: "ready d \<Longrightarrow> backing_store_erase ops d = (True, d') \<Longrightarrow>
      ready d' \<and> contents d' = replicate (BACKING_SIZE cfg) 0"
    and write_ok: "ready d \<Longrightarrow> length v = cell_size cfg \<Longrightarrow> cell_size cfg dvd a \<Longrightarrow>
      a + length v \<le> BACKING_SIZE cfg \<Longrightarrow> blank a (length v) (contents d) \<Longrightarrow>
      backing_store_write ops a v d = (True, d') \<Longrightarrow> ready d' \<and> contents d' = patch a v (contents d)"
    and write_bulk_ok: "ready d \<Longrightarrow> cell_size cfg dvd length v \<Longrightarrow> cell_size cfg dvd a \<Longrightarrow>
      a + length v \<le> BACKING_SIZE cfg \<Longrightarrow> blank a (length v) (contents d) \<Longrightarrow>
      backing_store_write_bulk ops a v d = (True, d') \<Longrightarrow> ready d' \<and> contents d' = patch a v (contents d)"
    and read_ok: "ready d \<Longrightarrow> cell_size cfg dvd a \<Longrightarrow> a + cell_size cfg \<le> BACKING_SIZE cfg \<Longrightarrow>
      backing_store_read ops a d = (Some v, d') \<Longrightarrow>
      ready d' \<and> contents d' = contents d \<and> v = window a (cell_size cfg) (contents d)"
    and read_bulk_ok: "ready d \<Longrightarrow> cell_size cfg dvd a \<Longrightarrow> a + n * cell_size cfg \<le> BACKING_SIZE cfg \<Longrightarrow>
      backing_store_read_bulk ops a n d = (Some v, d') \<Longrightarrow>
      ready d' \<and> contents d' = contents d \<and> v = window a (n * cell_size cfg) (contents d)"

text \<open>
  A driver that never fails on the calls the algorithm makes. Erasing and writing need the store to
  be unlocked; \<open>opened d\<close> says that it is, and erasing and writing keep it so.
\<close>

locale reliable_store = backing_store cfg ops contents ready
  for cfg and ops :: "'d backing_ops" and contents and ready +
  fixes opened :: "'d \<Rightarrow> bool"
  assumes init_succeeds: "ready d \<Longrightarrow> fst (backing_store_init ops d)"
    and unlock_succeeds: "ready d \<Longrightarrow> \<exists>d'. backing_store_unlock ops d = (True, d') \<and> opened d'"
    and lock_succeeds: "ready d \<Longrightarrow> fst (backing_store_lock ops d)"
    and erase_succeeds: "ready d \<Longrightarrow> opened d \<Longrightarrow> \<exists>d'. backing_store_erase ops d = (True, d') \<and> opened d'"
    and write_succeeds: "ready d \<Longrightarrow> opened d \<Longrightarrow> length v = cell_size cfg \<Longrightarrow> cell_size cfg dvd a \<Longrightarrow>
      a + length v \<le> BACKING_SIZE cfg \<Longrightarrow> blank a (length v) (contents d) \<Longrightarrow>
      \<exists>d'. backing_store_write ops a v d = (True, d') \<and> opened d'"
    and write_bulk_succeeds: "ready d \<Longrightarrow> opened d \<Longrightarrow> cell_size cfg dvd length v \<Longrightarrow> cell_size cfg dvd a \<Longrightarrow>
      a + length v \<le> BACKING_SIZE cfg \<Longrightarrow> blank a (length v) (contents d) \<Longrightarrow>
      \<exists>d'. backing_store_write_bulk ops a v d = (True, d') \<and> opened d'"
    and read_succeeds: "ready d \<Longrightarrow> cell_size cfg dvd a \<Longrightarrow> a + cell_size cfg \<le> BACKING_SIZE cfg \<Longrightarrow>
      fst (backing_store_read ops a d) \<noteq> None"
    and read_bulk_succeeds: "ready d \<Longrightarrow> cell_size cfg dvd a \<Longrightarrow> a + n * cell_size cfg \<le> BACKING_SIZE cfg \<Longrightarrow>
      fst (backing_store_read_bulk ops a n d) \<noteq> None"

subsection \<open>The weak bulk functions\<close>

text \<open>
  A driver that only has the single-cell functions gets the bulk laws from the weak functions: the
  loops write, and read, the concatenation of the cells.
\<close>

locale single_cells =
  fixes w size :: nat
    and rd :: "nat \<Rightarrow> 'd \<Rightarrow> uint8 list option \<times> 'd"
    and wr :: "nat \<Rightarrow> uint8 list \<Rightarrow> 'd \<Rightarrow> bool \<times> 'd"
    and contents :: "'d \<Rightarrow> uint8 list"
    and ready opened :: "'d \<Rightarrow> bool"
  assumes w_pos: "0 < w"
    and len: "ready d \<Longrightarrow> length (contents d) = size"
    and wr_ok: "ready d \<Longrightarrow> length v = w \<Longrightarrow> w dvd a \<Longrightarrow> a + w \<le> size \<Longrightarrow> blank a w (contents d) \<Longrightarrow>
      wr a v d = (True, d') \<Longrightarrow> ready d' \<and> contents d' = patch a v (contents d)"
    and wr_succeeds: "ready d \<Longrightarrow> opened d \<Longrightarrow> length v = w \<Longrightarrow> w dvd a \<Longrightarrow> a + w \<le> size \<Longrightarrow>
      blank a w (contents d) \<Longrightarrow> \<exists>d'. wr a v d = (True, d') \<and> opened d'"
    and rd_ok: "ready d \<Longrightarrow> w dvd a \<Longrightarrow> a + w \<le> size \<Longrightarrow>
      \<exists>d'. rd a d = (Some (window a w (contents d)), d') \<and> ready d' \<and> contents d' = contents d"
begin

lemma blank_rest:
  assumes "blank a (length v) m" "length m = size" "a + length v \<le> size" "w \<le> length v"
  shows "blank a w m" "blank (a + w) (length v - w) (patch a (take w v) m)"
  using assms by (auto simp: blank_def nth_patch add.assoc)

lemma write_bulk_ok:
  "ready d \<Longrightarrow> length v = n * w \<Longrightarrow> w dvd a \<Longrightarrow> a + length v \<le> size \<Longrightarrow> blank a (length v) (contents d) \<Longrightarrow>
   weak_write_bulk w wr a n v d = (True, d') \<Longrightarrow> ready d' \<and> contents d' = patch a v (contents d)"
proof (induction n arbitrary: a v d)
  case 0
  then show ?case using len by simp
next
  case (Suc n)
  from Suc.prems(6) obtain d1 where 1: "wr a (take w v) d = (True, d1)"
    and 2: "weak_write_bulk w wr (a + w) n (drop w v) d1 = (True, d')"
    by (auto split: prod.splits bool.splits)
  have wv: "w \<le> length v" using Suc.prems(2) by simp
  note bl = blank_rest [OF Suc.prems(5) len [OF Suc.prems(1)] Suc.prems(4) wv]
  have d1: "ready d1 \<and> contents d1 = patch a (take w v) (contents d)"
    using Suc.prems(4) wv by (intro wr_ok [OF Suc.prems(1) _ Suc.prems(3) _ bl(1) 1]) auto
  have "ready d' \<and> contents d' = patch (a + w) (drop w v) (contents d1)"
    using Suc.prems(2-4) d1 bl(2) by (intro Suc.IH [OF _ _ _ _ _ 2]) auto
  then show ?case
    using d1 patch_append [of a "take w v" "drop w v" "contents d"] Suc.prems(1,4) wv len by simp
qed

lemma write_bulk_succeeds:
  "ready d \<Longrightarrow> opened d \<Longrightarrow> length v = n * w \<Longrightarrow> w dvd a \<Longrightarrow> a + length v \<le> size \<Longrightarrow>
   blank a (length v) (contents d) \<Longrightarrow> \<exists>d'. weak_write_bulk w wr a n v d = (True, d') \<and> opened d'"
proof (induction n arbitrary: a v d)
  case 0
  then show ?case by simp
next
  case (Suc n)
  have wv: "w \<le> length v" "a + w \<le> size" using Suc.prems(3,5) by simp_all
  note bl = blank_rest [OF Suc.prems(6) len [OF Suc.prems(1)] Suc.prems(5) wv(1)]
  have tl: "length (take w v) = w" using wv by simp
  obtain d1 where d1: "wr a (take w v) d = (True, d1)" "opened d1"
    using wr_succeeds [OF Suc.prems(1,2) tl Suc.prems(4) wv(2) bl(1)] by blast
  have "ready d1 \<and> contents d1 = patch a (take w v) (contents d)"
    by (rule wr_ok [OF Suc.prems(1) tl Suc.prems(4) wv(2) bl(1) d1(1)])
  then have "\<exists>d'. weak_write_bulk w wr (a + w) n (drop w v) d1 = (True, d') \<and> opened d'"
    using Suc.prems(3-5) d1(2) bl(2) by (intro Suc.IH) auto
  then show ?case using d1 by auto
qed

lemma read_bulk:
  "ready d \<Longrightarrow> w dvd a \<Longrightarrow> a + n * w \<le> size \<Longrightarrow>
   \<exists>d'. weak_read_bulk w rd a n d = (Some (window a (n * w) (contents d)), d') \<and> ready d' \<and> contents d' = contents d"
proof (induction n arbitrary: a d)
  case 0
  then show ?case by (simp add: window_def)
next
  case (Suc n)
  obtain d1 where 1: "rd a d = (Some (window a w (contents d)), d1)" "ready d1" "contents d1 = contents d"
    using rd_ok [OF Suc.prems(1,2)] Suc.prems(3) by auto
  obtain d2 where "weak_read_bulk w rd (a + w) n d1 = (Some (window (a + w) (n * w) (contents d)), d2)"
    "ready d2" "contents d2 = contents d"
    using Suc.IH [of d1 "a + w"] Suc.prems(2,3) 1 by auto
  with 1 show ?case by (simp add: window_def take_add add.commute)
qed

end

end
