(* ===== verification/Fnv.thy ===== *)
theory Fnv
  imports Prelude
begin

text \<open>
  The 64-bit FNV-1a hash of \<^verbatim>\<open>lib/fnv/hash_64a.c\<close> (built with \<open>HAVE_64BIT_LONG_LONG\<close>, so
  \<open>Fnv64_t\<close> is \<open>uint64_t\<close>), which guards the consolidated area of the wear-leveling store.
\<close>

subsection \<open>Definitions\<close>

definition FNV1A_64_INIT :: uint64 where
  "FNV1A_64_INIT = 0xcbf29ce484222325"

definition FNV_64_PRIME :: uint64 where
  "FNV_64_PRIME = 0x100000001b3"

text \<open>The loop body, with the multiplication by the prime written as shifts and additions.\<close>

definition fnv_64a_octet :: "uint8 \<Rightarrow> uint64 \<Rightarrow> uint64" where
  "fnv_64a_octet b hval =
     (let hval = hval XOR ucast b
      in hval + (push_bit 1 hval + push_bit 4 hval + push_bit 5 hval
                 + push_bit 7 hval + push_bit 8 hval + push_bit 40 hval))"

definition fnv_64a_buf :: "uint8 list \<Rightarrow> uint64 \<Rightarrow> uint64" where
  "fnv_64a_buf buf hval = fold fnv_64a_octet buf hval"

subsection \<open>Lemmas\<close>

lemma fnv_64a_octet_mult: "fnv_64a_octet b hval = (hval XOR ucast b) * FNV_64_PRIME"
  by (simp add: fnv_64a_octet_def Let_def push_bit_eq_mult FNV_64_PRIME_def algebra_simps)

text \<open>The prime is odd, so multiplying by it modulo \<open>2 ^ 64\<close> loses nothing; its inverse witnesses that.\<close>

lemma FNV_64_PRIME_inverse: "FNV_64_PRIME * 0xce965057aff6957b = 1"
  by (simp add: FNV_64_PRIME_def)

lemma mult_FNV_64_PRIME_inj: "x * FNV_64_PRIME = y * FNV_64_PRIME \<longleftrightarrow> x = y"
proof
  have cancel: "z * FNV_64_PRIME * 0xce965057aff6957b = z" for z
    by (simp only: mult.assoc FNV_64_PRIME_inverse mult_1_right)
  assume "x * FNV_64_PRIME = y * FNV_64_PRIME"
  then have "x * FNV_64_PRIME * 0xce965057aff6957b = y * FNV_64_PRIME * 0xce965057aff6957b"
    by (simp only:)
  then show "x = y" by (simp only: cancel)
qed simp

lemma xor_right_cancel: "(x :: 'a::len word) XOR z = y XOR z \<longleftrightarrow> x = y"
  by (metis xor.assoc xor.right_neutral xor_self_eq)

lemma xor_left_cancel: "(z :: 'a::len word) XOR x = z XOR y \<longleftrightarrow> x = y"
  by (metis xor.commute xor_right_cancel)

lemma fnv_64a_octet_inj_hval: "fnv_64a_octet b h = fnv_64a_octet b h' \<longleftrightarrow> h = h'"
  by (simp add: fnv_64a_octet_mult mult_FNV_64_PRIME_inj xor_right_cancel)

lemma ucast_octet_inj: "(ucast (b :: uint8) :: uint64) = ucast b' \<longleftrightarrow> b = b'"
proof
  assume "(ucast b :: uint64) = ucast b'"
  then have "(ucast (ucast b :: uint64) :: uint8) = ucast (ucast b' :: uint64)" by (simp only:)
  then show "b = b'" by (simp add: word_bits_eq_iff bit_unsigned_iff)
qed simp

lemma fnv_64a_octet_inj_byte: "fnv_64a_octet b h = fnv_64a_octet b' h \<longleftrightarrow> b = b'"
  by (simp add: fnv_64a_octet_mult mult_FNV_64_PRIME_inj xor_left_cancel ucast_octet_inj)

lemma fnv_64a_buf_inj_hval: "fnv_64a_buf buf h = fnv_64a_buf buf h' \<longleftrightarrow> h = h'"
  by (induction buf arbitrary: h h') (simp_all add: fnv_64a_buf_def fnv_64a_octet_inj_hval)

lemma fnv_64a_buf_append: "fnv_64a_buf (xs @ ys) h = fnv_64a_buf ys (fnv_64a_buf xs h)"
  by (simp add: fnv_64a_buf_def)

lemma fnv_64a_buf_list_update:
  assumes "i < length buf"
  shows "fnv_64a_buf (buf[i := b]) h = fnv_64a_buf buf h \<longleftrightarrow> b = buf ! i"
proof -
  have "buf[i := b] = take i buf @ b # drop (Suc i) buf" "buf = take i buf @ buf ! i # drop (Suc i) buf"
    using assms by (simp_all add: upd_conv_take_nth_drop id_take_nth_drop)
  then show ?thesis
    by (metis (no_types, lifting) fnv_64a_buf_append fnv_64a_buf_inj_hval fnv_64a_octet_inj_byte fnv_64a_buf_def fold_simps(2))
qed

end
