(* ===== verification/Wear_Leveling.thy ===== *)
theory Wear_Leveling
  imports Backing_Store Fnv
begin

text \<open>
  The wear-leveling algorithm of \<^verbatim>\<open>quantum/wear_leveling/wear_leveling.c\<close>: an emulated EEPROM kept
  in a RAM cache, made durable by a consolidated copy and a write log in a backing store. Every
  function takes the configuration and the driver, and threads the module state.
\<close>

subsection \<open>State and results\<close>

datatype wear_leveling_status =
  WEAR_LEVELING_FAILED | WEAR_LEVELING_SUCCESS | WEAR_LEVELING_CONSOLIDATED

datatype backing_store_lock_status = STATUS_FAILURE | STATUS_SUCCESS | STATUS_UNCHANGED

text \<open>The static struct \<open>wear_leveling\<close>, together with the device it drives.\<close>

record 'd wear_leveling =
  cache :: "uint8 list"
  write_address :: nat
  unlocked :: bool
  device :: 'd

definition on_device :: "('d \<Rightarrow> 'r \<times> 'd) \<Rightarrow> 'd wear_leveling \<Rightarrow> 'r \<times> 'd wear_leveling" where
  "on_device f s = (let (r, d) = f (device s) in (r, s\<lparr>device := d\<rparr>))"

subsection \<open>Locking and the cache\<close>

definition wear_leveling_unlock ::
  "'d backing_ops \<Rightarrow> 'd wear_leveling \<Rightarrow> backing_store_lock_status \<times> 'd wear_leveling" where
  "wear_leveling_unlock ops s =
     (if unlocked s then (STATUS_UNCHANGED, s)
      else let (ok, s) = on_device (backing_store_unlock ops) s
           in if \<not> ok then (STATUS_FAILURE, s) else (STATUS_SUCCESS, s\<lparr>unlocked := True\<rparr>))"

definition wear_leveling_lock ::
  "'d backing_ops \<Rightarrow> 'd wear_leveling \<Rightarrow> backing_store_lock_status \<times> 'd wear_leveling" where
  "wear_leveling_lock ops s =
     (if \<not> unlocked s then (STATUS_UNCHANGED, s)
      else let (ok, s) = on_device (backing_store_lock ops) s
           in if \<not> ok then (STATUS_FAILURE, s) else (STATUS_SUCCESS, s\<lparr>unlocked := False\<rparr>))"

definition log_start :: "wl_config \<Rightarrow> nat" where
  "log_start cfg = LOGICAL_SIZE cfg + 8"

definition wear_leveling_clear_cache :: "wl_config \<Rightarrow> 'd wear_leveling \<Rightarrow> 'd wear_leveling" where
  "wear_leveling_clear_cache cfg s =
     s\<lparr>cache := replicate (LOGICAL_SIZE cfg) 0, write_address := log_start cfg\<rparr>"

text \<open>
  Reads the consolidated area and compares its checksum. The result of reading the checksum is not
  looked at by the code: if that read fails, the uninitialised union \<open>entry\<close>, here the argument
  \<open>junk\<close>, is compared. \<open>checksum_read\<close> is the call the preprocessor selects for the write size.
\<close>

definition checksum_read ::
  "wl_config \<Rightarrow> 'd backing_ops \<Rightarrow> 'd \<Rightarrow> uint8 list option \<times> 'd" where
  "checksum_read cfg ops =
     (case WRITE_SIZE cfg of
        W2 \<Rightarrow> backing_store_read_bulk ops (LOGICAL_SIZE cfg) 4
      | W4 \<Rightarrow> backing_store_read_bulk ops (LOGICAL_SIZE cfg) 2
      | W8 \<Rightarrow> backing_store_read ops (LOGICAL_SIZE cfg))"

definition wear_leveling_read_consolidated ::
  "wl_config \<Rightarrow> 'd backing_ops \<Rightarrow> uint8 list \<Rightarrow> 'd wear_leveling \<Rightarrow>
   wear_leveling_status \<times> 'd wear_leveling" where
  "wear_leveling_read_consolidated cfg ops junk s =
     (case on_device (backing_store_read_bulk ops 0 (LOGICAL_SIZE cfg div cell_size cfg)) s of
        (None, s) \<Rightarrow> (WEAR_LEVELING_FAILED, wear_leveling_clear_cache cfg s)
      | (Some bytes, s) \<Rightarrow>
          let s = s\<lparr>cache := bytes\<rparr>;
              expected = fnv_64a_buf (cache s) FNV1A_64_INIT;
              (r, s) = on_device (checksum_read cfg ops) s;
              entry = (case r of Some raw \<Rightarrow> raw | None \<Rightarrow> take 8 junk)
          in (WEAR_LEVELING_SUCCESS,
              if le_value entry = expected then s else wear_leveling_clear_cache cfg s))"

definition checksum_write ::
  "wl_config \<Rightarrow> 'd backing_ops \<Rightarrow> uint8 list \<Rightarrow> 'd \<Rightarrow> bool \<times> 'd" where
  "checksum_write cfg ops raw =
     (case WRITE_SIZE cfg of
        W8 \<Rightarrow> backing_store_write ops (LOGICAL_SIZE cfg) raw
      | _ \<Rightarrow> backing_store_write_bulk ops (LOGICAL_SIZE cfg) raw)"

definition wear_leveling_write_consolidated ::
  "wl_config \<Rightarrow> 'd backing_ops \<Rightarrow> 'd wear_leveling \<Rightarrow> wear_leveling_status \<times> 'd wear_leveling" where
  "wear_leveling_write_consolidated cfg ops s =
     (let (lock_status, s) = wear_leveling_unlock ops s;
          (ok, s) = on_device (backing_store_write_bulk ops 0 (cache s)) s;
          (status, s) =
            (if \<not> ok then (WEAR_LEVELING_FAILED, s)
             else let raw = le_bytes 8 (fnv_64a_buf (cache s) FNV1A_64_INIT);
                      (ok, s) = on_device (checksum_write cfg ops raw) s
                  in (if ok then WEAR_LEVELING_CONSOLIDATED else WEAR_LEVELING_FAILED, s));
          s = (if lock_status = STATUS_SUCCESS then snd (wear_leveling_lock ops s) else s)
      in (status, s))"

definition wear_leveling_consolidate_force ::
  "wl_config \<Rightarrow> 'd backing_ops \<Rightarrow> 'd wear_leveling \<Rightarrow> wear_leveling_status \<times> 'd wear_leveling" where
  "wear_leveling_consolidate_force cfg ops s =
     (let (ok, s) = on_device (backing_store_erase ops) s
      in if \<not> ok then (WEAR_LEVELING_FAILED, s)
         else let (status, s) = wear_leveling_write_consolidated cfg ops s
              in (status, s\<lparr>write_address := log_start cfg\<rparr>))"

definition wear_leveling_consolidate_if_needed ::
  "wl_config \<Rightarrow> 'd backing_ops \<Rightarrow> 'd wear_leveling \<Rightarrow> wear_leveling_status \<times> 'd wear_leveling" where
  "wear_leveling_consolidate_if_needed cfg ops s =
     (if BACKING_SIZE cfg \<le> write_address s then wear_leveling_consolidate_force cfg ops s
      else (WEAR_LEVELING_SUCCESS, s))"

subsection \<open>Appending to the write log\<close>

definition wear_leveling_append_raw ::
  "wl_config \<Rightarrow> 'd backing_ops \<Rightarrow> uint8 list \<Rightarrow> 'd wear_leveling \<Rightarrow>
   wear_leveling_status \<times> 'd wear_leveling" where
  "wear_leveling_append_raw cfg ops val s =
     (let (ok, s) = on_device (backing_store_write ops (write_address s) val) s
      in if \<not> ok then (WEAR_LEVELING_FAILED, s)
         else wear_leveling_consolidate_if_needed cfg ops
                (s\<lparr>write_address := write_address s + cell_size cfg\<rparr>))"

text \<open>The repeated \<open>status = append(...); if (status != SUCCESS) return status;\<close>\<close>

fun append_each ::
  "wl_config \<Rightarrow> 'd backing_ops \<Rightarrow> uint8 list list \<Rightarrow> 'd wear_leveling \<Rightarrow>
   wear_leveling_status \<times> 'd wear_leveling" where
  "append_each cfg ops [] s = (WEAR_LEVELING_SUCCESS, s)"
| "append_each cfg ops (v # vs) s =
     (let (status, s) = wear_leveling_append_raw cfg ops v s
      in if status \<noteq> WEAR_LEVELING_SUCCESS then (status, s) else append_each cfg ops vs s)"

text \<open>Which cells of the entry are written, for each write size.\<close>

definition multibyte_cells :: "write_size \<Rightarrow> nat \<Rightarrow> uint8 list \<Rightarrow> uint8 list list" where
  "multibyte_cells w len log =
     (case w of
        W2 \<Rightarrow> [entry_cell w 0 log, entry_cell w 1 log]
              @ (if 1 < len then [entry_cell w 2 log] else [])
              @ (if 3 < len then [entry_cell w 3 log] else [])
      | W4 \<Rightarrow> [entry_cell w 0 log] @ (if 1 < len then [entry_cell w 1 log] else [])
      | W8 \<Rightarrow> [entry_cell w 0 log])"

definition wear_leveling_write_raw_multibyte ::
  "wl_config \<Rightarrow> 'd backing_ops \<Rightarrow> nat \<Rightarrow> uint8 list \<Rightarrow> 'd wear_leveling \<Rightarrow>
   wear_leveling_status \<times> 'd wear_leveling" where
  "wear_leveling_write_raw_multibyte cfg ops address p s =
     (let log = LOG_ENTRY_MAKE_MULTIBYTE (of_nat address) (of_nat (length p));
          log = patch 3 p log
      in append_each cfg ops (multibyte_cells (WRITE_SIZE cfg) (length p) log) s)"

text \<open>\<open>((uint16_t)p[1]) << 8 | p[0]\<close>\<close>

definition le_uint16 :: "uint8 list \<Rightarrow> uint16" where
  "le_uint16 p = push_bit 8 (ucast (p ! 1)) OR ucast (p ! 0)"

function wear_leveling_write_raw ::
  "wl_config \<Rightarrow> 'd backing_ops \<Rightarrow> nat \<Rightarrow> uint8 list \<Rightarrow> 'd wear_leveling \<Rightarrow>
   wear_leveling_status \<times> 'd wear_leveling" where
  "wear_leveling_write_raw cfg ops address p s =
     (if p = [] then (WEAR_LEVELING_SUCCESS, s)
      else if WRITE_SIZE cfg = W2 \<and> 2 \<le> length p \<and> address mod 2 = 0 \<and> address < 16384
              \<and> (le_uint16 p = 0 \<or> le_uint16 p = 1)
      then (let log = LOG_ENTRY_MAKE_WORD_01 (of_nat address) (le_uint16 p);
                (status, s) = wear_leveling_append_raw cfg ops (entry_cell W2 0 log) s
            in if status \<noteq> WEAR_LEVELING_SUCCESS then (status, s)
               else wear_leveling_write_raw cfg ops (address + 2) (drop 2 p) s)
      else if WRITE_SIZE cfg = W2 \<and> address < 64
      then (let log = LOG_ENTRY_MAKE_OPTIMIZED_64 (of_nat address) (hd p);
                (status, s) = wear_leveling_append_raw cfg ops (entry_cell W2 0 log) s
            in if status \<noteq> WEAR_LEVELING_SUCCESS then (status, s)
               else wear_leveling_write_raw cfg ops (address + 1) (drop 1 p) s)
      else (let this_length = min (length p) LOG_ENTRY_MULTIBYTE_MAX_BYTES;
                (status, s) = wear_leveling_write_raw_multibyte cfg ops address (take this_length p) s
            in if status \<noteq> WEAR_LEVELING_SUCCESS then (status, s)
               else wear_leveling_write_raw cfg ops (address + this_length) (drop this_length p) s))"
  by pat_completeness auto
termination
  by (relation "measure (\<lambda>(cfg, ops, address, p, s). length p)")
    (auto simp: LOG_ENTRY_MULTIBYTE_MAX_BYTES_def)

declare wear_leveling_write_raw.simps [simp del]

subsection \<open>Playing the log back\<close>

text \<open>
  The \<open>switch\<close> of the playback loop on an entry whose first cell has been read. \<open>log\<close> is the union
  (bytes not read yet are indeterminate, they come from \<open>junk\<close>), followed by the memory behind it,
  which \<open>memcpy(&cache[a], &log.raw8[3], l)\<close> reaches when the length field of a corrupted entry
  exceeds 5. The result is whether playback goes on, the next address and the state.
\<close>

definition load_cell ::
  "wl_config \<Rightarrow> 'd backing_ops \<Rightarrow> bool \<Rightarrow> nat \<Rightarrow> nat \<times> uint8 list \<times> 'd wear_leveling \<Rightarrow>
   (nat \<times> uint8 list \<times> 'd wear_leveling) option \<times> nat \<times> 'd wear_leveling" where
  "load_cell cfg ops wanted i = (\<lambda>(address, log, s).
     if \<not> wanted then (Some (address, log, s), address, s)
     else case on_device (backing_store_read ops address) s of
            (None, s) \<Rightarrow> (None, address, s)
          | (Some v, s) \<Rightarrow>
              (Some (address + cell_size cfg, patch (i * cell_size cfg) v log, s), address + cell_size cfg, s))"

definition playback_multibyte ::
  "wl_config \<Rightarrow> 'd backing_ops \<Rightarrow> uint8 list \<Rightarrow> nat \<Rightarrow> 'd wear_leveling \<Rightarrow> bool \<times> nat \<times> 'd wear_leveling" where
  "playback_multibyte cfg ops log address s =
     (case load_cell cfg ops (WRITE_SIZE cfg = W2) 1 (address, log, s) of
        (None, address, s) \<Rightarrow> (False, address, s)
      | (Some (address, log, s), _) \<Rightarrow>
          let a = unat (LOG_ENTRY_MULTIBYTE_GET_ADDRESS log);
              l = unat (LOG_ENTRY_MULTIBYTE_GET_LENGTH log)
          in if LOGICAL_SIZE cfg < a + l then (False, address, s)
             else case load_cell cfg ops (WRITE_SIZE cfg = W2 \<and> 1 < l) 2 (address, log, s) of
                    (None, address, s) \<Rightarrow> (False, address, s)
                  | (Some (address, log, s), _) \<Rightarrow>
             (case load_cell cfg ops (WRITE_SIZE cfg = W2 \<and> 3 < l) 3 (address, log, s) of
                    (None, address, s) \<Rightarrow> (False, address, s)
                  | (Some (address, log, s), _) \<Rightarrow>
             (case load_cell cfg ops (WRITE_SIZE cfg = W4 \<and> 1 < l) 1 (address, log, s) of
                    (None, address, s) \<Rightarrow> (False, address, s)
                  | (Some (address, log, s), _) \<Rightarrow>
                      (True, address, s\<lparr>cache := patch a (window 3 l log) (cache s)\<rparr>))))"

definition playback_entry ::
  "wl_config \<Rightarrow> 'd backing_ops \<Rightarrow> uint8 list \<Rightarrow> nat \<Rightarrow> 'd wear_leveling \<Rightarrow> bool \<times> nat \<times> 'd wear_leveling" where
  "playback_entry cfg ops log address s =
     (if LOG_ENTRY_GET_TYPE log = LOG_ENTRY_TYPE_MULTIBYTE
      then playback_multibyte cfg ops log address s
      else if WRITE_SIZE cfg = W2 \<and> LOG_ENTRY_GET_TYPE log = LOG_ENTRY_TYPE_OPTIMIZED_64
      then (let a = unat (LOG_ENTRY_OPTIMIZED_64_GET_ADDRESS log);
                v = LOG_ENTRY_OPTIMIZED_64_GET_VALUE log
            in if LOGICAL_SIZE cfg \<le> a then (False, address, s)
               else (True, address, s\<lparr>cache := (cache s)[a := v]\<rparr>))
      else if WRITE_SIZE cfg = W2 \<and> LOG_ENTRY_GET_TYPE log = LOG_ENTRY_TYPE_WORD_01
      then (let a = unat (LOG_ENTRY_WORD_01_GET_ADDRESS log);
                v = LOG_ENTRY_WORD_01_GET_VALUE log
            in if LOGICAL_SIZE cfg \<le> a + 1 then (False, address, s)
               else (True, address, s\<lparr>cache := ((cache s)[a + 0 := v])[a + 1 := 0]\<rparr>))
      else (False, address, s))"

lemma load_cell_address:
  "load_cell cfg ops wanted i (address, log, s) = (r, a, s') \<Longrightarrow>
   address \<le> a \<and> (\<forall>a' log' s''. r = Some (a', log', s'') \<longrightarrow> address \<le> a')"
  by (auto simp: load_cell_def split: if_splits option.splits prod.splits)

lemma playback_multibyte_address:
  "playback_multibyte cfg ops log address s = (ok, a, s') \<Longrightarrow> address \<le> a"
  by (auto simp: playback_multibyte_def Let_def split: option.splits prod.splits if_splits
      dest!: load_cell_address)

lemma playback_entry_address:
  "playback_entry cfg ops log address s = (ok, a, s') \<Longrightarrow> address \<le> a"
  by (auto simp: playback_entry_def Let_def split: if_splits dest: playback_multibyte_address)

lemma playback_entry_progress:
  assumes "playback_entry cfg ops log (address + cell_size cfg) s = (ok, a, s')" "\<not> n \<le> address"
  shows "n - a < n - address"
proof -
  have "0 < cell_size cfg" by simp
  with playback_entry_address [OF assms(1)] assms(2) show ?thesis by linarith
qed

text \<open>The loop; \<open>False\<close> stands for \<open>status = WEAR_LEVELING_FAILED\<close>.\<close>

function playback_loop ::
  "wl_config \<Rightarrow> 'd backing_ops \<Rightarrow> uint8 list \<Rightarrow> nat \<Rightarrow> 'd wear_leveling \<Rightarrow> bool \<times> nat \<times> 'd wear_leveling" where
  "playback_loop cfg ops junk address s =
     (if BACKING_SIZE cfg \<le> address then (True, address, s)
      else case on_device (backing_store_read ops address) s of
             (None, s) \<Rightarrow> (False, address, s)
           | (Some val, s) \<Rightarrow>
               if list_all (\<lambda>b. b = 0) val then (True, address, s)
               else case playback_entry cfg ops (patch 0 val junk) (address + cell_size cfg) s of
                      (False, address, s) \<Rightarrow> (False, address, s)
                    | (True, address, s) \<Rightarrow> playback_loop cfg ops junk address s)"
  by pat_completeness auto
termination
  by (relation "measure (\<lambda>(cfg, ops, junk, address, s). BACKING_SIZE cfg - address)")
    (auto dest!: playback_entry_progress [OF sym])

declare playback_loop.simps [simp del]

definition wear_leveling_playback_log ::
  "wl_config \<Rightarrow> 'd backing_ops \<Rightarrow> uint8 list \<Rightarrow> 'd wear_leveling \<Rightarrow>
   wear_leveling_status \<times> 'd wear_leveling" where
  "wear_leveling_playback_log cfg ops junk s =
     (let (ok, address, s) = playback_loop cfg ops junk (log_start cfg) s;
          s = s\<lparr>write_address := address\<rparr>
      in if \<not> ok then wear_leveling_consolidate_force cfg ops s
         else wear_leveling_consolidate_if_needed cfg ops s)"

subsection \<open>The public functions\<close>

definition wear_leveling_init ::
  "wl_config \<Rightarrow> 'd backing_ops \<Rightarrow> uint8 list \<Rightarrow> 'd wear_leveling \<Rightarrow>
   wear_leveling_status \<times> 'd wear_leveling" where
  "wear_leveling_init cfg ops junk s =
     (let s = wear_leveling_clear_cache cfg s;
          (ok, s) = on_device (backing_store_init ops) s
      in if \<not> ok then (WEAR_LEVELING_FAILED, wear_leveling_clear_cache cfg s)
         else let (status, s) = wear_leveling_read_consolidated cfg ops junk s
              in if status = WEAR_LEVELING_FAILED then (status, wear_leveling_clear_cache cfg s)
                 else let (status, s) = wear_leveling_playback_log cfg ops junk s
                      in if status = WEAR_LEVELING_FAILED then (status, wear_leveling_clear_cache cfg s)
                         else (status, s))"

definition wear_leveling_erase ::
  "wl_config \<Rightarrow> 'd backing_ops \<Rightarrow> 'd wear_leveling \<Rightarrow> wear_leveling_status \<times> 'd wear_leveling" where
  "wear_leveling_erase cfg ops s =
     (let (lock_status, s) = wear_leveling_unlock ops s
      in if lock_status = STATUS_FAILURE then (WEAR_LEVELING_FAILED, snd (wear_leveling_lock ops s))
         else let (ret, s) = on_device (backing_store_erase ops) s;
                  s = wear_leveling_clear_cache cfg s;
                  (ret, s) =
                    (if lock_status = STATUS_SUCCESS
                     then let (l, s) = wear_leveling_lock ops s in (ret \<and> l \<noteq> STATUS_FAILURE, s)
                     else (ret, s))
              in (if ret then WEAR_LEVELING_SUCCESS else WEAR_LEVELING_FAILED, s))"

text \<open>
  \<open>address + length\<close> is a 32-bit sum, so the check is written with its wrap-around. The early return
  of the code is \<open>return true\<close>, which is the value of \<open>WEAR_LEVELING_SUCCESS\<close>.
\<close>

definition wear_leveling_write ::
  "wl_config \<Rightarrow> 'd backing_ops \<Rightarrow> nat \<Rightarrow> uint8 list \<Rightarrow> 'd wear_leveling \<Rightarrow>
   wear_leveling_status \<times> 'd wear_leveling" where
  "wear_leveling_write cfg ops address val s =
     (if LOGICAL_SIZE cfg < (address + length val) mod 2 ^ 32 then (WEAR_LEVELING_FAILED, s)
      else if val = window address (length val) (cache s) then (WEAR_LEVELING_SUCCESS, s)
      else let s = s\<lparr>cache := patch address val (cache s)\<rparr>;
               (lock_status, s) = wear_leveling_unlock ops s
           in if lock_status = STATUS_FAILURE
              then (WEAR_LEVELING_FAILED, snd (wear_leveling_lock ops s))
              else let (status, s) = wear_leveling_write_raw cfg ops address val s;
                       (status, s) =
                         (if status = WEAR_LEVELING_SUCCESS
                          then wear_leveling_consolidate_if_needed cfg ops s else (status, s))
                   in if lock_status = STATUS_SUCCESS
                      then let (l, s) = wear_leveling_lock ops s
                           in (if l = STATUS_FAILURE then WEAR_LEVELING_FAILED else status, s)
                      else (status, s))"

definition wear_leveling_read ::
  "wl_config \<Rightarrow> nat \<Rightarrow> nat \<Rightarrow> 'd wear_leveling \<Rightarrow> uint8 list option" where
  "wear_leveling_read cfg address len s =
     (if LOGICAL_SIZE cfg < (address + len) mod 2 ^ 32 then None
      else Some (window address len (cache s)))"

end
