(* ===== verification/Wear_Leveling_Log.thy ===== *)
theory Wear_Leveling_Log
  imports Wear_Leveling
begin

text \<open>
  Why the write log is durable. The log is read as a list of abstract entries; encoding an entry and
  playing it back are inverse, a write appends entries whose replay is the write, and so a power cycle
  (\<open>wear_leveling_init\<close> on the device as the last write left it) restores the cache.
\<close>

subsection \<open>Abstract log entries\<close>

datatype log_entry =
    Multibyte nat "uint8 list"
  | Optimized_64 nat uint8
  | Word_01 nat uint16

fun apply_entry :: "log_entry \<Rightarrow> uint8 list \<Rightarrow> uint8 list" where
  "apply_entry (Multibyte a v) c = patch a v c"
| "apply_entry (Optimized_64 a v) c = c[a := v]"
| "apply_entry (Word_01 a v) c = (c[a := (if v = 0 then 0 else 1)])[a + 1 := 0]"

text \<open>The 8-byte union an entry is built in, and the cells of it that reach the store.\<close>

fun entry_union :: "log_entry \<Rightarrow> uint8 list" where
  "entry_union (Multibyte a v) = patch 3 v (LOG_ENTRY_MAKE_MULTIBYTE (of_nat a) (of_nat (length v)))"
| "entry_union (Optimized_64 a v) = LOG_ENTRY_MAKE_OPTIMIZED_64 (of_nat a) v"
| "entry_union (Word_01 a v) = LOG_ENTRY_MAKE_WORD_01 (of_nat a) v"

fun entry_cells :: "write_size \<Rightarrow> log_entry \<Rightarrow> uint8 list list" where
  "entry_cells w (Multibyte a v) = multibyte_cells w (length v) (entry_union (Multibyte a v))"
| "entry_cells w e = [entry_cell W2 0 (entry_union e)]"

fun valid_entry :: "wl_config \<Rightarrow> log_entry \<Rightarrow> bool" where
  "valid_entry cfg (Multibyte a v) \<longleftrightarrow>
     1 \<le> length v \<and> length v \<le> LOG_ENTRY_MULTIBYTE_MAX_BYTES \<and> a + length v \<le> LOGICAL_SIZE cfg"
| "valid_entry cfg (Optimized_64 a v) \<longleftrightarrow> WRITE_SIZE cfg = W2 \<and> a < 64 \<and> a < LOGICAL_SIZE cfg"
| "valid_entry cfg (Word_01 a v) \<longleftrightarrow>
     WRITE_SIZE cfg = W2 \<and> even a \<and> a < 16384 \<and> a + 1 < LOGICAL_SIZE cfg \<and> (v = 0 \<or> v = 1)"

definition log_bytes :: "wl_config \<Rightarrow> log_entry list \<Rightarrow> uint8 list" where
  "log_bytes cfg es = concat (concat (map (entry_cells (WRITE_SIZE cfg)) es))"

text \<open>How \<open>wear_leveling_write_raw\<close> cuts a write into entries.\<close>

function split_entries :: "write_size \<Rightarrow> nat \<Rightarrow> uint8 list \<Rightarrow> log_entry list" where
  "split_entries w address p =
     (if p = [] then []
      else if w = W2 \<and> 2 \<le> length p \<and> address mod 2 = 0 \<and> address < 16384
              \<and> (le_uint16 p = 0 \<or> le_uint16 p = 1)
      then Word_01 address (le_uint16 p) # split_entries w (address + 2) (drop 2 p)
      else if w = W2 \<and> address < 64
      then Optimized_64 address (hd p) # split_entries w (address + 1) (drop 1 p)
      else let n = min (length p) LOG_ENTRY_MULTIBYTE_MAX_BYTES
           in Multibyte address (take n p) # split_entries w (address + n) (drop n p))"
  by pat_completeness auto
termination
  by (relation "measure (\<lambda>(w, address, p). length p)") (auto simp: LOG_ENTRY_MULTIBYTE_MAX_BYTES_def)

declare split_entries.simps [simp del]

text \<open>What the store holds besides the log: the consolidated data, if its checksum matches.\<close>

definition consolidated :: "wl_config \<Rightarrow> uint8 list \<Rightarrow> uint8 list" where
  "consolidated cfg m =
     (let c = take (LOGICAL_SIZE cfg) m
      in if le_value (window (LOGICAL_SIZE cfg) 8 m) = fnv_64a_buf c FNV1A_64_INIT then c
         else replicate (LOGICAL_SIZE cfg) 0)"

text \<open>
  \<open>m\<close> records \<open>c\<close>: it holds a log of valid entries up to \<open>wa\<close> and nothing behind it, and replaying
  the log over the consolidated data gives \<open>c\<close>.
\<close>

definition records :: "wl_config \<Rightarrow> uint8 list \<Rightarrow> nat \<Rightarrow> uint8 list \<Rightarrow> bool" where
  "records cfg m wa c \<longleftrightarrow>
     (\<exists>es. list_all (valid_entry cfg) es
        \<and> wa = log_start cfg + length (log_bytes cfg es) \<and> wa \<le> BACKING_SIZE cfg
        \<and> window (log_start cfg) (length (log_bytes cfg es)) m = log_bytes cfg es
        \<and> blank wa (BACKING_SIZE cfg - wa) m
        \<and> fold apply_entry es (consolidated cfg m) = c)"

subsection \<open>A write as a list of entries\<close>

lemma append_each_append:
  "append_each cfg ops (xs @ ys) s =
     (case append_each cfg ops xs s of
        (status, s') \<Rightarrow> if status \<noteq> WEAR_LEVELING_SUCCESS then (status, s') else append_each cfg ops ys s')"
  by (induction xs arbitrary: s) (auto simp: Let_def split: prod.splits)

lemma append_each_single:
  "append_each cfg ops [v] s = wear_leveling_append_raw cfg ops v s"
  by (auto simp: Let_def split: prod.splits)

lemma write_raw_append_each:
  "wear_leveling_write_raw cfg ops address p s =
   append_each cfg ops (concat (map (entry_cells (WRITE_SIZE cfg)) (split_entries (WRITE_SIZE cfg) address p))) s"
proof (induction cfg ops address p s rule: wear_leveling_write_raw.induct)
  case (1 cfg ops address p s)
  show ?case
    using 1
    by (auto simp: wear_leveling_write_raw.simps [of cfg ops address p s]
        split_entries.simps [of "WRITE_SIZE cfg" address p] Let_def append_each_append
        append_each_single wear_leveling_write_raw_multibyte_def split: prod.splits)
qed

lemma le_uint16_small:
  assumes v: "v = 0 \<or> v = 1" and eq: "le_uint16 (x # y # p) = v"
  shows "x = (if v = 0 then 0 else 1)" and "y = 0"
proof -
  have b: "bit v k = ((k < 8 \<and> bit x k) \<or> (8 \<le> k \<and> bit y (k - 8)))" if "k < 16" for k
    unfolding eq [symmetric] le_uint16_def using that by (auto simp: bit_simps dest: bit_imp_le_length)
  have v': "bit v k = (v \<noteq> 0 \<and> k = 0)" for k using v by (auto simp: bit_1_iff)
  show "x = (if v = 0 then 0 else 1)"
  proof (rule bit_word_eqI)
    fix k assume "k < LENGTH(8)"
    then show "bit x k = bit (if v = 0 then 0 else 1) k"
      using b [of k] v' [of k] by (auto simp: bit_1_iff)
  qed
  show "y = 0"
  proof (rule bit_word_eqI)
    fix k assume "k < LENGTH(8)"
    then show "bit y k = bit 0 k" using b [of "k + 8"] v' [of "k + 8"] by simp
  qed
qed

lemma list_update_patch: "a < length c \<Longrightarrow> c[a := v] = patch a [v] c"
  by (simp add: patch_def upd_conv_take_nth_drop)

lemma list_update_patch2: "a + 1 < length c \<Longrightarrow> (c[a := x])[a + 1 := y] = patch a [x, y] c"
  by (intro nth_equalityI) (auto simp: nth_patch nth_list_update nth_Cons' not_less le_Suc_eq)

lemma split_entries_apply:
  "address + length p \<le> length c \<Longrightarrow> fold apply_entry (split_entries w address p) c = patch address p c"
proof (induction w address p arbitrary: c rule: split_entries.induct)
  case (1 w address p)
  consider "p = []"
    | "p \<noteq> []" "w = W2 \<and> 2 \<le> length p \<and> address mod 2 = 0 \<and> address < 16384 \<and> (le_uint16 p = 0 \<or> le_uint16 p = 1)"
    | "p \<noteq> []" "\<not> (w = W2 \<and> 2 \<le> length p \<and> address mod 2 = 0 \<and> address < 16384 \<and> (le_uint16 p = 0 \<or> le_uint16 p = 1))"
      "w = W2 \<and> address < 64"
    | "p \<noteq> []" "\<not> (w = W2 \<and> 2 \<le> length p \<and> address mod 2 = 0 \<and> address < 16384 \<and> (le_uint16 p = 0 \<or> le_uint16 p = 1))"
      "\<not> (w = W2 \<and> address < 64)"
    by blast
  then show ?case
  proof cases
    case 1
    then show ?thesis using "1.prems" by (simp add: split_entries.simps)
  next
    case 2
    then obtain x y q where p: "p = x # y # q" by (cases p; cases "tl p") auto
    have v: "le_uint16 p = 0 \<or> le_uint16 p = 1" using 2(2) by blast
    note xy = le_uint16_small [OF v arg_cong [where f = le_uint16, OF p [symmetric]]]
    have "apply_entry (Word_01 address (le_uint16 p)) c = patch address [x, y] c"
      unfolding apply_entry.simps xy(1) [symmetric]
      using list_update_patch2 [of address c x y] "1.prems" p xy(2) by simp
    moreover have "fold apply_entry (split_entries w (address + 2) (drop 2 p)) (patch address [x, y] c)
        = patch (address + 2) (drop 2 p) (patch address [x, y] c)"
      using "1.prems" p by (intro "1.IH"(1) 2) auto
    ultimately show ?thesis
      using 2 p "1.prems" patch_append [of address "[x, y]" q c]
      by (subst split_entries.simps) (simp add: numeral_2_eq_2)
  next
    case 3
    then obtain x q where p: "p = x # q" by (cases p) auto
    have "fold apply_entry (split_entries w (address + 1) (drop 1 p)) (patch address [x] c)
        = patch (address + 1) (drop 1 p) (patch address [x] c)"
      using "1.prems" p by (intro "1.IH"(2) 3) auto
    moreover have "split_entries w address p = Optimized_64 address (hd p) # split_entries w (address + 1) (drop 1 p)"
      unfolding split_entries.simps [of w address p] if_not_P [OF 3(1)] if_not_P [OF 3(2)] if_P [OF 3(3)] ..
    ultimately show ?thesis
      using p "1.prems" patch_append [of address "[x]" q c] by (simp add: list_update_patch)
  next
    case 4
    let ?n = "min (length p) LOG_ENTRY_MULTIBYTE_MAX_BYTES"
    have "fold apply_entry (split_entries w (address + ?n) (drop ?n p)) (patch address (take ?n p) c)
        = patch (address + ?n) (drop ?n p) (patch address (take ?n p) c)"
      using "1.prems" by (intro "1.IH"(3) 4) auto
    moreover have "split_entries w address p
        = Multibyte address (take ?n p) # split_entries w (address + ?n) (drop ?n p)"
      unfolding split_entries.simps [of w address p] if_not_P [OF 4(1)] if_not_P [OF 4(2)] if_not_P [OF 4(3)]
        Let_def ..
    ultimately show ?thesis
      using "1.prems" patch_append [of address "take ?n p" "drop ?n p" c] by simp
  qed
qed

lemma split_entries_valid:
  "address + length p \<le> LOGICAL_SIZE cfg \<Longrightarrow>
   list_all (valid_entry cfg) (split_entries (WRITE_SIZE cfg) address p)"
proof (induction "WRITE_SIZE cfg" address p rule: split_entries.induct)
  case (1 address p)
  then show ?case
    by (subst split_entries.simps)
      (auto simp: Let_def even_iff_mod_2_eq_zero LOG_ENTRY_MULTIBYTE_MAX_BYTES_def Suc_le_eq neq_Nil_conv)
qed

subsection \<open>What the driver contract gives\<close>

lemma dvd_add_le: "(c :: nat) dvd a \<Longrightarrow> c dvd b \<Longrightarrow> a < b \<Longrightarrow> a + c \<le> b"
  by (metis add.commute dvd_diff_nat dvd_imp_le le_diff_conv2 less_imp_le_nat zero_less_diff)

lemma config_facts:
  assumes "valid_config cfg"
  shows "cell_size cfg dvd LOGICAL_SIZE cfg" "cell_size cfg dvd BACKING_SIZE cfg"
    "cell_size cfg dvd log_start cfg" "LOGICAL_SIZE cfg + 8 < BACKING_SIZE cfg"
    "LOGICAL_SIZE cfg \<le> 2 ^ 19" "log_start cfg < BACKING_SIZE cfg"
proof -
  show l: "cell_size cfg dvd LOGICAL_SIZE cfg" using assms by (auto simp: valid_config_def)
  moreover have "LOGICAL_SIZE cfg dvd BACKING_SIZE cfg" using assms by (auto simp: valid_config_def)
  ultimately show "cell_size cfg dvd BACKING_SIZE cfg" by (rule dvd_trans)
  show "cell_size cfg dvd log_start cfg" using l bytes_of_dvd_8 by (simp add: log_start_def)
qed (use assms in \<open>auto simp: valid_config_def log_start_def\<close>)

lemma on_device_eq: "on_device f s = (r, s') \<longleftrightarrow> (\<exists>d. f (device s) = (r, d) \<and> s' = s\<lparr>device := d\<rparr>)"
  by (auto simp: on_device_def Let_def split: prod.splits)

text \<open>The store right after a consolidation.\<close>

definition store_image :: "wl_config \<Rightarrow> uint8 list \<Rightarrow> uint8 list" where
  "store_image cfg c =
     patch (LOGICAL_SIZE cfg) (le_bytes 8 (fnv_64a_buf c FNV1A_64_INIT))
       (patch 0 c (replicate (BACKING_SIZE cfg) 0))"

context backing_store
begin

definition fresh :: "'d wear_leveling \<Rightarrow> bool" where
  "fresh s \<longleftrightarrow> ready (device s) \<and> contents (device s) = store_image cfg (cache s)
     \<and> write_address s = log_start cfg"

lemma unlock_keeps:
  assumes "wear_leveling_unlock ops s = (l, s')" "ready (device s)"
  shows "ready (device s') \<and> contents (device s') = contents (device s)
    \<and> cache s' = cache s \<and> write_address s' = write_address s"
  using assms unlock_ok
  by (auto simp: wear_leveling_unlock_def Let_def on_device_eq split: if_splits prod.splits)

lemma lock_keeps:
  assumes "wear_leveling_lock ops s = (l, s')" "ready (device s)"
  shows "ready (device s') \<and> contents (device s') = contents (device s)
    \<and> cache s' = cache s \<and> write_address s' = write_address s"
  using assms lock_ok
  by (auto simp: wear_leveling_lock_def Let_def on_device_eq split: if_splits prod.splits)

lemma checksum_write_ok:
  assumes cfg: "valid_config cfg" and d: "ready d" and raw: "length raw = 8"
    and b: "blank (LOGICAL_SIZE cfg) 8 (contents d)"
    and w: "checksum_write cfg ops raw d = (True, d')"
  shows "ready d' \<and> contents d' = patch (LOGICAL_SIZE cfg) raw (contents d)"
proof (cases "WRITE_SIZE cfg = W8")
  case True
  then show ?thesis
    using write_ok [OF d, of raw "LOGICAL_SIZE cfg" d'] w raw b config_facts [OF cfg]
    by (simp add: checksum_write_def)
next
  case False
  then show ?thesis
    using write_bulk_ok [OF d, of raw "LOGICAL_SIZE cfg" d'] w raw b config_facts [OF cfg]
    by (simp add: checksum_write_def bytes_of_dvd_8 split: write_size.splits)
qed

lemma write_consolidated_ok:
  assumes cfg: "valid_config cfg" and d: "ready (device s)" and c: "length (cache s) = LOGICAL_SIZE cfg"
    and z: "contents (device s) = replicate (BACKING_SIZE cfg) 0"
    and w: "wear_leveling_write_consolidated cfg ops s = (st, s')" and st: "st \<noteq> WEAR_LEVELING_FAILED"
  shows "st = WEAR_LEVELING_CONSOLIDATED \<and> ready (device s')
    \<and> contents (device s') = store_image cfg (cache s) \<and> cache s' = cache s"
proof -
  obtain l s1 where u: "wear_leveling_unlock ops s = (l, s1)" by fastforce
  note s1 = unlock_keeps [OF u d]
  from w st obtain d2 d3 where
      d2: "backing_store_write_bulk ops 0 (cache s) (device s1) = (True, d2)"
    and d3: "checksum_write cfg ops (le_bytes 8 (fnv_64a_buf (cache s) FNV1A_64_INIT)) d2 = (True, d3)"
    and st': "st = WEAR_LEVELING_CONSOLIDATED"
    and s': "s' = (if l = STATUS_SUCCESS then snd (wear_leveling_lock ops (s1\<lparr>device := d3\<rparr>)) else s1\<lparr>device := d3\<rparr>)"
    using s1 by (auto simp: wear_leveling_write_consolidated_def u Let_def on_device_eq on_device_def
        split: prod.splits if_splits)
  have len: "length (cache s) \<le> BACKING_SIZE cfg" using c config_facts [OF cfg] by simp
  have r2: "ready d2 \<and> contents d2 = patch 0 (cache s) (replicate (BACKING_SIZE cfg) 0)"
    using write_bulk_ok [OF _ _ _ _ _ d2] s1 z c config_facts [OF cfg] by (simp add: blank_def)
  have "blank (LOGICAL_SIZE cfg) 8 (contents d2)"
    using r2 c config_facts [OF cfg] by (simp add: blank_def nth_patch)
  then have r3: "ready d3 \<and> contents d3 = store_image cfg (cache s)"
    using checksum_write_ok [OF cfg _ _ _ d3] r2 by (simp add: store_image_def)
  have "ready (device s') \<and> contents (device s') = contents d3 \<and> cache s' = cache s1"
    using r3 s' lock_keeps [OF prod.collapse [symmetric], of "s1\<lparr>device := d3\<rparr>"] by auto
  with r3 s1 st' show ?thesis by simp
qed

lemma consolidate_force_ok:
  assumes cfg: "valid_config cfg" and d: "ready (device s)" and c: "length (cache s) = LOGICAL_SIZE cfg"
    and w: "wear_leveling_consolidate_force cfg ops s = (st, s')" and st: "st \<noteq> WEAR_LEVELING_FAILED"
  shows "st = WEAR_LEVELING_CONSOLIDATED \<and> fresh s' \<and> cache s' = cache s"
proof -
  from w st obtain d1 s2 where d1: "backing_store_erase ops (device s) = (True, d1)"
    and s2: "wear_leveling_write_consolidated cfg ops (s\<lparr>device := d1\<rparr>) = (st, s2)"
    and s': "s' = s2\<lparr>write_address := log_start cfg\<rparr>"
    by (auto simp: wear_leveling_consolidate_force_def Let_def on_device_eq on_device_def
        split: prod.splits if_splits)
  have "ready d1 \<and> contents d1 = replicate (BACKING_SIZE cfg) 0" by (rule erase_ok [OF d d1])
  then have "st = WEAR_LEVELING_CONSOLIDATED \<and> ready (device s2)
      \<and> contents (device s2) = store_image cfg (cache s) \<and> cache s2 = cache s"
    using write_consolidated_ok [OF cfg _ _ _ s2 st] c by simp
  then show ?thesis by (simp add: s' fresh_def)
qed

definition appendable :: "'d wear_leveling \<Rightarrow> bool" where
  "appendable s \<longleftrightarrow> ready (device s) \<and> length (cache s) = LOGICAL_SIZE cfg
     \<and> cell_size cfg dvd write_address s \<and> write_address s < BACKING_SIZE cfg
     \<and> blank (write_address s) (BACKING_SIZE cfg - write_address s) (contents (device s))"

lemma append_raw_ok:
  assumes cfg: "valid_config cfg" and s: "appendable s" and v: "length v = cell_size cfg"
    and w: "wear_leveling_append_raw cfg ops v s = (st, s')" and st: "st \<noteq> WEAR_LEVELING_FAILED"
  shows "cache s' = cache s \<and>
    (st = WEAR_LEVELING_SUCCESS \<and> appendable s' \<and> write_address s' = write_address s + length v
       \<and> contents (device s') = patch (write_address s) v (contents (device s))
     \<or> st = WEAR_LEVELING_CONSOLIDATED \<and> fresh s')"
proof -
  let ?wa = "write_address s" and ?m = "contents (device s)"
  from w st obtain d1 where d1: "backing_store_write ops ?wa v (device s) = (True, d1)"
    and n: "wear_leveling_consolidate_if_needed cfg ops
              (s\<lparr>device := d1, write_address := ?wa + cell_size cfg\<rparr>) = (st, s')"
    by (auto simp: wear_leveling_append_raw_def Let_def on_device_eq on_device_def split: prod.splits if_splits)
  have fits: "?wa + cell_size cfg \<le> BACKING_SIZE cfg"
    using s config_facts [OF cfg] by (intro dvd_add_le) (auto simp: appendable_def)
  have r1: "ready d1 \<and> contents d1 = patch ?wa v ?m"
    using s v fits by (intro write_ok [OF _ _ _ _ _ d1]) (auto simp: appendable_def blank_def)
  have n': "BACKING_SIZE cfg \<le> ?wa + cell_size cfg \<Longrightarrow> wear_leveling_consolidate_force cfg ops
      (s\<lparr>device := d1, write_address := ?wa + cell_size cfg\<rparr>) = (st, s')"
    using n by (simp add: wear_leveling_consolidate_if_needed_def)
  show ?thesis
  proof (cases "BACKING_SIZE cfg \<le> ?wa + cell_size cfg")
    case True
    then show ?thesis
      using consolidate_force_ok [OF cfg _ _ n' [OF True] st] r1 s by (simp add: appendable_def)
  next
    case False
    have "length ?m = BACKING_SIZE cfg" using s length_contents by (simp add: appendable_def)
    then have "blank (?wa + cell_size cfg) (BACKING_SIZE cfg - (?wa + cell_size cfg)) (patch ?wa v ?m)"
      using s v fits by (auto simp: blank_def appendable_def nth_patch add.assoc)
    with False n r1 s v show ?thesis
      by (auto simp: wear_leveling_consolidate_if_needed_def appendable_def)
  qed
qed

lemma append_each_ok:
  assumes cfg: "valid_config cfg" and s: "appendable s" and vs: "\<forall>v\<in>set vs. length v = cell_size cfg"
    and w: "append_each cfg ops vs s = (st, s')" and st: "st \<noteq> WEAR_LEVELING_FAILED"
  shows "cache s' = cache s \<and>
    (st = WEAR_LEVELING_SUCCESS \<and> appendable s' \<and> write_address s' = write_address s + length (concat vs)
       \<and> contents (device s') = patch (write_address s) (concat vs) (contents (device s))
     \<or> st = WEAR_LEVELING_CONSOLIDATED \<and> fresh s')"
  using s vs w
proof (induction vs arbitrary: s)
  case Nil
  then show ?case using length_contents by (auto simp: appendable_def)
next
  case (Cons v vs)
  obtain st1 s1 where a: "wear_leveling_append_raw cfg ops v s = (st1, s1)" by fastforce
  have nf: "st1 \<noteq> WEAR_LEVELING_FAILED" using Cons.prems a st by auto
  note r = append_raw_ok [OF cfg Cons.prems(1) _ a nf]
  show ?case
  proof (cases "st1 = WEAR_LEVELING_SUCCESS")
    case True
    with r Cons.prems have s1: "appendable s1" "write_address s1 = write_address s + length v"
      "contents (device s1) = patch (write_address s) v (contents (device s))" "cache s1 = cache s" by auto
    have n: "append_each cfg ops vs s1 = (st, s')" using Cons.prems(3) a True by simp
    have "write_address s + length v < BACKING_SIZE cfg" using s1 by (simp add: appendable_def)
    moreover have "length (contents (device s)) = BACKING_SIZE cfg"
      using Cons.prems(1) length_contents by (simp add: appendable_def)
    moreover have "write_address s' = write_address s1 + length (concat vs) \<Longrightarrow> appendable s' \<Longrightarrow>
        write_address s + length v + length (concat vs) \<le> BACKING_SIZE cfg"
      using s1 by (simp add: appendable_def)
    ultimately show ?thesis
      using Cons.IH [OF s1(1) _ n] Cons.prems(2) s1 patch_append [of "write_address s" v "concat vs" "contents (device s)"]
      by (auto simp: add.assoc)
  next
    case False
    with r Cons.prems a show ?thesis by auto
  qed
qed

end

subsection \<open>A write is recorded\<close>

lemma length_entry_union: "valid_entry cfg e \<Longrightarrow> length (entry_union e) = 8"
  by (cases e) (auto simp: LOG_ENTRY_MULTIBYTE_MAX_BYTES_def LOG_ENTRY_MAKE_MULTIBYTE_def
      LOG_ENTRY_MAKE_OPTIMIZED_64_def LOG_ENTRY_MAKE_WORD_01_def)

lemma length_entry_cells:
  assumes "valid_entry cfg e" "v \<in> set (entry_cells (WRITE_SIZE cfg) e)"
  shows "length v = cell_size cfg"
  using assms length_entry_union [OF assms(1)]
  by (cases e) (auto simp: multibyte_cells_def entry_cell_def split: write_size.splits if_splits)

lemma log_bytes_append [simp]: "log_bytes cfg (xs @ ys) = log_bytes cfg xs @ log_bytes cfg ys"
  by (simp add: log_bytes_def)

lemma log_bytes_Nil [simp]: "log_bytes cfg [] = []"
  by (simp add: log_bytes_def)

lemma log_bytes_Cons: "log_bytes cfg (e # es) = concat (entry_cells (WRITE_SIZE cfg) e) @ log_bytes cfg es"
  by (simp add: log_bytes_def)

lemma consolidated_store_image:
  assumes "valid_config cfg" "length c = LOGICAL_SIZE cfg"
  shows "consolidated cfg (store_image cfg c) = c"
proof -
  have "take (LOGICAL_SIZE cfg) (store_image cfg c) = c"
    unfolding store_image_def using assms config_facts [OF assms(1)]
    by (subst take_patch_before) (auto simp: patch_def)
  moreover have "window (LOGICAL_SIZE cfg) 8 (store_image cfg c) = le_bytes 8 (fnv_64a_buf c FNV1A_64_INIT)"
    unfolding store_image_def using assms config_facts [OF assms(1)] by (intro window_patch_same) auto
  ultimately show ?thesis by (simp add: consolidated_def le_value_le_bytes)
qed

lemma consolidated_patch_log:
  assumes "valid_config cfg" "log_start cfg \<le> a" "a + length v \<le> length m"
  shows "consolidated cfg (patch a v m) = consolidated cfg m"
  using assms config_facts [OF assms(1)]
  by (simp add: consolidated_def log_start_def take_patch_before window_patch_disjoint)

lemma records_fresh:
  assumes "valid_config cfg" "length c = LOGICAL_SIZE cfg"
  shows "records cfg (store_image cfg c) (log_start cfg) c"
proof -
  have "blank (log_start cfg) (BACKING_SIZE cfg - log_start cfg) (store_image cfg c)"
    using assms config_facts [OF assms(1)]
    by (auto simp: blank_def store_image_def log_start_def nth_patch)
  then show ?thesis
    using config_facts [OF assms(1)] consolidated_store_image [OF assms]
    by (auto simp: records_def window_def intro!: exI [of _ "[]"])
qed

lemma records_append:
  assumes cfg: "valid_config cfg" and m: "length m = BACKING_SIZE cfg" and r: "records cfg m wa c"
    and es: "list_all (valid_entry cfg) es" and fit: "wa + length (log_bytes cfg es) \<le> BACKING_SIZE cfg"
  shows "records cfg (patch wa (log_bytes cfg es) m) (wa + length (log_bytes cfg es)) (fold apply_entry es c)"
proof -
  from r obtain es0 where es0: "list_all (valid_entry cfg) es0"
    and wa: "wa = log_start cfg + length (log_bytes cfg es0)"
    and w: "window (log_start cfg) (length (log_bytes cfg es0)) m = log_bytes cfg es0"
    and b: "blank wa (BACKING_SIZE cfg - wa) m" and c: "fold apply_entry es0 (consolidated cfg m) = c"
    by (auto simp: records_def)
  let ?m = "patch wa (log_bytes cfg es) m"
  have "window (log_start cfg) (length (log_bytes cfg (es0 @ es))) ?m = log_bytes cfg (es0 @ es)"
  proof (rule nth_equalityI)
    fix i assume "i < length (window (log_start cfg) (length (log_bytes cfg (es0 @ es))) ?m)"
    then show "window (log_start cfg) (length (log_bytes cfg (es0 @ es))) ?m ! i = log_bytes cfg (es0 @ es) ! i"
      using m wa fit nth_window [of "log_start cfg" "length (log_bytes cfg es0)" m i, unfolded w]
      by (auto simp: nth_window nth_patch nth_append)
  qed (use m wa fit in simp)
  moreover have "blank (wa + length (log_bytes cfg es)) (BACKING_SIZE cfg - (wa + length (log_bytes cfg es))) ?m"
    using b m fit by (auto simp: blank_def nth_patch add.assoc)
  ultimately show ?thesis
    using es es0 c wa fit consolidated_patch_log [OF cfg, of wa "log_bytes cfg es" m] m
    by (auto simp: records_def add.assoc intro!: exI [of _ "es0 @ es"])
qed

context backing_store
begin

text \<open>The module's invariant: the store records the cache and has room for another entry.\<close>

definition wl_inv :: "'d wear_leveling \<Rightarrow> bool" where
  "wl_inv s \<longleftrightarrow> appendable s \<and> records cfg (contents (device s)) (write_address s) (cache s)"

lemma fresh_inv:
  assumes "valid_config cfg" "fresh s" "length (cache s) = LOGICAL_SIZE cfg"
  shows "wl_inv s"
proof -
  have r: "records cfg (contents (device s)) (write_address s) (cache s)"
    using records_fresh [OF assms(1,3)] assms(2) by (simp add: fresh_def)
  with assms config_facts [OF assms(1)] show ?thesis
    by (auto simp: wl_inv_def appendable_def fresh_def records_def)
qed

lemma wl_inv_cong:
  "wl_inv s \<Longrightarrow> ready (device s') \<Longrightarrow> contents (device s') = contents (device s) \<Longrightarrow>
   cache s' = cache s \<Longrightarrow> write_address s' = write_address s \<Longrightarrow> wl_inv s'"
  by (simp add: wl_inv_def appendable_def)

lemma write_raw_ok:
  assumes cfg: "valid_config cfg" and s: "wl_inv s" and fit: "a + length v \<le> LOGICAL_SIZE cfg"
    and w: "wear_leveling_write_raw cfg ops a v (s\<lparr>cache := patch a v (cache s)\<rparr>) = (st, s')"
    and st: "st \<noteq> WEAR_LEVELING_FAILED"
  shows "wl_inv s' \<and> cache s' = patch a v (cache s)"
proof -
  let ?es = "split_entries (WRITE_SIZE cfg) a v" and ?s = "s\<lparr>cache := patch a v (cache s)\<rparr>"
  let ?cells = "concat (map (entry_cells (WRITE_SIZE cfg)) ?es)"
  have len: "length (cache s) = LOGICAL_SIZE cfg" using s by (simp add: wl_inv_def appendable_def)
  have val: "list_all (valid_entry cfg) ?es" using fit by (rule split_entries_valid)
  have cells: "\<forall>v\<in>set ?cells. length v = cell_size cfg"
    using val length_entry_cells by (fastforce simp: list_all_iff)
  have app: "appendable ?s" using s fit len by (simp add: wl_inv_def appendable_def)
  have r: "cache s' = cache ?s \<and>
    (st = WEAR_LEVELING_SUCCESS \<and> appendable s' \<and> write_address s' = write_address ?s + length (concat ?cells)
       \<and> contents (device s') = patch (write_address ?s) (concat ?cells) (contents (device ?s))
     \<or> st = WEAR_LEVELING_CONSOLIDATED \<and> fresh s')"
    by (rule append_each_ok [OF cfg app cells _ st]) (use w in \<open>simp add: write_raw_append_each\<close>)
  then show ?thesis
  proof (elim conjE disjE)
    assume "fresh s'" "cache s' = cache ?s"
    then show ?thesis using fresh_inv [OF cfg] fit len by simp
  next
    assume c: "cache s' = cache ?s" and a': "appendable s'"
      and wa: "write_address s' = write_address ?s + length (concat ?cells)"
      and m: "contents (device s') = patch (write_address ?s) (concat ?cells) (contents (device ?s))"
    have "records cfg (contents (device s')) (write_address s') (fold apply_entry ?es (cache s))"
      using records_append [OF cfg _ _ val, of "contents (device s)" "write_address s" "cache s"] s a' wa m
        length_contents by (auto simp: wl_inv_def appendable_def log_bytes_def)
    then show ?thesis
      using a' c split_entries_apply [of a v "cache s" "WRITE_SIZE cfg"] fit len by (simp add: wl_inv_def)
  qed
qed

theorem write_inv:
  assumes cfg: "valid_config cfg" and s: "wl_inv s" and fit: "a + length v \<le> LOGICAL_SIZE cfg"
    and w: "wear_leveling_write cfg ops a v s = (st, s')" and st: "st \<noteq> WEAR_LEVELING_FAILED"
  shows "wl_inv s' \<and> cache s' = patch a v (cache s)"
proof (cases "v = window a (length v) (cache s)")
  case True
  have "length (cache s) = LOGICAL_SIZE cfg" using s by (simp add: wl_inv_def appendable_def)
  then have "patch a v (cache s) = cache s" using patch_window_same [of a "length v" "cache s"] True fit by simp
  moreover have "s' = s" using w True st by (auto simp: wear_leveling_write_def split: if_splits)
  ultimately show ?thesis using s by simp
next
  case False
  let ?s = "s\<lparr>cache := patch a v (cache s)\<rparr>"
  obtain l s1 where u: "wear_leveling_unlock ops ?s = (l, s1)" by fastforce
  have rd: "ready (device ?s)" using s by (simp add: wl_inv_def appendable_def)
  note k = unlock_keeps [OF u rd]
  define s0 where "s0 = s1\<lparr>cache := cache s\<rparr>"
  have s0: "wl_inv s0" using k s by (auto simp: s0_def intro: wl_inv_cong [OF s])
  have s1: "s1 = s0\<lparr>cache := patch a v (cache s0)\<rparr>" using k by (simp add: s0_def)
  obtain st2 s2 where w2: "wear_leveling_write_raw cfg ops a v s1 = (st2, s2)" by fastforce
  obtain st3 s3 where w3: "(if st2 = WEAR_LEVELING_SUCCESS then wear_leveling_consolidate_if_needed cfg ops s2
      else (st2, s2)) = (st3, s3)" by fastforce
  have bound: "a + length v < 2 ^ 32" using fit config_facts(5) [OF cfg] by simp
  have eqn: "wear_leveling_write cfg ops a v s =
      (if l = STATUS_FAILURE then (WEAR_LEVELING_FAILED, snd (wear_leveling_lock ops s1))
       else if l = STATUS_SUCCESS then let (l, s) = wear_leveling_lock ops s3
         in (if l = STATUS_FAILURE then WEAR_LEVELING_FAILED else st3, s) else (st3, s3))"
    using False fit bound by (simp add: wear_leveling_write_def u w2 w3)
  have res: "(st, s') = (if l = STATUS_SUCCESS then let (l, s) = wear_leveling_lock ops s3
      in (if l = STATUS_FAILURE then WEAR_LEVELING_FAILED else st3, s) else (st3, s3)) \<and> st3 \<noteq> WEAR_LEVELING_FAILED"
    using w [symmetric] st unfolding eqn
    by (cases "wear_leveling_lock ops s3") (simp split: if_split_asm)
  have "st2 \<noteq> WEAR_LEVELING_FAILED" using w3 res by auto
  then have i2: "wl_inv s2 \<and> cache s2 = patch a v (cache s)"
    using write_raw_ok [OF cfg s0 fit w2 [unfolded s1]] by (simp add: s0_def)
  then have "s3 = s2" using w3
    by (auto simp: wear_leveling_consolidate_if_needed_def wl_inv_def appendable_def split: if_splits)
  then show ?thesis
    using res i2 lock_keeps [of s2] wl_inv_cong [of s2]
    by (auto simp: Let_def wl_inv_def appendable_def split: if_splits prod.splits)
qed

end

end
