(* ===== verification/Wear_Leveling_Replay.thy ===== *)
theory Wear_Leveling_Replay
  imports Wear_Leveling_Log
begin

text \<open>
  Playing the write log back: every valid entry is decoded to what was encoded, so that
  \<open>wear_leveling_init\<close> on a store that records a cache restores exactly this cache, over any
  reliable driver and whatever the uninitialised bytes of the union are.
\<close>

subsection \<open>Partially loaded entries\<close>

text \<open>The first \<open>k\<close> bytes of the union have been loaded, the rest is indeterminate.\<close>

definition agrees :: "nat \<Rightarrow> uint8 list \<Rightarrow> uint8 list \<Rightarrow> bool" where
  "agrees k log e \<longleftrightarrow> length e = 8 \<and> 8 \<le> length log \<and> k \<le> 8 \<and> take k log = take k e"

lemma agrees_nth: "agrees k log e \<Longrightarrow> i < k \<Longrightarrow> log ! i = e ! i"
  by (metis agrees_def nth_take)

lemma agrees_extend:
  assumes "agrees k log e" "k + c \<le> 8"
  shows "agrees (k + c) (patch k (window k c e) log) e"
proof -
  have "take (k + c) (patch k (window k c e) log) = take k log @ window k c e"
    using assms by (simp add: patch_def agrees_def)
  then show ?thesis using assms by (simp add: agrees_def window_def take_add)
qed

lemma agrees_start: "length e = 8 \<Longrightarrow> 8 \<le> length junk \<Longrightarrow> k \<le> 8 \<Longrightarrow> agrees k (patch 0 (take k e) junk) e"
  by (simp add: agrees_def patch_def)

lemma agrees_window: "agrees k log e \<Longrightarrow> a + n \<le> k \<Longrightarrow> window a n log = window a n e"
  using agrees_nth [of k log e] by (intro nth_equalityI) (auto simp: agrees_def nth_window)

lemma agrees_type: "agrees k log e \<Longrightarrow> 1 \<le> k \<Longrightarrow> LOG_ENTRY_GET_TYPE log = LOG_ENTRY_GET_TYPE e"
  by (simp add: LOG_ENTRY_GET_TYPE_def agrees_nth)

lemma agrees_multibyte:
  assumes "agrees k log e" "3 \<le> k"
  shows "LOG_ENTRY_MULTIBYTE_GET_ADDRESS log = LOG_ENTRY_MULTIBYTE_GET_ADDRESS e"
    "LOG_ENTRY_MULTIBYTE_GET_LENGTH log = LOG_ENTRY_MULTIBYTE_GET_LENGTH e"
  using agrees_nth [OF assms(1), of 0] agrees_nth [OF assms(1), of 1] agrees_nth [OF assms(1), of 2] assms(2)
  by (simp_all add: log_entry_defs)

lemma agrees_pair:
  assumes "agrees k log e" "2 \<le> k"
  shows "LOG_ENTRY_OPTIMIZED_64_GET_ADDRESS log = LOG_ENTRY_OPTIMIZED_64_GET_ADDRESS e"
    "LOG_ENTRY_OPTIMIZED_64_GET_VALUE log = LOG_ENTRY_OPTIMIZED_64_GET_VALUE e"
    "LOG_ENTRY_WORD_01_GET_ADDRESS log = LOG_ENTRY_WORD_01_GET_ADDRESS e"
    "LOG_ENTRY_WORD_01_GET_VALUE log = LOG_ENTRY_WORD_01_GET_VALUE e"
  using agrees_nth [OF assms(1), of 0] agrees_nth [OF assms(1), of 1] assms(2)
  by (simp_all add: log_entry_defs)

subsection \<open>Decoding what was encoded\<close>

lemma entry_union_multibyte:
  assumes "valid_config cfg" "valid_entry cfg (Multibyte a v)"
  defines "e \<equiv> entry_union (Multibyte a v)"
  shows "LOG_ENTRY_GET_TYPE e = LOG_ENTRY_TYPE_MULTIBYTE"
    "unat (LOG_ENTRY_MULTIBYTE_GET_ADDRESS e) = a" "unat (LOG_ENTRY_MULTIBYTE_GET_LENGTH e) = length v"
    "window 3 (length v) e = v"
proof -
  let ?m = "LOG_ENTRY_MAKE_MULTIBYTE (of_nat a) (of_nat (length v))"
  have a: "a < 2 ^ 19" using assms(2) config_facts(5) [OF assms(1)] by simp
  have len: "length v \<le> 5" "1 \<le> length v" using assms(2) by (auto simp: LOG_ENTRY_MULTIBYTE_MAX_BYTES_def)
  have e: "e ! 0 = ?m ! 0" "e ! 1 = ?m ! 1" "e ! 2 = ?m ! 2"
    using len by (simp_all add: e_def nth_patch LOG_ENTRY_MAKE_MULTIBYTE_def)
  have h: "e ! 0 = hd ?m" unfolding e(1) by (simp add: LOG_ENTRY_MAKE_MULTIBYTE_def)
  have ua: "unat (of_nat a :: uint32) = a" using a by (intro unat_of_nat_small) simp
  have ul: "unat (of_nat (length v) :: uint8) = length v" using len by (intro unat_of_nat_small) simp
  show "LOG_ENTRY_GET_TYPE e = LOG_ENTRY_TYPE_MULTIBYTE"
    unfolding LOG_ENTRY_GET_TYPE_def h
    using get_type_multibyte [of "of_nat a" "of_nat (length v)" "[]", unfolded LOG_ENTRY_GET_TYPE_def nth_Cons_0] .
  show "unat (LOG_ENTRY_MULTIBYTE_GET_ADDRESS e) = a"
    using multibyte_address_roundtrip [of "of_nat a" "of_nat (length v)"] ua a e
    by (simp add: LOG_ENTRY_MULTIBYTE_GET_ADDRESS_def)
  show "unat (LOG_ENTRY_MULTIBYTE_GET_LENGTH e) = length v"
    using multibyte_length_roundtrip [of "of_nat (length v)" "of_nat a"] ul len e
    by (simp add: LOG_ENTRY_MULTIBYTE_GET_LENGTH_def)
  show "window 3 (length v) e = v"
    unfolding e_def entry_union.simps using len
    by (intro window_patch_same) (auto simp: LOG_ENTRY_MAKE_MULTIBYTE_def)
qed

lemma entry_union_optimized_64:
  fixes v :: uint8
  assumes "a < 64"
  defines "e \<equiv> entry_union (Optimized_64 a v)"
  shows "LOG_ENTRY_GET_TYPE e = LOG_ENTRY_TYPE_OPTIMIZED_64"
    "unat (LOG_ENTRY_OPTIMIZED_64_GET_ADDRESS e) = a" "LOG_ENTRY_OPTIMIZED_64_GET_VALUE e = v"
proof -
  have u: "unat (of_nat a :: uint32) = a" using assms(1) by (intro unat_of_nat_small) simp
  show "LOG_ENTRY_GET_TYPE e = LOG_ENTRY_TYPE_OPTIMIZED_64"
    using get_type_optimized_64 [of "of_nat a" v "tl e"] by (simp add: e_def LOG_ENTRY_MAKE_OPTIMIZED_64_def)
  show "unat (LOG_ENTRY_OPTIMIZED_64_GET_ADDRESS e) = a"
    using optimized_64_address_roundtrip [of "of_nat a" v] u assms(1) by (simp add: e_def)
  show "LOG_ENTRY_OPTIMIZED_64_GET_VALUE e = v" by (simp add: e_def optimized_64_value_roundtrip)
qed

lemma entry_union_word_01:
  fixes v :: uint16
  assumes "a < 16384" "even a"
  defines "e \<equiv> entry_union (Word_01 a v)"
  shows "LOG_ENTRY_GET_TYPE e = LOG_ENTRY_TYPE_WORD_01"
    "unat (LOG_ENTRY_WORD_01_GET_ADDRESS e) = a" "LOG_ENTRY_WORD_01_GET_VALUE e = (if v = 0 then 0 else 1)"
proof -
  have u: "unat (of_nat a :: uint32) = a" using assms(1) by (intro unat_of_nat_small) simp
  show "LOG_ENTRY_GET_TYPE e = LOG_ENTRY_TYPE_WORD_01"
    using get_type_word_01 [of "of_nat a" v "tl e"] by (simp add: e_def LOG_ENTRY_MAKE_WORD_01_def)
  show "unat (LOG_ENTRY_WORD_01_GET_ADDRESS e) = a"
    using word_01_address_roundtrip [of "of_nat a" v] u assms by (simp add: e_def)
  show "LOG_ENTRY_WORD_01_GET_VALUE e = (if v = 0 then 0 else 1)" by (simp add: e_def word_01_value_roundtrip)
qed

text \<open>An entry never starts with a zero byte, which would end the playback.\<close>

lemma entry_union_nonzero:
  assumes "valid_config cfg" "valid_entry cfg e"
  shows "entry_union e ! 0 \<noteq> 0"
proof (cases e)
  case (Multibyte a v)
  then have "LOG_ENTRY_MULTIBYTE_GET_LENGTH (entry_union e) \<noteq> 0"
    using entry_union_multibyte(3) [OF assms(1), of a v] assms(2) by auto
  then show ?thesis by (auto simp: LOG_ENTRY_MULTIBYTE_GET_LENGTH_def)
next
  case (Optimized_64 a v)
  then have "LOG_ENTRY_GET_TYPE (entry_union e) \<noteq> 0"
    using entry_union_optimized_64(1) [of a v] assms(2) by (simp add: log_entry_types)
  then show ?thesis by (auto simp: LOG_ENTRY_GET_TYPE_def)
next
  case (Word_01 a v)
  then have "LOG_ENTRY_GET_TYPE (entry_union e) \<noteq> 0"
    using entry_union_word_01(1) [of a v] assms(2) by (simp add: log_entry_types)
  then show ?thesis by (auto simp: LOG_ENTRY_GET_TYPE_def)
qed

text \<open>How many bytes of the union a multibyte entry occupies in the store.\<close>

definition multibyte_size :: "write_size \<Rightarrow> nat \<Rightarrow> nat" where
  "multibyte_size w l =
     (case w of W2 \<Rightarrow> 4 + (if 1 < l then 2 else 0) + (if 3 < l then 2 else 0)
      | W4 \<Rightarrow> 4 + (if 1 < l then 4 else 0) | W8 \<Rightarrow> 8)"

lemma concat_multibyte_cells:
  assumes "length e = 8"
  shows "concat (multibyte_cells w l e) = take (multibyte_size w l) e"
proof -
  from assms obtain a b c d a' b' c' d' where "e = [a, b, c, d, a', b', c', d']"
    by (auto simp: length_Suc_conv eval_nat_numeral)
  then show ?thesis
    by (cases w) (auto simp: multibyte_cells_def multibyte_size_def entry_cell_def window_def)
qed

definition entry_size :: "write_size \<Rightarrow> log_entry \<Rightarrow> nat" where
  "entry_size w e = (case e of Multibyte a v \<Rightarrow> multibyte_size w (length v) | _ \<Rightarrow> 2)"

lemma concat_entry_cells:
  assumes "valid_entry cfg e"
  shows "concat (entry_cells (WRITE_SIZE cfg) e) = take (entry_size (WRITE_SIZE cfg) e) (entry_union e)"
  using length_entry_union [OF assms] concat_multibyte_cells [OF length_entry_union [OF assms]]
  by (cases e) (auto simp: entry_size_def entry_cell_def window_def)

lemma entry_size_bounds:
  assumes "valid_entry cfg e"
  shows "cell_size cfg \<le> entry_size (WRITE_SIZE cfg) e" "entry_size (WRITE_SIZE cfg) e \<le> 8"
    "cell_size cfg dvd entry_size (WRITE_SIZE cfg) e"
  using assms by (cases e; cases "WRITE_SIZE cfg"; auto simp: entry_size_def multibyte_size_def)+

lemma log_bytes_dvd: "list_all (valid_entry cfg) es \<Longrightarrow> cell_size cfg dvd length (log_bytes cfg es)"
proof (induction es)
  case (Cons e es)
  then have "length (concat (entry_cells (WRITE_SIZE cfg) e)) = entry_size (WRITE_SIZE cfg) e"
    using entry_size_bounds(2) [of cfg e] length_entry_union [of cfg e]
    by (simp add: concat_entry_cells)
  then show ?case using Cons entry_size_bounds(3) [of cfg e] by (simp add: log_bytes_Cons)
qed simp

lemma length_fold_apply:
  "list_all (valid_entry cfg) es \<Longrightarrow> length c = LOGICAL_SIZE cfg \<Longrightarrow> length (fold apply_entry es c) = LOGICAL_SIZE cfg"
proof (induction es arbitrary: c)
  case (Cons e es)
  then have "length (apply_entry e c) = LOGICAL_SIZE cfg" by (cases e) auto
  with Cons show ?case by simp
qed simp

lemma window_window: "i + k \<le> n \<Longrightarrow> window (a + i) k m = window i k (window a n m)"
  by (simp add: window_def drop_take add.commute min_def)

text \<open>An erased store records a cache of zeros, whether or not the checksum of zeros happens to match.\<close>

lemma records_erased:
  assumes "valid_config cfg"
  shows "records cfg (replicate (BACKING_SIZE cfg) 0) (log_start cfg) (replicate (LOGICAL_SIZE cfg) 0)"
proof -
  have "consolidated cfg (replicate (BACKING_SIZE cfg) 0) = replicate (LOGICAL_SIZE cfg) 0"
    using config_facts(4) [OF assms] by (simp add: consolidated_def Let_def)
  then show ?thesis
    unfolding records_def using config_facts(6) [OF assms]
    by (auto simp: blank_def window_def intro!: exI [of _ "[]"])
qed

subsection \<open>Playback over a reliable driver\<close>

context reliable_store
begin

definition same_store :: "'d wear_leveling \<Rightarrow> 'd wear_leveling \<Rightarrow> bool" where
  "same_store s s' \<longleftrightarrow> ready (device s') \<and> contents (device s') = contents (device s)
     \<and> cache s' = cache s \<and> write_address s' = write_address s"

lemma read_cell:
  assumes "ready (device s)" "cell_size cfg dvd a" "a + cell_size cfg \<le> BACKING_SIZE cfg"
  obtains s' where "on_device (backing_store_read ops a) s
      = (Some (window a (cell_size cfg) (contents (device s))), s')" "same_store s s'"
proof -
  obtain r d where rd: "backing_store_read ops a (device s) = (r, d)" by fastforce
  then obtain v where "r = Some v" using read_succeeds [OF assms] by auto
  with rd read_ok [OF assms, of v d] that [of "s\<lparr>device := d\<rparr>"] show ?thesis
    by (simp add: on_device_def same_store_def)
qed

lemma load_cell_ok:
  assumes s: "ready (device s)" and a: "cell_size cfg dvd a" and n: "a + n \<le> BACKING_SIZE cfg"
    and w: "window a n (contents (device s)) = take n e"
    and k: "wanted \<Longrightarrow> k = i * cell_size cfg \<and> k + cell_size cfg \<le> n" and n8: "n \<le> 8"
    and log: "agrees k log e"
  obtains log' s' where
    "load_cell cfg ops wanted i (a + k, log, s)
      = (Some (a + (k + (if wanted then cell_size cfg else 0)), log', s'),
         a + (k + (if wanted then cell_size cfg else 0)), s')"
    "same_store s s'" "agrees (k + (if wanted then cell_size cfg else 0)) log' e"
proof (cases wanted)
  case True
  let ?c = "cell_size cfg"
  have k': "k = i * ?c" "k + ?c \<le> n" using k [OF True] by auto
  have "?c dvd a + k" "a + k + ?c \<le> BACKING_SIZE cfg" using a k' n by auto
  from read_cell [OF s this] obtain s' where
    r: "on_device (backing_store_read ops (a + k)) s = (Some (window (a + k) ?c (contents (device s))), s')"
    and ss: "same_store s s'" .
  have v: "window (a + k) ?c (contents (device s)) = window k ?c e"
    using k' w window_window [of k ?c n a "contents (device s)"] by (simp add: window_def drop_take min_def)
  have "agrees (k + ?c) (patch k (window k ?c e) log) e" using agrees_extend [OF log] k' n8 by simp
  with r v ss that True k' show ?thesis by (simp add: load_cell_def add.assoc)
next
  case False
  then show ?thesis using that [of log s] s log by (simp add: load_cell_def same_store_def)
qed

lemma playback_multibyte_ok:
  fixes b v
  defines "e \<equiv> entry_union (Multibyte b v)" and "n \<equiv> multibyte_size (WRITE_SIZE cfg) (length v)"
  assumes cfg: "valid_config cfg" and ent: "valid_entry cfg (Multibyte b v)"
    and s: "ready (device s)" and a: "cell_size cfg dvd a" and fit: "a + n \<le> BACKING_SIZE cfg"
    and w: "window a n (contents (device s)) = take n e" and log: "agrees (cell_size cfg) log e"
  obtains s' where "playback_multibyte cfg ops log (a + cell_size cfg) s = (True, a + n, s')"
    "same_store (s\<lparr>cache := patch b v (cache s)\<rparr>) s'"
proof -
  let ?w = "WRITE_SIZE cfg" and ?l = "length v" and ?c = "cell_size cfg"
  define k1 where "k1 = ?c + (if ?w = W2 then ?c else 0)"
  define k2 where "k2 = k1 + (if ?w = W2 \<and> 1 < ?l then ?c else 0)"
  define k3 where "k3 = k2 + (if ?w = W2 \<and> 3 < ?l then ?c else 0)"
  define k4 where "k4 = k3 + (if ?w = W4 \<and> 1 < ?l then ?c else 0)"
  note ks = k4_def k3_def k2_def k1_def n_def multibyte_size_def
  have n8: "n \<le> 8" using entry_size_bounds(2) [OF ent] by (simp add: n_def entry_size_def)
  have l: "1 \<le> ?l" "?l \<le> 5" "b + ?l \<le> LOGICAL_SIZE cfg"
    using ent by (auto simp: LOG_ENTRY_MULTIBYTE_MAX_BYTES_def)
  have kn: "k4 = n" "3 \<le> k1" "3 + ?l \<le> n" using l by (cases ?w; auto simp: ks)+
  have w1: "?w = W2 \<Longrightarrow> ?c = 1 * ?c \<and> ?c + ?c \<le> n" by (auto simp: ks)
  obtain log1 s1 where 1: "load_cell cfg ops (?w = W2) 1 (a + ?c, log, s) = (Some (a + k1, log1, s1), a + k1, s1)"
    "same_store s s1" "agrees k1 log1 e"
    using load_cell_ok [OF s a fit w w1 n8 log] unfolding k1_def by blast
  have w2: "?w = W2 \<and> 1 < ?l \<Longrightarrow> k1 = 2 * ?c \<and> k1 + ?c \<le> n" by (auto simp: ks)
  obtain log2 s2 where 2: "load_cell cfg ops (?w = W2 \<and> 1 < ?l) 2 (a + k1, log1, s1) = (Some (a + k2, log2, s2), a + k2, s2)"
    "same_store s1 s2" "agrees k2 log2 e"
    using load_cell_ok [OF _ a fit _ w2 n8 1(3), of s1] 1(2) w unfolding k2_def by (auto simp: same_store_def)
  have w3: "?w = W2 \<and> 3 < ?l \<Longrightarrow> k2 = 3 * ?c \<and> k2 + ?c \<le> n" by (auto simp: ks)
  obtain log3 s3 where 3: "load_cell cfg ops (?w = W2 \<and> 3 < ?l) 3 (a + k2, log2, s2) = (Some (a + k3, log3, s3), a + k3, s3)"
    "same_store s2 s3" "agrees k3 log3 e"
    using load_cell_ok [OF _ a fit _ w3 n8 2(3), of s2] 1(2) 2(2) w unfolding k3_def by (auto simp: same_store_def)
  have w4: "?w = W4 \<and> 1 < ?l \<Longrightarrow> k3 = 1 * ?c \<and> k3 + ?c \<le> n" by (auto simp: ks)
  obtain log4 s4 where 4: "load_cell cfg ops (?w = W4 \<and> 1 < ?l) 1 (a + k3, log3, s3) = (Some (a + k4, log4, s4), a + k4, s4)"
    "same_store s3 s4" "agrees k4 log4 e"
    using load_cell_ok [OF _ a fit _ w4 n8 3(3), of s3] 1(2) 2(2) 3(2) w unfolding k4_def by (auto simp: same_store_def)
  note u = entry_union_multibyte [OF cfg ent, folded e_def]
  have "window 3 ?l log4 = v" using agrees_window [OF 4(3), of 3 ?l] kn u(4) by simp
  then have "playback_multibyte cfg ops log (a + ?c) s = (True, a + n, s4\<lparr>cache := patch b v (cache s4)\<rparr>)"
    using 1 2 3 4 kn u agrees_multibyte [OF 1(3)] l by (simp add: playback_multibyte_def Let_def)
  then show ?thesis
    using 1(2) 2(2) 3(2) 4(2) by (intro that) (auto simp: same_store_def)
qed

lemma playback_entry_ok:
  assumes cfg: "valid_config cfg" and ent: "valid_entry cfg e" and c: "length (cache s) = LOGICAL_SIZE cfg"
    and s: "ready (device s)" and a: "cell_size cfg dvd a"
    and fit: "a + entry_size (WRITE_SIZE cfg) e \<le> BACKING_SIZE cfg"
    and w: "window a (entry_size (WRITE_SIZE cfg) e) (contents (device s))
            = take (entry_size (WRITE_SIZE cfg) e) (entry_union e)"
    and log: "agrees (cell_size cfg) log (entry_union e)"
  obtains s' where "playback_entry cfg ops log (a + cell_size cfg) s = (True, a + entry_size (WRITE_SIZE cfg) e, s')"
    "same_store (s\<lparr>cache := apply_entry e (cache s)\<rparr>) s'"
proof -
  have c1: "1 \<le> cell_size cfg" by (cases "WRITE_SIZE cfg") auto
  note ty = agrees_type [OF log c1]
  show ?thesis
  proof (cases e)
    case (Multibyte b v)
    obtain s' where "playback_multibyte cfg ops log (a + cell_size cfg) s
        = (True, a + multibyte_size (WRITE_SIZE cfg) (length v), s')"
      "same_store (s\<lparr>cache := patch b v (cache s)\<rparr>) s'"
      using playback_multibyte_ok [OF cfg _ s a, of b v log] ent fit w log
      by (auto simp: Multibyte entry_size_def simp del: entry_union.simps valid_entry.simps)
    with that ty entry_union_multibyte(1) [OF cfg, of b v] ent show ?thesis
      by (simp add: playback_entry_def Multibyte entry_size_def)
  next
    case (Optimized_64 b v)
    then have b: "b < 64" "b < LOGICAL_SIZE cfg" "WRITE_SIZE cfg = W2" using ent by auto
    with that s ty agrees_pair(1,2) [OF log] entry_union_optimized_64 [OF b(1), of v] show ?thesis
      by (simp add: playback_entry_def Optimized_64 log_entry_types entry_size_def same_store_def)
  next
    case (Word_01 b v)
    then have b: "b < 16384" "even b" "b + 1 < LOGICAL_SIZE cfg" "WRITE_SIZE cfg = W2" using ent by auto
    with that s ty agrees_pair(3,4) [OF log] entry_union_word_01 [OF b(1,2), of v] show ?thesis
      by (simp add: playback_entry_def Word_01 log_entry_types entry_size_def same_store_def)
  qed
qed

lemma playback_loop_entries:
  assumes cfg: "valid_config cfg" and junk: "8 \<le> length junk"
  shows "list_all (valid_entry cfg) es \<Longrightarrow> ready (device s) \<Longrightarrow> length (cache s) = LOGICAL_SIZE cfg \<Longrightarrow>
    cell_size cfg dvd a \<Longrightarrow> a + length (log_bytes cfg es) \<le> BACKING_SIZE cfg \<Longrightarrow>
    window a (length (log_bytes cfg es)) (contents (device s)) = log_bytes cfg es \<Longrightarrow>
    \<exists>s'. playback_loop cfg ops junk a s = playback_loop cfg ops junk (a + length (log_bytes cfg es)) s'
      \<and> same_store (s\<lparr>cache := fold apply_entry es (cache s)\<rparr>) s'"
proof (induction es arbitrary: a s)
  case Nil
  then show ?case by (auto simp: same_store_def)
next
  case (Cons e es)
  let ?c = "cell_size cfg" and ?n = "entry_size (WRITE_SIZE cfg) e" and ?m = "contents (device s)"
  have ent: "valid_entry cfg e" using Cons.prems by simp
  note bnd = entry_size_bounds [OF ent] and len = length_entry_union [OF ent]
  have lb: "log_bytes cfg (e # es) = take ?n (entry_union e) @ log_bytes cfg es"
    by (simp add: log_bytes_Cons concat_entry_cells [OF ent])
  have fit: "a + ?n + length (log_bytes cfg es) \<le> BACKING_SIZE cfg"
    using Cons.prems(5) lb len bnd by simp
  have wn: "window a ?n ?m = take ?n (entry_union e)"
    using Cons.prems(6) window_window [of 0 ?n "length (log_bytes cfg (e # es))" a ?m] lb len bnd
    by (simp add: window_def)
  have wt: "window (a + ?n) (length (log_bytes cfg es)) ?m = log_bytes cfg es"
    using Cons.prems(6) window_window [of ?n "length (log_bytes cfg es)" "length (log_bytes cfg (e # es))" a ?m]
      lb len bnd by (simp add: window_def)
  have fc: "a + ?c \<le> BACKING_SIZE cfg" using fit bnd(1) by linarith
  then have lt: "\<not> BACKING_SIZE cfg \<le> a" using bytes_of_pos [of "WRITE_SIZE cfg"] by linarith
  obtain s1 where r: "on_device (backing_store_read ops a) s = (Some (window a ?c ?m), s1)" and s1: "same_store s s1"
    using read_cell [OF Cons.prems(2,4) fc] .
  have first: "window a ?c ?m = take ?c (entry_union e)"
    using wn window_window [of 0 ?c ?n a ?m] bnd len by (simp add: window_def min_def)
  have "?c \<le> 8" using bnd by linarith
  then have log: "agrees ?c (patch 0 (take ?c (entry_union e)) junk) (entry_union e)"
    using agrees_start [OF len junk] by simp
  have nz: "\<not> list_all (\<lambda>b. b = 0) (take ?c (entry_union e))"
    using entry_union_nonzero [OF cfg ent] len \<open>?c \<le> 8\<close>
    by (auto simp: list_all_length intro!: exI [of _ 0])
  obtain s2 where p: "playback_entry cfg ops (patch 0 (take ?c (entry_union e)) junk) (a + ?c) s1 = (True, a + ?n, s2)"
    and s2: "same_store (s1\<lparr>cache := apply_entry e (cache s1)\<rparr>) s2"
    using playback_entry_ok [OF cfg ent _ _ Cons.prems(4) _ _ log, of s1] s1 Cons.prems(2,3) fit wn
    by (auto simp: same_store_def)
  have "playback_loop cfg ops junk a s = playback_loop cfg ops junk (a + ?n) s2"
    by (subst playback_loop.simps) (simp add: lt r first nz p)
  moreover have "length (apply_entry e (cache s)) = LOGICAL_SIZE cfg"
    using ent Cons.prems(3) by (cases e) auto
  then have "\<exists>s'. playback_loop cfg ops junk (a + ?n) s2 = playback_loop cfg ops junk (a + ?n + length (log_bytes cfg es)) s'
      \<and> same_store (s2\<lparr>cache := fold apply_entry es (cache s2)\<rparr>) s'"
    using Cons.prems(1,4) s1 s2 fit wt bnd by (intro Cons.IH) (auto simp: same_store_def)
  ultimately show ?case
    using s1 s2 lb len bnd by (auto simp: same_store_def add.assoc)
qed

lemma playback_loop_end:
  assumes "ready (device s)" "cell_size cfg dvd a" "cell_size cfg dvd BACKING_SIZE cfg" "a < BACKING_SIZE cfg"
    and "blank a (BACKING_SIZE cfg - a) (contents (device s))"
  obtains s' where "playback_loop cfg ops junk a s = (True, a, s')" "same_store s s'"
proof -
  have fit: "a + cell_size cfg \<le> BACKING_SIZE cfg" using assms(2-4) by (rule dvd_add_le)
  obtain s1 where r: "on_device (backing_store_read ops a) s = (Some (window a (cell_size cfg) (contents (device s))), s1)"
    and s1: "same_store s s1" using read_cell [OF assms(1,2) fit] .
  have "list_all (\<lambda>b. b = 0) (window a (cell_size cfg) (contents (device s)))"
    using assms(1,5) fit length_contents by (simp add: list_all_length nth_window blank_def)
  with r s1 assms(4) that [of s1] show ?thesis by (simp add: playback_loop.simps [of _ _ _ a])
qed

lemma read_consolidated_ok:
  assumes cfg: "valid_config cfg" and s: "ready (device s)" and wa: "write_address s = log_start cfg"
  obtains s' where "wear_leveling_read_consolidated cfg ops junk s = (WEAR_LEVELING_SUCCESS, s')"
    "same_store (s\<lparr>cache := consolidated cfg (contents (device s))\<rparr>) s'"
proof -
  let ?c = "cell_size cfg" and ?l = "LOGICAL_SIZE cfg"
  note f = config_facts [OF cfg]
  have l: "?l div ?c * ?c = ?l" using f(1) by simp
  obtain r1 d1 where 1: "backing_store_read_bulk ops 0 (?l div ?c) (device s) = (r1, d1)" by fastforce
  moreover have "0 + ?l div ?c * ?c \<le> BACKING_SIZE cfg" using f(4) l by simp
  ultimately have r1: "r1 = Some (take ?l (contents (device s)))" "ready d1" "contents d1 = contents (device s)"
    using read_bulk_succeeds [OF s, of 0 "?l div ?c"] read_bulk_ok [OF s, of 0 "?l div ?c"] l
    by (auto simp: window_def)
  obtain r2 d2 where 2: "checksum_read cfg ops d1 = (r2, d2)" by fastforce
  have b: "?l + 8 \<le> BACKING_SIZE cfg" using f(4) by simp
  have r2: "r2 = Some (window ?l 8 (contents (device s))) \<and> ready d2 \<and> contents d2 = contents (device s)"
  proof (cases "WRITE_SIZE cfg")
    case W2
    then show ?thesis using 2 b f(1) read_bulk_succeeds [OF r1(2), of ?l 4] read_bulk_ok [OF r1(2), of ?l 4] r1(3)
      by (auto simp: checksum_read_def)
  next
    case W4
    then show ?thesis using 2 b f(1) read_bulk_succeeds [OF r1(2), of ?l 2] read_bulk_ok [OF r1(2), of ?l 2] r1(3)
      by (auto simp: checksum_read_def)
  next
    case W8
    then show ?thesis using 2 b f(1) read_succeeds [OF r1(2), of ?l] read_ok [OF r1(2), of ?l] r1(3)
      by (auto simp: checksum_read_def)
  qed
  let ?s' = "s\<lparr>cache := consolidated cfg (contents (device s)), device := d2\<rparr>"
  have "wear_leveling_read_consolidated cfg ops junk s = (WEAR_LEVELING_SUCCESS, ?s')"
    using 1 2 r1 r2 wa
    by (simp add: wear_leveling_read_consolidated_def on_device_def Let_def consolidated_def
        wear_leveling_clear_cache_def)
  then show ?thesis using that [of ?s'] r2 by (simp add: same_store_def)
qed

lemma length_consolidated: "valid_config cfg \<Longrightarrow> length m = BACKING_SIZE cfg \<Longrightarrow> length (consolidated cfg m) = LOGICAL_SIZE cfg"
  using config_facts(4) [of cfg] by (simp add: consolidated_def Let_def)

theorem init_restores:
  assumes cfg: "valid_config cfg" and s: "ready (device s)" and junk: "8 \<le> length junk"
    and rec: "records cfg (contents (device s)) wa c" and wa: "wa < BACKING_SIZE cfg"
  shows "\<exists>s'. wear_leveling_init cfg ops junk s = (WEAR_LEVELING_SUCCESS, s') \<and> wl_inv s' \<and> cache s' = c
    \<and> write_address s' = wa \<and> contents (device s') = contents (device s)"
proof -
  let ?m = "contents (device s)" and ?s = "wear_leveling_clear_cache cfg s"
  note f = config_facts [OF cfg]
  from rec obtain es where es: "list_all (valid_entry cfg) es"
    and wae: "wa = log_start cfg + length (log_bytes cfg es)"
    and w: "window (log_start cfg) (length (log_bytes cfg es)) ?m = log_bytes cfg es"
    and b: "blank wa (BACKING_SIZE cfg - wa) ?m" and c: "fold apply_entry es (consolidated cfg ?m) = c"
    by (auto simp: records_def)
  have dvd: "cell_size cfg dvd wa" using f(3) wae log_bytes_dvd [OF es] by simp
  obtain d1 where i: "backing_store_init ops (device s) = (True, d1)"
    using init_succeeds [OF s] by (cases "backing_store_init ops (device s)") auto
  note d1 = init_ok [OF s i]
  obtain s2 where 2: "wear_leveling_read_consolidated cfg ops junk (?s\<lparr>device := d1\<rparr>) = (WEAR_LEVELING_SUCCESS, s2)"
    "same_store (?s\<lparr>device := d1, cache := consolidated cfg ?m\<rparr>) s2"
    using read_consolidated_ok [OF cfg, of "?s\<lparr>device := d1\<rparr>"] d1
    by (auto simp: wear_leveling_clear_cache_def)
  have "\<exists>s3. playback_loop cfg ops junk (log_start cfg) s2
      = playback_loop cfg ops junk (log_start cfg + length (log_bytes cfg es)) s3
      \<and> same_store (s2\<lparr>cache := fold apply_entry es (cache s2)\<rparr>) s3"
    using es 2(2) d1 w wa wae f(3) length_consolidated [OF cfg length_contents [OF s]]
    by (intro playback_loop_entries [OF cfg junk]) (auto simp: same_store_def)
  then obtain s3 where 3: "playback_loop cfg ops junk (log_start cfg) s2 = playback_loop cfg ops junk wa s3"
    "same_store (s2\<lparr>cache := c\<rparr>) s3" using 2(2) c wae by (auto simp: same_store_def)
  obtain s4 where 4: "playback_loop cfg ops junk wa s3 = (True, wa, s4)" "same_store s3 s4"
    using playback_loop_end [OF _ dvd f(2) wa, of s3] 2(2) 3(2) d1 b by (auto simp: same_store_def)
  have "length c = LOGICAL_SIZE cfg"
    using length_fold_apply [OF es length_consolidated [OF cfg length_contents [OF s]]] c by simp
  then have "wl_inv (s4\<lparr>write_address := wa\<rparr>)"
    using 2(2) 3(2) 4(2) d1 b dvd wa rec by (simp add: wl_inv_def appendable_def same_store_def)
  moreover have "wear_leveling_init cfg ops junk s = (WEAR_LEVELING_SUCCESS, s4\<lparr>write_address := wa\<rparr>)"
    using 2(1) 3(1) 4(1) i wa
    by (simp add: wear_leveling_init_def wear_leveling_playback_log_def on_device_def Let_def
        wear_leveling_consolidate_if_needed_def wear_leveling_clear_cache_def)
  ultimately show ?thesis
    using 2(2) 3(2) 4(2) d1 by (auto simp: same_store_def)
qed

text \<open>
  Over a reliable driver no write fails: a write unlocks the store, and it stays unlocked until the
  write is over.
\<close>

definition session :: "'d wear_leveling \<Rightarrow> bool" where
  "session s \<longleftrightarrow> unlocked s \<and> opened (device s)"

lemma unlock_total:
  assumes "ready (device s)" "unlocked s \<Longrightarrow> opened (device s)"
  obtains l s' where "wear_leveling_unlock ops s = (l, s')" "l \<noteq> STATUS_FAILURE" "session s'"
  using unlock_succeeds [OF assms(1)] assms(2) that
  by (cases "unlocked s") (auto simp: wear_leveling_unlock_def on_device_def session_def)

lemma lock_total: "ready (device s) \<Longrightarrow> fst (wear_leveling_lock ops s) \<noteq> STATUS_FAILURE"
  using lock_succeeds [of "device s"]
  by (auto simp: wear_leveling_lock_def on_device_def Let_def split: prod.splits)

lemma checksum_write_total:
  assumes "valid_config cfg" "ready d" "opened d" "length raw = 8" "blank (LOGICAL_SIZE cfg) 8 (contents d)"
  shows "\<exists>d'. checksum_write cfg ops raw d = (True, d') \<and> opened d'"
proof (cases "WRITE_SIZE cfg = W8")
  case True
  then show ?thesis
    using write_succeeds [OF assms(2,3), of raw "LOGICAL_SIZE cfg"] config_facts [OF assms(1)] assms(4,5)
    by (simp add: checksum_write_def)
next
  case False
  then show ?thesis
    using write_bulk_succeeds [OF assms(2,3), of raw "LOGICAL_SIZE cfg"] config_facts [OF assms(1)] assms(4,5)
    by (simp add: checksum_write_def bytes_of_dvd_8 split: write_size.splits)
qed

lemma consolidate_force_total:
  assumes cfg: "valid_config cfg" and s: "ready (device s)" "session s" and c: "length (cache s) = LOGICAL_SIZE cfg"
  shows "\<exists>s'. wear_leveling_consolidate_force cfg ops s = (WEAR_LEVELING_CONSOLIDATED, s') \<and> session s'"
proof -
  note f = config_facts [OF cfg]
  have o: "unlocked s" "opened (device s)" using s(2) by (auto simp: session_def)
  obtain d1 where e: "backing_store_erase ops (device s) = (True, d1)" and o1: "opened d1"
    using erase_succeeds [OF s(1) o(2)] by blast
  have d1: "ready d1" "contents d1 = replicate (BACKING_SIZE cfg) 0" using erase_ok [OF s(1) e] by auto
  obtain d2 where b: "backing_store_write_bulk ops 0 (cache s) d1 = (True, d2)" and o2: "opened d2"
    using write_bulk_succeeds [OF d1(1) o1, of "cache s" 0] f(1,4) c d1(2) by (auto simp: blank_def)
  have d2: "ready d2" "contents d2 = patch 0 (cache s) (replicate (BACKING_SIZE cfg) 0)"
    using write_bulk_ok [OF d1(1) _ _ _ _ b] f(1,4) c d1(2) by (auto simp: blank_def)
  have "blank (LOGICAL_SIZE cfg) 8 (contents d2)" using d2(2) f(4) c by (simp add: blank_def nth_patch)
  then obtain d3 where "checksum_write cfg ops (le_bytes 8 (fnv_64a_buf (cache s) FNV1A_64_INIT)) d2 = (True, d3)"
    "opened d3" using checksum_write_total [OF cfg d2(1) o2, of "le_bytes 8 (fnv_64a_buf (cache s) FNV1A_64_INIT)"] by auto
  then show ?thesis
    using e b o by (simp add: wear_leveling_consolidate_force_def wear_leveling_write_consolidated_def
        wear_leveling_unlock_def on_device_def session_def)
qed

lemma append_raw_total:
  assumes cfg: "valid_config cfg" and s: "appendable s" "session s" and v: "length v = cell_size cfg"
  shows "\<exists>st s'. wear_leveling_append_raw cfg ops v s = (st, s') \<and> st \<noteq> WEAR_LEVELING_FAILED \<and> session s'"
proof -
  let ?wa = "write_address s"
  have fits: "?wa + cell_size cfg \<le> BACKING_SIZE cfg"
    using s config_facts [OF cfg] by (intro dvd_add_le) (auto simp: appendable_def)
  have b: "ready (device s)" "cell_size cfg dvd ?wa" "blank ?wa (length v) (contents (device s))" "opened (device s)"
    using s fits v by (auto simp: appendable_def blank_def session_def)
  obtain d where w: "backing_store_write ops ?wa v (device s) = (True, d)" and o: "opened d"
    using write_succeeds [OF b(1,4) v b(2) _ b(3)] fits v by auto
  have "ready d" using write_ok [OF b(1) v b(2) _ b(3) w] fits v by simp
  then have "\<exists>s'. wear_leveling_consolidate_force cfg ops
      (s\<lparr>device := d, write_address := ?wa + cell_size cfg\<rparr>) = (WEAR_LEVELING_CONSOLIDATED, s') \<and> session s'"
    using consolidate_force_total [OF cfg] s o by (simp add: appendable_def session_def)
  then show ?thesis
    using w o s(2) by (auto simp: wear_leveling_append_raw_def wear_leveling_consolidate_if_needed_def on_device_def
        session_def)
qed

lemma append_each_total:
  assumes cfg: "valid_config cfg"
  shows "appendable s \<Longrightarrow> session s \<Longrightarrow> \<forall>v\<in>set vs. length v = cell_size cfg \<Longrightarrow>
    \<exists>st s'. append_each cfg ops vs s = (st, s') \<and> st \<noteq> WEAR_LEVELING_FAILED \<and> session s'"
proof (induction vs arbitrary: s)
  case (Cons v vs)
  obtain st1 s1 where a: "wear_leveling_append_raw cfg ops v s = (st1, s1)" "st1 \<noteq> WEAR_LEVELING_FAILED" "session s1"
    using append_raw_total [OF cfg Cons.prems(1,2), of v] Cons.prems(3) by auto
  have "st1 = WEAR_LEVELING_SUCCESS \<Longrightarrow> appendable s1"
    using append_raw_ok [OF cfg Cons.prems(1) _ a(1,2)] Cons.prems(3) by auto
  then show ?case using Cons a by auto
qed simp

lemma write_raw_total:
  assumes cfg: "valid_config cfg" and s: "appendable s" "session s" and fit: "a + length v \<le> LOGICAL_SIZE cfg"
  obtains st s' where "wear_leveling_write_raw cfg ops a v s = (st, s')" "st \<noteq> WEAR_LEVELING_FAILED"
    "session s'" "ready (device s')"
    "st = WEAR_LEVELING_SUCCESS \<Longrightarrow> wear_leveling_consolidate_if_needed cfg ops s' = (WEAR_LEVELING_SUCCESS, s')"
proof -
  let ?cells = "concat (map (entry_cells (WRITE_SIZE cfg)) (split_entries (WRITE_SIZE cfg) a v))"
  have cells: "\<forall>v\<in>set ?cells. length v = cell_size cfg"
    using split_entries_valid [OF fit] length_entry_cells by (fastforce simp: list_all_iff)
  obtain st s' where w: "append_each cfg ops ?cells s = (st, s')" "st \<noteq> WEAR_LEVELING_FAILED" "session s'"
    using append_each_total [OF cfg s cells] by blast
  have "st = WEAR_LEVELING_SUCCESS \<and> appendable s' \<or> st = WEAR_LEVELING_CONSOLIDATED \<and> fresh s'"
    using append_each_ok [OF cfg s(1) cells w(1,2)] by auto
  with w that [of st s'] show ?thesis
    by (auto simp: appendable_def fresh_def wear_leveling_consolidate_if_needed_def write_raw_append_each)
qed

theorem write_total:
  assumes cfg: "valid_config cfg" and s: "wl_inv s" "unlocked s \<Longrightarrow> opened (device s)"
    and fit: "a + length v \<le> LOGICAL_SIZE cfg"
  obtains st s' where "wear_leveling_write cfg ops a v s = (st, s')" "st \<noteq> WEAR_LEVELING_FAILED"
    "wl_inv s'" "cache s' = patch a v (cache s)" "unlocked s' \<Longrightarrow> opened (device s')"
proof -
  let ?s = "s\<lparr>cache := patch a v (cache s)\<rparr>"
  obtain st s' where w: "wear_leveling_write cfg ops a v s = (st, s')" by fastforce
  have rd: "ready (device ?s)" "length (cache s) = LOGICAL_SIZE cfg" using s by (auto simp: wl_inv_def appendable_def)
  have op: "unlocked ?s \<Longrightarrow> opened (device ?s)" using s(2) by simp
  obtain l s1 where u: "wear_leveling_unlock ops ?s = (l, s1)" and l: "l \<noteq> STATUS_FAILURE" "session s1"
    using unlock_total [OF rd(1) op] by blast
  have a1: "appendable s1" using unlock_keeps [OF u rd(1)] s rd fit by (simp add: wl_inv_def appendable_def)
  obtain st2 s2 where w2: "wear_leveling_write_raw cfg ops a v s1 = (st2, s2)" "st2 \<noteq> WEAR_LEVELING_FAILED"
    "session s2" "ready (device s2)"
    "st2 = WEAR_LEVELING_SUCCESS \<Longrightarrow> wear_leveling_consolidate_if_needed cfg ops s2 = (WEAR_LEVELING_SUCCESS, s2)"
    using write_raw_total [OF cfg a1 l(2) fit] by blast
  have k: "fst (wear_leveling_lock ops s2) \<noteq> STATUS_FAILURE" "\<not> unlocked (snd (wear_leveling_lock ops s2))"
    using lock_total [OF w2(4)] w2(3)
    by (auto simp: wear_leveling_lock_def session_def on_device_def Let_def split: prod.splits if_splits)
  have "a + length v < 2 ^ 32" using fit config_facts(5) [OF cfg] by simp
  then have "st \<noteq> WEAR_LEVELING_FAILED \<and> (unlocked s' \<longrightarrow> opened (device s'))"
    using w fit u l w2 k s(2)
    by (auto simp: wear_leveling_write_def Let_def session_def split: prod.splits if_splits)
  then show ?thesis using that w write_inv [OF cfg s(1) fit w] by auto
qed

lemma erase_total:
  assumes cfg: "valid_config cfg" and s: "ready (device s)" "unlocked s \<Longrightarrow> opened (device s)"
  obtains s' where "wear_leveling_erase cfg ops s = (WEAR_LEVELING_SUCCESS, s')" "wl_inv s'"
    "cache s' = replicate (LOGICAL_SIZE cfg) 0" "unlocked s' \<Longrightarrow> opened (device s')"
proof -
  note f = config_facts [OF cfg]
  obtain l s1 where u: "wear_leveling_unlock ops s = (l, s1)" and l: "l \<noteq> STATUS_FAILURE" "session s1"
    using unlock_total [OF s] by blast
  have s1: "ready (device s1)" "opened (device s1)" "unlocked s1"
    using unlock_keeps [OF u s(1)] l(2) by (auto simp: session_def)
  obtain d2 where e: "backing_store_erase ops (device s1) = (True, d2)" and o2: "opened d2"
    using erase_succeeds [OF s1(1,2)] by blast
  have d2: "ready d2" "contents d2 = replicate (BACKING_SIZE cfg) 0" using erase_ok [OF s1(1) e] by auto
  let ?s2 = "wear_leveling_clear_cache cfg (s1\<lparr>device := d2\<rparr>)"
  have "records cfg (contents d2) (log_start cfg) (replicate (LOGICAL_SIZE cfg) 0)"
    unfolding d2(2) by (rule records_erased [OF cfg])
  then have inv: "wl_inv ?s2"
    using d2 f(3,6) by (auto simp: wl_inv_def appendable_def wear_leveling_clear_cache_def blank_def)
  show ?thesis
  proof (cases "l = STATUS_SUCCESS")
    case True
    obtain l3 s3 where k: "wear_leveling_lock ops ?s2 = (l3, s3)" by fastforce
    have rd: "ready (device ?s2)" using d2 by (simp add: wear_leveling_clear_cache_def)
    have "\<not> unlocked s3"
      using k lock_total [OF rd] s1(3)
      by (auto simp: wear_leveling_lock_def wear_leveling_clear_cache_def on_device_def Let_def split: prod.splits if_splits)
    moreover have "wear_leveling_erase cfg ops s = (WEAR_LEVELING_SUCCESS, s3)"
      using u True e k lock_total [OF rd]
      by (simp add: wear_leveling_erase_def on_device_def Let_def)
    ultimately show ?thesis
      using lock_keeps [OF k rd] wl_inv_cong [OF inv, of s3] that [of s3]
      by (simp add: wear_leveling_clear_cache_def)
  next
    case False
    have "wear_leveling_erase cfg ops s = (WEAR_LEVELING_SUCCESS, ?s2)"
      using u l False e by (simp add: wear_leveling_erase_def on_device_def Let_def)
    then show ?thesis using that [of ?s2] inv o2 by (simp add: wear_leveling_clear_cache_def)
  qed
qed

text \<open>A sequence of writes, their results ignored as \<open>eeprom_write_block\<close> ignores them.\<close>

lemma writes_total:
  assumes cfg: "valid_config cfg"
  shows "\<forall>(a, v)\<in>set ws. a + length v \<le> LOGICAL_SIZE cfg \<Longrightarrow> wl_inv s \<Longrightarrow>
    (unlocked s \<Longrightarrow> opened (device s)) \<Longrightarrow>
    wl_inv (fold (\<lambda>(a, v) s. snd (wear_leveling_write cfg ops a v s)) ws s)
    \<and> cache (fold (\<lambda>(a, v) s. snd (wear_leveling_write cfg ops a v s)) ws s)
      = fold (\<lambda>(a, v) c. patch a v c) ws (cache s)"
proof (induction ws arbitrary: s)
  case (Cons w ws)
  obtain a v where w: "w = (a, v)" by fastforce
  have fit: "a + length v \<le> LOGICAL_SIZE cfg" using Cons.prems(1) w by auto
  obtain st s' where s': "wear_leveling_write cfg ops a v s = (st, s')" "wl_inv s'" "cache s' = patch a v (cache s)"
    "unlocked s' \<Longrightarrow> opened (device s')"
    using write_total [OF cfg Cons.prems(2,3) fit] by blast
  then show ?case using Cons.IH [of s'] Cons.prems(1) w by simp
qed simp

text \<open>
  Erase, write, lose power, start again: whatever the RAM state \<open>s'\<close> at the restart is, the device
  alone brings the cache back.
\<close>

theorem power_cycle:
  assumes cfg: "valid_config cfg" and s: "ready (device s)" "unlocked s \<Longrightarrow> opened (device s)"
    and ws: "\<forall>(a, v)\<in>set ws. a + length v \<le> LOGICAL_SIZE cfg" and junk: "8 \<le> length junk"
    and s1: "s1 = fold (\<lambda>(a, v) s. snd (wear_leveling_write cfg ops a v s)) ws (snd (wear_leveling_erase cfg ops s))"
  shows "ready (device s1)"
    and "ready (device s') \<Longrightarrow> contents (device s') = contents (device s1) \<Longrightarrow>
      \<exists>s2. wear_leveling_init cfg ops junk s' = (WEAR_LEVELING_SUCCESS, s2)
        \<and> cache s2 = fold (\<lambda>(a, v) c. patch a v c) ws (replicate (LOGICAL_SIZE cfg) 0)"
proof -
  obtain s0 where s0: "wear_leveling_erase cfg ops s = (WEAR_LEVELING_SUCCESS, s0)" "wl_inv s0"
    "cache s0 = replicate (LOGICAL_SIZE cfg) 0" "unlocked s0 \<Longrightarrow> opened (device s0)"
    using erase_total [OF cfg s] by blast
  have inv: "wl_inv s1" and c: "cache s1 = fold (\<lambda>(a, v) c. patch a v c) ws (cache s0)"
    using writes_total [OF cfg ws s0(2,4)] s1 s0(1) by auto
  show "ready (device s1)" using inv by (simp add: wl_inv_def appendable_def)
  assume dev: "ready (device s')" "contents (device s') = contents (device s1)"
  have "records cfg (contents (device s')) (write_address s1) (cache s1)" "write_address s1 < BACKING_SIZE cfg"
    using inv dev by (auto simp: wl_inv_def appendable_def)
  then show "\<exists>s2. wear_leveling_init cfg ops junk s' = (WEAR_LEVELING_SUCCESS, s2)
      \<and> cache s2 = fold (\<lambda>(a, v) c. patch a v c) ws (replicate (LOGICAL_SIZE cfg) 0)"
    using init_restores [OF cfg dev(1) junk] c s0(3) by fastforce
qed

end

end
