(* ===== verification/Legacy_Flash.thy ===== *)
theory Legacy_Flash
  imports Wear_Leveling_Replay
begin

text \<open>
  The embedded-flash backing store of \<^verbatim>\<open>platforms/chibios/drivers/wear_leveling/wear_leveling_legacy.c\<close>,
  over any implementation of the flash operations of \<^verbatim>\<open>legacy_flash_ops.h\<close>, the implementation of these
  in \<^verbatim>\<open>platforms/test/legacy_flash_ops_mock.c\<close>, and the emulated EEPROM on top of the whole stack
  (\<^verbatim>\<open>drivers/eeprom/eeprom_wear_leveling.c\<close>). The driver is shown to be a reliable backing store, so that
  everything proved of the wear-leveling algorithm holds of the stack.
\<close>

subsection \<open>Flash operations and the driver\<close>

datatype FLASH_Status =
  FLASH_BUSY | FLASH_ERROR_PG | FLASH_ERROR_WRP | FLASH_ERROR_OPT | FLASH_COMPLETE | FLASH_TIMEOUT | FLASH_BAD_ADDRESS

text \<open>The operations, and the memory-mapped read of a half word. A half word is the list of its two bytes.\<close>

record 'f flash_ops =
  FLASH_ErasePage :: "uint32 \<Rightarrow> 'f \<Rightarrow> FLASH_Status \<times> 'f"
  FLASH_ProgramHalfWord :: "uint32 \<Rightarrow> uint8 list \<Rightarrow> 'f \<Rightarrow> FLASH_Status \<times> 'f"
  FLASH_Unlock :: "'f \<Rightarrow> 'f"
  FLASH_Lock :: "'f \<Rightarrow> 'f"
  flash_halfword :: "uint32 \<Rightarrow> 'f \<Rightarrow> uint8 list"

text \<open>The constants \<open>WEAR_LEVELING_LEGACY_EMULATION_...\<close>\<close>

record legacy_config =
  BASE_PAGE_ADDRESS :: uint32
  PAGE_COUNT :: nat
  PAGE_SIZE :: nat

definition legacy_erase :: "'f flash_ops \<Rightarrow> legacy_config \<Rightarrow> 'f \<Rightarrow> bool \<times> 'f" where
  "legacy_erase fl lc d =
     fold (\<lambda>i (ret, d).
         let (status, d) = FLASH_ErasePage fl (BASE_PAGE_ADDRESS lc + of_nat (i * PAGE_SIZE lc)) d
         in (if status \<noteq> FLASH_COMPLETE then False else ret, d))
       [0..<PAGE_COUNT lc] (True, d)"

definition legacy_write :: "'f flash_ops \<Rightarrow> legacy_config \<Rightarrow> nat \<Rightarrow> uint8 list \<Rightarrow> 'f \<Rightarrow> bool \<times> 'f" where
  "legacy_write fl lc address val d =
     (let offset = BASE_PAGE_ADDRESS lc + of_nat address;
          (status, d) = FLASH_ProgramHalfWord fl offset (map (\<lambda>b. NOT b) val) d
      in (status = FLASH_COMPLETE, d))"

definition legacy_read :: "'f flash_ops \<Rightarrow> legacy_config \<Rightarrow> nat \<Rightarrow> 'f \<Rightarrow> uint8 list option \<times> 'f" where
  "legacy_read fl lc address d =
     (let offset = BASE_PAGE_ADDRESS lc + of_nat address
      in (Some (map (\<lambda>b. NOT b) (flash_halfword fl offset d)), d))"

text \<open>The driver does not define the bulk functions, so the weak ones of \<^verbatim>\<open>wear_leveling.c\<close> are linked.\<close>

definition legacy_ops :: "'f flash_ops \<Rightarrow> legacy_config \<Rightarrow> 'f backing_ops" where
  "legacy_ops fl lc =
     \<lparr>backing_store_init = (\<lambda>d. (True, d)),
      backing_store_unlock = (\<lambda>d. (True, FLASH_Unlock fl d)),
      backing_store_erase = legacy_erase fl lc,
      backing_store_write = legacy_write fl lc,
      backing_store_write_bulk =
        (\<lambda>a vs. weak_write_bulk 2 (legacy_write fl lc) a (length vs div 2) vs),
      backing_store_lock = (\<lambda>d. (True, FLASH_Lock fl d)),
      backing_store_read = legacy_read fl lc,
      backing_store_read_bulk = weak_read_bulk 2 (legacy_read fl lc)\<rparr>"

lemma window_map: "window a n (map f xs) = map f (window a n xs)"
  by (simp add: window_def take_map drop_map)

lemma map_patch: "map f (patch a v xs) = patch a (map f v) (map f xs)"
  by (simp add: patch_def take_map drop_map)

lemma map_NOT_NOT [simp]: "map (\<lambda>b. NOT b) (map (\<lambda>b. NOT b) v) = (v :: uint8 list)"
  by (simp add: comp_def)

lemma window_patch_inside:
  assumes "a + length v \<le> n" "base + n \<le> length xs"
  shows "window base n (patch (base + a) v xs) = patch a v (window base n xs)"
  using assms by (intro nth_equalityI) (auto simp: nth_window nth_patch)

subsection \<open>The driver keeps the backing-store contract\<close>

text \<open>
  What the driver relies on: \<open>mem d\<close> are the bytes of the emulation pages as the flash holds them, an
  erased byte is \<open>0xFF\<close>. The pages make up the backing store, as in \<^verbatim>\<open>wear_leveling_legacy_config.h\<close>.
\<close>

locale legacy_flash =
  fixes cfg :: wl_config
    and lc :: legacy_config
    and fl :: "'f flash_ops"
    and mem :: "'f \<Rightarrow> uint8 list"
    and ready opened :: "'f \<Rightarrow> bool"
  assumes write_size: "WRITE_SIZE cfg = W2"
    and pages: "BACKING_SIZE cfg = PAGE_COUNT lc * PAGE_SIZE lc"
    and length_mem: "ready d \<Longrightarrow> length (mem d) = BACKING_SIZE cfg"
    and unlock: "ready d \<Longrightarrow> ready (FLASH_Unlock fl d) \<and> mem (FLASH_Unlock fl d) = mem d \<and> opened (FLASH_Unlock fl d)"
    and lock: "ready d \<Longrightarrow> ready (FLASH_Lock fl d) \<and> mem (FLASH_Lock fl d) = mem d"
    and erase_page: "ready d \<Longrightarrow> i < PAGE_COUNT lc \<Longrightarrow>
      FLASH_ErasePage fl (BASE_PAGE_ADDRESS lc + of_nat (i * PAGE_SIZE lc)) d = (FLASH_COMPLETE, d') \<Longrightarrow>
      ready d' \<and> mem d' = patch (i * PAGE_SIZE lc) (replicate (PAGE_SIZE lc) 0xFF) (mem d)"
    and erase_page_succeeds: "ready d \<Longrightarrow> opened d \<Longrightarrow> i < PAGE_COUNT lc \<Longrightarrow>
      \<exists>d'. FLASH_ErasePage fl (BASE_PAGE_ADDRESS lc + of_nat (i * PAGE_SIZE lc)) d = (FLASH_COMPLETE, d') \<and> opened d'"
    and program: "ready d \<Longrightarrow> length v = 2 \<Longrightarrow> even a \<Longrightarrow> a + 2 \<le> BACKING_SIZE cfg \<Longrightarrow>
      window a 2 (mem d) = [0xFF, 0xFF] \<Longrightarrow>
      FLASH_ProgramHalfWord fl (BASE_PAGE_ADDRESS lc + of_nat a) v d = (FLASH_COMPLETE, d') \<Longrightarrow>
      ready d' \<and> mem d' = patch a v (mem d)"
    and program_succeeds: "ready d \<Longrightarrow> opened d \<Longrightarrow> length v = 2 \<Longrightarrow> even a \<Longrightarrow> a + 2 \<le> BACKING_SIZE cfg \<Longrightarrow>
      window a 2 (mem d) = [0xFF, 0xFF] \<Longrightarrow>
      \<exists>d'. FLASH_ProgramHalfWord fl (BASE_PAGE_ADDRESS lc + of_nat a) v d = (FLASH_COMPLETE, d') \<and> opened d'"
    and halfword: "ready d \<Longrightarrow> even a \<Longrightarrow> a + 2 \<le> BACKING_SIZE cfg \<Longrightarrow>
      flash_halfword fl (BASE_PAGE_ADDRESS lc + of_nat a) d = window a 2 (mem d)"
begin

text \<open>The complement the driver stores, so that erased flash reads as zero.\<close>

definition store :: "'f \<Rightarrow> uint8 list" where
  "store d = map (\<lambda>b. NOT b) (mem d)"

lemma blank_erased:
  assumes "ready d" "a + 2 \<le> BACKING_SIZE cfg" "blank a 2 (store d)"
  shows "window a 2 (mem d) = [0xFF, 0xFF]"
proof -
  have m: "\<And>i. i < 2 \<Longrightarrow> NOT (mem d ! (a + i)) = 0"
    using assms length_mem by (simp add: blank_def store_def)
  have "mem d ! (a + i) = 0xFF" if "i < 2" for i
    using arg_cong [where f = "\<lambda>x. NOT x", OF m [OF that]] by simp
  then show ?thesis
    using assms(1,2) length_mem
    by (intro nth_equalityI) (auto simp: nth_window nth_Cons less_2_cases_iff split: nat.splits)
qed

lemma erase_pages:
  assumes "ready d" "fst (legacy_erase fl lc d)"
  shows "ready (snd (legacy_erase fl lc d)) \<and> mem (snd (legacy_erase fl lc d)) = replicate (BACKING_SIZE cfg) 0xFF"
proof -
  define f where "f = (\<lambda>i (ret, d). let (status, d) = FLASH_ErasePage fl (BASE_PAGE_ADDRESS lc + of_nat (i * PAGE_SIZE lc)) d
         in (if status \<noteq> FLASH_COMPLETE then False else ret, d))"
  have "fst (fold f [0..<n] (True, d)) \<Longrightarrow> n \<le> PAGE_COUNT lc \<Longrightarrow> ready (snd (fold f [0..<n] (True, d)))
      \<and> mem (snd (fold f [0..<n] (True, d))) = patch 0 (replicate (n * PAGE_SIZE lc) 0xFF) (mem d)" for n
  proof (induction n)
    case 0
    then show ?case using assms(1) by simp
  next
    case (Suc n)
    obtain r1 d1 where 1: "fold f [0..<n] (True, d) = (r1, d1)" by fastforce
    obtain st d2 where 2: "FLASH_ErasePage fl (BASE_PAGE_ADDRESS lc + of_nat (n * PAGE_SIZE lc)) d1 = (st, d2)" by fastforce
    have r: "r1" "st = FLASH_COMPLETE" using Suc.prems(1) 1 2 by (auto simp: f_def split: if_splits)
    have d1: "ready d1" "mem d1 = patch 0 (replicate (n * PAGE_SIZE lc) 0xFF) (mem d)"
      using Suc 1 r by auto
    have "(n + 1) * PAGE_SIZE lc \<le> PAGE_COUNT lc * PAGE_SIZE lc" using Suc.prems(2) by (intro mult_le_mono1) simp
    then have "0 + length (replicate (n * PAGE_SIZE lc) (0xFF :: uint8)) + length (replicate (PAGE_SIZE lc) (0xFF :: uint8))
        \<le> length (mem d)" using length_mem [OF assms(1)] pages by simp
    note p = patch_append [OF this]
    show ?case
      using erase_page [OF d1(1), of n d2] 2 r Suc.prems(2) d1(2) p 1
      by (simp add: f_def replicate_add [symmetric] add.commute)
  qed
  from this [of "PAGE_COUNT lc"] show ?thesis
    using assms length_mem pages by (simp add: legacy_erase_def f_def patch_all)
qed

lemma erase_pages_succeed:
  assumes "ready d" "opened d"
  shows "\<exists>d'. legacy_erase fl lc d = (True, d') \<and> opened d'"
proof -
  define f where "f = (\<lambda>i (ret, d). let (status, d) = FLASH_ErasePage fl (BASE_PAGE_ADDRESS lc + of_nat (i * PAGE_SIZE lc)) d
         in (if status \<noteq> FLASH_COMPLETE then False else ret, d))"
  have "n \<le> PAGE_COUNT lc \<Longrightarrow> \<exists>d'. fold f [0..<n] (True, d) = (True, d') \<and> ready d' \<and> opened d'" for n
  proof (induction n)
    case 0
    then show ?case using assms by simp
  next
    case (Suc n)
    then obtain d1 where 1: "fold f [0..<n] (True, d) = (True, d1)" "ready d1" "opened d1" by auto
    obtain d2 where "FLASH_ErasePage fl (BASE_PAGE_ADDRESS lc + of_nat (n * PAGE_SIZE lc)) d1 = (FLASH_COMPLETE, d2)"
      "opened d2" "ready d2"
      using erase_page_succeeds [OF 1(2,3), of n] erase_page [OF 1(2), of n] Suc.prems by auto
    with 1 show ?case by (simp add: f_def)
  qed
  from this [of "PAGE_COUNT lc"] show ?thesis by (auto simp: legacy_erase_def f_def)
qed

end

sublocale legacy_flash \<subseteq> cells: single_cells 2 "BACKING_SIZE cfg" "legacy_read fl lc" "legacy_write fl lc" store ready opened
proof unfold_locales
  fix d d' a and v :: "uint8 list"
  assume a: "ready d" "length v = 2" "2 dvd a" "a + 2 \<le> BACKING_SIZE cfg" "blank a 2 (store d)"
  note e = blank_erased [OF a(1,4,5)]
  have nv: "length (map (\<lambda>b. NOT b) v) = 2" using a(2) by simp
  {
    assume "legacy_write fl lc a v d = (True, d')"
    then have "FLASH_ProgramHalfWord fl (BASE_PAGE_ADDRESS lc + of_nat a) (map (\<lambda>b. NOT b) v) d = (FLASH_COMPLETE, d')"
      by (auto simp: legacy_write_def Let_def split: prod.splits)
    from program [OF a(1) nv a(3,4) e this]
    show "ready d' \<and> store d' = patch a v (store d)" by (simp add: store_def map_patch comp_def)
  next
    assume "opened d"
    then show "\<exists>d'. legacy_write fl lc a v d = (True, d') \<and> opened d'"
      using program_succeeds [OF a(1) _ nv a(3,4) e] by (auto simp: legacy_write_def)
  }
next
  fix d a assume "ready d" "2 dvd a" "a + 2 \<le> BACKING_SIZE cfg"
  then show "\<exists>d'. legacy_read fl lc a d = (Some (window a 2 (store d)), d') \<and> ready d' \<and> store d' = store d"
    by (simp add: legacy_read_def halfword store_def window_map)
qed (simp_all add: store_def length_mem)

sublocale legacy_flash \<subseteq> reliable_store cfg "legacy_ops fl lc" store ready opened
proof unfold_locales
  fix d d' assume "ready d" "backing_store_erase (legacy_ops fl lc) d = (True, d')"
  then show "ready d' \<and> store d' = replicate (BACKING_SIZE cfg) 0"
    using erase_pages [of d] by (simp add: legacy_ops_def store_def)
next
  fix d d' a and v :: "uint8 list"
  assume a: "ready d" "cell_size cfg dvd length v" "cell_size cfg dvd a" "a + length v \<le> BACKING_SIZE cfg"
    "blank a (length v) (store d)"
  then have n: "length v = length v div 2 * 2" by (simp add: write_size)
  show "backing_store_write_bulk (legacy_ops fl lc) a v d = (True, d') \<Longrightarrow> ready d' \<and> store d' = patch a v (store d)"
    using cells.write_bulk_ok [OF a(1) n _ a(4,5)] a(3) by (simp add: legacy_ops_def write_size)
  show "opened d \<Longrightarrow> \<exists>d'. backing_store_write_bulk (legacy_ops fl lc) a v d = (True, d') \<and> opened d'"
    using cells.write_bulk_succeeds [OF a(1) _ n _ a(4,5)] a(3) by (simp add: legacy_ops_def write_size)
next
  fix d a v n d' assume a: "ready d" "cell_size cfg dvd a" "a + n * cell_size cfg \<le> BACKING_SIZE cfg"
  then show "backing_store_read_bulk (legacy_ops fl lc) a n d = (Some v, d') \<Longrightarrow>
      ready d' \<and> store d' = store d \<and> v = window a (n * cell_size cfg) (store d)"
    "fst (backing_store_read_bulk (legacy_ops fl lc) a n d) \<noteq> None"
    using cells.read_bulk [of d a n] by (auto simp: legacy_ops_def write_size)
next
  fix d a v d' assume a: "ready d" "cell_size cfg dvd a" "a + cell_size cfg \<le> BACKING_SIZE cfg"
  then show "backing_store_read (legacy_ops fl lc) a d = (Some v, d') \<Longrightarrow>
      ready d' \<and> store d' = store d \<and> v = window a (cell_size cfg) (store d)"
    "fst (backing_store_read (legacy_ops fl lc) a d) \<noteq> None"
    using cells.rd_ok [of d a] by (auto simp: legacy_ops_def write_size)
next
  fix d d' a and v :: "uint8 list"
  assume a: "ready d" "length v = cell_size cfg" "cell_size cfg dvd a" "a + length v \<le> BACKING_SIZE cfg"
    "blank a (length v) (store d)"
  show "backing_store_write (legacy_ops fl lc) a v d = (True, d') \<Longrightarrow> ready d' \<and> store d' = patch a v (store d)"
    using cells.wr_ok [OF a(1), of v a d'] a by (simp add: legacy_ops_def write_size)
  show "opened d \<Longrightarrow> \<exists>d'. backing_store_write (legacy_ops fl lc) a v d = (True, d') \<and> opened d'"
    using cells.wr_succeeds [OF a(1), of v a] a by (simp add: legacy_ops_def write_size)
next
  fix d d' r assume "ready d"
  then show "backing_store_unlock (legacy_ops fl lc) d = (r, d') \<Longrightarrow> ready d' \<and> store d' = store d"
    "backing_store_lock (legacy_ops fl lc) d = (r, d') \<Longrightarrow> ready d' \<and> store d' = store d"
    using unlock [of d] lock [of d] by (auto simp: legacy_ops_def store_def)
qed (simp_all add: legacy_ops_def store_def length_mem unlock erase_pages_succeed)

subsection \<open>The flash of the test platform\<close>

record mock_flash =
  FlashBuf :: "uint8 list"
  flash_locked :: bool

text \<open>\<open>flash_addr\<close> is \<open>(uintptr_t)FlashBuf\<close>, the other two are the macros of the same names.\<close>

record mock_config =
  flash_addr :: uint32
  MOCK_FLASH_SIZE :: nat
  FEE_PAGE_SIZE :: nat

definition mock_ErasePage :: "mock_config \<Rightarrow> uint32 \<Rightarrow> mock_flash \<Rightarrow> FLASH_Status \<times> mock_flash" where
  "mock_ErasePage mc Page_Address d =
     (if flash_locked d then (FLASH_ERROR_WRP, d)
      else let p = unat (Page_Address - flash_addr mc);
               p = p - p mod FEE_PAGE_SIZE mc
           in if MOCK_FLASH_SIZE mc \<le> p then (FLASH_BAD_ADDRESS, d)
              else (FLASH_COMPLETE, d\<lparr>FlashBuf := patch p (replicate (FEE_PAGE_SIZE mc) 0xFF) (FlashBuf d)\<rparr>))"

definition mock_ProgramHalfWord ::
  "mock_config \<Rightarrow> uint32 \<Rightarrow> uint8 list \<Rightarrow> mock_flash \<Rightarrow> FLASH_Status \<times> mock_flash" where
  "mock_ProgramHalfWord mc Address Data d =
     (if flash_locked d then (FLASH_ERROR_WRP, d)
      else let a = unat (Address - flash_addr mc)
           in if MOCK_FLASH_SIZE mc \<le> a then (FLASH_BAD_ADDRESS, d)
              else let oldData = window a 2 (FlashBuf d)
                   in if oldData = [0xFF, 0xFF] \<or> Data = [0, 0]
                      then (FLASH_COMPLETE, d\<lparr>FlashBuf := patch a Data (FlashBuf d)\<rparr>)
                      else (FLASH_ERROR_PG, d))"

definition mock_Unlock :: "mock_flash \<Rightarrow> mock_flash" where
  "mock_Unlock d = d\<lparr>flash_locked := False\<rparr>"

definition mock_Lock :: "mock_flash \<Rightarrow> mock_flash" where
  "mock_Lock d = d\<lparr>flash_locked := True\<rparr>"

definition mock_flash_ops :: "mock_config \<Rightarrow> mock_flash flash_ops" where
  "mock_flash_ops mc =
     \<lparr>FLASH_ErasePage = mock_ErasePage mc,
      FLASH_ProgramHalfWord = mock_ProgramHalfWord mc,
      FLASH_Unlock = mock_Unlock,
      FLASH_Lock = mock_Lock,
      flash_halfword = (\<lambda>a d. window (unat (a - flash_addr mc)) 2 (FlashBuf d))\<rparr>"

text \<open>
  \<open>base\<close> is where the emulation pages start inside the flash; the driver and the flash agree on the
  page size, and the pages lie inside the flash.
\<close>

definition legacy_layout :: "wl_config \<Rightarrow> legacy_config \<Rightarrow> mock_config \<Rightarrow> nat \<Rightarrow> bool" where
  "legacy_layout cfg lc mc base \<longleftrightarrow>
     WRITE_SIZE cfg = W2
     \<and> BACKING_SIZE cfg = PAGE_COUNT lc * PAGE_SIZE lc
     \<and> PAGE_SIZE lc = FEE_PAGE_SIZE mc \<and> 0 < PAGE_SIZE lc
     \<and> base mod PAGE_SIZE lc = 0 \<and> base + BACKING_SIZE cfg \<le> MOCK_FLASH_SIZE mc
     \<and> MOCK_FLASH_SIZE mc < 2 ^ 32
     \<and> BASE_PAGE_ADDRESS lc = flash_addr mc + of_nat base"

definition mock_ready :: "mock_config \<Rightarrow> mock_flash \<Rightarrow> bool" where
  "mock_ready mc d \<longleftrightarrow> length (FlashBuf d) = MOCK_FLASH_SIZE mc"

definition mock_mem :: "wl_config \<Rightarrow> nat \<Rightarrow> mock_flash \<Rightarrow> uint8 list" where
  "mock_mem cfg base d = window base (BACKING_SIZE cfg) (FlashBuf d)"

lemma flash_offset:
  assumes l: "legacy_layout cfg lc mc base" and a: "a < BACKING_SIZE cfg"
  shows "unat (BASE_PAGE_ADDRESS lc + of_nat a - flash_addr mc) = base + a"
proof -
  have "BASE_PAGE_ADDRESS lc + of_nat a - flash_addr mc = of_nat (base + a)"
    using l by (simp add: legacy_layout_def)
  moreover have "base + a < 2 ^ LENGTH(32)" using l a unfolding legacy_layout_def by auto
  ultimately show ?thesis by (simp only: unat_of_nat_small)
qed

lemma mock_erase_page:
  assumes l: "legacy_layout cfg lc mc base" and d: "mock_ready mc d" and i: "i < PAGE_COUNT lc"
  shows "mock_ErasePage mc (BASE_PAGE_ADDRESS lc + of_nat (i * PAGE_SIZE lc)) d =
    (if flash_locked d then (FLASH_ERROR_WRP, d)
     else (FLASH_COMPLETE, d\<lparr>FlashBuf := patch (base + i * PAGE_SIZE lc) (replicate (PAGE_SIZE lc) 0xFF) (FlashBuf d)\<rparr>))"
    and "mock_mem cfg base (d\<lparr>FlashBuf := patch (base + i * PAGE_SIZE lc) (replicate (PAGE_SIZE lc) 0xFF) (FlashBuf d)\<rparr>)
      = patch (i * PAGE_SIZE lc) (replicate (PAGE_SIZE lc) 0xFF) (mock_mem cfg base d)"
proof -
  have le: "i * PAGE_SIZE lc + PAGE_SIZE lc \<le> BACKING_SIZE cfg" "0 < PAGE_SIZE lc" "PAGE_SIZE lc = FEE_PAGE_SIZE mc"
    "base mod PAGE_SIZE lc = 0" "base + BACKING_SIZE cfg \<le> MOCK_FLASH_SIZE mc"
    using l block_bound [OF i] by (auto simp: legacy_layout_def)
  have u: "unat (BASE_PAGE_ADDRESS lc + of_nat (i * PAGE_SIZE lc) - flash_addr mc) = base + i * PAGE_SIZE lc"
    using le by (intro flash_offset [OF l]) simp
  have m: "(base + i * PAGE_SIZE lc) mod FEE_PAGE_SIZE mc = 0" using le by simp
  show "mock_ErasePage mc (BASE_PAGE_ADDRESS lc + of_nat (i * PAGE_SIZE lc)) d =
    (if flash_locked d then (FLASH_ERROR_WRP, d)
     else (FLASH_COMPLETE, d\<lparr>FlashBuf := patch (base + i * PAGE_SIZE lc) (replicate (PAGE_SIZE lc) 0xFF) (FlashBuf d)\<rparr>))"
    unfolding mock_ErasePage_def u Let_def m using le by simp
  show "mock_mem cfg base (d\<lparr>FlashBuf := patch (base + i * PAGE_SIZE lc) (replicate (PAGE_SIZE lc) 0xFF) (FlashBuf d)\<rparr>)
      = patch (i * PAGE_SIZE lc) (replicate (PAGE_SIZE lc) 0xFF) (mock_mem cfg base d)"
    using le d window_patch_inside [of "i * PAGE_SIZE lc" "replicate (PAGE_SIZE lc) 0xFF" "BACKING_SIZE cfg" base "FlashBuf d"]
    by (simp add: mock_mem_def mock_ready_def)
qed

theorem mock_is_legacy_flash:
  assumes l: "legacy_layout cfg lc mc base"
  shows "legacy_flash cfg lc (mock_flash_ops mc) (mock_mem cfg base) (mock_ready mc) (\<lambda>d. \<not> flash_locked d)"
proof -
  note off = flash_offset [OF l]
  have b: "base + BACKING_SIZE cfg \<le> MOCK_FLASH_SIZE mc" using l unfolding legacy_layout_def by blast
  have prog: "mock_ProgramHalfWord mc (BASE_PAGE_ADDRESS lc + of_nat a) v d =
      (if flash_locked d then (FLASH_ERROR_WRP, d)
       else (FLASH_COMPLETE, d\<lparr>FlashBuf := patch (base + a) v (FlashBuf d)\<rparr>))
    \<and> mock_mem cfg base (d\<lparr>FlashBuf := patch (base + a) v (FlashBuf d)\<rparr>) = patch a v (mock_mem cfg base d)
    \<and> mock_ready mc (d\<lparr>FlashBuf := patch (base + a) v (FlashBuf d)\<rparr>)"
    if d: "mock_ready mc d" "length v = 2" "a + 2 \<le> BACKING_SIZE cfg" "window a 2 (mock_mem cfg base d) = [0xFF, 0xFF]"
    for a v d
  proof -
    have "window (base + a) 2 (FlashBuf d) = [0xFF, 0xFF]"
      using d b window_window [of a 2 "BACKING_SIZE cfg" base "FlashBuf d"] by (simp add: mock_mem_def)
    then show ?thesis
      using d b off [of a] window_patch_inside [of a v "BACKING_SIZE cfg" base "FlashBuf d"]
      by (simp add: mock_ProgramHalfWord_def Let_def mock_mem_def mock_ready_def)
  qed
  have half: "flash_halfword (mock_flash_ops mc) (BASE_PAGE_ADDRESS lc + of_nat a) d = window a 2 (mock_mem cfg base d)"
    if "a + 2 \<le> BACKING_SIZE cfg" for a d
    using that off [of a] window_window [of a 2 "BACKING_SIZE cfg" base "FlashBuf d"]
    by (simp add: mock_flash_ops_def mock_mem_def)
  have er: "mock_ready mc (d\<lparr>FlashBuf := patch (base + i * PAGE_SIZE lc) (replicate (PAGE_SIZE lc) 0xFF) (FlashBuf d)\<rparr>)"
    if "mock_ready mc d" "i < PAGE_COUNT lc" for i d
    using that l block_bound [OF that(2), of "PAGE_SIZE lc"] by (auto simp: mock_ready_def legacy_layout_def)
  show ?thesis
    using l mock_erase_page [OF l] prog half er b
    by unfold_locales
      (auto simp: legacy_layout_def mock_flash_ops_def mock_Unlock_def mock_Lock_def mock_mem_def mock_ready_def
        split: if_splits)
qed

subsection \<open>The STM32F072 configuration\<close>

text \<open>
  The values \<^verbatim>\<open>wear_leveling_legacy_config.h\<close> gives for the STM32F072, on the 64 kB flash of the test
  platform (\<^verbatim>\<open>platforms/test/rules.mk\<close>): one page of 2048 bytes at its end.
\<close>

definition f072_wl :: wl_config where
  "f072_wl = \<lparr>WRITE_SIZE = W2, BACKING_SIZE = 2048, LOGICAL_SIZE = 1024\<rparr>"

definition f072_legacy :: "uint32 \<Rightarrow> legacy_config" where
  "f072_legacy addr = \<lparr>BASE_PAGE_ADDRESS = addr + 63488, PAGE_COUNT = 1, PAGE_SIZE = 2048\<rparr>"

definition f072_mock :: "uint32 \<Rightarrow> mock_config" where
  "f072_mock addr = \<lparr>flash_addr = addr, MOCK_FLASH_SIZE = 65536, FEE_PAGE_SIZE = 2048\<rparr>"

lemma f072_layout: "legacy_layout f072_wl (f072_legacy addr) (f072_mock addr) 63488"
  by (simp add: legacy_layout_def f072_wl_def f072_legacy_def f072_mock_def)

lemma f072_valid: "valid_config f072_wl"
  by (simp add: valid_config_def f072_wl_def)

interpretation f072: legacy_flash f072_wl "f072_legacy addr" "mock_flash_ops (f072_mock addr)"
  "mock_mem f072_wl 63488" "mock_ready (f072_mock addr)" "\<lambda>d. \<not> flash_locked d"
  for addr :: uint32
  by (rule mock_is_legacy_flash [OF f072_layout])

text \<open>An erased STM32F072 flash with the module state that goes with it.\<close>

definition f072_erased :: "mock_flash wear_leveling" where
  "f072_erased = \<lparr>cache = replicate 1024 0, write_address = 1032, unlocked = False,
     device = \<lparr>FlashBuf = replicate 65536 0xFF, flash_locked = True\<rparr>\<rparr>"

lemma f072_erased_store: "map (\<lambda>b. NOT b) (mock_mem f072_wl 63488 (device f072_erased)) = replicate 2048 0"
  by (simp add: f072_erased_def mock_mem_def window_def f072_wl_def)

subsection \<open>The emulated EEPROM\<close>

definition eeprom_driver_init ::
  "wl_config \<Rightarrow> 'd backing_ops \<Rightarrow> uint8 list \<Rightarrow> 'd wear_leveling \<Rightarrow> 'd wear_leveling" where
  "eeprom_driver_init cfg ops junk s = snd (wear_leveling_init cfg ops junk s)"

definition eeprom_driver_erase :: "wl_config \<Rightarrow> 'd backing_ops \<Rightarrow> 'd wear_leveling \<Rightarrow> 'd wear_leveling" where
  "eeprom_driver_erase cfg ops s = snd (wear_leveling_erase cfg ops s)"

text \<open>\<open>buf\<close> is what the caller's buffer holds before the call; a failed read leaves it alone.\<close>

definition eeprom_read_block :: "wl_config \<Rightarrow> uint8 list \<Rightarrow> nat \<Rightarrow> nat \<Rightarrow> 'd wear_leveling \<Rightarrow> uint8 list" where
  "eeprom_read_block cfg buf addr len s =
     (case wear_leveling_read cfg addr len s of Some v \<Rightarrow> v | None \<Rightarrow> buf)"

definition eeprom_write_block ::
  "wl_config \<Rightarrow> 'd backing_ops \<Rightarrow> uint8 list \<Rightarrow> nat \<Rightarrow> 'd wear_leveling \<Rightarrow> 'd wear_leveling" where
  "eeprom_write_block cfg ops buf addr s = snd (wear_leveling_write cfg ops addr buf s)"

context legacy_flash
begin

text \<open>The power cycle seen through the EEPROM functions.\<close>

lemma eeprom_power_cycle:
  assumes cfg: "valid_config cfg" and s: "ready (device s)" "unlocked s \<Longrightarrow> opened (device s)"
    and ws: "\<forall>(a, v)\<in>set ws. a + length v \<le> LOGICAL_SIZE cfg" and junk: "8 \<le> length junk"
    and s1: "s1 = fold (\<lambda>(a, v) s. eeprom_write_block cfg (legacy_ops fl lc) v a s) ws
      (eeprom_driver_erase cfg (legacy_ops fl lc) s)"
  shows "ready (device s1)"
    and "ready (device s') \<Longrightarrow> mem (device s') = mem (device s1) \<Longrightarrow> addr + n \<le> LOGICAL_SIZE cfg \<Longrightarrow>
      eeprom_read_block cfg buf addr n (eeprom_driver_init cfg (legacy_ops fl lc) junk s') =
      window addr n (fold (\<lambda>(a, v) c. patch a v c) ws (replicate (LOGICAL_SIZE cfg) 0))"
proof -
  have s1': "s1 = fold (\<lambda>(a, v) s. snd (wear_leveling_write cfg (legacy_ops fl lc) a v s)) ws
      (snd (wear_leveling_erase cfg (legacy_ops fl lc) s))"
    unfolding s1 eeprom_write_block_def eeprom_driver_erase_def ..
  show "ready (device s1)" by (rule power_cycle(1) [OF cfg s ws junk s1'])
  assume dev: "ready (device s')" "mem (device s') = mem (device s1)" and fit: "addr + n \<le> LOGICAL_SIZE cfg"
  have "store (device s') = store (device s1)" using dev(2) by (simp add: store_def)
  then obtain s2 where "wear_leveling_init cfg (legacy_ops fl lc) junk s' = (WEAR_LEVELING_SUCCESS, s2)"
    "cache s2 = fold (\<lambda>(a, v) c. patch a v c) ws (replicate (LOGICAL_SIZE cfg) 0)"
    using power_cycle(2) [OF cfg s ws junk s1' dev(1)] by blast
  moreover have "addr + n < 2 ^ 32" using fit config_facts(5) [OF cfg] by simp
  ultimately show "eeprom_read_block cfg buf addr n (eeprom_driver_init cfg (legacy_ops fl lc) junk s') =
      window addr n (fold (\<lambda>(a, v) c. patch a v c) ws (replicate (LOGICAL_SIZE cfg) 0))"
    using fit by (simp add: eeprom_driver_init_def eeprom_read_block_def wear_leveling_read_def)
qed

end

text \<open>
  A log whose first entry has the unused type code, on a flash that is still locked as it is after a
  reset: the playback fails, \<open>wear_leveling_consolidate_force\<close> erases without unlocking first, and that fails.
\<close>

lemma consolidate_force_locked:
  assumes "legacy_layout cfg lc mc base" "mock_ready mc (device s)" "flash_locked (device s)" "0 < BACKING_SIZE cfg"
  shows "wear_leveling_consolidate_force cfg (legacy_ops (mock_flash_ops mc) lc) s = (WEAR_LEVELING_FAILED, s)"
proof -
  define f where "f = (\<lambda>i (ret, d). let (status, d) = mock_ErasePage mc (BASE_PAGE_ADDRESS lc + of_nat (i * PAGE_SIZE lc)) d
         in (if status \<noteq> FLASH_COMPLETE then False else ret, d))"
  have "fold f xs (r, device s) = (r \<and> xs = [], device s)" for xs r
    by (induction xs arbitrary: r) (auto simp: f_def mock_ErasePage_def assms(3))
  moreover have "0 < PAGE_COUNT lc" using assms(1,4) by (auto simp: legacy_layout_def)
  ultimately have "legacy_erase (mock_flash_ops mc) lc (device s) = (False, device s)"
    by (simp add: legacy_erase_def mock_flash_ops_def f_def)
  then show ?thesis
    by (simp add: wear_leveling_consolidate_force_def on_device_def legacy_ops_def)
qed

lemma legacy_read_bulk_device: "snd (weak_read_bulk 2 (legacy_read fl lc) a n d) = d"
  by (induction n arbitrary: a) (auto simp: legacy_read_def Let_def split: option.splits prod.splits dest: arg_cong [where f = snd])

lemma legacy_read_consolidated_device:
  assumes "WRITE_SIZE cfg = W2" "wear_leveling_read_consolidated cfg (legacy_ops fl lc) junk s = (st, s')"
  shows "device s' = device s"
proof -
  have d: "d' = d" if "weak_read_bulk 2 (legacy_read fl lc) a n d = (r, d')" for a n d r d'
    using legacy_read_bulk_device [of fl lc a n d] that by simp
  show ?thesis
    using assms
    by (auto simp: wear_leveling_read_consolidated_def legacy_ops_def on_device_def checksum_read_def Let_def
        wear_leveling_clear_cache_def split: prod.splits option.splits if_splits dest!: d)
qed

lemma playback_unused_type:
  assumes "WRITE_SIZE cfg = W2" "log_start cfg < BACKING_SIZE cfg"
    and "legacy_read fl lc (log_start cfg) (device s) = (Some val, device s)"
    and "length val = 2" "LOG_ENTRY_GET_TYPE val = 3"
  shows "playback_loop cfg (legacy_ops fl lc) junk (log_start cfg) s = (False, log_start cfg + 2, s)"
proof -
  have v: "patch 0 val junk ! 0 = val ! 0" using assms(4) by (cases val) (auto simp: patch_def)
  have t: "LOG_ENTRY_GET_TYPE (patch 0 val junk) = 3" using assms(5) v by (simp add: LOG_ENTRY_GET_TYPE_def)
  have "val ! 0 \<noteq> 0" using assms(5) by (auto simp: LOG_ENTRY_GET_TYPE_def)
  then have "\<not> list_all (\<lambda>b. b = 0) val" using assms(4) by (auto simp: list_all_length intro!: exI [of _ 0])
  then show ?thesis
    using assms(1-3) t
    by (simp add: playback_loop.simps [of cfg _ _ "log_start cfg"] on_device_def legacy_ops_def playback_entry_def
        log_entry_types)
qed

end
