(* ===== verification/Eeprom.thy ===== *)
theory Eeprom
  imports Legacy_Flash
begin

text \<open>
  The byte, word and update functions every EEPROM driver shares (\<^verbatim>\<open>drivers/eeprom/eeprom_driver.c\<close>), over the two
  block functions of a driver. What a client may rely on is the locale \<open>eeprom\<close>; the EEPROM that is emulated by wear leveling keeps it.
\<close>

subsection \<open>The shared functions\<close>

text \<open>\<open>eeprom_read_block\<close> gets the former content of the caller's buffer.\<close>

record 'e eeprom_ops =
  read_block :: "uint8 list \<Rightarrow> nat \<Rightarrow> nat \<Rightarrow> 'e \<Rightarrow> uint8 list"
  write_block :: "uint8 list \<Rightarrow> nat \<Rightarrow> 'e \<Rightarrow> 'e"

definition eeprom_read_byte :: "'e eeprom_ops \<Rightarrow> nat \<Rightarrow> 'e \<Rightarrow> uint8" where
  "eeprom_read_byte ops addr s = le_value (read_block ops [0] addr 1 s)"
definition eeprom_read_word :: "'e eeprom_ops \<Rightarrow> nat \<Rightarrow> 'e \<Rightarrow> uint16" where
  "eeprom_read_word ops addr s = le_value (read_block ops (replicate 2 0) addr 2 s)"
definition eeprom_read_dword :: "'e eeprom_ops \<Rightarrow> nat \<Rightarrow> 'e \<Rightarrow> uint32" where
  "eeprom_read_dword ops addr s = le_value (read_block ops (replicate 4 0) addr 4 s)"

definition eeprom_write_byte :: "'e eeprom_ops \<Rightarrow> nat \<Rightarrow> uint8 \<Rightarrow> 'e \<Rightarrow> 'e" where
  "eeprom_write_byte ops addr v = write_block ops (le_bytes 1 v) addr"
definition eeprom_write_word :: "'e eeprom_ops \<Rightarrow> nat \<Rightarrow> uint16 \<Rightarrow> 'e \<Rightarrow> 'e" where
  "eeprom_write_word ops addr v = write_block ops (le_bytes 2 v) addr"
definition eeprom_write_dword :: "'e eeprom_ops \<Rightarrow> nat \<Rightarrow> uint32 \<Rightarrow> 'e \<Rightarrow> 'e" where
  "eeprom_write_dword ops addr v = write_block ops (le_bytes 4 v) addr"

text \<open>\<open>junk\<close> is what the local array \<open>read_buf\<close> holds before it is read into.\<close>

definition eeprom_update_block :: "'e eeprom_ops \<Rightarrow> uint8 list \<Rightarrow> uint8 list \<Rightarrow> nat \<Rightarrow> 'e \<Rightarrow> 'e" where
  "eeprom_update_block ops junk buf addr s =
     (if buf \<noteq> read_block ops junk addr (length buf) s then write_block ops buf addr s else s)"
definition eeprom_update_byte :: "'e eeprom_ops \<Rightarrow> nat \<Rightarrow> uint8 \<Rightarrow> 'e \<Rightarrow> 'e" where
  "eeprom_update_byte ops addr v s = (if eeprom_read_byte ops addr s \<noteq> v then eeprom_write_byte ops addr v s else s)"
definition eeprom_update_word :: "'e eeprom_ops \<Rightarrow> nat \<Rightarrow> uint16 \<Rightarrow> 'e \<Rightarrow> 'e" where
  "eeprom_update_word ops addr v s = (if eeprom_read_word ops addr s \<noteq> v then eeprom_write_word ops addr v s else s)"
definition eeprom_update_dword :: "'e eeprom_ops \<Rightarrow> nat \<Rightarrow> uint32 \<Rightarrow> 'e \<Rightarrow> 'e" where
  "eeprom_update_dword ops addr v s = (if eeprom_read_dword ops addr s \<noteq> v then eeprom_write_dword ops addr v s else s)"

subsection \<open>The contract of a driver\<close>

locale eeprom =
  fixes ops :: "'e eeprom_ops"
    and bytes :: "'e \<Rightarrow> uint8 list"
    and ok :: "'e \<Rightarrow> bool"
    and size :: nat
  assumes length_bytes: "ok s \<Longrightarrow> length (bytes s) = size"
    and read_law: "ok s \<Longrightarrow> a + n \<le> size \<Longrightarrow> read_block ops buf a n s = window a n (bytes s)"
    and write_law: "ok s \<Longrightarrow> a + length v \<le> size \<Longrightarrow> ok (write_block ops v a s) \<and> bytes (write_block ops v a s) = patch a v (bytes s)"
begin

lemma read_byte: "ok s \<Longrightarrow> a < size \<Longrightarrow> eeprom_read_byte ops a s = bytes s ! a"
  using read_law [of s a 1 "[0]"] length_bytes [of s]
  by (simp add: eeprom_read_byte_def window_def take_Suc_conv_app_nth flip: One_nat_def) (simp add: take_Suc drop_Suc hd_drop_conv_nth)

lemma update_byte: "ok s \<Longrightarrow> a < size \<Longrightarrow> ok (eeprom_update_byte ops a v s) \<and> bytes (eeprom_update_byte ops a v s) = (bytes s)[a := v]"
  using write_law [of s a "[v]"] read_byte [of s a] length_bytes [of s]
  by (auto simp: eeprom_update_byte_def eeprom_write_byte_def list_update_patch [symmetric])

lemma update_block:
  "ok s \<Longrightarrow> a + length v \<le> size \<Longrightarrow> ok (eeprom_update_block ops junk v a s) \<and> bytes (eeprom_update_block ops junk v a s) = patch a v (bytes s)"
  using write_law [of s a v] read_law [of s a "length v" junk] length_bytes [of s] patch_window_same [of a "length v" "bytes s"]
  by (auto simp: eeprom_update_block_def)

lemma word_roundtrip:
  assumes "ok s" "a + 2 \<le> size"
  shows "eeprom_read_word ops a (eeprom_write_word ops a v s) = v"
  using write_law [of s a "le_bytes 2 v"] read_law [of "eeprom_write_word ops a v s" a 2 "replicate 2 0"] length_bytes [of s] assms
  by (simp add: eeprom_read_word_def eeprom_write_word_def le_value_le_bytes)

lemma dword_roundtrip:
  assumes "ok s" "a + 4 \<le> size"
  shows "eeprom_read_dword ops a (eeprom_write_dword ops a v s) = v"
  using write_law [of s a "le_bytes 4 v"] read_law [of "eeprom_write_dword ops a v s" a 4 "replicate 4 0"] length_bytes [of s] assms
  by (simp add: eeprom_read_dword_def eeprom_write_dword_def le_value_le_bytes)

text \<open>The update functions skip a write that would change nothing, and that is all.\<close>

lemma update_word_as_write:
  assumes "ok s" "a + 2 \<le> size"
  shows "ok (eeprom_update_word ops a v s) \<and> eeprom_read_word ops a (eeprom_update_word ops a v s) = v"
  using word_roundtrip [OF assms, of v] assms write_law [of s a "le_bytes 2 v"] by (auto simp: eeprom_update_word_def eeprom_write_word_def)

lemma update_dword_as_write:
  assumes "ok s" "a + 4 \<le> size"
  shows "ok (eeprom_update_dword ops a v s) \<and> eeprom_read_dword ops a (eeprom_update_dword ops a v s) = v"
  using dword_roundtrip [OF assms, of v] assms write_law [of s a "le_bytes 4 v"] by (auto simp: eeprom_update_dword_def eeprom_write_dword_def)

end

subsection \<open>The EEPROM that wear leveling emulates\<close>

definition wl_eeprom :: "wl_config \<Rightarrow> 'd backing_ops \<Rightarrow> 'd wear_leveling eeprom_ops" where
  "wl_eeprom cfg ops = \<lparr>read_block = eeprom_read_block cfg, write_block = eeprom_write_block cfg ops\<rparr>"

locale wear_leveled = reliable_store cfg ops contents ready opened
  for cfg and ops :: "'d backing_ops" and contents and ready and opened +
  assumes valid: "valid_config cfg"
begin

definition running :: "'d wear_leveling \<Rightarrow> bool" where
  "running s \<longleftrightarrow> wl_inv s \<and> (unlocked s \<longrightarrow> opened (device s))"

lemma running_after_erase:
  assumes "ready (device s)" "unlocked s \<longrightarrow> opened (device s)"
  shows "running (eeprom_driver_erase cfg ops s) \<and> cache (eeprom_driver_erase cfg ops s) = replicate (LOGICAL_SIZE cfg) 0"
proof -
  obtain s' where "wear_leveling_erase cfg ops s = (WEAR_LEVELING_SUCCESS, s')" "wl_inv s'" "cache s' = replicate (LOGICAL_SIZE cfg) 0"
    "unlocked s' \<Longrightarrow> opened (device s')"
    using erase_total [OF valid assms(1)] assms(2) by metis
  then show ?thesis by (simp add: running_def eeprom_driver_erase_def)
qed

text \<open>A restart with the same device brings back what was stored.\<close>

lemma restart:
  assumes "running s" "ready (device s')" "contents (device s') = contents (device s)" "8 \<le> length junk"
  shows "cache (eeprom_driver_init cfg ops junk s') = cache s" "wl_inv (eeprom_driver_init cfg ops junk s')"
proof -
  have "records cfg (contents (device s')) (write_address s) (cache s)" "write_address s < BACKING_SIZE cfg"
    using assms(1,3) by (auto simp: running_def wl_inv_def appendable_def)
  from init_restores [OF valid assms(2,4) this]
  show "cache (eeprom_driver_init cfg ops junk s') = cache s" "wl_inv (eeprom_driver_init cfg ops junk s')"
    by (auto simp: eeprom_driver_init_def)
qed

end

sublocale wear_leveled \<subseteq> eeprom "wl_eeprom cfg ops" cache running "LOGICAL_SIZE cfg"
proof unfold_locales
  fix s assume s: "running s"
  show "length (cache s) = LOGICAL_SIZE cfg" using s by (simp add: running_def wl_inv_def appendable_def)
  fix a
  show "read_block (wl_eeprom cfg ops) buf a n s = window a n (cache s)" if "a + n \<le> LOGICAL_SIZE cfg" for buf n
  proof -
    have "a + n < 2 ^ 32" using that config_facts(5) [OF valid] by simp
    then show ?thesis using that by (simp add: wl_eeprom_def eeprom_read_block_def wear_leveling_read_def)
  qed
  fix v :: "uint8 list" assume "a + length v \<le> LOGICAL_SIZE cfg"
  moreover have "unlocked s \<Longrightarrow> opened (device s)" "wl_inv s" using s by (simp_all add: running_def)
  ultimately obtain st s' where "wear_leveling_write cfg ops a v s = (st, s')" "wl_inv s'" "cache s' = patch a v (cache s)"
    "unlocked s' \<Longrightarrow> opened (device s')"
    using write_total [OF valid] by metis
  then show "running (write_block (wl_eeprom cfg ops) v a s) \<and> cache (write_block (wl_eeprom cfg ops) v a s) = patch a v (cache s)"
    by (simp add: wl_eeprom_def eeprom_write_block_def running_def)
qed

context wear_leveled
begin

lemma is_eeprom: "eeprom (wl_eeprom cfg ops) cache running (LOGICAL_SIZE cfg)"
  by (rule eeprom_axioms)

lemma running_ready: "running s \<Longrightarrow> ready (device s)"
  by (simp add: running_def wl_inv_def appendable_def)

end

text \<open>The flash of the test platform, in any layout and as the STM32F072 has it.\<close>

context legacy_flash
begin

lemma is_wear_leveled: "valid_config cfg \<Longrightarrow> wear_leveled cfg (legacy_ops fl lc) store ready opened"
  by (intro wear_leveled.intro wear_leveled_axioms.intro reliable_store_axioms)

end

lemmas mock_is_wear_leveled = legacy_flash.is_wear_leveled [OF mock_is_legacy_flash]

interpretation f072_eeprom: wear_leveled f072_wl "legacy_ops (mock_flash_ops (f072_mock addr)) (f072_legacy addr)"
  "legacy_flash.store (mock_mem f072_wl 63488)" "mock_ready (f072_mock addr)" "\<lambda>d. \<not> flash_locked d"
  for addr :: uint32
  by (rule mock_is_wear_leveled [OF f072_layout f072_valid])

end
