(* ===== verification/Dynamic_Keymap.thy ===== *)
theory Dynamic_Keymap
  imports Eeprom
begin

text \<open>
  Keymaps and macros that are stored in the EEPROM (\<^verbatim>\<open>quantum/dynamic_keymap.c\<close>), over any EEPROM driver. The settings of the build and
  \<open>keycode_at_keymap_location_raw\<close> are parameters; a keymap has no encoder map unless \<open>ENCODER_MAP_ENABLE\<close> is set.
\<close>

subsection \<open>Layout\<close>

record dk_config =
  DYNAMIC_KEYMAP_EEPROM_ADDR :: nat
  DYNAMIC_KEYMAP_EEPROM_MAX_ADDR :: nat
  DYNAMIC_KEYMAP_LAYER_COUNT :: nat
  DYNAMIC_KEYMAP_MACRO_COUNT :: nat
  dk_rows :: nat
  dk_cols :: nat
  NUM_ENCODERS :: nat
  ENCODER_MAP_ENABLE :: bool

definition keymap_size :: "dk_config \<Rightarrow> nat" where
  "keymap_size dk = DYNAMIC_KEYMAP_LAYER_COUNT dk * dk_rows dk * dk_cols dk * 2"
definition DYNAMIC_KEYMAP_ENCODER_EEPROM_ADDR :: "dk_config \<Rightarrow> nat" where
  "DYNAMIC_KEYMAP_ENCODER_EEPROM_ADDR dk = DYNAMIC_KEYMAP_EEPROM_ADDR dk + keymap_size dk"
definition DYNAMIC_KEYMAP_MACRO_EEPROM_ADDR :: "dk_config \<Rightarrow> nat" where
  "DYNAMIC_KEYMAP_MACRO_EEPROM_ADDR dk =
     DYNAMIC_KEYMAP_ENCODER_EEPROM_ADDR dk
     + (if ENCODER_MAP_ENABLE dk then DYNAMIC_KEYMAP_LAYER_COUNT dk * NUM_ENCODERS dk * 2 * 2 else 0)"
definition DYNAMIC_KEYMAP_MACRO_EEPROM_SIZE :: "dk_config \<Rightarrow> nat" where
  "DYNAMIC_KEYMAP_MACRO_EEPROM_SIZE dk = DYNAMIC_KEYMAP_EEPROM_MAX_ADDR dk + 1 - DYNAMIC_KEYMAP_MACRO_EEPROM_ADDR dk"

text \<open>The checks at compile time, for an EEPROM of \<open>eeprom_size\<close> bytes.\<close>

definition dk_valid :: "nat \<Rightarrow> dk_config \<Rightarrow> bool" where
  "dk_valid eeprom_size dk \<longleftrightarrow>
     DYNAMIC_KEYMAP_EEPROM_MAX_ADDR dk < eeprom_size \<and> DYNAMIC_KEYMAP_EEPROM_MAX_ADDR dk \<le> 65535
     \<and> DYNAMIC_KEYMAP_MACRO_EEPROM_ADDR dk + 100 \<le> DYNAMIC_KEYMAP_EEPROM_MAX_ADDR dk"

subsection \<open>Keymaps\<close>

definition dynamic_keymap_key_to_eeprom_address :: "dk_config \<Rightarrow> uint8 \<Rightarrow> uint8 \<Rightarrow> uint8 \<Rightarrow> nat" where
  "dynamic_keymap_key_to_eeprom_address dk layer row column =
     DYNAMIC_KEYMAP_EEPROM_ADDR dk + unat layer * dk_rows dk * dk_cols dk * 2 + unat row * dk_cols dk * 2 + unat column * 2"

definition in_keymap :: "dk_config \<Rightarrow> uint8 \<Rightarrow> uint8 \<Rightarrow> uint8 \<Rightarrow> bool" where
  "in_keymap dk layer row column \<longleftrightarrow> \<not> (DYNAMIC_KEYMAP_LAYER_COUNT dk \<le> unat layer \<or> dk_rows dk \<le> unat row \<or> dk_cols dk \<le> unat column)"

text \<open>Keycodes are stored big endian.\<close>

definition read_keycode :: "'e eeprom_ops \<Rightarrow> nat \<Rightarrow> 'e \<Rightarrow> uint16" where
  "read_keycode ops address s = push_bit 8 (ucast (eeprom_read_byte ops address s)) OR ucast (eeprom_read_byte ops (address + 1) s)"
definition update_keycode :: "'e eeprom_ops \<Rightarrow> nat \<Rightarrow> uint16 \<Rightarrow> 'e \<Rightarrow> 'e" where
  "update_keycode ops address keycode s =
     eeprom_update_byte ops (address + 1) (ucast (keycode AND 0xFF)) (eeprom_update_byte ops address (ucast (drop_bit 8 keycode)) s)"

definition dynamic_keymap_get_keycode :: "dk_config \<Rightarrow> 'e eeprom_ops \<Rightarrow> uint8 \<Rightarrow> uint8 \<Rightarrow> uint8 \<Rightarrow> 'e \<Rightarrow> uint16" where
  "dynamic_keymap_get_keycode dk ops layer row column s =
     (if in_keymap dk layer row column then read_keycode ops (dynamic_keymap_key_to_eeprom_address dk layer row column) s else 0)"
definition dynamic_keymap_set_keycode :: "dk_config \<Rightarrow> 'e eeprom_ops \<Rightarrow> uint8 \<Rightarrow> uint8 \<Rightarrow> uint8 \<Rightarrow> uint16 \<Rightarrow> 'e \<Rightarrow> 'e" where
  "dynamic_keymap_set_keycode dk ops layer row column keycode s =
     (if in_keymap dk layer row column then update_keycode ops (dynamic_keymap_key_to_eeprom_address dk layer row column) keycode s else s)"

definition dynamic_keymap_encoder_to_eeprom_address :: "dk_config \<Rightarrow> uint8 \<Rightarrow> uint8 \<Rightarrow> nat" where
  "dynamic_keymap_encoder_to_eeprom_address dk layer encoder_id =
     DYNAMIC_KEYMAP_ENCODER_EEPROM_ADDR dk + unat layer * NUM_ENCODERS dk * 2 * 2 + unat encoder_id * 2 * 2"
definition dynamic_keymap_get_encoder :: "dk_config \<Rightarrow> 'e eeprom_ops \<Rightarrow> uint8 \<Rightarrow> uint8 \<Rightarrow> bool \<Rightarrow> 'e \<Rightarrow> uint16" where
  "dynamic_keymap_get_encoder dk ops layer encoder_id clockwise s =
     (if DYNAMIC_KEYMAP_LAYER_COUNT dk \<le> unat layer \<or> NUM_ENCODERS dk \<le> unat encoder_id then 0
      else read_keycode ops (dynamic_keymap_encoder_to_eeprom_address dk layer encoder_id + (if clockwise then 0 else 2)) s)"
definition dynamic_keymap_set_encoder :: "dk_config \<Rightarrow> 'e eeprom_ops \<Rightarrow> uint8 \<Rightarrow> uint8 \<Rightarrow> bool \<Rightarrow> uint16 \<Rightarrow> 'e \<Rightarrow> 'e" where
  "dynamic_keymap_set_encoder dk ops layer encoder_id clockwise keycode s =
     (if DYNAMIC_KEYMAP_LAYER_COUNT dk \<le> unat layer \<or> NUM_ENCODERS dk \<le> unat encoder_id then s
      else update_keycode ops (dynamic_keymap_encoder_to_eeprom_address dk layer encoder_id + (if clockwise then 0 else 2)) keycode s)"

text \<open>The keymaps of the firmware itself are \<open>raw\<close> and, for encoders, \<open>raw_encoder\<close>.\<close>

definition reset_layer ::
  "dk_config \<Rightarrow> 'e eeprom_ops \<Rightarrow> (uint8 \<Rightarrow> uint8 \<Rightarrow> uint8 \<Rightarrow> uint16) \<Rightarrow> (uint8 \<Rightarrow> uint8 \<Rightarrow> bool \<Rightarrow> uint16) \<Rightarrow> nat \<Rightarrow> 'e \<Rightarrow> 'e" where
  "reset_layer dk ops raw raw_encoder l s =
     (let layer = of_nat l;
          s = fold (\<lambda>r. fold (\<lambda>c. dynamic_keymap_set_keycode dk ops layer (of_nat r) (of_nat c) (raw layer (of_nat r) (of_nat c)))
                [0..<dk_cols dk]) [0..<dk_rows dk] s
      in if ENCODER_MAP_ENABLE dk
         then fold (\<lambda>e s. dynamic_keymap_set_encoder dk ops layer (of_nat e) False (raw_encoder layer (of_nat e) False)
                (dynamic_keymap_set_encoder dk ops layer (of_nat e) True (raw_encoder layer (of_nat e) True) s)) [0..<NUM_ENCODERS dk] s
         else s)"

definition dynamic_keymap_reset ::
  "dk_config \<Rightarrow> 'e eeprom_ops \<Rightarrow> (uint8 \<Rightarrow> uint8 \<Rightarrow> uint8 \<Rightarrow> uint16) \<Rightarrow> (uint8 \<Rightarrow> uint8 \<Rightarrow> bool \<Rightarrow> uint16) \<Rightarrow> 'e \<Rightarrow> 'e" where
  "dynamic_keymap_reset dk ops raw raw_encoder = fold (reset_layer dk ops raw raw_encoder) [0..<DYNAMIC_KEYMAP_LAYER_COUNT dk]"

text \<open>Reading and writing part of an area of \<open>area\<close> bytes at \<open>start\<close>; what lies outside reads as zero and is not written.\<close>

definition get_area :: "'e eeprom_ops \<Rightarrow> nat \<Rightarrow> nat \<Rightarrow> uint16 \<Rightarrow> uint16 \<Rightarrow> 'e \<Rightarrow> uint8 list" where
  "get_area ops start area offset len s =
     map (\<lambda>i. if unat offset + i < area then eeprom_read_byte ops (start + unat offset + i) s else 0) [0..<unat len]"
definition set_area :: "'e eeprom_ops \<Rightarrow> nat \<Rightarrow> nat \<Rightarrow> uint16 \<Rightarrow> uint8 list \<Rightarrow> 'e \<Rightarrow> 'e" where
  "set_area ops start area offset data =
     fold (\<lambda>i s. if unat offset + i < area then eeprom_update_byte ops (start + unat offset + i) (data ! i) s else s) [0..<length data]"

definition dynamic_keymap_get_buffer :: "dk_config \<Rightarrow> 'e eeprom_ops \<Rightarrow> uint16 \<Rightarrow> uint16 \<Rightarrow> 'e \<Rightarrow> uint8 list" where
  "dynamic_keymap_get_buffer dk ops = get_area ops (DYNAMIC_KEYMAP_EEPROM_ADDR dk) (keymap_size dk)"
definition dynamic_keymap_set_buffer :: "dk_config \<Rightarrow> 'e eeprom_ops \<Rightarrow> uint16 \<Rightarrow> uint8 list \<Rightarrow> 'e \<Rightarrow> 'e" where
  "dynamic_keymap_set_buffer dk ops = set_area ops (DYNAMIC_KEYMAP_EEPROM_ADDR dk) (keymap_size dk)"

subsection \<open>Macros\<close>

definition dynamic_keymap_macro_get_buffer :: "dk_config \<Rightarrow> 'e eeprom_ops \<Rightarrow> uint16 \<Rightarrow> uint16 \<Rightarrow> 'e \<Rightarrow> uint8 list" where
  "dynamic_keymap_macro_get_buffer dk ops = get_area ops (DYNAMIC_KEYMAP_MACRO_EEPROM_ADDR dk) (DYNAMIC_KEYMAP_MACRO_EEPROM_SIZE dk)"
definition dynamic_keymap_macro_set_buffer :: "dk_config \<Rightarrow> 'e eeprom_ops \<Rightarrow> uint16 \<Rightarrow> uint8 list \<Rightarrow> 'e \<Rightarrow> 'e" where
  "dynamic_keymap_macro_set_buffer dk ops = set_area ops (DYNAMIC_KEYMAP_MACRO_EEPROM_ADDR dk) (DYNAMIC_KEYMAP_MACRO_EEPROM_SIZE dk)"

definition dynamic_keymap_macro_reset :: "dk_config \<Rightarrow> 'e eeprom_ops \<Rightarrow> 'e \<Rightarrow> 'e" where
  "dynamic_keymap_macro_reset dk ops =
     fold (\<lambda>p. eeprom_update_byte ops p 0)
       [DYNAMIC_KEYMAP_MACRO_EEPROM_ADDR dk..<DYNAMIC_KEYMAP_MACRO_EEPROM_ADDR dk + DYNAMIC_KEYMAP_MACRO_EEPROM_SIZE dk]"

text \<open>Skipping to the macro with number \<open>id\<close>; \<open>n\<close> is the distance to the end of the buffer.\<close>

fun skip_macros :: "(nat \<Rightarrow> uint8) \<Rightarrow> nat \<Rightarrow> nat \<Rightarrow> nat \<Rightarrow> nat option" where
  "skip_macros rd n 0 p = Some p"
| "skip_macros rd 0 (Suc i) p = None"
| "skip_macros rd (Suc n) (Suc i) p = skip_macros rd n (if rd p = 0 then i else Suc i) (p + 1)"

abbreviation (input) SS_QMK_PREFIX :: uint8 where "SS_QMK_PREFIX \<equiv> 1"
abbreviation (input) SS_TAP_CODE :: uint8 where "SS_TAP_CODE \<equiv> 1"
abbreviation (input) SS_DOWN_CODE :: uint8 where "SS_DOWN_CODE \<equiv> 2"
abbreviation (input) SS_UP_CODE :: uint8 where "SS_UP_CODE \<equiv> 3"
abbreviation (input) SS_DELAY_CODE :: uint8 where "SS_DELAY_CODE \<equiv> 4"

text \<open>The digits of a delay and the bar behind them, at most \<open>n + 1\<close> characters.\<close>

fun delay_chars :: "(nat \<Rightarrow> uint8) \<Rightarrow> nat \<Rightarrow> nat \<Rightarrow> uint8 list option" where
  "delay_chars rd n p =
     (if rd p = 0 then None
      else if rd p = 0x7C then Some [rd p]
      else case n of 0 \<Rightarrow> None | Suc m \<Rightarrow> map_option (Cons (rd p)) (delay_chars rd m (p + 1)))"

declare delay_chars.simps [simp del]

text \<open>
  The next string of a macro: the new content of the array \<open>data\<close>, which keeps its old bytes where nothing is stored, and the number of characters it was
  read from; \<open>None\<close> at the end of the macro and where it is broken off.
\<close>

definition next_string :: "(nat \<Rightarrow> uint8) \<Rightarrow> nat \<Rightarrow> uint8 list \<Rightarrow> (uint8 list \<times> nat) option" where
  "next_string rd p data =
     (let data = data[0 := rd p, 1 := 0]
      in if rd p = 0 then None
         else if rd p \<noteq> SS_QMK_PREFIX then Some (data, 1)
         else let code = rd (p + 1); data = data[1 := code]
              in if code = 0 then None
                 else if code = SS_TAP_CODE \<or> code = SS_DOWN_CODE \<or> code = SS_UP_CODE
                 then if rd (p + 2) = 0 then None else Some (data[2 := rd (p + 2), 3 := 0], 3)
                 else if code = SS_DELAY_CODE
                 then map_option (\<lambda>ds. (patch 2 (ds @ [0]) data, 2 + length ds)) (delay_chars rd 4 (p + 2))
                 else Some (data, 2))"

text \<open>The strings that \<open>send_string\<close> gets in at most \<open>n\<close> rounds; \<open>None\<close> if these are not enough.\<close>

fun macro_strings :: "(nat \<Rightarrow> uint8) \<Rightarrow> nat \<Rightarrow> nat \<Rightarrow> uint8 list \<Rightarrow> uint8 list list option" where
  "macro_strings rd 0 p data = None"
| "macro_strings rd (Suc n) p data =
     (case next_string rd p data of
        None \<Rightarrow> Some []
      | Some (data, k) \<Rightarrow> map_option (Cons (takeWhile (\<lambda>c. c \<noteq> 0) data)) (macro_strings rd n (p + k) data))"

definition dynamic_keymap_macro_send :: "nat \<Rightarrow> dk_config \<Rightarrow> 'e eeprom_ops \<Rightarrow> uint8 \<Rightarrow> 'e \<Rightarrow> uint8 list list option" where
  "dynamic_keymap_macro_send n dk ops num s =
     (let start = DYNAMIC_KEYMAP_MACRO_EEPROM_ADDR dk; size = DYNAMIC_KEYMAP_MACRO_EEPROM_SIZE dk; rd = (\<lambda>p. eeprom_read_byte ops p s)
      in if DYNAMIC_KEYMAP_MACRO_COUNT dk \<le> unat num \<or> rd (start + size - 1) \<noteq> 0 then Some []
         else case skip_macros rd size (unat num) start of
           None \<Rightarrow> Some []
         | Some p \<Rightarrow> macro_strings rd n p (replicate 8 0))"

subsection \<open>Macros end\<close>

lemma delay_chars_nonzero:
  "delay_chars rd n p = Some ds \<Longrightarrow> length ds \<le> n + 1 \<and> (\<forall>i<length ds. rd (p + i) \<noteq> 0)"
proof (induction n arbitrary: p ds)
  case 0
  then show ?case by (auto simp: delay_chars.simps split: if_splits)
next
  case (Suc n)
  show ?case
  proof (cases "rd p = 0x7C")
    case True
    then show ?thesis using Suc.prems by (auto simp: delay_chars.simps split: if_splits)
  next
    case False
    then obtain es where es: "ds = rd p # es" "delay_chars rd n (p + 1) = Some es" "rd p \<noteq> 0"
      using Suc.prems by (subst (asm) delay_chars.simps) (auto split: if_splits)
    then have "rd (p + i) \<noteq> 0" if "i < length ds" for i using Suc.IH [OF es(2)] that by (cases i) auto
    then show ?thesis using Suc.IH [OF es(2)] es(1) by simp
  qed
qed

lemma next_string_nonzero:
  assumes "next_string rd p data = Some (data', k)"
  shows "0 < k \<and> (\<forall>i<k. rd (p + i) \<noteq> 0)"
proof -
  have k: "0 < k" "rd p \<noteq> 0" "1 < k \<Longrightarrow> rd (p + 1) \<noteq> 0" "2 + i < k \<Longrightarrow> rd (p + 2 + i) \<noteq> 0" for i
    using assms delay_chars_nonzero [of rd 4 "p + 2"] by (auto simp: next_string_def Let_def split: if_splits)
  have "rd (p + i) \<noteq> 0" if "i < k" for i
  proof -
    show ?thesis
    proof (cases "i < 2")
      case True
      then have "i = 0 \<or> i = 1" by linarith
      then show ?thesis using k(2,3) that by auto
    next
      case False
      then obtain j where "i = 2 + j" using le_Suc_ex [of 2 i] by auto
      then show ?thesis using k(4) [of j] that by (simp add: add.assoc)
    qed
  qed
  then show ?thesis using k(1) by blast
qed

text \<open>A macro is over at the latest at the next null byte, whatever the bytes behind it are.\<close>

lemma macro_strings_end:
  assumes "rd z = 0"
  shows "p \<le> z \<Longrightarrow> z - p < n \<Longrightarrow> macro_strings rd n p data \<noteq> None"
proof (induction n arbitrary: p data)
  case (Suc n)
  show ?case
  proof (cases "next_string rd p data")
    case (Some r)
    obtain data' k where r: "r = (data', k)" by fastforce
    have "0 < k" "\<forall>i<k. rd (p + i) \<noteq> 0" using next_string_nonzero Some r by blast+
    then have "p + k \<le> z" using assms Suc.prems(1) by (metis le_add_diff_inverse not_less nat_add_left_cancel_less linorder_not_le)
    then show ?thesis using Suc.IH [of "p + k" data'] Suc.prems \<open>0 < k\<close> Some r by simp
  qed simp
qed simp

lemma skip_macros_bound: "skip_macros rd n i p = Some q \<Longrightarrow> p \<le> q \<and> q \<le> p + n"
  by (induction rd n i p rule: skip_macros.induct) (fastforce split: if_splits)+

text \<open>
  Sending a macro ends, with as many rounds as the buffer has bytes, if the macro begins inside the buffer. It may begin right behind it: if the null byte
  before macro \<open>num\<close> is the last byte of the buffer, \<open>p == end\<close> is not checked again.
\<close>

lemma macro_send_ends:
  assumes "\<And>p. skip_macros (\<lambda>p. eeprom_read_byte ops p s) (DYNAMIC_KEYMAP_MACRO_EEPROM_SIZE dk) (unat num) (DYNAMIC_KEYMAP_MACRO_EEPROM_ADDR dk) = Some p \<Longrightarrow>
      p < DYNAMIC_KEYMAP_MACRO_EEPROM_ADDR dk + DYNAMIC_KEYMAP_MACRO_EEPROM_SIZE dk"
  shows "dynamic_keymap_macro_send (DYNAMIC_KEYMAP_MACRO_EEPROM_SIZE dk) dk ops num s \<noteq> None"
proof -
  let ?start = "DYNAMIC_KEYMAP_MACRO_EEPROM_ADDR dk" and ?size = "DYNAMIC_KEYMAP_MACRO_EEPROM_SIZE dk" and ?rd = "\<lambda>p. eeprom_read_byte ops p s"
  have "macro_strings ?rd ?size p data \<noteq> None" if "?rd (?start + ?size - 1) = 0" "skip_macros ?rd ?size (unat num) ?start = Some p" for p data
    using macro_strings_end [of ?rd "?start + ?size - 1" p ?size data] that(1) assms [OF that(2)] skip_macros_bound [OF that(2)] by simp
  then show ?thesis by (auto simp: dynamic_keymap_macro_send_def Let_def split: option.split)
qed

subsection \<open>Keymaps read back\<close>

lemma keycode_bytes: "push_bit 8 (ucast (ucast (drop_bit 8 kc) :: uint8)) OR ucast (ucast (kc AND 0xFF) :: uint8) = (kc :: uint16)"
proof -
  have m: "(0xFF :: uint16) = mask 8" by (simp add: mask_numeral)
  show ?thesis unfolding m
    by (rule bit_word_eqI) (auto simp: bit_or_iff bit_push_bit_iff bit_ucast_iff bit_drop_bit_eq bit_and_iff bit_mask_iff)
qed

text \<open>The number of a key; its keycode is stored at twice this offset.\<close>

definition key_number :: "dk_config \<Rightarrow> uint8 \<times> uint8 \<times> uint8 \<Rightarrow> nat" where
  "key_number dk = (\<lambda>(l, r, c). (unat l * dk_rows dk + unat r) * dk_cols dk + unat c)"

lemma key_address: "dynamic_keymap_key_to_eeprom_address dk l r c = DYNAMIC_KEYMAP_EEPROM_ADDR dk + 2 * key_number dk (l, r, c)"
  by (simp add: dynamic_keymap_key_to_eeprom_address_def key_number_def algebra_simps)

lemma mixed_radix_less: "x < (n :: nat) \<Longrightarrow> y < m \<Longrightarrow> x * m + y < n * m"
  using block_bound [of x n m] by linarith

lemma mixed_radix_inj: "(y :: nat) < m \<Longrightarrow> y' < m \<Longrightarrow> x * m + y = x' * m + y' \<Longrightarrow> x = x' \<and> y = y'"
  by (metis add.commute div_mult_self3 div_less mod_mult_self1 mod_less add_cancel_right_left not_less_zero)

lemma key_number_less: "in_keymap dk l r c \<Longrightarrow> 2 * key_number dk (l, r, c) + 2 \<le> keymap_size dk"
  using mixed_radix_less [of "unat l * dk_rows dk + unat r" "DYNAMIC_KEYMAP_LAYER_COUNT dk * dk_rows dk" "unat c" "dk_cols dk"]
    mixed_radix_less [of "unat l" "DYNAMIC_KEYMAP_LAYER_COUNT dk" "unat r" "dk_rows dk"]
  by (simp add: in_keymap_def key_number_def keymap_size_def)

lemma key_number_inj:
  assumes "in_keymap dk l r c" "in_keymap dk l' r' c'" "key_number dk (l, r, c) = key_number dk (l', r', c')"
  shows "(l, r, c) = (l', r', c')"
  using assms mixed_radix_inj [of "unat c" "dk_cols dk" "unat c'" "unat l * dk_rows dk + unat r" "unat l' * dk_rows dk + unat r'"]
    mixed_radix_inj [of "unat r" "dk_rows dk" "unat r'" "unat l" "unat l'"]
  by (simp add: in_keymap_def key_number_def word_unat_eq_iff)

locale keymap_store = eeprom ops bytes ok size
  for ops :: "'e eeprom_ops" and bytes and ok and size +
  fixes dk :: dk_config
  assumes layout: "dk_valid size dk"
begin

abbreviation "get k s \<equiv> (case k of (l, r, c) \<Rightarrow> dynamic_keymap_get_keycode dk ops l r c s)"
abbreviation "set_key k kc s \<equiv> (case k of (l, r, c) \<Rightarrow> dynamic_keymap_set_keycode dk ops l r c kc s)"
abbreviation "inside k \<equiv> (case k of (l, r, c) \<Rightarrow> in_keymap dk l r c)"

lemma area_fits: "DYNAMIC_KEYMAP_EEPROM_ADDR dk + keymap_size dk \<le> DYNAMIC_KEYMAP_MACRO_EEPROM_ADDR dk" "DYNAMIC_KEYMAP_MACRO_EEPROM_ADDR dk < size"
  using layout by (auto simp: dk_valid_def DYNAMIC_KEYMAP_MACRO_EEPROM_ADDR_def DYNAMIC_KEYMAP_ENCODER_EEPROM_ADDR_def)

lemma key_fits: "inside k \<Longrightarrow> DYNAMIC_KEYMAP_EEPROM_ADDR dk + 2 * key_number dk k + 1 < size"
  using key_number_less [of dk "fst k" "fst (snd k)" "snd (snd k)"] area_fits by (auto split: prod.splits)

lemma update_keycode_bytes:
  assumes "ok s" "a + 1 < size"
  shows "ok (update_keycode ops a kc s)"
    "bytes (update_keycode ops a kc s) = (bytes s)[a := ucast (drop_bit 8 kc), a + 1 := ucast (kc AND 0xFF)]"
  using update_byte [OF assms(1), of a "ucast (drop_bit 8 kc)"] update_byte [of "eeprom_update_byte ops a (ucast (drop_bit 8 kc)) s" "a + 1"] assms
  by (simp_all add: update_keycode_def)

lemma read_keycode_bytes:
  "ok s \<Longrightarrow> a + 1 < size \<Longrightarrow> read_keycode ops a s = push_bit 8 (ucast (bytes s ! a)) OR ucast (bytes s ! (a + 1))"
  using read_byte [of s a] read_byte [of s "a + 1"] by (simp add: read_keycode_def)

lemma set_ok: "ok s \<Longrightarrow> ok (set_key k kc s)"
  using update_keycode_bytes(1) [of s "DYNAMIC_KEYMAP_EEPROM_ADDR dk + 2 * key_number dk k" kc] key_fits [of k]
  by (auto simp: dynamic_keymap_set_keycode_def key_address split: prod.splits)

lemma get_set:
  assumes "ok s" "inside k"
  shows "get k (set_key k' kc s) = (if k' = k then kc else get k s)"
proof (cases "inside k'")
  case True
  let ?a = "DYNAMIC_KEYMAP_EEPROM_ADDR dk + 2 * key_number dk k" and ?b = "DYNAMIC_KEYMAP_EEPROM_ADDR dk + 2 * key_number dk k'"
  note f = key_fits [OF assms(2)] key_fits [OF True]
  have g: "get k u = push_bit 8 (ucast (bytes u ! ?a)) OR ucast (bytes u ! (?a + 1))" if "ok u" for u
    using read_keycode_bytes [OF that f(1)] assms(2) by (auto simp: dynamic_keymap_get_keycode_def key_address split: prod.splits)
  have b: "bytes (set_key k' kc s) = (bytes s)[?b := ucast (drop_bit 8 kc), ?b + 1 := ucast (kc AND 0xFF)]"
    using update_keycode_bytes(2) [OF assms(1) f(2), of kc] True by (auto simp: dynamic_keymap_set_keycode_def key_address split: prod.splits)
  show ?thesis
  proof (cases "k' = k")
    case True
    then show ?thesis using g [OF set_ok [OF assms(1)]] b f length_bytes [OF assms(1)] by (simp add: keycode_bytes)
  next
    case False
    then have "key_number dk k' \<noteq> key_number dk k"
      using key_number_inj [of dk "fst k" "fst (snd k)" "snd (snd k)" "fst k'" "fst (snd k')" "snd (snd k')"] assms(2) True by (auto split: prod.splits)
    then have "?a \<noteq> ?b" "?a + 1 \<noteq> ?b" "?a \<noteq> ?b + 1" "?a + 1 \<noteq> ?b + 1" by presburger+
    then show ?thesis using g [OF set_ok [OF assms(1)]] g [OF assms(1)] b False by (simp add: nth_list_update)
  qed
next
  case False
  then show ?thesis using assms(2) by (auto simp: dynamic_keymap_set_keycode_def split: prod.splits)
qed

lemma sets_ok: "ok s \<Longrightarrow> ok (fold (\<lambda>(k, kc). set_key k kc) xs s)"
proof (induction xs arbitrary: s)
  case (Cons x xs)
  then show ?case using set_ok [of s "snd x" "fst x"] by (simp add: case_prod_beta)
qed simp

lemma get_sets:
  "ok s \<Longrightarrow> inside k \<Longrightarrow> get k (fold (\<lambda>(k, kc). set_key k kc) xs s) = fold (\<lambda>(k', kc) v. if k' = k then kc else v) xs (get k s)"
proof (induction xs arbitrary: s)
  case (Cons x xs)
  have "ok (set_key (fst x) (snd x) s)" by (rule set_ok [OF Cons.prems(1)])
  from Cons.IH [OF this Cons.prems(2)] show ?case using get_set [OF Cons.prems, where k' = "fst x" and kc = "snd x"] by (simp add: case_prod_beta)
qed simp

text \<open>A step that assigns the keycodes of \<open>v\<close> to the keys of \<open>A\<close> and leaves all other keys alone.\<close>

definition assigns :: "(uint8 \<times> uint8 \<times> uint8 \<Rightarrow> uint16) \<Rightarrow> (uint8 \<times> uint8 \<times> uint8) set \<Rightarrow> ('e \<Rightarrow> 'e) \<Rightarrow> bool" where
  "assigns v A f \<longleftrightarrow> (\<forall>s. ok s \<longrightarrow> ok (f s) \<and> (\<forall>k. inside k \<longrightarrow> get k (f s) = (if k \<in> A then v k else get k s)))"

lemma assignsD:
  "assigns v A f \<Longrightarrow> ok s \<Longrightarrow> ok (f s)" "assigns v A f \<Longrightarrow> ok s \<Longrightarrow> inside k \<Longrightarrow> k \<in> A \<Longrightarrow> get k (f s) = v k"
  unfolding assigns_def by (blast, metis)

lemma assigns_key: "assigns v {k} (set_key k (v k))"
  unfolding assigns_def using set_ok get_set by simp

lemma assigns_comp: "assigns v A f \<Longrightarrow> assigns v B g \<Longrightarrow> assigns v (A \<union> B) (\<lambda>s. g (f s))"
  unfolding assigns_def by simp

lemma assigns_fold: "(\<And>x. x \<in> set xs \<Longrightarrow> assigns v (A x) (f x)) \<Longrightarrow> assigns v (\<Union>x\<in>set xs. A x) (fold f xs)"
proof (induction xs)
  case Nil
  show ?case by (simp add: assigns_def)
next
  case (Cons x xs)
  then have "assigns v (A x) (f x)" "assigns v (\<Union>x\<in>set xs. A x) (fold f xs)" by simp_all
  from assigns_comp [OF this] show ?case by (simp add: comp_def)
qed

lemma assigns_encoder:
  assumes "ENCODER_MAP_ENABLE dk"
  shows "assigns v {} (dynamic_keymap_set_encoder dk ops l e cw kc)"
  unfolding assigns_def
proof (intro allI impI conjI)
  fix s assume s: "ok s"
  let ?a = "dynamic_keymap_encoder_to_eeprom_address dk l e + (if cw then 0 else 2)"
  let ?in = "\<not> (DYNAMIC_KEYMAP_LAYER_COUNT dk \<le> unat l \<or> NUM_ENCODERS dk \<le> unat e)"
  have e: "DYNAMIC_KEYMAP_EEPROM_ADDR dk + keymap_size dk \<le> ?a" "?in \<Longrightarrow> ?a + 1 < size"
    using mixed_radix_less [of "unat l" "DYNAMIC_KEYMAP_LAYER_COUNT dk" "unat e" "NUM_ENCODERS dk"] area_fits(2) assms
    by (auto simp: dynamic_keymap_encoder_to_eeprom_address_def DYNAMIC_KEYMAP_ENCODER_EEPROM_ADDR_def DYNAMIC_KEYMAP_MACRO_EEPROM_ADDR_def algebra_simps)
  show ok': "ok (dynamic_keymap_set_encoder dk ops l e cw kc s)"
    using update_keycode_bytes(1) [OF s e(2)] s by (auto simp: dynamic_keymap_set_encoder_def)
  fix k assume k: "inside k"
  let ?b = "DYNAMIC_KEYMAP_EEPROM_ADDR dk + 2 * key_number dk k"
  have b: "?b + 2 \<le> DYNAMIC_KEYMAP_EEPROM_ADDR dk + keymap_size dk" using key_number_less k by (auto split: prod.splits)
  have "bytes (dynamic_keymap_set_encoder dk ops l e cw kc s) ! i = bytes s ! i" if "i < ?a" for i
    using update_keycode_bytes(2) [OF s e(2), of kc] that by (auto simp: dynamic_keymap_set_encoder_def)
  moreover have "get k u = push_bit 8 (ucast (bytes u ! ?b)) OR ucast (bytes u ! (?b + 1))" if "ok u" for u
    using read_keycode_bytes [OF that key_fits [OF k]] k by (auto simp: dynamic_keymap_get_keycode_def key_address split: prod.splits)
  ultimately show "get k (dynamic_keymap_set_encoder dk ops l e cw kc s) = (if k \<in> {} then v k else get k s)"
    using ok' s b e(1) by simp
qed

lemma assigns_layer:
  "assigns (\<lambda>(l, r, c). raw l r c) (\<Union>r\<in>{..<dk_rows dk}. \<Union>c\<in>{..<dk_cols dk}. {(of_nat l, of_nat r, of_nat c)}) (reset_layer dk ops raw raw_encoder l)"
proof -
  let ?v = "\<lambda>(l, r, c). raw l r c" and ?l = "of_nat l :: uint8"
  have key: "assigns ?v {(?l, of_nat r, of_nat c)} (dynamic_keymap_set_keycode dk ops ?l (of_nat r) (of_nat c) (raw ?l (of_nat r) (of_nat c)))" for r c
    using assigns_key [of ?v "(?l, of_nat r, of_nat c)"] by simp
  let ?F = "fold (\<lambda>r. fold (\<lambda>c. dynamic_keymap_set_keycode dk ops ?l (of_nat r) (of_nat c) (raw ?l (of_nat r) (of_nat c))) [0..<dk_cols dk]) [0..<dk_rows dk]"
  let ?G = "fold (\<lambda>e s. dynamic_keymap_set_encoder dk ops ?l (of_nat e) False (raw_encoder ?l (of_nat e) False)
        (dynamic_keymap_set_encoder dk ops ?l (of_nat e) True (raw_encoder ?l (of_nat e) True) s)) [0..<NUM_ENCODERS dk]"
  have F: "assigns ?v (\<Union>r\<in>set [0..<dk_rows dk]. \<Union>c\<in>set [0..<dk_cols dk]. {(?l, of_nat r, of_nat c)}) ?F"
    by (intro assigns_fold key)
  show ?thesis
  proof (cases "ENCODER_MAP_ENABLE dk")
    case True
    have G: "assigns ?v (\<Union>e\<in>set [0..<NUM_ENCODERS dk]. {} \<union> {}) ?G"
      by (intro assigns_fold assigns_comp assigns_encoder True)
    have "reset_layer dk ops raw raw_encoder l = (\<lambda>s. ?G (?F s))" by (rule ext) (simp add: reset_layer_def Let_def True)
    then show ?thesis using assigns_comp [OF F G] by (simp add: atLeast0LessThan)
  next
    case False
    then have "reset_layer dk ops raw raw_encoder l = ?F" by (intro ext) (simp add: reset_layer_def Let_def)
    then show ?thesis using F by (simp add: atLeast0LessThan)
  qed
qed

lemma get_reset:
  assumes "ok s" "inside k"
  shows "ok (dynamic_keymap_reset dk ops raw raw_encoder s)" "get k (dynamic_keymap_reset dk ops raw raw_encoder s) = (case k of (l, r, c) \<Rightarrow> raw l r c)"
proof -
  let ?A = "\<lambda>l. \<Union>r\<in>{..<dk_rows dk}. \<Union>c\<in>{..<dk_cols dk}. {(of_nat l :: uint8, of_nat r :: uint8, of_nat c :: uint8)}"
  have a: "assigns (\<lambda>(l, r, c). raw l r c) (\<Union>l\<in>set [0..<DYNAMIC_KEYMAP_LAYER_COUNT dk]. ?A l) (dynamic_keymap_reset dk ops raw raw_encoder)"
    unfolding dynamic_keymap_reset_def by (intro assigns_fold assigns_layer)
  obtain l r c where k: "k = (l, r, c)" by (cases k) auto
  have "unat l < DYNAMIC_KEYMAP_LAYER_COUNT dk" "unat r < dk_rows dk" "unat c < dk_cols dk" using assms(2) k by (auto simp: in_keymap_def)
  moreover have "k = (of_nat (unat l), of_nat (unat r), of_nat (unat c))" by (simp add: k)
  ultimately have "k \<in> (\<Union>l\<in>set [0..<DYNAMIC_KEYMAP_LAYER_COUNT dk]. ?A l)" by fastforce
  from assignsD [OF a assms(1)] assignsD(2) [OF a assms this]
  show "ok (dynamic_keymap_reset dk ops raw raw_encoder s)"
    "get k (dynamic_keymap_reset dk ops raw raw_encoder s) = (case k of (l, r, c) \<Rightarrow> raw l r c)" by simp_all
qed

end

subsection \<open>Buffers read back\<close>

context eeprom
begin

lemma set_area_bytes:
  fixes data and off
  assumes "ok s" "start + area \<le> size"
  defines "f \<equiv> \<lambda>i s. if off + i < area then eeprom_update_byte ops (start + off + i) (data ! i) s else s"
  shows "ok (fold f [0..<n] s) \<and> (\<forall>p. p < size \<longrightarrow> bytes (fold f [0..<n] s) ! p =
    (if start + off \<le> p \<and> p < start + off + n \<and> p < start + area then data ! (p - (start + off)) else bytes s ! p))"
proof (induction n)
  case 0
  show ?case using assms(1) by auto
next
  case (Suc n)
  let ?u = "fold f [0..<n] s"
  have fold: "fold f [0..<Suc n] s = f n ?u" by simp
  show ?case
  proof (cases "off + n < area")
    case True
    then have f: "f n ?u = eeprom_update_byte ops (start + off + n) (data ! n) ?u" by (simp add: f_def)
    have a: "start + off + n < size" using True assms(2) by simp
    note u = update_byte [OF conjunct1 [OF Suc.IH] a, of "data ! n", folded f]
    have "length (bytes ?u) = size" using length_bytes Suc.IH by blast
    then show ?thesis unfolding fold using u Suc.IH True by (auto simp: nth_list_update less_Suc_eq)
  next
    case False
    then show ?thesis unfolding fold using Suc.IH by (auto simp: f_def less_Suc_eq)
  qed
qed

lemma get_set_area:
  assumes "ok s" "start + area \<le> size" "unat len = length data"
  shows "get_area ops start area offset len (set_area ops start area offset data s) =
    map (\<lambda>i. if unat offset + i < area then data ! i else 0) [0..<length data]"
  using set_area_bytes [OF assms(1,2), of "unat offset" data "length data"] assms(2,3) read_byte
  by (auto simp: get_area_def set_area_def)

end

context keymap_store
begin

text \<open>What is written to the macro area is read back; what does not fit is dropped.\<close>

lemma macro_buffer_roundtrip:
  assumes "ok s" "unat len = length data"
  shows "dynamic_keymap_macro_get_buffer dk ops offset len (dynamic_keymap_macro_set_buffer dk ops offset data s) =
    map (\<lambda>i. if unat offset + i < DYNAMIC_KEYMAP_MACRO_EEPROM_SIZE dk then data ! i else 0) [0..<length data]"
  unfolding dynamic_keymap_macro_get_buffer_def dynamic_keymap_macro_set_buffer_def
  using layout assms by (intro get_set_area) (auto simp: dk_valid_def DYNAMIC_KEYMAP_MACRO_EEPROM_SIZE_def)

end

subsection \<open>Keymaps survive a power cycle\<close>

definition assign_keys :: "dk_config \<Rightarrow> 'e eeprom_ops \<Rightarrow> ((uint8 \<times> uint8 \<times> uint8) \<times> uint16) list \<Rightarrow> 'e \<Rightarrow> 'e" where
  "assign_keys dk ops = fold (\<lambda>((l, r, c), kc). dynamic_keymap_set_keycode dk ops l r c kc)"

text \<open>Reading a key of the emulated EEPROM only depends on the cache.\<close>

lemma get_keycode_cache:
  "cache s = cache s' \<Longrightarrow> dynamic_keymap_get_keycode dk (wl_eeprom cfg ops) l r c s = dynamic_keymap_get_keycode dk (wl_eeprom cfg ops) l r c s'"
  by (simp add: dynamic_keymap_get_keycode_def read_keycode_def eeprom_read_byte_def wl_eeprom_def eeprom_read_block_def wear_leveling_read_def)

text \<open>
  C40. The stored keymap, from the keymap functions down to the flash. Erase the EEPROM, reset the keymap to the one of the firmware, assign any keys, cut the
  power and start again: \<open>dynamic_keymap_get_keycode\<close> returns for every key of the keymap the last keycode that was assigned to it, and the one of
  the firmware if there was none; outside the keymap it returns \<open>KC_NO\<close>, and assignments have no effect. Encoder maps do not get in the way.
\<close>

theorem dynamic_keymap_survives_power_cycle:
  fixes s s' :: "mock_flash wear_leveling" and mc lc cfg
  defines "ops \<equiv> legacy_ops (mock_flash_ops mc) lc"
  defines "ee \<equiv> wl_eeprom cfg ops"
  assumes layout: "legacy_layout cfg lc mc base" "valid_config cfg" "dk_valid (LOGICAL_SIZE cfg) dk"
    and flash: "length (FlashBuf (device s)) = MOCK_FLASH_SIZE mc" "unlocked s \<longrightarrow> \<not> flash_locked (device s)"
    and junk: "8 \<le> length junk"
    and power: "FlashBuf (device s') =
      FlashBuf (device (assign_keys dk ee xs (dynamic_keymap_reset dk ee raw raw_encoder (eeprom_driver_erase cfg ops s))))"
  shows "dynamic_keymap_get_keycode dk ee l r c (eeprom_driver_init cfg ops junk s') =
    (if in_keymap dk l r c then fold (\<lambda>(k, kc) v. if k = (l, r, c) then kc else v) xs (raw l r c) else 0)"
proof (cases "in_keymap dk l r c")
  case True
  let ?e = "eeprom_driver_erase cfg ops s"
  let ?s0 = "dynamic_keymap_reset dk ee raw raw_encoder ?e"
  let ?store = "legacy_flash.store (mock_mem cfg base)" and ?opened = "\<lambda>d. \<not> flash_locked d"
  let ?running = "wear_leveled.running cfg ?store (mock_ready mc) ?opened"
  note wl = mock_is_wear_leveled [OF layout(1,2), folded ops_def]
  have km: "keymap_store ee cache ?running (LOGICAL_SIZE cfg) dk"
    unfolding ee_def by (intro keymap_store.intro keymap_store_axioms.intro layout(3) wear_leveled.is_eeprom [OF wl])
  have e: "?running ?e" using wear_leveled.running_after_erase [OF wl] flash by (simp add: mock_ready_def)
  note s0 = keymap_store.get_reset [OF km e, of "(l, r, c)", simplified, OF True, of raw raw_encoder]
  note s1 = keymap_store.sets_ok [OF km s0(1), of xs] keymap_store.get_sets [OF km s0(1), of "(l, r, c)" xs, simplified, OF True]
  have eq: "assign_keys dk ee xs ?s0 = fold (\<lambda>(k, kc) s. case k of (l, r, c) \<Rightarrow> dynamic_keymap_set_keycode dk ee l r c kc s) xs ?s0"
    unfolding assign_keys_def by (intro fold_cong) (auto split: prod.splits)
  have run: "?running (assign_keys dk ee xs ?s0)" unfolding eq by (rule s1(1))
  have ready: "mock_ready mc (device (assign_keys dk ee xs ?s0))" by (rule wear_leveled.running_ready [OF wl run])
  have "cache (eeprom_driver_init cfg ops junk s') = cache (assign_keys dk ee xs ?s0)"
  proof (rule wear_leveled.restart(1) [OF wl run _ _ junk])
    show "mock_ready mc (device s')" using ready power by (simp add: mock_ready_def)
    show "?store (device s') = ?store (device (assign_keys dk ee xs ?s0))"
      using power by (simp add: legacy_flash.store_def [OF mock_is_legacy_flash [OF layout(1)]] mock_mem_def)
  qed
  from get_keycode_cache [OF this, of dk cfg ops l r c, folded ee_def] show ?thesis using s1(2) s0(2) True by (simp add: eq case_prod_beta)
next
  case False
  then show ?thesis by (simp add: dynamic_keymap_get_keycode_def)
qed

text \<open>Two layers of two rows and two columns and one encoder, in the EEPROM of the STM32F072.\<close>

definition sample_dk :: dk_config where
  "sample_dk = \<lparr>DYNAMIC_KEYMAP_EEPROM_ADDR = 100, DYNAMIC_KEYMAP_EEPROM_MAX_ADDR = 1023, DYNAMIC_KEYMAP_LAYER_COUNT = 2,
     DYNAMIC_KEYMAP_MACRO_COUNT = 16, dk_rows = 2, dk_cols = 2, NUM_ENCODERS = 1, ENCODER_MAP_ENABLE = True\<rparr>"

lemma sample_dk_valid: "dk_valid (LOGICAL_SIZE f072_wl) sample_dk"
  by (simp add: dk_valid_def sample_dk_def f072_wl_def DYNAMIC_KEYMAP_MACRO_EEPROM_ADDR_def DYNAMIC_KEYMAP_ENCODER_EEPROM_ADDR_def keymap_size_def)

interpretation f072_keymap: keymap_store "wl_eeprom f072_wl (legacy_ops (mock_flash_ops (f072_mock addr)) (f072_legacy addr))" cache
  "wear_leveled.running f072_wl (legacy_flash.store (mock_mem f072_wl 63488)) (mock_ready (f072_mock addr)) (\<lambda>d. \<not> flash_locked d)"
  "LOGICAL_SIZE f072_wl" sample_dk
  for addr :: uint32
  by (intro keymap_store.intro keymap_store_axioms.intro f072_eeprom.is_eeprom sample_dk_valid)

theorem dynamic_keymap_survives_power_cycle_witness:
  defines "ops \<equiv> legacy_ops (mock_flash_ops (f072_mock 0)) (f072_legacy 0)"
  defines "ee \<equiv> wl_eeprom f072_wl ops"
  defines "s1 \<equiv> assign_keys sample_dk ee [((0, 0, 1), 5), ((0, 0, 1), 7)]
      (dynamic_keymap_reset sample_dk ee (\<lambda>l r c. 9) (\<lambda>l e cw. 0) (eeprom_driver_erase f072_wl ops f072_erased))"
  defines "s' \<equiv> eeprom_driver_init f072_wl ops (replicate 8 7) \<lparr>cache = [], write_address = 0, unlocked = False, device = device s1\<rparr>"
  shows "dynamic_keymap_get_keycode sample_dk ee 0 0 1 s' = 7 \<and> dynamic_keymap_get_keycode sample_dk ee 1 1 1 s' = 9"
proof -
  note k = dynamic_keymap_survives_power_cycle [OF f072_layout [of 0] f072_valid sample_dk_valid, where s = f072_erased and junk = "replicate 8 7"
      and s' = "\<lparr>cache = [], write_address = 0, unlocked = False, device = device s1\<rparr>" and raw = "\<lambda>l r c. 9" and raw_encoder = "\<lambda>l e cw. 0"
      and xs = "[((0, 0, 1), 5), ((0, 0, 1), 7)]", folded ops_def, folded ee_def s1_def, folded s'_def]
  have "length (FlashBuf (device f072_erased)) = MOCK_FLASH_SIZE (f072_mock 0)" "\<not> unlocked f072_erased" "in_keymap sample_dk 0 0 1" "in_keymap sample_dk 1 1 1"
    by (simp_all add: f072_erased_def f072_mock_def in_keymap_def sample_dk_def)
  then show ?thesis using k [of 0 0 1] k [of 1 1 1] by (simp flip: s1_def)
qed

end
