(* ===== verification/Debounce.thy ===== *)
theory Debounce
  imports Prelude
begin

text \<open>
  Key debouncing: what the algorithms of \<^verbatim>\<open>quantum/debounce\<close> share. A matrix is the list of its rows, a
  row a word with a bit per column. Every algorithm reads the timer at most once per call, so the time
  \<open>now\<close> is an argument. The contract \<open>debouncer\<close> is what \<open>matrix_scan\<close> relies on: bits of the
  debounced matrix only ever move to the raw value, and the result says whether any did.
\<close>

subsection \<open>Timer differences\<close>

text \<open>The elapsed time clamped to \<open>UINT8_MAX\<close>, as all per-key and per-row algorithms compute it.\<close>

definition clamped_elapsed :: "uint32 \<Rightarrow> uint32 \<Rightarrow> uint8" where
  "clamped_elapsed now last_t =
     (let elapsed_time = TIMER_DIFF_32 now last_t in if 255 < elapsed_time then 255 else ucast elapsed_time)"

subsection \<open>State\<close>

text \<open>
  The static variables of the per-key and per-row algorithms; \<open>'c\<close> is \<open>debounce_counter_t\<close>.
  \<^verbatim>\<open>sym_defer_pk.c\<close> has no \<open>matrix_need_update\<close>.
\<close>

record 'c debounce_state =
  debounce_counters :: "'c list"
  last_time :: uint32
  counters_need_update :: bool
  matrix_need_update :: bool
  cooked_changed :: bool

type_synonym 'r matrix = "'r word list"

subsection \<open>The contract\<close>

locale debouncer =
  fixes debounce :: "uint32 \<Rightarrow> 'r::len matrix \<Rightarrow> bool \<Rightarrow> 's \<times> 'r matrix \<Rightarrow> bool \<times> 's \<times> 'r matrix"
    and inv :: "'s \<Rightarrow> 'r matrix \<Rightarrow> bool"
  assumes keeps: "inv s cooked \<Longrightarrow> length raw = length cooked \<Longrightarrow>
      debounce now raw changed (s, cooked) = (f, s', cooked') \<Longrightarrow>
      inv s' cooked' \<and> length cooked' = length cooked"
    and towards_raw: "inv s cooked \<Longrightarrow> length raw = length cooked \<Longrightarrow>
      debounce now raw changed (s, cooked) = (f, s', cooked') \<Longrightarrow> r < length cooked \<Longrightarrow>
      bit (cooked' ! r) c = bit (cooked ! r) c \<or> bit (cooked' ! r) c = bit (raw ! r) c"
    and flag: "inv s cooked \<Longrightarrow> length raw = length cooked \<Longrightarrow>
      debounce now raw changed (s, cooked) = (f, s', cooked') \<Longrightarrow> f \<longleftrightarrow> cooked' \<noteq> cooked"
begin

text \<open>A sequence of scans: the time, the raw matrix and whether the raw matrix changed.\<close>

fun scans :: "(uint32 \<times> 'r matrix \<times> bool) list \<Rightarrow> 's \<times> 'r matrix \<Rightarrow> bool \<times> 's \<times> 'r matrix" where
  "scans [] sc = (False, sc)"
| "scans ((now, raw, changed) # xs) sc =
     (case debounce now raw changed sc of (f, sc') \<Rightarrow> (case scans xs sc' of (fs, sc'') \<Rightarrow> (f \<or> fs, sc'')))"

lemma scans_keep:
  "inv s cooked \<Longrightarrow> \<forall>(now, raw, changed)\<in>set xs. length raw = length cooked \<Longrightarrow>
   scans xs (s, cooked) = (f, s', cooked') \<Longrightarrow> inv s' cooked' \<and> length cooked' = length cooked"
proof (induction xs arbitrary: s cooked f)
  case (Cons x xs)
  obtain now raw changed where x: "x = (now, raw, changed)" by (cases x)
  obtain f1 s1 c1 where d: "debounce now raw changed (s, cooked) = (f1, s1, c1)" by (metis prod_cases3)
  have k: "inv s1 c1 \<and> length c1 = length cooked"
    using keeps [OF Cons.prems(1) _ d] Cons.prems(2) x by auto
  obtain f2 where "scans xs (s1, c1) = (f2, s', cooked')"
    using Cons.prems(3) x d by (auto split: prod.splits)
  then show ?case using Cons.IH [of s1 c1 f2] k Cons.prems(2) by auto
qed simp

text \<open>No ghost keys: a key that is reported down was down before or was down in some raw scan.\<close>

lemma no_ghost:
  "inv s cooked \<Longrightarrow> \<forall>(now, raw, changed)\<in>set xs. length raw = length cooked \<Longrightarrow>
   scans xs (s, cooked) = (f, s', cooked') \<Longrightarrow> r < length cooked \<Longrightarrow>
   bit (cooked' ! r) c = bit (cooked ! r) c
   \<or> (\<exists>(now, raw, changed)\<in>set xs. bit (cooked' ! r) c = bit (raw ! r) c)"
proof (induction xs arbitrary: s cooked f)
  case (Cons x xs)
  obtain now raw changed where x: "x = (now, raw, changed)" by (cases x)
  obtain f1 s1 c1 where d: "debounce now raw changed (s, cooked) = (f1, s1, c1)" by (metis prod_cases3)
  have len: "length raw = length cooked" using Cons.prems(2) x by auto
  have k: "inv s1 c1 \<and> length c1 = length cooked" by (rule keeps [OF Cons.prems(1) len d])
  obtain f2 where "scans xs (s1, c1) = (f2, s', cooked')"
    using Cons.prems(3) x d by (auto split: prod.splits)
  then have "bit (cooked' ! r) c = bit (c1 ! r) c
      \<or> (\<exists>(now, raw, changed)\<in>set xs. bit (cooked' ! r) c = bit (raw ! r) c)"
    using Cons.IH [of s1 c1 f2] k Cons.prems(2,4) by auto
  then show ?case using towards_raw [OF Cons.prems(1) len d Cons.prems(4), of c] x by auto
qed simp

text \<open>If no scan reports a change, the debounced matrix has not changed.\<close>

lemma unreported_unchanged:
  "inv s cooked \<Longrightarrow> \<forall>(now, raw, changed)\<in>set xs. length raw = length cooked \<Longrightarrow>
   scans xs (s, cooked) = (False, s', cooked') \<Longrightarrow> cooked' = cooked"
proof (induction xs arbitrary: s cooked)
  case (Cons x xs)
  obtain now raw changed where x: "x = (now, raw, changed)" by (cases x)
  obtain f1 s1 c1 where d: "debounce now raw changed (s, cooked) = (f1, s1, c1)" by (metis prod_cases3)
  have len: "length raw = length cooked" using Cons.prems(2) x by auto
  have k: "inv s1 c1 \<and> length c1 = length cooked" by (rule keeps [OF Cons.prems(1) len d])
  have f1: "\<not> f1" and r: "scans xs (s1, c1) = (False, s', cooked')"
    using Cons.prems(3) x d by (auto split: prod.splits)
  have "c1 = cooked" using flag [OF Cons.prems(1) len d] f1 by simp
  then show ?case using Cons.IH [OF _ _ r] k Cons.prems(2) by auto
qed simp

end

subsection \<open>Cells of a matrix\<close>

text \<open>Equality of matrices and of rows, bit by bit.\<close>

lemma matrix_eq_iff:
  "length m = length m' \<Longrightarrow>
   m = m' \<longleftrightarrow> (\<forall>r<length m. \<forall>c<LENGTH('r). bit (m ! r) c = bit ((m' :: 'r::len matrix) ! r) c)"
  by (auto simp: list_eq_iff_nth_eq word_bits_eq_iff)

text \<open>\<open>(cooked & ~(1 << col)) | (raw & (1 << col))\<close> and \<open>cooked ^ (1 << col)\<close>\<close>

lemma bit_copy_column [c_bits]:
  "bit ((x AND NOT (shl1 col)) OR (y AND shl1 col) :: 'r::len word) c \<longleftrightarrow> (if c = col then bit y c else bit x c)"
  by (auto simp: bit_or_iff bit_and_iff bit_not_iff bit_shl1 dest: bit_imp_le_length)

lemma xor_eq_0_iff: "(x XOR y = 0) \<longleftrightarrow> x = (y :: 'r::len word)"
  by (auto simp: word_bits_eq_iff bit_xor_iff)

text \<open>The index of a key in the counter array.\<close>

definition key_index :: "nat \<Rightarrow> nat \<Rightarrow> nat \<Rightarrow> nat" where
  "key_index cols row col = row * cols + col"

lemma key_index_less: "r < rows \<Longrightarrow> c < cols \<Longrightarrow> key_index cols r c < rows * cols"
  using block_bound [of r rows cols] by (simp add: key_index_def)

lemma key_index_inj: "c < cols \<Longrightarrow> c' < cols \<Longrightarrow> key_index cols r c = key_index cols r' c' \<longleftrightarrow> r = r' \<and> c = c'"
proof -
  assume c: "c < cols" "c' < cols"
  have "(r * cols + c) div cols = r" "(r' * cols + c') div cols = r'" "(r * cols + c) mod cols = c"
    "(r' * cols + c') mod cols = c'" using c by simp_all
  then show ?thesis unfolding key_index_def by metis
qed

subsection \<open>Loops over all keys\<close>

text \<open>A key of the state: its debounced value and its counter; and the state with one key replaced.\<close>

definition key_cell :: "nat \<Rightarrow> 'c debounce_state \<times> 'r::len matrix \<Rightarrow> nat \<times> nat \<Rightarrow> bool \<times> 'c" where
  "key_cell cols s = (\<lambda>(r, c). (bit (snd s ! r) c, debounce_counters (fst s) ! key_index cols r c))"

definition set_col :: "'r::len word \<Rightarrow> nat \<Rightarrow> bool \<Rightarrow> 'r word" where
  "set_col row c v = (if v then row OR shl1 c else row AND NOT (shl1 c))"

definition put_key ::
  "nat \<Rightarrow> nat \<times> nat \<Rightarrow> bool \<times> 'c \<Rightarrow> 'c debounce_state \<times> 'r::len matrix \<Rightarrow> 'c debounce_state \<times> 'r matrix" where
  "put_key cols = (\<lambda>(r, c) (v, k) (st, cooked).
     (st\<lparr>debounce_counters := (debounce_counters st)[key_index cols r c := k]\<rparr>, cooked[r := set_col (cooked ! r) c v]))"

definition raise_flags ::
  "bool \<times> bool \<times> bool \<Rightarrow> 'c debounce_state \<times> 'r::len matrix \<Rightarrow> 'c debounce_state \<times> 'r matrix" where
  "raise_flags = (\<lambda>(ch, need, mat) (st, cooked).
     (st\<lparr>cooked_changed := (cooked_changed st \<or> ch), counters_need_update := (counters_need_update st \<or> need),
         matrix_need_update := (matrix_need_update st \<or> mat)\<rparr>, cooked))"

definition shaped :: "nat \<Rightarrow> nat \<Rightarrow> 'c debounce_state \<times> 'r::len matrix \<Rightarrow> bool" where
  "shaped cols n s \<longleftrightarrow> length (debounce_counters (fst s)) = n * cols \<and> length (snd s) = n \<and> cols \<le> LENGTH('r)"

lemma bit_set_col: "bit (set_col (x :: 'r::len word) c v) k \<longleftrightarrow> (if k = c \<and> c < LENGTH('r) then v else bit x k)"
  by (auto simp: set_col_def c_bits dest: bit_imp_le_length)

lemma set_col_same [simp]: "c < LENGTH('r) \<Longrightarrow> set_col (x :: 'r::len word) c (bit x c) = x"
  by (rule bit_word_eqI) (simp add: bit_set_col)

lemma copy_column_set_col: "c < LENGTH('r) \<Longrightarrow> (x AND NOT (shl1 c)) OR (y AND shl1 c) = set_col (x :: 'r::len word) c (bit y c)"
  by (rule bit_word_eqI) (simp add: bit_set_col c_bits)

lemma flip_column_set_col: "c < LENGTH('r) \<Longrightarrow> x XOR shl1 c = set_col (x :: 'r::len word) c (\<not> bit x c)"
  by (rule bit_word_eqI) (simp add: bit_set_col c_bits)

lemma set_col_eq_iff:
  assumes "c < LENGTH('r)"
  shows "set_col (x :: 'r::len word) c v = x \<longleftrightarrow> bit x c = v" "x = set_col x c v \<longleftrightarrow> bit x c = v"
  using assms by (auto simp: word_bits_eq_iff bit_set_col)

lemma put_key_same: "shaped cols n s \<Longrightarrow> r < n \<Longrightarrow> c < cols \<Longrightarrow> put_key cols (r, c) (key_cell cols s (r, c)) s = s"
  by (cases s) (simp add: put_key_def key_cell_def shaped_def)

lemma raise_no_flags [simp]: "raise_flags (False, False, False) s = s"
  by (cases s) (simp add: raise_flags_def)

definition matrix_keys :: "nat \<Rightarrow> nat \<Rightarrow> (nat \<times> nat) set" where
  "matrix_keys cols n = {0..<n} \<times> {0..<cols}"

definition all_keys :: "nat \<Rightarrow> nat \<Rightarrow> (nat \<times> nat) list" where
  "all_keys cols n = List.product [0..<n] [0..<cols]"

lemma set_all_keys: "set (all_keys cols n) = matrix_keys cols n"
  by (auto simp: all_keys_def matrix_keys_def)

lemma distinct_all_keys: "distinct (all_keys cols n)"
  by (simp add: all_keys_def distinct_product)

text \<open>
  A loop body that replaces the key it visits by a function of the raw bit and the key, and raises
  flags that are functions of the same.
\<close>

locale key_loop =
  fixes cols :: nat
    and raw :: "'r::len matrix"
    and body :: "nat \<times> nat \<Rightarrow> 'c debounce_state \<times> 'r matrix \<Rightarrow> 'c debounce_state \<times> 'r matrix"
    and upd :: "bool \<Rightarrow> bool \<times> 'c \<Rightarrow> bool \<times> 'c"
    and flags :: "bool \<Rightarrow> bool \<times> 'c \<Rightarrow> bool \<times> bool \<times> bool"
  assumes body_eq: "shaped cols (length raw) s \<Longrightarrow> r < length raw \<Longrightarrow> c < cols \<Longrightarrow>
    body (r, c) s = raise_flags (flags (bit (raw ! r) c) (key_cell cols s (r, c)))
      (put_key cols (r, c) (upd (bit (raw ! r) c) (key_cell cols s (r, c))) s)"
begin

lemma body_shaped: "shaped cols (length raw) s \<Longrightarrow> i \<in> matrix_keys cols (length raw) \<Longrightarrow> shaped cols (length raw) (body i s)"
  by (cases i; cases s) (auto simp: matrix_keys_def body_eq raise_flags_def put_key_def shaped_def split: prod.splits)

lemma body_cell:
  assumes "shaped cols (length raw) s" "i \<in> matrix_keys cols (length raw)" "j \<in> matrix_keys cols (length raw)"
  shows "key_cell cols (body i s) j =
    (if i = j then upd (bit (raw ! fst i) (snd i)) (key_cell cols s i) else key_cell cols s j)"
proof -
  obtain r c r' c' where ij: "i = (r, c)" "j = (r', c')" by fastforce
  with assms have lt: "r < length raw" "c < cols" "r' < length raw" "c' < cols" by (auto simp: matrix_keys_def)
  have "c < LENGTH('r)" "c' < LENGTH('r)" using assms(1) lt by (auto simp: shaped_def)
  then show ?thesis
    using assms(1) lt key_index_less [OF lt(1,2)] key_index_inj [OF lt(2,4), of r r'] ij
    by (cases s) (auto simp: body_eq raise_flags_def put_key_def key_cell_def shaped_def bit_set_col nth_list_update
        split: prod.splits)
qed

lemma body_rest:
  assumes "shaped cols (length raw) s" "i \<in> matrix_keys cols (length raw)"
  shows "cols \<le> c' \<Longrightarrow> bit (snd (body i s) ! r') c' = bit (snd s ! r') c'"
    and "last_time (fst (body i s)) = last_time (fst s)"
proof -
  obtain r c where i: "i = (r, c)" by fastforce
  with assms have lt: "r < length raw" "c < cols" by (auto simp: matrix_keys_def)
  then show "cols \<le> c' \<Longrightarrow> bit (snd (body i s) ! r') c' = bit (snd s ! r') c'"
    "last_time (fst (body i s)) = last_time (fst s)"
    using assms(1) i
    by (cases s; auto simp: body_eq raise_flags_def put_key_def bit_set_col nth_list_update shaped_def
        split: prod.splits)+
qed

lemma body_flags:
  assumes "shaped cols (length raw) s" "i \<in> matrix_keys cols (length raw)"
  defines "fl \<equiv> flags (bit (raw ! fst i) (snd i)) (key_cell cols s i)"
  shows "cooked_changed (fst (body i s)) \<longleftrightarrow> cooked_changed (fst s) \<or> fst fl"
    "counters_need_update (fst (body i s)) \<longleftrightarrow> counters_need_update (fst s) \<or> fst (snd fl)"
    "matrix_need_update (fst (body i s)) \<longleftrightarrow> matrix_need_update (fst s) \<or> snd (snd fl)"
  using assms by (cases i; cases s; auto simp: matrix_keys_def body_eq raise_flags_def put_key_def split: prod.splits)+

end

sublocale key_loop \<subseteq> cell: cellwise "key_cell cols" body "\<lambda>(r, c). upd (bit (raw ! r) c)" "shaped cols (length raw)" "matrix_keys cols (length raw)"
  by unfold_locales (auto simp: body_shaped body_cell split: prod.splits)

context key_loop
begin

lemma loop_shaped: "shaped cols (length raw) s \<Longrightarrow> shaped cols (length raw) (fold body (all_keys cols (length raw)) s)"
  using cell.fold_ok set_all_keys by blast

lemma loop_cell:
  "shaped cols (length raw) s \<Longrightarrow> r < length raw \<Longrightarrow> c < cols \<Longrightarrow>
   key_cell cols (fold body (all_keys cols (length raw)) s) (r, c) = upd (bit (raw ! r) c) (key_cell cols s (r, c))"
  using cell.get_fold [of s "all_keys cols (length raw)" "(r, c)"] set_all_keys distinct_all_keys by (simp add: matrix_keys_def)

lemma loop_rest:
  assumes "shaped cols (length raw) s"
  shows "cols \<le> c \<Longrightarrow> bit (snd (fold body (all_keys cols (length raw)) s) ! r) c = bit (snd s ! r) c"
    and "last_time (fst (fold body (all_keys cols (length raw)) s)) = last_time (fst s)"
proof -
  have "set xs \<subseteq> matrix_keys cols (length raw) \<Longrightarrow> shaped cols (length raw) s \<Longrightarrow>
      (cols \<le> c \<longrightarrow> bit (snd (fold body xs s) ! r) c = bit (snd s ! r) c)
      \<and> last_time (fst (fold body xs s)) = last_time (fst s)" for xs s
    by (induction xs arbitrary: s) (auto simp: body_shaped body_rest)
  from this [of "all_keys cols (length raw)" s] assms set_all_keys
  show "cols \<le> c \<Longrightarrow> bit (snd (fold body (all_keys cols (length raw)) s) ! r) c = bit (snd s ! r) c"
    "last_time (fst (fold body (all_keys cols (length raw)) s)) = last_time (fst s)" by auto
qed

lemma loop_flags:
  assumes "shaped cols (length raw) s"
  defines "fl \<equiv> \<lambda>r c. flags (bit (raw ! r) c) (key_cell cols s (r, c))"
  shows "cooked_changed (fst (fold body (all_keys cols (length raw)) s)) \<longleftrightarrow>
      cooked_changed (fst s) \<or> (\<exists>r<length raw. \<exists>c<cols. fst (fl r c))"
    "counters_need_update (fst (fold body (all_keys cols (length raw)) s)) \<longleftrightarrow>
      counters_need_update (fst s) \<or> (\<exists>r<length raw. \<exists>c<cols. fst (snd (fl r c)))"
    "matrix_need_update (fst (fold body (all_keys cols (length raw)) s)) \<longleftrightarrow>
      matrix_need_update (fst s) \<or> (\<exists>r<length raw. \<exists>c<cols. snd (snd (fl r c)))"
proof -
  have sub: "set (all_keys cols (length raw)) \<subseteq> matrix_keys cols (length raw)" by (simp add: set_all_keys)
  let ?fl = "\<lambda>i cl. flags (bit (raw ! fst i) (snd i)) cl"
  show "cooked_changed (fst (fold body (all_keys cols (length raw)) s)) \<longleftrightarrow>
      cooked_changed (fst s) \<or> (\<exists>r<length raw. \<exists>c<cols. fst (fl r c))"
    using cell.flag_fold [of "\<lambda>s. cooked_changed (fst s)" "\<lambda>i cl. fst (?fl i cl)", OF body_flags(1) assms(1) sub distinct_all_keys]
    by (auto simp: set_all_keys matrix_keys_def fl_def)
  show "counters_need_update (fst (fold body (all_keys cols (length raw)) s)) \<longleftrightarrow>
      counters_need_update (fst s) \<or> (\<exists>r<length raw. \<exists>c<cols. fst (snd (fl r c)))"
    using cell.flag_fold [of "\<lambda>s. counters_need_update (fst s)" "\<lambda>i cl. fst (snd (?fl i cl))", OF body_flags(2) assms(1) sub distinct_all_keys]
    by (auto simp: set_all_keys matrix_keys_def fl_def)
  show "matrix_need_update (fst (fold body (all_keys cols (length raw)) s)) \<longleftrightarrow>
      matrix_need_update (fst s) \<or> (\<exists>r<length raw. \<exists>c<cols. snd (snd (fl r c)))"
    using cell.flag_fold [of "\<lambda>s. matrix_need_update (fst s)" "\<lambda>i cl. snd (snd (?fl i cl))", OF body_flags(3) assms(1) sub distinct_all_keys]
    by (auto simp: set_all_keys matrix_keys_def fl_def)
qed

text \<open>
  The code computes the difference of the raw and the debounced row once per row, before the loop over
  its columns; as a column's body only changes its own column, recomputing it per key is the same.
\<close>

lemma captured_row:
  assumes b: "\<And>d c s. c < cols \<Longrightarrow> shaped cols (length raw) s \<Longrightarrow> bit d c = bit (raw ! r XOR snd s ! r) c \<Longrightarrow>
      bodyd d c s = body (r, c) s"
    and r: "r < length raw"
  shows "distinct cs \<Longrightarrow> set cs \<subseteq> {0..<cols} \<Longrightarrow> shaped cols (length raw) s \<Longrightarrow>
    \<forall>c\<in>set cs. bit d c = bit (raw ! r XOR snd s ! r) c \<Longrightarrow> fold (bodyd d) cs s = fold (\<lambda>c. body (r, c)) cs s"
proof (induction cs arbitrary: s)
  case (Cons c cs)
  have k: "(r, c) \<in> matrix_keys cols (length raw)" using Cons.prems r by (simp add: matrix_keys_def)
  have "bit (snd (body (r, c) s) ! r) c' = bit (snd s ! r) c'" if "c' \<in> set cs" for c'
  proof -
    have "(r, c') \<in> matrix_keys cols (length raw)" "(r, c) \<noteq> (r, c')" using that Cons.prems(1,2) r by (auto simp: matrix_keys_def)
    with body_cell [OF Cons.prems(3) k this(1)] show ?thesis by (simp add: key_cell_def)
  qed
  then have "\<forall>c'\<in>set cs. bit d c' = bit (raw ! r XOR snd (body (r, c) s) ! r) c'"
    using Cons.prems(4) by (simp add: bit_xor_iff)
  moreover have "bodyd d c s = body (r, c) s" using Cons.prems by (intro b) auto
  ultimately show ?case using Cons body_shaped [OF Cons.prems(3) k] by simp
qed simp

lemma captured_rows:
  assumes b: "\<And>r d c s. r < length raw \<Longrightarrow> c < cols \<Longrightarrow> shaped cols (length raw) s \<Longrightarrow>
      bit d c = bit (raw ! r XOR snd s ! r) c \<Longrightarrow> bodyd r d c s = body (r, c) s"
    and s: "shaped cols (length raw) s"
  shows "fold (\<lambda>r s. fold (bodyd r (raw ! r XOR snd s ! r)) [0..<cols] s) [0..<length raw] s = fold body (all_keys cols (length raw)) s"
proof -
  have "set rs \<subseteq> {0..<length raw} \<Longrightarrow> shaped cols (length raw) s \<Longrightarrow>
      fold (\<lambda>r s. fold (bodyd r (raw ! r XOR snd s ! r)) [0..<cols] s) rs s
      = fold (\<lambda>r s. fold (\<lambda>c s. body (r, c) s) [0..<cols] s) rs s" for rs s
  proof (induction rs arbitrary: s)
    case (Cons r rs)
    have "fold (bodyd r (raw ! r XOR snd s ! r)) [0..<cols] s = fold (\<lambda>c. body (r, c)) [0..<cols] s"
      using Cons.prems by (intro captured_row b) auto
    moreover have "fold (\<lambda>c. body (r, c)) [0..<cols] s = fold body (map (Pair r) [0..<cols]) s"
      by (simp add: fold_map comp_def)
    then have "shaped cols (length raw) (fold (\<lambda>c. body (r, c)) [0..<cols] s)"
      using Cons.prems cell.fold_ok [of s "map (Pair r) [0..<cols]"] by (simp add: matrix_keys_def image_subset_iff)
    ultimately show ?case using Cons by simp
  qed simp
  from this [of "[0..<length raw]" s] s show ?thesis
    by (simp add: all_keys_def fold_rows_cols [symmetric])
qed

end

text \<open>What such a loop over all keys does, as one statement about the state before and after.\<close>

definition key_loop_result ::
  "nat \<Rightarrow> 'r::len matrix \<Rightarrow> (bool \<Rightarrow> bool \<times> 'c \<Rightarrow> bool \<times> 'c) \<Rightarrow> (bool \<Rightarrow> bool \<times> 'c \<Rightarrow> bool \<times> bool \<times> bool) \<Rightarrow>
   'c debounce_state \<times> 'r matrix \<Rightarrow> 'c debounce_state \<times> 'r matrix \<Rightarrow> bool" where
  "key_loop_result cols raw upd flags s s' \<longleftrightarrow>
     shaped cols (length raw) s'
     \<and> (\<forall>r<length raw. \<forall>c<cols. key_cell cols s' (r, c) = upd (bit (raw ! r) c) (key_cell cols s (r, c)))
     \<and> (\<forall>r. \<forall>c\<ge>cols. bit (snd s' ! r) c = bit (snd s ! r) c)
     \<and> last_time (fst s') = last_time (fst s)
     \<and> (cooked_changed (fst s') \<longleftrightarrow> cooked_changed (fst s)
          \<or> (\<exists>r<length raw. \<exists>c<cols. fst (flags (bit (raw ! r) c) (key_cell cols s (r, c)))))
     \<and> (counters_need_update (fst s') \<longleftrightarrow> counters_need_update (fst s)
          \<or> (\<exists>r<length raw. \<exists>c<cols. fst (snd (flags (bit (raw ! r) c) (key_cell cols s (r, c))))))
     \<and> (matrix_need_update (fst s') \<longleftrightarrow> matrix_need_update (fst s)
          \<or> (\<exists>r<length raw. \<exists>c<cols. snd (snd (flags (bit (raw ! r) c) (key_cell cols s (r, c))))))"

lemma key_loop_resultD:
  assumes "key_loop_result cols raw upd flags s s'"
  shows "shaped cols (length raw) s'"
    and "r < length raw \<Longrightarrow> c < cols \<Longrightarrow> key_cell cols s' (r, c) = upd (bit (raw ! r) c) (key_cell cols s (r, c))"
    and "cols \<le> c \<Longrightarrow> bit (snd s' ! r) c = bit (snd s ! r) c"
    and "last_time (fst s') = last_time (fst s)"
    and "cooked_changed (fst s') \<longleftrightarrow> cooked_changed (fst s)
      \<or> (\<exists>r<length raw. \<exists>c<cols. fst (flags (bit (raw ! r) c) (key_cell cols s (r, c))))"
    and "counters_need_update (fst s') \<longleftrightarrow> counters_need_update (fst s)
      \<or> (\<exists>r<length raw. \<exists>c<cols. fst (snd (flags (bit (raw ! r) c) (key_cell cols s (r, c)))))"
    and "matrix_need_update (fst s') \<longleftrightarrow> matrix_need_update (fst s)
      \<or> (\<exists>r<length raw. \<exists>c<cols. snd (snd (flags (bit (raw ! r) c) (key_cell cols s (r, c)))))"
  using assms by (auto simp: key_loop_result_def)

context key_loop
begin

lemma loop_result: "shaped cols (length raw) s \<Longrightarrow> key_loop_result cols raw upd flags s (fold body (all_keys cols (length raw)) s)"
  unfolding key_loop_result_def by (simp add: loop_shaped loop_cell loop_rest loop_flags)

end

text \<open>Working on a copy of a row and storing it after the loop is the same as working in place.\<close>

lemma row_buffer:
  "r < length cooked \<Longrightarrow>
   (case fold f cs (st, cooked ! r) of (st', row) \<Rightarrow> (st', cooked[r := row])) =
   fold (\<lambda>c (st, cooked). case f c (st, cooked ! r) of (st', row) \<Rightarrow> (st', cooked[r := row])) cs (st, cooked)"
proof (induction cs arbitrary: st cooked)
  case (Cons c cs)
  obtain st1 row1 where 1: "f c (st, cooked ! r) = (st1, row1)" by fastforce
  have "fold f cs (st1, row1) = fold f cs (st1, cooked[r := row1] ! r)" using Cons.prems by simp
  then show ?case using Cons.IH [of "cooked[r := row1]" st1] Cons.prems 1 by (simp split: prod.splits)
qed simp

subsection \<open>The common shape of the per-key algorithms\<close>

text \<open>
  Phase one counts time off and phase two compares the matrices; \<open>uses_mat\<close> tells whether the
  algorithm has the flag \<open>matrix_need_update\<close>.
\<close>

definition pk_debounce ::
  "('r::len matrix \<Rightarrow> uint8 \<Rightarrow> 'c debounce_state \<times> 'r matrix \<Rightarrow> 'c debounce_state \<times> 'r matrix) \<Rightarrow>
   ('r matrix \<Rightarrow> 'c debounce_state \<times> 'r matrix \<Rightarrow> 'c debounce_state \<times> 'r matrix) \<Rightarrow> bool \<Rightarrow>
   uint32 \<Rightarrow> 'r matrix \<Rightarrow> bool \<Rightarrow> 'c debounce_state \<times> 'r matrix \<Rightarrow> bool \<times> 'c debounce_state \<times> 'r matrix" where
  "pk_debounce up tr uses_mat now raw changed = (\<lambda>(st, cooked).
     let st = st\<lparr>cooked_changed := False\<rparr>;
         (updated_last, st, cooked) =
           (if counters_need_update st
            then let elapsed_time = clamped_elapsed now (last_time st); st = st\<lparr>last_time := now\<rparr>
                 in (True, if 0 < elapsed_time then up raw elapsed_time (st, cooked) else (st, cooked))
            else (False, st, cooked));
         (st, cooked) =
           (if changed \<or> (uses_mat \<and> matrix_need_update st)
            then let st = (if \<not> updated_last then st\<lparr>last_time := now\<rparr> else st) in tr raw (st, cooked)
            else (st, cooked))
     in (cooked_changed st, st, cooked))"

locale pk_algorithm =
  fixes cols :: nat
    and up :: "'r::len matrix \<Rightarrow> uint8 \<Rightarrow> 'c debounce_state \<times> 'r matrix \<Rightarrow> 'c debounce_state \<times> 'r matrix"
    and tr :: "'r matrix \<Rightarrow> 'c debounce_state \<times> 'r matrix \<Rightarrow> 'c debounce_state \<times> 'r matrix"
    and uses_mat :: bool
    and upk :: "uint8 \<Rightarrow> bool \<Rightarrow> bool \<times> 'c \<Rightarrow> bool \<times> 'c"
    and trk :: "bool \<Rightarrow> bool \<times> 'c \<Rightarrow> bool \<times> 'c"
    and upf :: "uint8 \<Rightarrow> bool \<Rightarrow> bool \<times> 'c \<Rightarrow> bool \<times> bool \<times> bool"
    and trf :: "bool \<Rightarrow> bool \<times> 'c \<Rightarrow> bool \<times> bool \<times> bool"
    and active :: "'c \<Rightarrow> bool"
  assumes up_loop: "shaped cols (length raw) (st, cooked) \<Longrightarrow>
      key_loop_result cols raw (upk e) (upf e)
        (st\<lparr>counters_need_update := False, matrix_need_update := (matrix_need_update st \<and> \<not> uses_mat)\<rparr>, cooked)
        (up raw e (st, cooked))"
    and tr_loop: "shaped cols (length raw) (st, cooked) \<Longrightarrow>
      key_loop_result cols raw trk trf (st\<lparr>matrix_need_update := (matrix_need_update st \<and> \<not> uses_mat)\<rparr>, cooked)
        (tr raw (st, cooked))"
    and upk_towards: "fst (upk e x cl) = fst cl \<or> fst (upk e x cl) = x"
    and trk_towards: "fst (trk x cl) = fst cl \<or> fst (trk x cl) = x"
    and upf_flag: "fst (upf e x cl) \<longleftrightarrow> fst (upk e x cl) \<noteq> fst cl"
    and trf_flag: "fst (trf x cl) \<longleftrightarrow> fst (trk x cl) \<noteq> fst cl"
    and upk_active: "active (snd (upk e x cl)) \<Longrightarrow> fst (snd (upf e x cl))"
    and trk_active: "active (snd (trk x cl)) \<Longrightarrow> active (snd cl) \<or> fst (snd (trf x cl))"
begin

text \<open>A running counter keeps \<open>counters_need_update\<close> set.\<close>

definition pk_inv :: "'c debounce_state \<Rightarrow> 'r matrix \<Rightarrow> bool" where
  "pk_inv st cooked \<longleftrightarrow> shaped cols (length cooked) (st, cooked)
     \<and> (\<forall>r<length cooked. \<forall>c<cols. active (snd (key_cell cols (st, cooked) (r, c))) \<longrightarrow> counters_need_update st)"

text \<open>The state between the phases.\<close>

definition mid :: "uint32 \<Rightarrow> 'r matrix \<Rightarrow> 'c debounce_state \<times> 'r matrix \<Rightarrow> 'c debounce_state \<times> 'r matrix" where
  "mid now raw = (\<lambda>(st, cooked).
     let st = st\<lparr>cooked_changed := False\<rparr>
     in if counters_need_update st
        then if 0 < clamped_elapsed now (last_time st)
             then up raw (clamped_elapsed now (last_time st)) (st\<lparr>last_time := now\<rparr>, cooked)
             else (st\<lparr>last_time := now\<rparr>, cooked)
        else (st, cooked))"

definition counted :: "uint32 \<Rightarrow> 'c debounce_state \<Rightarrow> bool \<Rightarrow> bool \<times> 'c \<Rightarrow> bool \<times> 'c" where
  "counted now st x cl =
     (if counters_need_update st \<and> 0 < clamped_elapsed now (last_time st)
      then upk (clamped_elapsed now (last_time st)) x cl else cl)"

lemma mid_result:
  assumes inv: "pk_inv st cooked" and len: "length raw = length cooked" and m: "mid now raw (st, cooked) = (st1, cooked1)"
  shows "shaped cols (length cooked) (st1, cooked1)"
    and "r < length cooked \<Longrightarrow> c < cols \<Longrightarrow>
      key_cell cols (st1, cooked1) (r, c) = counted now st (bit (raw ! r) c) (key_cell cols (st, cooked) (r, c))"
    and "cols \<le> c \<Longrightarrow> bit (cooked1 ! r) c = bit (cooked ! r) c"
    and "cooked_changed st1 \<longleftrightarrow> (\<exists>r<length cooked. \<exists>c<cols.
      fst (key_cell cols (st1, cooked1) (r, c)) \<noteq> fst (key_cell cols (st, cooked) (r, c)))"
    and "r < length cooked \<Longrightarrow> c < cols \<Longrightarrow> active (snd (key_cell cols (st1, cooked1) (r, c))) \<Longrightarrow> counters_need_update st1"
    and "last_time st1 = (if counters_need_update st then now else last_time st)"
proof -
  let ?g = "shaped cols (length cooked) (st1, cooked1)
    \<and> (\<forall>r<length cooked. \<forall>c<cols.
        key_cell cols (st1, cooked1) (r, c) = counted now st (bit (raw ! r) c) (key_cell cols (st, cooked) (r, c)))
    \<and> (\<forall>r. \<forall>c\<ge>cols. bit (cooked1 ! r) c = bit (cooked ! r) c)
    \<and> (cooked_changed st1 \<longleftrightarrow> (\<exists>r<length cooked. \<exists>c<cols.
        fst (key_cell cols (st1, cooked1) (r, c)) \<noteq> fst (key_cell cols (st, cooked) (r, c))))
    \<and> (\<forall>r<length cooked. \<forall>c<cols. active (snd (key_cell cols (st1, cooked1) (r, c))) \<longrightarrow> counters_need_update st1)
    \<and> last_time st1 = (if counters_need_update st then now else last_time st)"
  have ?g
  proof (cases "counters_need_update st \<and> 0 < clamped_elapsed now (last_time st)")
  case True
  let ?e = "clamped_elapsed now (last_time st)" and ?st = "st\<lparr>cooked_changed := False, last_time := now\<rparr>"
  let ?s0 = "(?st\<lparr>counters_need_update := False, matrix_need_update := (matrix_need_update ?st \<and> \<not> uses_mat)\<rparr>, cooked)"
  have sh: "shaped cols (length raw) (?st, cooked)" using inv len by (simp add: pk_inv_def shaped_def)
  have "up raw ?e (?st, cooked) = (st1, cooked1)" using m True by (simp add: mid_def)
  with up_loop [OF sh, of ?e] have r: "key_loop_result cols raw (upk ?e) (upf ?e) ?s0 (st1, cooked1)" by simp
  have kc: "key_cell cols ?s0 = key_cell cols (st, cooked)" by (simp add: key_cell_def)
  note R = key_loop_resultD [OF r, unfolded kc len fst_conv snd_conv, simplified]
  have sh1: "shaped cols (length cooked) (st1, cooked1)" using R(1) len by simp
  have cell: "key_cell cols (st1, cooked1) (r, c) = counted now st (bit (raw ! r) c) (key_cell cols (st, cooked) (r, c))"
    if "r < length cooked" "c < cols" for r c using R(2) [OF that] True by (simp add: counted_def)
  have act: "counters_need_update st1" if "r < length cooked" "c < cols"
    "active (snd (key_cell cols (st1, cooked1) (r, c)))" for r c
    using R(6) upk_active [of ?e "bit (raw ! r) c" "key_cell cols (st, cooked) (r, c)"] that R(2) [OF that(1,2)] by auto
  have chg: "cooked_changed st1 \<longleftrightarrow> (\<exists>r<length cooked. \<exists>c<cols.
      fst (key_cell cols (st1, cooked1) (r, c)) \<noteq> fst (key_cell cols (st, cooked) (r, c)))"
    using R(5) by (simp add: upf_flag R(2) cong: conj_cong)
  have "last_time st1 = (if counters_need_update st then now else last_time st)" using R(4) True by simp
  with sh1 chg R(3) act cell show ?thesis by simp
next
  case False
  then have e: "st1 = (if counters_need_update st then st\<lparr>cooked_changed := False, last_time := now\<rparr>
      else st\<lparr>cooked_changed := False\<rparr>)" "cooked1 = cooked"
    using m by (auto simp: mid_def Let_def split: if_splits)
  then have kc: "key_cell cols (st1, cooked1) = key_cell cols (st, cooked)" by (simp add: key_cell_def)
  have "counted now st x cl = cl" for x cl using False by (auto simp: counted_def)
  moreover have "shaped cols (length cooked) (st1, cooked1)" using inv e by (simp add: pk_inv_def shaped_def)
  ultimately show ?thesis using inv unfolding kc by (simp add: e pk_inv_def)
qed
  then show "shaped cols (length cooked) (st1, cooked1)"
    and "r < length cooked \<Longrightarrow> c < cols \<Longrightarrow>
      key_cell cols (st1, cooked1) (r, c) = counted now st (bit (raw ! r) c) (key_cell cols (st, cooked) (r, c))"
    and "cols \<le> c \<Longrightarrow> bit (cooked1 ! r) c = bit (cooked ! r) c"
    and "cooked_changed st1 \<longleftrightarrow> (\<exists>r<length cooked. \<exists>c<cols.
      fst (key_cell cols (st1, cooked1) (r, c)) \<noteq> fst (key_cell cols (st, cooked) (r, c)))"
    and "r < length cooked \<Longrightarrow> c < cols \<Longrightarrow> active (snd (key_cell cols (st1, cooked1) (r, c))) \<Longrightarrow> counters_need_update st1"
    and "last_time st1 = (if counters_need_update st then now else last_time st)"
    by blast+
qed

lemma pk_debounce_mid:
  "pk_debounce up tr uses_mat now raw changed (st, cooked) =
   (case mid now raw (st, cooked) of (st1, cooked1) \<Rightarrow>
      case (if changed \<or> (uses_mat \<and> matrix_need_update st1)
            then tr raw (if counters_need_update st then st1 else st1\<lparr>last_time := now\<rparr>, cooked1) else (st1, cooked1)) of
        (st2, cooked2) \<Rightarrow> (cooked_changed st2, st2, cooked2))"
  by (simp add: pk_debounce_def mid_def Let_def split: prod.splits)

text \<open>Whether the second phase runs, and what it does to a key.\<close>

definition second :: "uint32 \<Rightarrow> 'r matrix \<Rightarrow> bool \<Rightarrow> 'c debounce_state \<Rightarrow> 'r matrix \<Rightarrow> bool" where
  "second now raw changed st cooked \<longleftrightarrow> changed \<or> (uses_mat \<and> matrix_need_update (fst (mid now raw (st, cooked))))"

definition stepped :: "uint32 \<Rightarrow> 'c debounce_state \<Rightarrow> bool \<Rightarrow> bool \<Rightarrow> bool \<times> 'c \<Rightarrow> bool \<times> 'c" where
  "stepped now st snd_phase x cl = (if snd_phase then trk x (counted now st x cl) else counted now st x cl)"

lemma debounce_result:
  assumes inv: "pk_inv st cooked" and len: "length raw = length cooked"
    and d: "pk_debounce up tr uses_mat now raw changed (st, cooked) = (f, st', cooked')"
  defines "b \<equiv> second now raw changed st cooked"
  shows "pk_inv st' cooked'" "length cooked' = length cooked"
    and "r < length cooked \<Longrightarrow> c < cols \<Longrightarrow>
      key_cell cols (st', cooked') (r, c) = stepped now st b (bit (raw ! r) c) (key_cell cols (st, cooked) (r, c))"
    and "cols \<le> c \<Longrightarrow> bit (cooked' ! r) c = bit (cooked ! r) c"
    and "f \<longleftrightarrow> (\<exists>r<length cooked. \<exists>c<cols.
      fst (key_cell cols (st', cooked') (r, c)) \<noteq> fst (key_cell cols (st, cooked) (r, c)))"
    and "last_time st' = (if counters_need_update st \<or> b then now else last_time st)"
proof -
  obtain st1 cooked1 where m: "mid now raw (st, cooked) = (st1, cooked1)" by fastforce
  note M = mid_result [OF inv len m]
  have b: "b \<longleftrightarrow> changed \<or> (uses_mat \<and> matrix_need_update st1)" by (simp add: b_def second_def m)
  have tow: "fst (counted now st x cl) = fst cl \<or> fst (counted now st x cl) = x" for x cl
    using upk_towards by (simp add: counted_def)
  let ?g = "pk_inv st' cooked' \<and> length cooked' = length cooked
    \<and> (\<forall>r<length cooked. \<forall>c<cols.
        key_cell cols (st', cooked') (r, c) = stepped now st b (bit (raw ! r) c) (key_cell cols (st, cooked) (r, c)))
    \<and> (\<forall>r. \<forall>c\<ge>cols. bit (cooked' ! r) c = bit (cooked ! r) c)
    \<and> (f \<longleftrightarrow> (\<exists>r<length cooked. \<exists>c<cols.
        fst (key_cell cols (st', cooked') (r, c)) \<noteq> fst (key_cell cols (st, cooked) (r, c))))
    \<and> last_time st' = (if counters_need_update st \<or> b then now else last_time st)"
  have ?g
  proof (cases b)
    case False
    then have "st' = st1" "cooked' = cooked1" "f = cooked_changed st1"
      using d b by (auto simp: pk_debounce_mid m)
    moreover have "length cooked1 = length cooked" using M(1) by (simp add: shaped_def)
    ultimately show ?thesis using M False by (simp add: pk_inv_def stepped_def)
  next
    case True
    let ?st1 = "if counters_need_update st then st1 else st1\<lparr>last_time := now\<rparr>"
    let ?s0 = "(?st1\<lparr>matrix_need_update := (matrix_need_update ?st1 \<and> \<not> uses_mat)\<rparr>, cooked1)"
    have t: "tr raw (?st1, cooked1) = (st', cooked')" "f = cooked_changed st'"
      using d b True by (auto simp: pk_debounce_mid m split: prod.splits)
    have sh: "shaped cols (length raw) (?st1, cooked1)" using M(1) len by (simp add: shaped_def)
    have r: "key_loop_result cols raw trk trf ?s0 (st', cooked')" using tr_loop [OF sh] t(1) by simp
    have kc: "key_cell cols ?s0 = key_cell cols (st1, cooked1)" by (simp add: key_cell_def)
    note R = key_loop_resultD [OF r, unfolded kc len fst_conv snd_conv]
    have l: "length cooked' = length cooked" using R(1) by (simp add: shaped_def)
    have cell: "key_cell cols (st', cooked') (r, c) = stepped now st b (bit (raw ! r) c) (key_cell cols (st, cooked) (r, c))"
      if "r < length cooked" "c < cols" for r c
      using R(2) [OF that] M(2) [OF that] True by (simp add: stepped_def)
    have act: "counters_need_update st'" if rc: "r < length cooked" "c < cols"
      "active (snd (key_cell cols (st', cooked') (r, c)))" for r c
    proof -
      have "active (snd (key_cell cols (st1, cooked1) (r, c)))
          \<or> fst (snd (trf (bit (raw ! r) c) (key_cell cols (st1, cooked1) (r, c))))"
        using trk_active rc(3) R(2) [OF rc(1,2)] by simp
      then show ?thesis using M(5) [OF rc(1,2)] R(6) rc(1,2) by auto
    qed
    have each: "fst (key_cell cols (st', cooked') (r, c)) \<noteq> fst (key_cell cols (st, cooked) (r, c)) \<longleftrightarrow>
        fst (key_cell cols (st1, cooked1) (r, c)) \<noteq> fst (key_cell cols (st, cooked) (r, c))
        \<or> fst (trf (bit (raw ! r) c) (key_cell cols (st1, cooked1) (r, c)))"
      if rc: "r < length cooked" "c < cols" for r c
      using tow [of "bit (raw ! r) c" "key_cell cols (st, cooked) (r, c)"] M(2) [OF rc] R(2) [OF rc]
        trk_towards [of "bit (raw ! r) c" "key_cell cols (st1, cooked1) (r, c)"] trf_flag
      by (auto simp del: prod_eq_iff)
    have "f \<longleftrightarrow> (\<exists>r<length cooked. \<exists>c<cols.
        fst (key_cell cols (st', cooked') (r, c)) \<noteq> fst (key_cell cols (st, cooked) (r, c)))"
      using R(5) M(4) each t(2) by (auto split: if_splits)
    moreover have "pk_inv st' cooked'" using R(1) l act by (simp add: pk_inv_def)
    moreover have "last_time st' = now" using R(4) M(6) by (simp split: if_splits)
    ultimately show ?thesis using l cell R(3) M(3) True by simp
  qed
  then show "pk_inv st' cooked'" "length cooked' = length cooked"
    and "r < length cooked \<Longrightarrow> c < cols \<Longrightarrow>
      key_cell cols (st', cooked') (r, c) = stepped now st b (bit (raw ! r) c) (key_cell cols (st, cooked) (r, c))"
    and "cols \<le> c \<Longrightarrow> bit (cooked' ! r) c = bit (cooked ! r) c"
    and "f \<longleftrightarrow> (\<exists>r<length cooked. \<exists>c<cols.
      fst (key_cell cols (st', cooked') (r, c)) \<noteq> fst (key_cell cols (st, cooked) (r, c)))"
    and "last_time st' = (if counters_need_update st \<or> b then now else last_time st)"
    by blast+
qed

end

context pk_algorithm
begin

text \<open>A key that raises \<open>matrix_need_update\<close> in the first phase makes the second phase run.\<close>

lemma second_if_raised:
  assumes inv: "pk_inv st cooked" and len: "length raw = length cooked" and rc: "r < length cooked" "c < cols"
    and run: "counters_need_update st" "0 < clamped_elapsed now (last_time st)" and mat: uses_mat
    and up: "snd (snd (upf (clamped_elapsed now (last_time st)) (bit (raw ! r) c) (key_cell cols (st, cooked) (r, c))))"
  shows "second now raw changed st cooked"
proof -
  let ?st = "st\<lparr>cooked_changed := False, last_time := now\<rparr>"
  have sh: "shaped cols (length raw) (?st, cooked)" using inv len by (simp add: pk_inv_def shaped_def)
  have "matrix_need_update (fst (up raw (clamped_elapsed now (last_time st)) (?st, cooked)))"
    using key_loop_resultD(7) [OF up_loop [OF sh]] up rc len by (auto simp: key_cell_def)
  then show ?thesis unfolding second_def mid_def using run mat by simp
qed

text \<open>While a counter runs, the last call was at \<open>last_time\<close>.\<close>

lemma running_last_time:
  assumes "pk_inv st cooked" "length raw = length cooked"
    and d: "pk_debounce up tr uses_mat now raw changed (st, cooked) = (f, st', cooked')"
    and run: "counters_need_update st'"
  shows "last_time st' = now"
proof (cases "counters_need_update st \<or> second now raw changed st cooked")
  case True
  then show ?thesis using debounce_result(6) [OF assms(1-3)] by simp
next
  case False
  then have "st' = st\<lparr>cooked_changed := False\<rparr>"
    using d by (auto simp: pk_debounce_mid mid_def second_def)
  with run False show ?thesis by simp
qed

end

sublocale pk_algorithm \<subseteq> debouncer "pk_debounce up tr uses_mat" pk_inv
proof unfold_locales
  fix st cooked raw now changed f st' cooked'
  assume a: "pk_inv st cooked" "length raw = length cooked"
    "pk_debounce up tr uses_mat now raw changed (st, cooked) = (f, st', cooked')"
  note D = debounce_result [OF a]
  show "pk_inv st' cooked' \<and> length cooked' = length cooked" using D(1,2) ..
  have tow: "fst (stepped now st b x cl) = fst cl \<or> fst (stepped now st b x cl) = x" for b x cl
    using upk_towards [of "clamped_elapsed now (last_time st)" x cl] trk_towards [of x "counted now st x cl"]
    by (auto simp: stepped_def counted_def)
  show "bit (cooked' ! r) c = bit (cooked ! r) c \<or> bit (cooked' ! r) c = bit (raw ! r) c" if "r < length cooked" for r c
  proof (cases "c < cols")
    case True
    then show ?thesis using D(3) [OF that True] tow by (metis (no_types, lifting) case_prod_conv fst_conv key_cell_def snd_conv)
  qed (use D(4) in simp)
  have "cols \<le> LENGTH('r)" using a(1) by (simp add: pk_inv_def shaped_def)
  then show "f \<longleftrightarrow> cooked' \<noteq> cooked"
    using D(2,4,5) by (simp add: matrix_eq_iff key_cell_def) (meson linorder_not_less order_less_le_trans)
qed

end
