(* ===== verification/Debounce_Pr.thy ===== *)
theory Debounce_Pr
  imports Debounce
begin

text \<open>
  The debounce algorithms that work on whole rows or on the whole matrix: \<^verbatim>\<open>none.c\<close>, \<^verbatim>\<open>sym_defer_g.c\<close>,
  \<^verbatim>\<open>sym_defer_pr.c\<close> and \<^verbatim>\<open>sym_eager_pr.c\<close>. They keep the same contract as the per-key ones.
\<close>

subsection \<open>none.c\<close>

definition none_debounce ::
  "uint32 \<Rightarrow> 'r::len matrix \<Rightarrow> bool \<Rightarrow> unit \<times> 'r matrix \<Rightarrow> bool \<times> unit \<times> 'r matrix" where
  "none_debounce now raw changed = (\<lambda>(u, cooked).
     if changed \<and> cooked \<noteq> raw then (True, u, raw) else (False, u, cooked))"

interpretation none: debouncer none_debounce "\<lambda>u cooked. True"
  by unfold_locales (auto simp: none_debounce_def split: if_splits)

subsection \<open>sym\_defer\_g.c\<close>

record defer_g_state =
  debouncing :: bool
  debouncing_time :: uint32

definition sym_defer_g ::
  "uint32 \<Rightarrow> uint32 \<Rightarrow> 'r::len matrix \<Rightarrow> bool \<Rightarrow> defer_g_state \<times> 'r matrix \<Rightarrow> bool \<times> defer_g_state \<times> 'r matrix" where
  "sym_defer_g DEBOUNCE now raw changed = (\<lambda>(st, cooked).
     if changed then (False, st\<lparr>debouncing := True, debouncing_time := now\<rparr>, cooked)
     else if debouncing st \<and> DEBOUNCE \<le> TIMER_DIFF_32 now (debouncing_time st)
     then (cooked \<noteq> raw, st\<lparr>debouncing := False\<rparr>, if cooked \<noteq> raw then raw else cooked)
     else (False, st, cooked))"

interpretation defer_g: debouncer "sym_defer_g DEBOUNCE" "\<lambda>st cooked. True"
  for DEBOUNCE
  by unfold_locales (auto simp: sym_defer_g_def split: if_splits)

subsection \<open>sym\_defer\_pr.c\<close>

text \<open>The timer is read as \<open>uint16_t\<close> here: \<open>timer_read\<close> is the low half of the clock.\<close>

record 'w defer_pr_state =
  pr_last_time :: uint16
  countdowns :: "uint8 list"
  last_raw :: "'w list"
  pr_cooked_changed :: bool

definition defer_pr_row ::
  "uint8 \<Rightarrow> 'r::len matrix \<Rightarrow> uint8 \<Rightarrow> nat \<Rightarrow> 'r word defer_pr_state \<times> 'r matrix \<Rightarrow> 'r word defer_pr_state \<times> 'r matrix" where
  "defer_pr_row DEBOUNCE raw elapsed row = (\<lambda>(st, cooked).
     let raw_row = raw ! row; countdown = countdowns st ! row
     in if raw_row \<noteq> last_raw st ! row
        then (st\<lparr>countdowns := (countdowns st)[row := DEBOUNCE], last_raw := (last_raw st)[row := raw_row]\<rparr>, cooked)
        else if elapsed < countdown
        then (st\<lparr>countdowns := (countdowns st)[row := countdown - elapsed]\<rparr>, cooked)
        else if countdown \<noteq> 0
        then (st\<lparr>countdowns := (countdowns st)[row := 0],
                 pr_cooked_changed := (pr_cooked_changed st \<or> cooked ! row XOR raw_row \<noteq> 0)\<rparr>, cooked[row := raw_row])
        else (st, cooked))"

definition sym_defer_pr ::
  "uint8 \<Rightarrow> uint32 \<Rightarrow> 'r::len matrix \<Rightarrow> bool \<Rightarrow> 'r word defer_pr_state \<times> 'r matrix \<Rightarrow> bool \<times> 'r word defer_pr_state \<times> 'r matrix" where
  "sym_defer_pr DEBOUNCE clock raw changed = (\<lambda>(st, cooked).
     let now = ucast clock;
         elapsed16 = TIMER_DIFF_16 now (pr_last_time st);
         elapsed = (if 255 < elapsed16 then 255 else ucast elapsed16);
         (st, cooked) = fold (defer_pr_row DEBOUNCE raw elapsed) [0..<length raw]
           (st\<lparr>pr_last_time := now, pr_cooked_changed := False\<rparr>, cooked)
     in (pr_cooked_changed st, st, cooked))"

subsection \<open>sym\_eager\_pr.c\<close>

definition eager_pr_update_row ::
  "uint8 \<Rightarrow> nat \<Rightarrow> uint8 debounce_state \<Rightarrow> uint8 debounce_state" where
  "eager_pr_update_row elapsed_time row st =
     (let k = debounce_counters st ! row
      in if k \<noteq> 0
         then if k \<le> elapsed_time
              then st\<lparr>debounce_counters := (debounce_counters st)[row := 0], matrix_need_update := True\<rparr>
              else st\<lparr>debounce_counters := (debounce_counters st)[row := k - elapsed_time], counters_need_update := True\<rparr>
         else st)"

definition eager_pr_update :: "nat \<Rightarrow> uint8 \<Rightarrow> uint8 debounce_state \<Rightarrow> uint8 debounce_state" where
  "eager_pr_update num_rows elapsed_time st =
     fold (eager_pr_update_row elapsed_time) [0..<num_rows] (st\<lparr>counters_need_update := False, matrix_need_update := False\<rparr>)"

definition eager_pr_transfer_row ::
  "uint8 \<Rightarrow> 'r::len matrix \<Rightarrow> nat \<Rightarrow> uint8 debounce_state \<times> 'r matrix \<Rightarrow> uint8 debounce_state \<times> 'r matrix" where
  "eager_pr_transfer_row DEBOUNCE raw row = (\<lambda>(st, cooked).
     let existing_row = cooked ! row; raw_row = raw ! row
     in if existing_row \<noteq> raw_row \<and> debounce_counters st ! row = 0
        then (st\<lparr>debounce_counters := (debounce_counters st)[row := DEBOUNCE],
                 cooked_changed := (cooked_changed st \<or> cooked ! row XOR raw_row \<noteq> 0), counters_need_update := True\<rparr>,
              cooked[row := raw_row])
        else (st, cooked))"

definition eager_pr_transfer ::
  "uint8 \<Rightarrow> 'r::len matrix \<Rightarrow> uint8 debounce_state \<times> 'r matrix \<Rightarrow> uint8 debounce_state \<times> 'r matrix" where
  "eager_pr_transfer DEBOUNCE raw = (\<lambda>(st, cooked).
     fold (eager_pr_transfer_row DEBOUNCE raw) [0..<length raw] (st\<lparr>matrix_need_update := False\<rparr>, cooked))"

definition sym_eager_pr ::
  "uint8 \<Rightarrow> uint32 \<Rightarrow> 'r::len matrix \<Rightarrow> bool \<Rightarrow> uint8 debounce_state \<times> 'r matrix \<Rightarrow> bool \<times> uint8 debounce_state \<times> 'r matrix" where
  "sym_eager_pr DEBOUNCE now raw changed = (\<lambda>(st, cooked).
     let st = st\<lparr>cooked_changed := False\<rparr>;
         (updated_last, st) =
           (if counters_need_update st
            then let elapsed_time = clamped_elapsed now (last_time st); st = st\<lparr>last_time := now\<rparr>
                 in (True, if 0 < elapsed_time then eager_pr_update (length raw) elapsed_time st else st)
            else (False, st));
         (st, cooked) =
           (if changed \<or> matrix_need_update st
            then let st = (if \<not> updated_last then st\<lparr>last_time := now\<rparr> else st)
                 in eager_pr_transfer DEBOUNCE raw (st, cooked)
            else (st, cooked))
     in (cooked_changed st, st, cooked))"

subsection \<open>Loops over the rows\<close>

text \<open>
  A loop over the rows whose body may replace the row it visits by the raw row, and says so. \<open>shape\<close> is
  what the body keeps of the state.
\<close>

locale row_loop =
  fixes raw :: "'r::len matrix"
    and body :: "nat \<Rightarrow> 's \<times> 'r matrix \<Rightarrow> 's \<times> 'r matrix"
    and flag :: "'s \<Rightarrow> bool"
    and shape :: "'s \<Rightarrow> bool"
  assumes body_shape: "shape st \<Longrightarrow> r < length raw \<Longrightarrow> length cooked = length raw \<Longrightarrow> body r (st, cooked) = (st', cooked') \<Longrightarrow> shape st'"
    and body_row: "shape st \<Longrightarrow> r < length raw \<Longrightarrow> length cooked = length raw \<Longrightarrow> body r (st, cooked) = (st', cooked') \<Longrightarrow>
      cooked' = cooked \<and> flag st' = flag st \<or> cooked' = cooked[r := raw ! r] \<and> (flag st' \<longleftrightarrow> flag st \<or> cooked ! r \<noteq> raw ! r)"
begin

lemma rows_loop:
  "shape st \<Longrightarrow> length cooked = length raw \<Longrightarrow> set rs \<subseteq> {0..<length raw} \<Longrightarrow> distinct rs \<Longrightarrow>
   fold body rs (st, cooked) = (st', cooked') \<Longrightarrow>
   shape st' \<and> length cooked' = length cooked
   \<and> (\<forall>r<length raw. if r \<in> set rs then cooked' ! r = cooked ! r \<or> cooked' ! r = raw ! r else cooked' ! r = cooked ! r)
   \<and> (flag st' \<longleftrightarrow> flag st \<or> (\<exists>r\<in>set rs. cooked' ! r \<noteq> cooked ! r))"
proof (induction rs arbitrary: st cooked)
  case (Cons r rs)
  obtain st1 c1 where 1: "body r (st, cooked) = (st1, c1)" by fastforce
  have r: "r < length raw" using Cons.prems(3) by simp
  have b: "c1 = cooked \<and> flag st1 = flag st \<or> c1 = cooked[r := raw ! r] \<and> (flag st1 \<longleftrightarrow> flag st \<or> cooked ! r \<noteq> raw ! r)"
    by (rule body_row [OF Cons.prems(1) r Cons.prems(2) 1])
  then have l1: "length c1 = length raw" using Cons.prems(2) by auto
  have IH: "shape st' \<and> length cooked' = length c1
      \<and> (\<forall>r<length raw. if r \<in> set rs then cooked' ! r = c1 ! r \<or> cooked' ! r = raw ! r else cooked' ! r = c1 ! r)
      \<and> (flag st' \<longleftrightarrow> flag st1 \<or> (\<exists>r\<in>set rs. cooked' ! r \<noteq> c1 ! r))"
    using Cons.prems 1 body_shape [OF Cons.prems(1) r Cons.prems(2) 1] by (intro Cons.IH [OF _ l1]) auto
  have c1: "c1 ! j = cooked ! j" if "j \<noteq> r" for j using b that by auto
  have "\<forall>j\<in>set rs. j \<noteq> r" using Cons.prems(4) by auto
  then have ex: "(\<exists>j\<in>set rs. cooked' ! j \<noteq> c1 ! j) \<longleftrightarrow> (\<exists>j\<in>set rs. cooked' ! j \<noteq> cooked ! j)" using c1 by metis
  have rr: "cooked' ! r = c1 ! r" using IH r Cons.prems(4) by auto
  have "flag st1 \<longleftrightarrow> flag st \<or> c1 ! r \<noteq> cooked ! r" using b r Cons.prems(2) by auto
  then have fl: "flag st' \<longleftrightarrow> flag st \<or> (\<exists>j\<in>set (r # rs). cooked' ! j \<noteq> cooked ! j)" using IH ex rr by auto
  have "if j \<in> set (r # rs) then cooked' ! j = cooked ! j \<or> cooked' ! j = raw ! j else cooked' ! j = cooked ! j"
    if "j < length raw" for j
    using IH that c1 [of j] b rr r Cons.prems(2) by (cases "j = r") (auto split: if_splits)
  then show ?case using IH fl l1 Cons.prems(2) by simp
qed simp

lemma all_rows:
  assumes "shape st" "length cooked = length raw" "fold body [0..<length raw] (st, cooked) = (st', cooked')"
  shows "shape st'" "length cooked' = length cooked"
    and "r < length cooked \<Longrightarrow> cooked' ! r = cooked ! r \<or> cooked' ! r = raw ! r"
    and "flag st' \<longleftrightarrow> flag st \<or> cooked' \<noteq> cooked"
proof -
  have R: "shape st' \<and> length cooked' = length cooked
    \<and> (\<forall>r<length raw. if r \<in> set [0..<length raw] then cooked' ! r = cooked ! r \<or> cooked' ! r = raw ! r
        else cooked' ! r = cooked ! r)
    \<and> (flag st' \<longleftrightarrow> flag st \<or> (\<exists>r\<in>set [0..<length raw]. cooked' ! r \<noteq> cooked ! r))"
    by (rule rows_loop [OF assms(1,2) _ _ assms(3)]) auto
  note fl = R [THEN conjunct2, THEN conjunct2, THEN conjunct2]
  show "shape st'" and len: "length cooked' = length cooked" using R by simp_all
  show "r < length cooked \<Longrightarrow> cooked' ! r = cooked ! r \<or> cooked' ! r = raw ! r" using R assms(2) by simp
  have "cooked' \<noteq> cooked \<longleftrightarrow> (\<exists>r\<in>set [0..<length raw]. cooked' ! r \<noteq> cooked ! r)"
    unfolding list_eq_iff_nth_eq using len assms(2) by (simp add: Bex_def)
  then show "flag st' \<longleftrightarrow> flag st \<or> cooked' \<noteq> cooked" using fl by simp
qed

end

interpretation defer_pr_rows: row_loop raw "defer_pr_row DEBOUNCE raw elapsed" pr_cooked_changed
  "\<lambda>st. length (countdowns st) = length raw \<and> length (last_raw st) = length raw"
  for raw DEBOUNCE elapsed
proof unfold_locales
  fix st st' :: "'a word defer_pr_state" and r and cooked cooked' :: "'a matrix"
  assume a: "length (countdowns st) = length raw \<and> length (last_raw st) = length raw"
    and b: "defer_pr_row DEBOUNCE raw elapsed r (st, cooked) = (st', cooked')"
  consider "raw ! r \<noteq> last_raw st ! r" | "raw ! r = last_raw st ! r" "elapsed < countdowns st ! r"
    | "raw ! r = last_raw st ! r" "\<not> elapsed < countdowns st ! r" "countdowns st ! r \<noteq> 0"
    | "raw ! r = last_raw st ! r" "\<not> elapsed < countdowns st ! r" "countdowns st ! r = 0" by blast
  note cs = this
  show "length (countdowns st') = length raw \<and> length (last_raw st') = length raw"
    using cs a b by cases (auto simp: defer_pr_row_def Let_def)
  show "cooked' = cooked \<and> pr_cooked_changed st' = pr_cooked_changed st
      \<or> cooked' = cooked[r := raw ! r] \<and> (pr_cooked_changed st' \<longleftrightarrow> pr_cooked_changed st \<or> cooked ! r \<noteq> raw ! r)"
    using cs b by cases (auto simp: defer_pr_row_def Let_def xor_eq_0_iff)
qed

interpretation eager_pr_rows: row_loop raw "eager_pr_transfer_row DEBOUNCE raw" cooked_changed
  "\<lambda>st. length (debounce_counters st) = length raw"
  for raw DEBOUNCE
  by unfold_locales (auto simp: eager_pr_transfer_row_def Let_def xor_eq_0_iff split: if_splits)

subsection \<open>The row algorithms keep the contract\<close>

interpretation defer_pr: debouncer "sym_defer_pr DEBOUNCE"
  "\<lambda>st cooked. length (countdowns st) = length cooked \<and> length (last_raw st) = length cooked"
  for DEBOUNCE
proof unfold_locales
  fix cooked raw cooked' :: "'a matrix" and s s' now changed f
  assume a: "length (countdowns s) = length cooked \<and> length (last_raw s) = length cooked" "length raw = length cooked"
    "sym_defer_pr DEBOUNCE now raw changed (s, cooked) = (f, s', cooked')"
  let ?e = "if 255 < TIMER_DIFF_16 (ucast now) (pr_last_time s) then 255 else ucast (TIMER_DIFF_16 (ucast now) (pr_last_time s))"
  from a(3) have l: "fold (defer_pr_row DEBOUNCE raw ?e) [0..<length raw]
      (s\<lparr>pr_last_time := ucast now, pr_cooked_changed := False\<rparr>, cooked) = (s', cooked')" "f = pr_cooked_changed s'"
    by (auto simp: sym_defer_pr_def Let_def split: prod.splits)
  note R = defer_pr_rows.all_rows [OF _ a(2) [symmetric] l(1)]
  show "(length (countdowns s') = length cooked' \<and> length (last_raw s') = length cooked') \<and> length cooked' = length cooked"
    using R(1,2) a by simp
  show "r < length cooked \<Longrightarrow> bit (cooked' ! r) c = bit (cooked ! r) c \<or> bit (cooked' ! r) c = bit (raw ! r) c" for r c
    using R(3) [of r] a by auto
  show "f \<longleftrightarrow> cooked' \<noteq> cooked" using R(4) a l(2) by simp
qed

lemma eager_pr_update_keeps:
  "length (debounce_counters (eager_pr_update n e st)) = length (debounce_counters st)
   \<and> cooked_changed (eager_pr_update n e st) = cooked_changed st"
proof -
  have "length (debounce_counters (fold (eager_pr_update_row e) rs st)) = length (debounce_counters st)
     \<and> cooked_changed (fold (eager_pr_update_row e) rs st) = cooked_changed st" for rs st
    by (induction rs arbitrary: st) (auto simp: eager_pr_update_row_def Let_def)
  then show ?thesis by (simp add: eager_pr_update_def)
qed

interpretation eager_pr: debouncer "sym_eager_pr DEBOUNCE" "\<lambda>st cooked. length (debounce_counters st) = length cooked"
  for DEBOUNCE
proof unfold_locales
  fix cooked raw cooked' :: "'a matrix" and s s' now changed f
  assume a: "length (debounce_counters s) = length cooked" "length raw = length cooked"
    "sym_eager_pr DEBOUNCE now raw changed (s, cooked) = (f, s', cooked')"
  let ?s0 = "s\<lparr>cooked_changed := False\<rparr>"
  define s1 where "s1 = (if counters_need_update s then if 0 < clamped_elapsed now (last_time s)
      then eager_pr_update (length raw) (clamped_elapsed now (last_time s)) (?s0\<lparr>last_time := now\<rparr>)
      else ?s0\<lparr>last_time := now\<rparr> else ?s0)"
  define s2 where "s2 = (if counters_need_update s then s1 else s1\<lparr>last_time := now\<rparr>)\<lparr>matrix_need_update := False\<rparr>"
  have s1: "length (debounce_counters s1) = length raw" "\<not> cooked_changed s1"
    using a(1,2) by (auto simp: s1_def eager_pr_update_keeps)
  have r: "(s', cooked') = (if changed \<or> matrix_need_update s1 then
      fold (eager_pr_transfer_row DEBOUNCE raw) [0..<length raw] (s2, cooked) else (s1, cooked))" "f = cooked_changed s'"
    using a(3) by (auto simp: sym_eager_pr_def s1_def s2_def eager_pr_transfer_def Let_def split: prod.splits if_splits)
  have s2: "length (debounce_counters s2) = length raw" "\<not> cooked_changed s2" using s1 by (auto simp: s2_def)
  note R = eager_pr_rows.all_rows [where DEBOUNCE = DEBOUNCE and st' = s' and cooked' = cooked', OF s2(1) a(2) [symmetric]]
  show "length (debounce_counters s') = length cooked' \<and> length cooked' = length cooked"
    using R(1,2) r(1) s1(1) a(2) by (auto split: if_splits)
  show "r < length cooked \<Longrightarrow> bit (cooked' ! r) c = bit (cooked ! r) c \<or> bit (cooked' ! r) c = bit (raw ! r) c" for r c
    using R(3) [of r] r(1) by (auto split: if_splits)
  show "f \<longleftrightarrow> cooked' \<noteq> cooked"
    using R(4) r s1(2) s2(2) by (auto split: if_splits)
qed

end
