(* ===== verification/Deferred_Exec.thy ===== *)
theory Deferred_Exec
  imports Prelude
begin

text \<open>
  Deferred execution (\<^verbatim>\<open>quantum/deferred_exec.c\<close>): a table of callbacks with their times, named by 8-bit
  tokens. A callback is given by what it is (\<open>'c\<close>) and its argument (\<open>'a\<close>); what it does is a parameter of the
  task. The table of the advanced interface is the argument \<open>table\<close>, never a null pointer.
\<close>

subsection \<open>The table\<close>

abbreviation (input) INVALID_DEFERRED_TOKEN :: uint8 where "INVALID_DEFERRED_TOKEN \<equiv> 0"

record ('c, 'a) deferred_executor_t =
  token :: uint8
  trigger_time :: uint32
  callback :: "'c option"
  cb_arg :: "'a option"

definition no_executor :: "('c, 'a) deferred_executor_t" where
  "no_executor = \<lparr>token = INVALID_DEFERRED_TOKEN, trigger_time = 0, callback = None, cb_arg = None\<rparr>"

definition token_can_be_used :: "('c, 'a) deferred_executor_t list \<Rightarrow> uint8 \<Rightarrow> bool" where
  "token_can_be_used table tok \<longleftrightarrow> tok \<noteq> INVALID_DEFERRED_TOKEN \<and> list_all (\<lambda>e. token e \<noteq> tok) table"

lemma unat_pred_less: "x \<noteq> 0 \<Longrightarrow> unat (x - 1) < unat (x :: uint8)"
  by (simp add: unat_minus_one unat_gt_0)

text \<open>The loop of \<open>allocate_token\<close>: the token and the new value of \<open>current_token\<close>.\<close>

function allocate_loop :: "('c, 'a) deferred_executor_t list \<Rightarrow> uint8 \<Rightarrow> uint8 \<Rightarrow> uint8 \<times> uint8" where
  "allocate_loop table start current =
     (if token_can_be_used table current then (current, current)
      else if current + 1 = start then (INVALID_DEFERRED_TOKEN, current + 1)
      else allocate_loop table start (current + 1))"
  by pat_completeness auto

termination
proof (relation "measure (\<lambda>(table, start, current). unat (start - current - 1))", goal_cases)
  case (2 table start current)
  then have "start - current - 1 \<noteq> 0" by (metis diff_add_cancel add.commute add_0 diff_diff_eq right_minus_eq)
  then have "unat (start - current - 1 - 1) < unat (start - current - 1)" by (rule unat_pred_less)
  then show ?case by (simp add: diff_diff_eq)
qed simp

definition allocate_token :: "('c, 'a) deferred_executor_t list \<Rightarrow> uint8 \<Rightarrow> uint8 \<times> uint8" where
  "allocate_token table current = allocate_loop table (current + 1) (current + 1)"

text \<open>The search for an entry, which all three operations begin with.\<close>

fun entry_index :: "uint8 \<Rightarrow> ('c, 'a) deferred_executor_t list \<Rightarrow> nat option" where
  "entry_index tok [] = None"
| "entry_index tok (e # table) = (if token e = tok then Some 0 else map_option Suc (entry_index tok table))"

definition defer_exec_advanced ::
  "('c, 'a) deferred_executor_t list \<Rightarrow> uint32 \<Rightarrow> uint32 \<Rightarrow> 'c option \<Rightarrow> 'a option \<Rightarrow> uint8 \<Rightarrow>
   uint8 \<times> ('c, 'a) deferred_executor_t list \<times> uint8" where
  "defer_exec_advanced table now delay_ms cb arg current =
     (if table = [] \<or> delay_ms = 0 \<or> cb = None then (INVALID_DEFERRED_TOKEN, table, current)
      else case entry_index INVALID_DEFERRED_TOKEN table of
        None \<Rightarrow> (INVALID_DEFERRED_TOKEN, table, current)
      | Some i \<Rightarrow>
          let (tok, current) = allocate_token table current
          in if tok = INVALID_DEFERRED_TOKEN then (0, table, current)
             else (current, table[i := \<lparr>token = current, trigger_time = now + delay_ms, callback = cb, cb_arg = arg\<rparr>], current))"

definition extend_deferred_exec_advanced ::
  "('c, 'a) deferred_executor_t list \<Rightarrow> uint32 \<Rightarrow> uint8 \<Rightarrow> uint32 \<Rightarrow> bool \<times> ('c, 'a) deferred_executor_t list" where
  "extend_deferred_exec_advanced table now tok delay_ms =
     (if table = [] \<or> delay_ms = 0 \<or> tok = INVALID_DEFERRED_TOKEN then (False, table)
      else case entry_index tok table of
        None \<Rightarrow> (False, table)
      | Some i \<Rightarrow> (True, table[i := (table ! i)\<lparr>trigger_time := now + delay_ms\<rparr>]))"

definition cancel_deferred_exec_advanced ::
  "('c, 'a) deferred_executor_t list \<Rightarrow> uint8 \<Rightarrow> bool \<times> ('c, 'a) deferred_executor_t list" where
  "cancel_deferred_exec_advanced table tok =
     (if table = [] \<or> tok = INVALID_DEFERRED_TOKEN then (False, table)
      else case entry_index tok table of None \<Rightarrow> (False, table) | Some i \<Rightarrow> (True, table[i := no_executor]))"

subsection \<open>The task\<close>

text \<open>
  The static variables of the file and the timer. A callback may use the interface, so that it gets and returns the whole state.
  A used entry always has a callback (\<open>well_formed\<close> below).
\<close>

record ('c, 'a) deferred =
  basic_executors :: "('c, 'a) deferred_executor_t list"
  current_token :: uint8
  last_deferred_exec_check :: uint32
  timer32 :: uint32

type_synonym ('c, 'a, 's) invoke = "'c \<Rightarrow> uint32 \<Rightarrow> 'a option \<Rightarrow> 's \<Rightarrow> uint32 \<times> 's"

definition due :: "uint32 \<Rightarrow> ('c, 'a) deferred_executor_t \<Rightarrow> bool" where
  "due now e \<longleftrightarrow> token e \<noteq> INVALID_DEFERRED_TOKEN \<and> sint (TIMER_DIFF_32 (trigger_time e) now) \<le> 0"

definition run_executor :: "('c, 'a, ('c, 'a, 'z) deferred_scheme) invoke \<Rightarrow> uint32 \<Rightarrow> nat \<Rightarrow> ('c, 'a, 'z) deferred_scheme \<Rightarrow> ('c, 'a, 'z) deferred_scheme" where
  "run_executor call now i s =
     (let e = basic_executors s ! i
      in if \<not> due now e then s
         else case callback e of
           None \<Rightarrow> s
         | Some c \<Rightarrow>
             let (delay_ms, s) = call c (trigger_time e) (cb_arg e) s; e' = basic_executors s ! i
             in if token e' \<noteq> token e then s
                else s\<lparr>basic_executors := (basic_executors s)
                  [i := if 0 < delay_ms then e'\<lparr>trigger_time := trigger_time e' + delay_ms\<rparr> else no_executor]\<rparr>)"

definition deferred_exec_task :: "('c, 'a, ('c, 'a, 'z) deferred_scheme) invoke \<Rightarrow> ('c, 'a, 'z) deferred_scheme \<Rightarrow> ('c, 'a, 'z) deferred_scheme" where
  "deferred_exec_task call s =
     (let now = timer32 s
      in if 0 < sint (TIMER_DIFF_32 now (last_deferred_exec_check s))
         then fold (run_executor call now) [0..<length (basic_executors s)] (s\<lparr>last_deferred_exec_check := now\<rparr>)
         else s)"

definition defer_exec :: "uint32 \<Rightarrow> 'c option \<Rightarrow> 'a option \<Rightarrow> ('c, 'a, 'z) deferred_scheme \<Rightarrow> uint8 \<times> ('c, 'a, 'z) deferred_scheme" where
  "defer_exec delay_ms cb arg s =
     (let (tok, table, current) = defer_exec_advanced (basic_executors s) (timer32 s) delay_ms cb arg (current_token s)
      in (tok, s\<lparr>basic_executors := table, current_token := current\<rparr>))"

definition extend_deferred_exec :: "uint8 \<Rightarrow> uint32 \<Rightarrow> ('c, 'a, 'z) deferred_scheme \<Rightarrow> bool \<times> ('c, 'a, 'z) deferred_scheme" where
  "extend_deferred_exec tok delay_ms s =
     (let (ok, table) = extend_deferred_exec_advanced (basic_executors s) (timer32 s) tok delay_ms in (ok, s\<lparr>basic_executors := table\<rparr>))"

definition cancel_deferred_exec :: "uint8 \<Rightarrow> ('c, 'a, 'z) deferred_scheme \<Rightarrow> bool \<times> ('c, 'a, 'z) deferred_scheme" where
  "cancel_deferred_exec tok s =
     (let (ok, table) = cancel_deferred_exec_advanced (basic_executors s) tok in (ok, s\<lparr>basic_executors := table\<rparr>))"

declare allocate_loop.simps [simp del]

subsection \<open>Tokens\<close>

text \<open>The tokens that are tried: from \<open>start\<close> to the current one.\<close>

lemma allocate_loop_result:
  assumes "allocate_loop table start current = (tok, current')"
  shows "tok = 0 \<and> (\<forall>k. unat (k - start) \<ge> unat (current - start) \<longrightarrow> \<not> token_can_be_used table k) \<or> token_can_be_used table tok \<and> current' = tok"
  using assms
proof (induction table start current rule: allocate_loop.induct)
  case (1 table start current)
  show ?case
  proof (cases "token_can_be_used table current")
    case True
    then show ?thesis using "1.prems" by (auto simp: allocate_loop.simps)
  next
    case unused: False
    show ?thesis
    proof (cases "current + 1 = start")
      case True
      have "k = current" if "unat (k - start) \<ge> unat (current - start)" for k
      proof -
        have "current - start = - 1" using True by (simp add: algebra_simps)
        then have "k - start = - 1" using that by (intro antisym word_n1_ge) (simp add: word_le_nat_alt)
        then have "k + 1 = current + 1" using True by (simp add: algebra_simps)
        then show "k = current" by (rule add_right_imp_eq)
      qed
      then show ?thesis using unused True "1.prems" by (auto simp: allocate_loop.simps)
    next
      case False
      then have "1 + (current - start) \<noteq> 0" by (metis add.commute add_diff_eq right_minus_eq)
      from unatSuc [OF this] have step: "unat (current + 1 - start) = unat (current - start) + 1" by (simp add: algebra_simps)
      have "k = current \<or> unat (k - start) \<ge> unat (current + 1 - start)" if "unat (k - start) \<ge> unat (current - start)" for k
        using that step by (metis Suc_eq_plus1 diff_add_cancel le_SucE le_antisym not_less_eq_eq word_unat_eq_iff)
      then show ?thesis using "1.IH" [OF unused False] "1.prems" unused False by (auto simp: allocate_loop.simps)
    qed
  qed
qed

lemma allocate_token_fresh:
  assumes "length table \<le> 254"
  shows "\<exists>tok. allocate_token table current = (tok, tok) \<and> tok \<noteq> 0 \<and> tok \<notin> token ` set table"
proof -
  obtain tok current' where a: "allocate_token table current = (tok, current')" by fastforce
  have "card (insert 0 (token ` set table)) \<le> Suc (length table)"
    by (metis card_image_le card_insert_le_m1 card_length finite_set image_set length_map card.insert_remove List.finite_set card_insert_if le_SucI Suc_le_mono)
  then have "card (insert 0 (token ` set table)) < CARD(8 word)" using assms by (simp add: card_word)
  then obtain k where "k \<notin> insert 0 (token ` set table)" by (metis UNIV_eq_I less_irrefl)
  then have "token_can_be_used table k" by (auto simp: token_can_be_used_def list_all_iff)
  then have "token_can_be_used table tok \<and> current' = tok"
    using allocate_loop_result [of table "current + 1" "current + 1" tok current'] a by (auto simp: allocate_token_def)
  then show ?thesis using a by (auto simp: token_can_be_used_def list_all_iff)
qed

subsection \<open>The table as a map from tokens to callbacks\<close>

definition well_formed :: "('c, 'a) deferred_executor_t list \<Rightarrow> bool" where
  "well_formed table \<longleftrightarrow>
     (\<forall>i<length table. token (table ! i) \<noteq> 0 \<longrightarrow> callback (table ! i) \<noteq> None
        \<and> (\<forall>j<length table. token (table ! j) = token (table ! i) \<longrightarrow> j = i))"

definition executor_info :: "('c, 'a) deferred_executor_t \<Rightarrow> uint32 \<times> 'c option \<times> 'a option" where
  "executor_info e = (trigger_time e, callback e, cb_arg e)"

definition entries :: "('c, 'a) deferred_executor_t list \<Rightarrow> uint8 \<rightharpoonup> uint32 \<times> 'c option \<times> 'a option" where
  "entries table tok = (if tok = 0 then None else map_option (\<lambda>i. executor_info (table ! i)) (entry_index tok table))"

lemma option_eqI: "(\<And>v. x = Some v \<longleftrightarrow> y = Some v) \<Longrightarrow> x = y"
  by (cases x; cases y) auto

lemma entry_index_Some: "entry_index tok table = Some i \<Longrightarrow> i < length table \<and> token (table ! i) = tok"
  by (induction table arbitrary: i) (auto split: if_splits)

lemma entry_index_None: "entry_index tok table = None \<longleftrightarrow> tok \<notin> token ` set table"
  by (induction table) auto

lemma well_formed_unique:
  "well_formed table \<Longrightarrow> i < length table \<Longrightarrow> j < length table \<Longrightarrow> token (table ! i) \<noteq> 0 \<Longrightarrow> token (table ! j) = token (table ! i) \<Longrightarrow> j = i"
  by (simp add: well_formed_def)

lemma well_formed_callback: "well_formed table \<Longrightarrow> i < length table \<Longrightarrow> token (table ! i) \<noteq> 0 \<Longrightarrow> callback (table ! i) \<noteq> None"
  by (simp add: well_formed_def)

lemma entry_index_unique:
  assumes "well_formed table" "i < length table" "token (table ! i) \<noteq> 0"
  shows "entry_index (token (table ! i)) table = Some i"
proof (cases "entry_index (token (table ! i)) table")
  case None
  then show ?thesis using assms(2) by (auto simp: entry_index_None)
next
  case (Some j)
  then show ?thesis using assms entry_index_Some [OF Some] by (auto simp: well_formed_def)
qed

lemma entries_Some_iff:
  assumes "well_formed table"
  shows "entries table tok = Some v \<longleftrightarrow> tok \<noteq> 0 \<and> (\<exists>i<length table. token (table ! i) = tok \<and> v = executor_info (table ! i))"
  using entry_index_unique [OF assms] entry_index_Some [of tok table] by (auto simp: entries_def)

lemma well_formed_update:
  assumes "well_formed table" "i < length table"
    and e: "token e \<noteq> 0 \<Longrightarrow> callback e \<noteq> None" "token e = 0 \<or> token e = token (table ! i) \<or> token e \<notin> token ` set table"
  shows "well_formed (table[i := e])"
  unfolding well_formed_def
proof (intro allI impI conjI)
  fix j k assume j: "j < length (table[i := e])" "token (table[i := e] ! j) \<noteq> 0"
  show "callback (table[i := e] ! j) \<noteq> None" using assms(1,2) j e(1) by (cases "j = i") (auto simp: well_formed_def)
  assume k: "k < length (table[i := e])" "token (table[i := e] ! k) = token (table[i := e] ! j)"
  have "token (table ! k) \<in> token ` set table" "token (table ! j) \<in> token ` set table" using j(1) k(1) by auto
  then show "k = j" using j k e(2) assms(2) well_formed_unique [OF assms(1), of j k] well_formed_unique [OF assms(1), of i k]
      well_formed_unique [OF assms(1), of i j]
    by (cases "k = i"; cases "j = i") auto
qed

lemma entries_update:
  assumes "well_formed table" "i < length table"
    and e: "token e \<noteq> 0 \<Longrightarrow> callback e \<noteq> None" "token e = 0 \<or> token e = token (table ! i) \<or> token e \<notin> token ` set table"
  shows "entries (table[i := e]) = ((entries table)(token (table ! i) := None))(token e := if token e = 0 then None else Some (executor_info e))"
proof (rule ext)
  fix tok
  let ?m = "((entries table)(token (table ! i) := None))(token e := if token e = 0 then None else Some (executor_info e))"
  note wf = well_formed_update [OF assms]
  have new: "entries (table[i := e]) (token e) = Some (executor_info e)" if "token e \<noteq> 0"
    using that assms(2) by (auto simp: entries_Some_iff [OF wf])
  have old: "entries (table[i := e]) tok = (if tok = token (table ! i) then None else entries table tok)" if "tok \<noteq> token e" "tok \<noteq> 0"
  proof -
    have u: "j = i" if "j < length table" "token (table ! j) = tok" "tok = token (table ! i)" for j
      using well_formed_unique [OF assms(1,2) that(1)] that(2,3) \<open>tok \<noteq> 0\<close> by simp
    have eq: "entries (table[i := e]) tok = Some v \<longleftrightarrow> tok \<noteq> token (table ! i) \<and> entries table tok = Some v" for v
    proof -
      have "(\<exists>j<length table. token (table[i := e] ! j) = tok \<and> v = executor_info (table[i := e] ! j)) \<longleftrightarrow>
          (\<exists>j<length table. j \<noteq> i \<and> token (table ! j) = tok \<and> v = executor_info (table ! j))"
        using that(1) assms(2) by (metis nth_list_update_eq nth_list_update_neq)
      also have "\<dots> \<longleftrightarrow> tok \<noteq> token (table ! i) \<and> (\<exists>j<length table. token (table ! j) = tok \<and> v = executor_info (table ! j))"
        using u by metis
      finally show ?thesis using that(2) by (simp add: entries_Some_iff [OF wf] entries_Some_iff [OF assms(1)])
    qed
    show ?thesis by (rule option_eqI) (simp add: eq)
  qed
  have zero: "entries u 0 = None" for u :: "('a, 'b) deferred_executor_t list" by (simp add: entries_def)
  show "entries (table[i := e]) tok = ?m tok"
    using new old zero by (cases "tok = 0"; cases "tok = token e") auto
qed

subsection \<open>The interface\<close>

abbreviation pending_calls :: "('c, 'a, 'z) deferred_scheme \<Rightarrow> uint8 \<rightharpoonup> uint32 \<times> 'c option \<times> 'a option" where
  "pending_calls s \<equiv> entries (basic_executors s)"

definition table_sound :: "('c, 'a, 'z) deferred_scheme \<Rightarrow> bool" where
  "table_sound s \<longleftrightarrow> well_formed (basic_executors s) \<and> length (basic_executors s) \<le> 254"

definition table_full :: "('c, 'a, 'z) deferred_scheme \<Rightarrow> bool" where
  "table_full s \<longleftrightarrow> (\<forall>e\<in>set (basic_executors s). token e \<noteq> 0)"

text \<open>What a client may rely on.\<close>

locale deferred_calls =
  fixes defer_op :: "uint32 \<Rightarrow> 'c option \<Rightarrow> 'a option \<Rightarrow> 's \<Rightarrow> uint8 \<times> 's"
    and extend_op :: "uint8 \<Rightarrow> uint32 \<Rightarrow> 's \<Rightarrow> bool \<times> 's"
    and cancel_op :: "uint8 \<Rightarrow> 's \<Rightarrow> bool \<times> 's"
    and pending :: "'s \<Rightarrow> uint8 \<rightharpoonup> uint32 \<times> 'c option \<times> 'a option"
    and inv :: "'s \<Rightarrow> bool" and clock :: "'s \<Rightarrow> uint32"
  assumes defer_law: "inv s \<Longrightarrow> defer_op d cb a s = (tok, s') \<Longrightarrow>
      inv s' \<and> clock s' = clock s
      \<and> (if tok = 0 then pending s' = pending s
         else d \<noteq> 0 \<and> cb \<noteq> None \<and> pending s tok = None \<and> pending s' = (pending s)(tok \<mapsto> (clock s + d, cb, a)))"
    and extend_law: "inv s \<Longrightarrow> extend_op tok d s = (ok, s') \<Longrightarrow>
      inv s' \<and> clock s' = clock s \<and> (ok \<longleftrightarrow> d \<noteq> 0 \<and> tok \<in> dom (pending s))
      \<and> pending s' = (if ok then (pending s)(tok \<mapsto> (clock s + d, snd (the (pending s tok)))) else pending s)"
    and cancel_law: "inv s \<Longrightarrow> cancel_op tok s = (ok, s') \<Longrightarrow>
      inv s' \<and> clock s' = clock s \<and> (ok \<longleftrightarrow> tok \<in> dom (pending s)) \<and> pending s' = (pending s)(tok := None)"
    and zero_law: "pending s 0 = None"
begin

lemma defer_cancel:
  assumes "inv s" "defer_op d cb a s = (tok, s1)" "cancel_op tok s1 = (ok, s2)"
  shows "pending s2 = pending s \<and> (ok \<longleftrightarrow> tok \<noteq> 0)"
proof -
  have d: "inv s1" "if tok = 0 then pending s1 = pending s
      else pending s tok = None \<and> pending s1 = (pending s)(tok \<mapsto> (clock s + d, cb, a))"
    using defer_law [OF assms(1,2)] by (auto split: if_splits)
  then show ?thesis using cancel_law [OF d(1) assms(3)] zero_law [of s] by (auto simp: fun_upd_idem split: if_splits)
qed

lemma cancelled_stays_away:
  assumes "inv s" "cancel_op tok s = (ok, s1)"
  shows "fst (cancel_op tok s1) = False \<and> fst (extend_op tok d s1) = False"
proof -
  have c: "inv s1" "pending s1 tok = None" using cancel_law [OF assms] by auto
  show ?thesis
    using cancel_law [OF c(1), of tok "fst (cancel_op tok s1)" "snd (cancel_op tok s1)"] extend_law [OF c(1), of tok d "fst (extend_op tok d s1)" "snd (extend_op tok d s1)"] c(2)
    by auto
qed

lemma extend_after_defer:
  assumes "inv s" "defer_op d cb a s = (tok, s1)" "tok \<noteq> 0" "extend_op tok d' s1 = (ok, s2)" "d' \<noteq> 0"
  shows "ok \<and> pending s2 = (pending s)(tok \<mapsto> (clock s + d', cb, a))"
  using defer_law [OF assms(1,2)] extend_law [OF _ assms(4)] assms(3,5) by auto

end

lemma entry_found:
  assumes "well_formed table" "tok \<noteq> 0"
  shows "(\<exists>i. entry_index tok table = Some i) \<longleftrightarrow> tok \<in> dom (entries table)"
  using assms(2) by (auto simp: entries_def domIff)

lemma defer_exec_effect:
  assumes "table_sound s" "defer_exec d cb a s = (tok, s')"
  shows "if d = 0 \<or> cb = None \<or> table_full s then tok = 0 \<and> pending_calls s' = pending_calls s \<and> table_sound s'
    else tok \<noteq> 0 \<and> pending_calls s tok = None \<and> pending_calls s' = (pending_calls s)(tok \<mapsto> (timer32 s + d, cb, a)) \<and> table_sound s'"
proof (cases "d = 0 \<or> cb = None \<or> table_full s")
  case True
  then have "defer_exec_advanced (basic_executors s) (timer32 s) d cb a (current_token s) = (0, basic_executors s, current_token s)"
    by (auto simp: defer_exec_advanced_def table_full_def entry_index_None [of 0, THEN iffD2] image_iff split: option.split dest: entry_index_Some)
  then show ?thesis using assms True by (auto simp: defer_exec_def table_sound_def)
next
  case False
  let ?t = "basic_executors s"
  obtain i where i: "entry_index 0 ?t = Some i" using False by (cases "entry_index 0 ?t") (auto simp: table_full_def entry_index_None image_iff)
  note i' = entry_index_Some [OF i]
  obtain k where k: "allocate_token ?t (current_token s) = (k, k)" "k \<noteq> 0" "k \<notin> token ` set ?t"
    using allocate_token_fresh [of ?t "current_token s"] assms(1) by (auto simp: table_sound_def)
  let ?e = "\<lparr>token = k, trigger_time = timer32 s + d, callback = cb, cb_arg = a\<rparr>"
  have "defer_exec_advanced ?t (timer32 s) d cb a (current_token s) = (k, ?t[i := ?e], k)"
    using False i i' k by (auto simp: defer_exec_advanced_def)
  then have r: "tok = k" "s' = s\<lparr>basic_executors := ?t[i := ?e], current_token := k\<rparr>" using assms(2) by (auto simp: defer_exec_def)
  have wf: "well_formed ?t" using assms(1) by (simp add: table_sound_def)
  have "entries (?t[i := ?e]) = (entries ?t)(k \<mapsto> (timer32 s + d, cb, a))"
    using entries_update [OF wf, of i ?e] i' k False by (auto simp: executor_info_def fun_upd_idem entries_def)
  moreover have "entries ?t k = None" using k(3) by (simp add: entries_def entry_index_None)
  ultimately show ?thesis using False r k well_formed_update [OF wf, of i ?e] i' assms(1) by (auto simp: table_sound_def)
qed

lemma extend_deferred_exec_effect:
  assumes "table_sound s" "extend_deferred_exec tok d s = (ok, s')"
  shows "table_sound s' \<and> timer32 s' = timer32 s \<and> (ok \<longleftrightarrow> d \<noteq> 0 \<and> tok \<in> dom (pending_calls s))
    \<and> pending_calls s' = (if ok then (pending_calls s)(tok \<mapsto> (timer32 s + d, snd (the (pending_calls s tok)))) else pending_calls s)"
proof (cases "d \<noteq> 0 \<and> tok \<in> dom (pending_calls s)")
  case True
  let ?t = "basic_executors s"
  have wf: "well_formed ?t" using assms(1) by (simp add: table_sound_def)
  have "tok \<noteq> 0" using True by (auto simp: entries_def)
  then obtain i where i: "entry_index tok ?t = Some i" using True entry_found [OF wf] by blast
  note i' = entry_index_Some [OF i]
  let ?e = "(?t ! i)\<lparr>trigger_time := timer32 s + d\<rparr>"
  have "entries ?t tok = Some (executor_info (?t ! i))" using i \<open>tok \<noteq> 0\<close> by (simp add: entries_def)
  moreover have "callback ?e \<noteq> None" using wf i' \<open>tok \<noteq> 0\<close> by (simp add: well_formed_def)
  moreover have "?t \<noteq> []" using i' by auto
  then have "ok" "s' = s\<lparr>basic_executors := ?t[i := ?e]\<rparr>"
    using assms(2) True i \<open>tok \<noteq> 0\<close> by (simp_all add: extend_deferred_exec_def extend_deferred_exec_advanced_def)
  ultimately show ?thesis
    using entries_update [OF wf, of i ?e] well_formed_update [OF wf, of i ?e] i' True assms(1) \<open>tok \<noteq> 0\<close>
    by (auto simp: table_sound_def executor_info_def)
next
  case False
  then have "\<not> ok \<and> s' = s" using assms entry_found [of "basic_executors s" tok]
    by (cases "entry_index tok (basic_executors s)")
      (auto simp: extend_deferred_exec_def extend_deferred_exec_advanced_def table_sound_def split: if_splits)
  then show ?thesis using False assms(1) by auto
qed

lemma cancel_deferred_exec_effect:
  assumes "table_sound s" "cancel_deferred_exec tok s = (ok, s')"
  shows "table_sound s' \<and> timer32 s' = timer32 s \<and> (ok \<longleftrightarrow> tok \<in> dom (pending_calls s)) \<and> pending_calls s' = (pending_calls s)(tok := None)"
proof (cases "tok \<in> dom (pending_calls s)")
  case True
  let ?t = "basic_executors s"
  have wf: "well_formed ?t" using assms(1) by (simp add: table_sound_def)
  have "tok \<noteq> 0" using True by (auto simp: entries_def)
  then obtain i where i: "entry_index tok ?t = Some i" using True entry_found [OF wf] by blast
  note i' = entry_index_Some [OF i]
  have "?t \<noteq> []" using i' by auto
  then have "ok" "s' = s\<lparr>basic_executors := ?t[i := no_executor]\<rparr>"
    using assms(2) i \<open>tok \<noteq> 0\<close> by (simp_all add: cancel_deferred_exec_def cancel_deferred_exec_advanced_def)
  then show ?thesis
    using entries_update [OF wf, of i no_executor] well_formed_update [OF wf, of i no_executor] i' True assms(1)
    by (auto simp: table_sound_def no_executor_def fun_upd_idem entries_def)
next
  case False
  then have "\<not> ok \<and> s' = s" using assms entry_found [of "basic_executors s" tok]
    by (cases "entry_index tok (basic_executors s)")
      (auto simp: cancel_deferred_exec_def cancel_deferred_exec_advanced_def table_sound_def split: if_splits)
  then show ?thesis using False assms(1) by (auto simp: fun_upd_idem domIff)
qed

interpretation api: deferred_calls defer_exec extend_deferred_exec cancel_deferred_exec pending_calls table_sound timer32
proof (unfold_locales, goal_cases)
  case (1 s d cb a tok s')
  moreover from 1(2) have "timer32 s' = timer32 s" by (auto simp: defer_exec_def split: prod.splits)
  ultimately show ?case using defer_exec_effect [of s d cb a tok s'] by (auto split: if_splits)
next
  case (2 s tok d ok s')
  then show ?case by (rule extend_deferred_exec_effect)
next
  case (3 s tok ok s')
  then show ?case by (rule cancel_deferred_exec_effect)
qed (simp add: entries_def)

subsection \<open>Running the table\<close>

text \<open>Callbacks that do not look at the table, and the table as they leave it.\<close>

definition independent :: "('c, 'a, ('c, 'a, 'z) deferred_scheme) invoke \<Rightarrow> bool" where
  "independent call \<longleftrightarrow> (\<forall>c t a s v. call c t a (s\<lparr>basic_executors := v\<rparr>) = (fst (call c t a s), (snd (call c t a s))\<lparr>basic_executors := v\<rparr>))"

fun run_table :: "('c, 'a, 's) invoke \<Rightarrow> uint32 \<Rightarrow> ('c, 'a) deferred_executor_t list \<Rightarrow> 's \<Rightarrow> ('c, 'a) deferred_executor_t list \<times> 's" where
  "run_table call now [] s = ([], s)"
| "run_table call now (e # es) s =
     (if due now e
      then let (delay_ms, s) = call (the (callback e)) (trigger_time e) (cb_arg e) s; (es, s) = run_table call now es s
           in ((if 0 < delay_ms then e\<lparr>trigger_time := trigger_time e + delay_ms\<rparr> else no_executor) # es, s)
      else let (es, s) = run_table call now es s in (e # es, s))"

lemma independent_run_table:
  assumes "independent call"
  shows "run_table call now es (s\<lparr>basic_executors := v\<rparr>) = (fst (run_table call now es s), (snd (run_table call now es s))\<lparr>basic_executors := v\<rparr>)"
proof (induction es arbitrary: s)
  case (Cons e es)
  have "call c t a (s\<lparr>basic_executors := v\<rparr>) = (fst (call c t a s), (snd (call c t a s))\<lparr>basic_executors := v\<rparr>)" for c t a s
    using assms by (simp add: independent_def)
  then show ?case by (simp add: Cons.IH Let_def case_prod_beta)
qed simp

lemma run_executors:
  assumes "independent call" "\<forall>e\<in>set es. token e \<noteq> 0 \<longrightarrow> callback e \<noteq> None"
  shows "fold (run_executor call now) [length xs..<length xs + length es] (s\<lparr>basic_executors := xs @ es\<rparr>) =
    (let (es', s') = run_table call now es s in s'\<lparr>basic_executors := xs @ es'\<rparr>)"
  using assms(2)
proof (induction es arbitrary: xs s)
  case (Cons e es)
  have call: "call c t a (s\<lparr>basic_executors := v\<rparr>) = (fst (call c t a s), (snd (call c t a s))\<lparr>basic_executors := v\<rparr>)" for c t a s v
    using assms(1) by (simp add: independent_def)
  define r where "r = call (the (callback e)) (trigger_time e) (cb_arg e) s"
  define e' where "e' = (if due now e then if 0 < fst r then e\<lparr>trigger_time := trigger_time e + fst r\<rparr> else no_executor else e)"
  define s' where "s' = (if due now e then snd r else s)"
  have "callback e = Some (the (callback e))" if "due now e" using that Cons.prems by (auto simp: due_def)
  then have "run_executor call now (length xs) (s\<lparr>basic_executors := xs @ e # es\<rparr>) = s'\<lparr>basic_executors := xs @ e' # es\<rparr>"
    by (cases "callback e") (auto simp: run_executor_def call r_def e'_def s'_def Let_def case_prod_beta)
  moreover have "[length xs..<length xs + length (e # es)] = length xs # [length (xs @ [e'])..<length (xs @ [e']) + length es]"
    by (simp add: upt_rec)
  moreover have "run_table call now (e # es) s = (let (es', s'') = run_table call now es s' in (e' # es', s''))"
    by (simp add: r_def e'_def s'_def Let_def case_prod_beta)
  ultimately show ?case using Cons.IH [of "xs @ [e']" s'] Cons.prems by (simp add: Let_def case_prod_beta)
qed simp

lemma deferred_exec_task_runs_table:
  assumes "independent call" "table_sound s" "0 < sint (TIMER_DIFF_32 (timer32 s) (last_deferred_exec_check s))"
  shows "deferred_exec_task call s =
    (let (table, s') = run_table call (timer32 s) (basic_executors s) (s\<lparr>last_deferred_exec_check := timer32 s\<rparr>)
     in s'\<lparr>basic_executors := table\<rparr>)"
proof -
  have "\<forall>e\<in>set (basic_executors s). token e \<noteq> 0 \<longrightarrow> callback e \<noteq> None"
    using assms(2) by (auto simp: table_sound_def well_formed_def in_set_conv_nth)
  from run_executors [OF assms(1) this, of "timer32 s" "[]" "s\<lparr>last_deferred_exec_check := timer32 s\<rparr>"] show ?thesis
    using assms(3) by (simp add: deferred_exec_task_def Let_def)
qed

text \<open>The signed comparison of times, across the wrap-around of the timer.\<close>

lemma sint_diff_le_0:
  fixes d k :: uint32
  assumes "unat d < 2 ^ 31" "unat k < 2 ^ 31"
  shows "sint (TIMER_DIFF_32 (t + d) (t + k)) \<le> 0 \<longleftrightarrow> d \<le> k"
proof -
  have "uint (d - k) = take_bit 32 (uint d - uint k)" by (simp add: uint_word_ariths(2) take_bit_eq_mod)
  then have "sint (d - k) = signed_take_bit 31 (take_bit 32 (uint d - uint k))" by (simp add: sint_uint)
  also have "\<dots> = signed_take_bit 31 (uint d - uint k)" by (simp only: signed_take_bit_take_bit) simp
  also have "\<dots> = uint d - uint k"
  proof (rule signed_take_bit_int_eq_self)
    have "int (unat d) < int (2 ^ 31)" "int (unat k) < int (2 ^ 31)" using assms by (simp_all only: of_nat_less_iff)
    then have "uint d < 2 ^ 31" "uint k < 2 ^ 31" by simp_all
    then show "- (2 ^ 31) \<le> uint d - uint k" "uint d - uint k < 2 ^ 31" using uint_ge_0 [of d] uint_ge_0 [of k] by linarith+
  qed
  finally show ?thesis by (simp add: TIMER_DIFF_32_def word_le_def)
qed

text \<open>Callbacks may use the interface: the table stays sound whatever they do with it.\<close>

lemma task_sound:
  assumes "\<And>c t a s. table_sound s \<Longrightarrow> table_sound (snd (call c t a s)) \<and> length (basic_executors (snd (call c t a s))) = length (basic_executors s)"
    and "table_sound s"
  shows "table_sound (deferred_exec_task call s) \<and> length (basic_executors (deferred_exec_task call s)) = length (basic_executors s)"
proof -
  have step: "table_sound (run_executor call now i s) \<and> length (basic_executors (run_executor call now i s)) = n"
    if s: "table_sound s \<and> length (basic_executors s) = n" and i: "i < n" for i s now n
  proof (cases "due now (basic_executors s ! i) \<and> callback (basic_executors s ! i) \<noteq> None")
    case True
    let ?e = "basic_executors s ! i"
    obtain c where c: "callback ?e = Some c" using True by auto
    obtain d u where u: "call c (trigger_time ?e) (cb_arg ?e) s = (d, u)" by fastforce
    then have su: "table_sound u" "length (basic_executors u) = n" using assms(1) [of s c "trigger_time ?e" "cb_arg ?e"] s by auto
    let ?e' = "basic_executors u ! i"
    define n' where "n' = (if 0 < d then ?e'\<lparr>trigger_time := trigger_time ?e' + d\<rparr> else no_executor)"
    have "token n' \<noteq> 0 \<Longrightarrow> callback n' \<noteq> None" "token n' = 0 \<or> token n' = token ?e'"
      using su i well_formed_callback [of "basic_executors u" i] by (auto simp: table_sound_def no_executor_def n'_def split: if_splits)
    then have "table_sound (u\<lparr>basic_executors := (basic_executors u)[i := n']\<rparr>)"
      using su i well_formed_update [of "basic_executors u" i n'] by (auto simp: table_sound_def)
    then show ?thesis using su True c u by (auto simp: run_executor_def Let_def n'_def)
  qed (use s in \<open>auto simp: run_executor_def Let_def split: option.split\<close>)
  have "\<forall>i\<in>set is. i < n \<Longrightarrow> table_sound s \<and> length (basic_executors s) = n \<Longrightarrow>
      table_sound (fold (run_executor call now) is s) \<and> length (basic_executors (fold (run_executor call now) is s)) = n" for "is" n s now
    by (induction "is" arbitrary: s) (use step in auto)
  from this [of "[0..<length (basic_executors s)]" "length (basic_executors s)" "s\<lparr>last_deferred_exec_check := timer32 s\<rparr>" "timer32 s"]
  show ?thesis using assms(2) by (auto simp: deferred_exec_task_def Let_def table_sound_def)
qed

text \<open>
  What the loop body does for a due entry, whatever its callback does to the table: the entry the callback leaves under its own token is set again
  or removed. If the callback has cancelled itself, the calls that are pending are those it has left, also where one of them has
  taken over the slot of the table.
\<close>

lemma run_executor_effect:
  assumes "i < length (basic_executors s)" "due now (basic_executors s ! i)" "callback (basic_executors s ! i) = Some c"
    "call c (trigger_time (basic_executors s ! i)) (cb_arg (basic_executors s ! i)) s = (d, s1)"
    "table_sound s1" "length (basic_executors s1) = length (basic_executors s)"
    and tok: "tok = token (basic_executors s ! i)" "pending_calls s1 tok = None \<or> token (basic_executors s1 ! i) = tok"
  shows "pending_calls (run_executor call now i s) =
    (pending_calls s1)(tok := if 0 < d then map_option (\<lambda>(t, x). (t + d, x)) (pending_calls s1 tok) else None)"
proof -
  let ?t = "basic_executors s1" and ?e = "basic_executors s1 ! i"
  have wf: "well_formed ?t" and i: "i < length ?t" using assms(1,5,6) by (simp_all add: table_sound_def)
  have nz: "tok \<noteq> 0" using assms(2) tok(1) by (simp add: due_def)
  show ?thesis
  proof (cases "token ?e = tok")
    case True
    let ?n = "if 0 < d then ?e\<lparr>trigger_time := trigger_time ?e + d\<rparr> else no_executor"
    have r: "run_executor call now i s = s1\<lparr>basic_executors := ?t[i := ?n]\<rparr>"
      using assms(2-4) tok(1) True by (simp add: run_executor_def Let_def)
    have "callback ?e \<noteq> None" using well_formed_callback [OF wf i] True nz by simp
    moreover have "pending_calls s1 tok = Some (executor_info ?e)" using True nz i by (auto simp: entries_Some_iff [OF wf])
    moreover have "entries table 0 = None" for table :: "('a, 'b) deferred_executor_t list" by (simp add: entries_def)
    ultimately show ?thesis unfolding r using entries_update [OF wf i, of ?n] True nz
      by (auto simp: no_executor_def executor_info_def fun_eq_iff)
  next
    case False
    then have "run_executor call now i s = s1" using assms(2-4) tok(1) by (simp add: run_executor_def Let_def)
    then show ?thesis using False tok(2) by (auto simp: fun_upd_idem)
  qed
qed

subsection \<open>Properties\<close>

text \<open>
  C39. Deferred execution implements a map from tokens to callbacks. \<open>defer_exec\<close> fails exactly for a zero delay, a null callback and a full
  table, and otherwise adds the callback under a token that was not in use, never 0, however often the 8-bit counter has wrapped around;
  \<open>extend_deferred_exec\<close> and \<open>cancel_deferred_exec\<close> succeed exactly for the tokens in use and change only their entry.
\<close>

theorem deferred_exec_refines_map:
  assumes "table_sound s"
  shows "(case defer_exec d cb a s of (tok, s') \<Rightarrow> table_sound s' \<and>
      (if d = 0 \<or> cb = None \<or> table_full s then tok = 0 \<and> pending_calls s' = pending_calls s
       else tok \<noteq> 0 \<and> pending_calls s tok = None \<and> pending_calls s' = (pending_calls s)(tok \<mapsto> (timer32 s + d, cb, a))))
    \<and> (case extend_deferred_exec tok d s of (ok, s') \<Rightarrow> table_sound s' \<and> (ok \<longleftrightarrow> d \<noteq> 0 \<and> tok \<in> dom (pending_calls s))
      \<and> pending_calls s' = (if ok then (pending_calls s)(tok \<mapsto> (timer32 s + d, snd (the (pending_calls s tok)))) else pending_calls s))
    \<and> (case cancel_deferred_exec tok s of (ok, s') \<Rightarrow> table_sound s' \<and> (ok \<longleftrightarrow> tok \<in> dom (pending_calls s)) \<and> pending_calls s' = (pending_calls s)(tok := None))"
  using defer_exec_effect [OF assms, of d cb a] api.extend_law [OF assms, of tok d] api.cancel_law [OF assms, of tok]
  by (auto split: prod.split)

text \<open>Two of three entries in use; \<open>current_token\<close> is about to wrap around.\<close>

definition sample_deferred :: "(nat, nat) deferred" where
  "sample_deferred =
     \<lparr>basic_executors = [\<lparr>token = 255, trigger_time = 90, callback = Some 7, cb_arg = None\<rparr>, no_executor,
        \<lparr>token = 1, trigger_time = 10, callback = Some 8, cb_arg = Some 3\<rparr>],
      current_token = 254, last_deferred_exec_check = 0, timer32 = 50\<rparr>"

lemma sample_sound: "table_sound sample_deferred"
  by (auto simp: table_sound_def well_formed_def sample_deferred_def no_executor_def less_Suc_eq)

theorem deferred_exec_refines_map_witness:
  "let (tok, s') = defer_exec 20 (Some 9) None sample_deferred
   in tok \<noteq> 0 \<and> pending_calls sample_deferred tok = None \<and> pending_calls s' = (pending_calls sample_deferred)(tok \<mapsto> (70, Some 9, None))"
proof -
  have "\<not> table_full sample_deferred" "timer32 sample_deferred + 20 = 70" by (simp_all add: table_full_def sample_deferred_def no_executor_def)
  then show ?thesis using deferred_exec_refines_map [OF sample_sound, of 20 "Some 9" None 0] by (auto split: prod.splits)
qed

text \<open>
  C14. The task runs at most once per tick of the timer. If the callbacks do not use the table, it then calls, in the order of the table, those of the
  entries whose delay has passed and
  of no others, with the time they were set for and their argument; an entry whose callback returns a delay is set again from its own time, the others
  are freed. A callback that uses the interface keeps what it did: in every round of the loop only the entry under its own token is set again or
  freed, and if it has cancelled that one, all calls it left pending stay, even one that has got its slot.
  An entry that was set for \<open>d\<close> milliseconds is due after \<open>k\<close> milliseconds iff \<open>d \<le> k\<close>, also when the 32-bit timer wraps around in between.
\<close>

theorem deferred_task_runs_due:
  assumes "table_sound s"
  shows "(independent call \<longrightarrow> deferred_exec_task call s =
      (if 0 < sint (timer32 s - last_deferred_exec_check s)
       then let (table, s') = run_table call (timer32 s) (basic_executors s) (s\<lparr>last_deferred_exec_check := timer32 s\<rparr>)
            in s'\<lparr>basic_executors := table\<rparr>
       else s))
    \<and> (\<forall>i<length (basic_executors s). \<forall>now c d s1. let e = basic_executors s ! i in
        due now e \<and> callback e = Some c \<and> call c (trigger_time e) (cb_arg e) s = (d, s1)
        \<and> table_sound s1 \<and> length (basic_executors s1) = length (basic_executors s)
        \<and> (pending_calls s1 (token e) = None \<or> token (basic_executors s1 ! i) = token e) \<longrightarrow>
        pending_calls (run_executor call now i s) =
          (pending_calls s1)(token e := if 0 < d then map_option (\<lambda>(t, x). (t + d, x)) (pending_calls s1 (token e)) else None))
    \<and> (\<forall>e t0 d k. token e \<noteq> 0 \<and> trigger_time e = t0 + d \<and> timer32 s = t0 + k \<and> unat d < 2 ^ 31 \<and> unat k < 2 ^ 31 \<longrightarrow>
        due (timer32 s) e = (d \<le> k))"
proof -
  have "independent call \<longrightarrow> deferred_exec_task call s =
      (if 0 < sint (timer32 s - last_deferred_exec_check s)
       then let (table, s') = run_table call (timer32 s) (basic_executors s) (s\<lparr>last_deferred_exec_check := timer32 s\<rparr>)
            in s'\<lparr>basic_executors := table\<rparr>
       else s)"
    using deferred_exec_task_runs_table [OF _ assms] by (auto simp: TIMER_DIFF_32_def deferred_exec_task_def Let_def)
  then show ?thesis by (simp add: Let_def run_executor_effect due_def sint_diff_le_0)
qed

text \<open>
  A callback that logs its argument and asks for another five milliseconds, and one that cancels its own call and defers another one, which gets
  the same slot.
\<close>

record sample_log = "(nat, nat) deferred" +
  call_log :: "nat list"

definition log_callback :: "(nat, nat, sample_log) invoke" where
  "log_callback c t a s = (5, s\<lparr>call_log := call_log s @ [c]\<rparr>)"

definition requeue_callback :: "(nat, nat, sample_log) invoke" where
  "requeue_callback c t a s = (5, snd (defer_exec 30 (Some (c + 1)) a (snd (cancel_deferred_exec 1 s))))"

definition sample_full :: sample_log where
  "sample_full = deferred.extend
     \<lparr>basic_executors = [\<lparr>token = 1, trigger_time = 40, callback = Some 8, cb_arg = None\<rparr>], current_token = 1,
      last_deferred_exec_check = 49, timer32 = 50\<rparr> (sample_log.fields [])"

theorem deferred_task_runs_due_witness:
  "call_log (deferred_exec_task log_callback (deferred.extend sample_deferred (sample_log.fields []))) = [8]
    \<and> pending_calls (run_executor requeue_callback 50 0 sample_full) 2 = Some (80, Some 9, None)"
proof -
  let ?s = "deferred.extend sample_deferred (sample_log.fields [])"
  have ind: "independent log_callback" by (simp add: independent_def log_callback_def)
  have s: "table_sound ?s" using sample_sound by (simp add: table_sound_def sample_deferred_def deferred.defs)
  have "call_log (let (table, s') = run_table log_callback (timer32 ?s) (basic_executors ?s) (?s\<lparr>last_deferred_exec_check := timer32 ?s\<rparr>)
            in s'\<lparr>basic_executors := table\<rparr>) = [8]" "0 < sint (timer32 ?s - last_deferred_exec_check ?s)"
    by code_simp+
  then have first: "call_log (deferred_exec_task log_callback ?s) = [8]"
    by (subst mp [OF conjunct1 [OF deferred_task_runs_due [OF s]] ind]) simp
  define s1 where "s1 = snd (requeue_callback 8 40 None sample_full)"
  have f: "table_sound sample_full" "table_sound s1" by (simp_all add: s1_def table_sound_def well_formed_def sample_full_def deferred.defs
      requeue_callback_def defer_exec_def cancel_deferred_exec_def defer_exec_advanced_def cancel_deferred_exec_advanced_def no_executor_def
      allocate_token_def allocate_loop.simps token_can_be_used_def)
  have e: "due 50 (basic_executors sample_full ! 0)" "callback (basic_executors sample_full ! 0) = Some 8"
    "requeue_callback 8 40 None sample_full = (5, s1)" "trigger_time (basic_executors sample_full ! 0) = 40" "cb_arg (basic_executors sample_full ! 0) = None"
    "token (basic_executors sample_full ! 0) = 1" "length (basic_executors s1) = 1" "length (basic_executors sample_full) = 1"
    "pending_calls s1 1 = None" "pending_calls s1 2 = Some (80, Some 9, None)"
    unfolding s1_def by code_simp+
  have "pending_calls (run_executor requeue_callback 50 0 sample_full) = (pending_calls s1)(1 := None)"
    using conjunct1 [OF conjunct2 [OF deferred_task_runs_due [OF f(1), of requeue_callback]], rule_format, of 0 50 8 5 s1] e f(2)
    by (simp add: Let_def)
  then show ?thesis using first e(10) by simp
qed

end
