(* ===== verification/Bitwise.thy ===== *)
theory Bitwise
  imports Prelude
begin

text \<open>
  The bit helpers of \<^verbatim>\<open>quantum/bitwise.c\<close>: population count, index of the most significant on-bit
  (used as \<open>get_highest_layer\<close>) and bit reversal.
\<close>

subsection \<open>Definitions\<close>

text \<open>
  The loop \<open>for (c = 0; bits; c++) bits &= bits - 1;\<close>. It clears the lowest on-bit in each round,
  so it ends: the value decreases. \<open>c\<close> is a \<open>uint8_t\<close> in every variant.
\<close>

lemma clear_lowest_less: "(bits :: 'a::len word) \<noteq> 0 \<Longrightarrow> unat (bits AND (bits - 1)) < unat bits"
proof -
  assume "bits \<noteq> 0"
  then have "unat (bits - 1) < unat bits"
    by (metis diff_less unat_eq_zero unat_minus_one zero_less_one bot_nat_0.not_eq_extremum)
  moreover have "unat (bits AND (bits - 1)) \<le> unat (bits - 1)"
    by (simp add: word_and_le1 word_le_nat_alt [symmetric])
  ultimately show ?thesis by simp
qed

function bitpop_loop :: "'a::len word \<Rightarrow> uint8 \<Rightarrow> uint8" where
  "bitpop_loop bits c = (if bits = 0 then c else bitpop_loop (bits AND (bits - 1)) (c + 1))"
  by pat_completeness auto
termination
  by (relation "measure (\<lambda>(bits, c). unat bits)") (auto intro: clear_lowest_less)

declare bitpop_loop.simps [simp del]

definition bitpop :: "uint8 \<Rightarrow> uint8" where
  "bitpop bits = bitpop_loop bits 0"

definition bitpop16 :: "uint16 \<Rightarrow> uint8" where
  "bitpop16 bits = bitpop_loop bits 0"

definition bitpop32 :: "uint32 \<Rightarrow> uint8" where
  "bitpop32 bits = bitpop_loop bits 0"

text \<open>One halving round: \<open>if (bits >> k) { bits >>= k; n += k; }\<close>\<close>

definition biton_round :: "nat \<Rightarrow> 'a::len word \<times> uint8 \<Rightarrow> 'a word \<times> uint8" where
  "biton_round k = (\<lambda>(bits, n). if drop_bit k bits \<noteq> 0 then (drop_bit k bits, n + of_nat k) else (bits, n))"

definition biton :: "uint8 \<Rightarrow> uint8" where
  "biton bits = snd (biton_round 1 (biton_round 2 (biton_round 4 (bits, 0))))"

definition biton16 :: "uint16 \<Rightarrow> uint8" where
  "biton16 bits = snd (biton_round 1 (biton_round 2 (biton_round 4 (biton_round 8 (bits, 0)))))"

definition biton32 :: "uint32 \<Rightarrow> uint8" where
  "biton32 bits =
     snd (biton_round 1 (biton_round 2 (biton_round 4 (biton_round 8 (biton_round 16 (bits, 0))))))"

definition bitrev :: "uint8 \<Rightarrow> uint8" where
  "bitrev bits =
     (let bits = push_bit 4 (bits AND 0x0f) OR drop_bit 4 (bits AND 0xf0);
          bits = push_bit 2 (bits AND 0x33) OR drop_bit 2 (bits AND 0xcc)
      in push_bit 1 (bits AND 0x55) OR drop_bit 1 (bits AND 0xaa))"

definition bitrev16 :: "uint16 \<Rightarrow> uint16" where
  "bitrev16 bits =
     push_bit 8 (ucast (bitrev (ucast (bits AND 0x00ff))))
     OR ucast (bitrev (ucast (drop_bit 8 (bits AND 0xff00))))"

definition bitrev32 :: "uint32 \<Rightarrow> uint32" where
  "bitrev32 bits =
     push_bit 16 (ucast (bitrev16 (ucast (bits AND 0x0000ffff))))
     OR ucast (bitrev16 (ucast (drop_bit 16 (bits AND 0xffff0000))))"

subsection \<open>Population count\<close>

definition bits_on :: "'a::len word \<Rightarrow> nat set" where
  "bits_on w = {k. bit w k}"

lemma finite_bits_on [simp]: "finite (bits_on (w :: 'a::len word))"
  by (rule finite_subset [of _ "{..<LENGTH('a)}"]) (auto simp: bits_on_def dest: bit_imp_le_length)

lemma bits_on_empty_iff [simp]: "bits_on (w :: 'a::len word) = {} \<longleftrightarrow> w = 0"
  by (auto simp: bits_on_def word_bits_eq_iff dest: bit_imp_le_length)

lemma clear_lowest_bit:
  fixes w :: "'a::len word"
  assumes m: "bit w m" and low: "\<And>k. bit w k \<Longrightarrow> m \<le> k"
  shows "w AND (w - 1) = w AND NOT (shl1 m)"
proof -
  let ?r = "w AND NOT (shl1 m)"
  have len: "m < LENGTH('a)" using m by (rule bit_imp_le_length)
  have disj: "?r AND shl1 m = 0" "?r AND mask m = 0"
    using low by (auto simp: word_bits_eq_iff bit_and_iff bit_not_iff bit_shl1 bit_mask_iff) (meson leD)
  have "?r OR shl1 m = w"
    using m len by (auto simp: word_bits_eq_iff bit_and_iff bit_not_iff bit_or_iff bit_shl1)
  then have "w = ?r + shl1 m" using disj by (simp add: disjunctive_add_eq_or)
  then have "w - 1 = ?r + mask m" by (simp add: mask_eq_exp_minus_1 shl1_def algebra_simps)
  then have "w - 1 = ?r OR mask m" using disj by (simp add: disjunctive_add_eq_or)
  then show ?thesis
    using disj low by (auto simp: word_bits_eq_iff bit_and_iff bit_not_iff bit_or_iff bit_shl1 bit_mask_iff)
qed

lemma bits_on_clear_lowest:
  assumes "(w :: 'a::len word) \<noteq> 0"
  shows "bits_on (w AND (w - 1)) = bits_on w - {Min (bits_on w)}"
proof -
  have "Min (bits_on w) \<in> bits_on w" using assms by (intro Min_in) auto
  moreover have "Min (bits_on w) \<le> k" if "bit w k" for k
    using that by (intro Min_le) (auto simp: bits_on_def)
  ultimately have "w AND (w - 1) = w AND NOT (shl1 (Min (bits_on w)))"
    by (intro clear_lowest_bit) (auto simp: bits_on_def)
  then show ?thesis by (auto simp: bits_on_def bit_clear_mask)
qed

lemma bitpop_loop_card: "bitpop_loop w c = c + of_nat (card (bits_on w))"
proof (induction w c rule: bitpop_loop.induct)
  case (1 w c)
  show ?case
  proof (cases "w = 0")
    case True
    then show ?thesis by (subst bitpop_loop.simps) (auto simp: bits_on_def)
  next
    case False
    then have "Min (bits_on w) \<in> bits_on w" by (intro Min_in) auto
    then have "card (bits_on w) = Suc (card (bits_on (w AND (w - 1))))"
      unfolding bits_on_clear_lowest [OF False] by (rule card_Suc_Diff1 [OF finite_bits_on, symmetric])
    moreover have "bitpop_loop (w AND (w - 1)) (c + 1) = c + 1 + of_nat (card (bits_on (w AND (w - 1))))"
      by (rule 1 [OF False])
    ultimately show ?thesis using False by (simp add: bitpop_loop.simps [of w c])
  qed
qed

subsection \<open>Most significant on-bit\<close>

definition highest :: "'a::len word \<Rightarrow> nat \<Rightarrow> bool" where
  "highest w h \<longleftrightarrow> bit w h \<and> (\<forall>k>h. \<not> bit w k)"

text \<open>After a round the highest on-bit sits below \<open>b\<close> and \<open>n\<close> has counted the rest of its index.\<close>

definition biton_inv :: "nat \<Rightarrow> nat \<Rightarrow> 'a::len word \<times> uint8 \<Rightarrow> bool" where
  "biton_inv h b st \<longleftrightarrow> (\<exists>h'. highest (fst st) h' \<and> h' < b \<and> snd st + of_nat h' = of_nat h)"

lemma biton_inv_round:
  assumes "biton_inv h (2 * k) st"
  shows "biton_inv h k (biton_round k st)"
proof -
  obtain bits n h' where st: "st = (bits, n)" and h': "highest bits h'" "h' < 2 * k" "n + of_nat h' = of_nat h"
    using assms by (cases st) (auto simp: biton_inv_def)
  show ?thesis
  proof (cases "h' < k")
    case True
    then have "drop_bit k bits = 0"
      using h'(1) by (auto simp: word_bits_eq_iff highest_def bit_drop_bit_eq)
    with True h' st show ?thesis by (auto simp: biton_inv_def biton_round_def)
  next
    case False
    then have "highest (drop_bit k bits) (h' - k)"
      using h'(1) by (auto simp: highest_def bit_drop_bit_eq)
    moreover from this have "drop_bit k bits \<noteq> 0" by (auto simp: highest_def)
    ultimately show ?thesis
      using False h' st by (auto simp: biton_inv_def biton_round_def of_nat_diff intro!: exI [of _ "h' - k"])
  qed
qed

lemmas biton_rounds =
  biton_inv_round [where k = 1, simplified mult_1_right] biton_inv_round [where k = 2, simplified]
  biton_inv_round [where k = 4, simplified] biton_inv_round [where k = 8, simplified]
  biton_inv_round [where k = 16, simplified]

lemma biton_inv_init: "highest w h \<Longrightarrow> biton_inv h LENGTH('a) (w :: 'a::len word, 0)"
  by (auto simp: biton_inv_def highest_def dest: bit_imp_le_length)

lemma biton_inv_done: "biton_inv h 1 st \<Longrightarrow> snd st = of_nat h"
  by (auto simp: biton_inv_def)

lemma biton_highest: "highest w h \<Longrightarrow> biton w = of_nat h"
  unfolding biton_def by (intro biton_inv_done biton_rounds) (drule biton_inv_init, simp)

lemma biton16_highest: "highest w h \<Longrightarrow> biton16 w = of_nat h"
  unfolding biton16_def by (intro biton_inv_done biton_rounds) (drule biton_inv_init, simp)

lemma biton32_highest: "highest w h \<Longrightarrow> biton32 w = of_nat h"
  unfolding biton32_def by (intro biton_inv_done biton_rounds) (drule biton_inv_init, simp)

lemma highest_exists: "(w :: 'a::len word) \<noteq> 0 \<Longrightarrow> highest w (Max (bits_on w))"
proof -
  assume "w \<noteq> 0"
  then have "Max (bits_on w) \<in> bits_on w" by (intro Max_in) auto
  moreover have "k \<le> Max (bits_on w)" if "bit w k" for k
    using that by (intro Max_ge) (auto simp: bits_on_def)
  ultimately show ?thesis by (auto simp: highest_def bits_on_def not_less [symmetric])
qed

subsection \<open>Bit reversal\<close>

lemma nat_less_8_cases:
  "k < (8::nat) \<Longrightarrow> k = 0 \<or> k = 1 \<or> k = 2 \<or> k = 3 \<or> k = 4 \<or> k = 5 \<or> k = 6 \<or> k = 7"
  by arith

lemma bit_bitrev: "k < 8 \<Longrightarrow> bit (bitrev w) k = bit w (7 - k)"
  unfolding bitrev_def Let_def bit_or_iff bit_and_iff bit_push_bit_iff bit_drop_bit_eq
  by (drule nat_less_8_cases, elim disjE) simp_all

lemma bit_mask_consts:
  "bit (0x00ff :: uint16) k \<longleftrightarrow> k < 8"
  "bit (0xff00 :: uint16) k \<longleftrightarrow> 8 \<le> k \<and> k < 16"
  "bit (0x0000ffff :: uint32) k \<longleftrightarrow> k < 16"
  "bit (0xffff0000 :: uint32) k \<longleftrightarrow> 16 \<le> k \<and> k < 32"
proof -
  have "(0x00ff :: uint16) = mask 8" "(0xff00 :: uint16) = push_bit 8 (mask 8)"
    "(0x0000ffff :: uint32) = mask 16" "(0xffff0000 :: uint32) = push_bit 16 (mask 16)"
    by (simp_all add: mask_eq_exp_minus_1)
  then show "bit (0x00ff :: uint16) k \<longleftrightarrow> k < 8"
    "bit (0xff00 :: uint16) k \<longleftrightarrow> 8 \<le> k \<and> k < 16"
    "bit (0x0000ffff :: uint32) k \<longleftrightarrow> k < 16"
    "bit (0xffff0000 :: uint32) k \<longleftrightarrow> 16 \<le> k \<and> k < 32"
    by (simp_all only: bit_mask_iff bit_push_bit_iff) auto
qed

lemma split_halves:
  "(ucast ((w :: uint16) AND 0x00ff) :: uint8) = ucast w"
  "(ucast (drop_bit 8 ((w :: uint16) AND 0xff00)) :: uint8) = ucast (drop_bit 8 w)"
  "(ucast ((v :: uint32) AND 0x0000ffff) :: uint16) = ucast v"
  "(ucast (drop_bit 16 ((v :: uint32) AND 0xffff0000)) :: uint16) = ucast (drop_bit 16 v)"
  by (rule bit_word_eqI,
      simp only: bit_unsigned_iff bit_and_iff bit_drop_bit_eq bit_mask_consts, auto)+

lemma bit_bitrev16: "k < 16 \<Longrightarrow> bit (bitrev16 w) k = bit w (15 - k)"
  unfolding bitrev16_def split_halves
  by (cases "k < 8") (auto simp: bit_simps bit_bitrev dest: bit_imp_le_length)

lemma bit_bitrev32: "k < 32 \<Longrightarrow> bit (bitrev32 w) k = bit w (31 - k)"
  unfolding bitrev32_def split_halves
  by (cases "k < 16") (auto simp: bit_simps bit_bitrev16 dest: bit_imp_le_length)

end
