(* ===== verification/Debounce_Pk.thy ===== *)
theory Debounce_Pk
  imports Debounce
begin

text \<open>
  The per-key debounce algorithms: \<^verbatim>\<open>sym_defer_pk.c\<close> (a change counts once the key has been steady),
  \<^verbatim>\<open>sym_eager_pk.c\<close> (a change counts at once, then the key is ignored for a while) and
  \<^verbatim>\<open>asym_eager_defer_pk.c\<close> (presses eager, releases deferred). \<open>DEBOUNCE\<close> and \<open>cols\<close>
  (\<open>MATRIX_COLS\<close>) are parameters, \<open>num_rows\<close> is the number of rows of the matrix, and the
  allocation of the counters is the list that \<open>debounce_init\<close> builds.
\<close>

subsection \<open>sym\_defer\_pk.c\<close>

definition pk_init :: "nat \<Rightarrow> nat \<Rightarrow> uint8 list" where
  "pk_init cols num_rows = concat (map (\<lambda>r. map (\<lambda>c. 0) [0..<cols]) [0..<num_rows])"

definition defer_pk_update_key ::
  "nat \<Rightarrow> 'r::len matrix \<Rightarrow> uint8 \<Rightarrow> nat \<times> nat \<Rightarrow> uint8 debounce_state \<times> 'r matrix \<Rightarrow> uint8 debounce_state \<times> 'r matrix" where
  "defer_pk_update_key cols raw elapsed_time = (\<lambda>(row, col) (st, cooked).
     let i = key_index cols row col; k = debounce_counters st ! i
     in if k \<noteq> 0
        then if k \<le> elapsed_time
             then let cooked_next = (cooked ! row AND NOT (shl1 col)) OR (raw ! row AND shl1 col)
                  in (st\<lparr>debounce_counters := (debounce_counters st)[i := 0],
                         cooked_changed := (cooked_changed st \<or> cooked ! row XOR cooked_next \<noteq> 0)\<rparr>,
                      cooked[row := cooked_next])
             else (st\<lparr>debounce_counters := (debounce_counters st)[i := k - elapsed_time],
                      counters_need_update := True\<rparr>, cooked)
        else (st, cooked))"

definition defer_pk_update ::
  "nat \<Rightarrow> 'r::len matrix \<Rightarrow> uint8 \<Rightarrow> uint8 debounce_state \<times> 'r matrix \<Rightarrow> uint8 debounce_state \<times> 'r matrix" where
  "defer_pk_update cols raw elapsed_time = (\<lambda>(st, cooked).
     fold (\<lambda>row. fold (\<lambda>col. defer_pk_update_key cols raw elapsed_time (row, col)) [0..<cols]) [0..<length raw]
       (st\<lparr>counters_need_update := False\<rparr>, cooked))"

definition defer_pk_start_key ::
  "uint8 \<Rightarrow> nat \<Rightarrow> 'r::len word \<Rightarrow> nat \<times> nat \<Rightarrow> uint8 debounce_state \<times> 'r matrix \<Rightarrow> uint8 debounce_state \<times> 'r matrix" where
  "defer_pk_start_key DEBOUNCE cols delta = (\<lambda>(row, col) (st, cooked).
     let i = key_index cols row col
     in if test_mask delta col
        then if debounce_counters st ! i = 0
             then (st\<lparr>debounce_counters := (debounce_counters st)[i := DEBOUNCE], counters_need_update := True\<rparr>, cooked)
             else (st, cooked)
        else (st\<lparr>debounce_counters := (debounce_counters st)[i := 0]\<rparr>, cooked))"

definition defer_pk_start ::
  "uint8 \<Rightarrow> nat \<Rightarrow> 'r::len matrix \<Rightarrow> uint8 debounce_state \<times> 'r matrix \<Rightarrow> uint8 debounce_state \<times> 'r matrix" where
  "defer_pk_start DEBOUNCE cols raw s =
     fold (\<lambda>row s. let delta = raw ! row XOR snd s ! row
                   in fold (\<lambda>col. defer_pk_start_key DEBOUNCE cols delta (row, col)) [0..<cols] s) [0..<length raw] s"

definition sym_defer_pk ::
  "uint8 \<Rightarrow> nat \<Rightarrow> uint32 \<Rightarrow> 'r::len matrix \<Rightarrow> bool \<Rightarrow> uint8 debounce_state \<times> 'r matrix \<Rightarrow>
   bool \<times> uint8 debounce_state \<times> 'r matrix" where
  "sym_defer_pk DEBOUNCE cols now raw changed = (\<lambda>(st, cooked).
     let st = st\<lparr>cooked_changed := False\<rparr>;
         (updated_last, st, cooked) =
           (if counters_need_update st
            then let elapsed_time = clamped_elapsed now (last_time st); st = st\<lparr>last_time := now\<rparr>
                 in (True, if 0 < elapsed_time then defer_pk_update cols raw elapsed_time (st, cooked) else (st, cooked))
            else (False, st, cooked));
         (st, cooked) =
           (if changed
            then let st = (if \<not> updated_last then st\<lparr>last_time := now\<rparr> else st)
                 in defer_pk_start DEBOUNCE cols raw (st, cooked)
            else (st, cooked))
     in (cooked_changed st, st, cooked))"

subsection \<open>sym\_eager\_pk.c\<close>

definition eager_pk_update_key ::
  "nat \<Rightarrow> uint8 \<Rightarrow> nat \<times> nat \<Rightarrow> uint8 debounce_state \<times> 'r::len matrix \<Rightarrow> uint8 debounce_state \<times> 'r matrix" where
  "eager_pk_update_key cols elapsed_time = (\<lambda>(row, col) (st, cooked).
     let i = key_index cols row col; k = debounce_counters st ! i
     in if k \<noteq> 0
        then if k \<le> elapsed_time
             then (st\<lparr>debounce_counters := (debounce_counters st)[i := 0], matrix_need_update := True\<rparr>, cooked)
             else (st\<lparr>debounce_counters := (debounce_counters st)[i := k - elapsed_time],
                      counters_need_update := True\<rparr>, cooked)
        else (st, cooked))"

definition eager_pk_update ::
  "nat \<Rightarrow> nat \<Rightarrow> uint8 \<Rightarrow> uint8 debounce_state \<times> 'r::len matrix \<Rightarrow> uint8 debounce_state \<times> 'r matrix" where
  "eager_pk_update cols num_rows elapsed_time = (\<lambda>(st, cooked).
     fold (\<lambda>row. fold (\<lambda>col. eager_pk_update_key cols elapsed_time (row, col)) [0..<cols]) [0..<num_rows]
       (st\<lparr>counters_need_update := False, matrix_need_update := False\<rparr>, cooked))"

definition eager_pk_transfer_key ::
  "uint8 \<Rightarrow> nat \<Rightarrow> 'r::len word \<Rightarrow> nat \<Rightarrow> nat \<Rightarrow> uint8 debounce_state \<times> 'r word \<Rightarrow> uint8 debounce_state \<times> 'r word" where
  "eager_pk_transfer_key DEBOUNCE cols delta row col = (\<lambda>(st, existing_row).
     let i = key_index cols row col
     in if test_mask delta col
        then if debounce_counters st ! i = 0
             then (st\<lparr>debounce_counters := (debounce_counters st)[i := DEBOUNCE], counters_need_update := True,
                      cooked_changed := True\<rparr>, existing_row XOR shl1 col)
             else (st, existing_row)
        else (st, existing_row))"

definition eager_pk_transfer ::
  "uint8 \<Rightarrow> nat \<Rightarrow> 'r::len matrix \<Rightarrow> uint8 debounce_state \<times> 'r matrix \<Rightarrow> uint8 debounce_state \<times> 'r matrix" where
  "eager_pk_transfer DEBOUNCE cols raw = (\<lambda>(st, cooked).
     fold (\<lambda>row (st, cooked).
         let delta = raw ! row XOR cooked ! row;
             (st, existing_row) = fold (eager_pk_transfer_key DEBOUNCE cols delta row) [0..<cols] (st, cooked ! row)
         in (st, cooked[row := existing_row])) [0..<length raw]
       (st\<lparr>matrix_need_update := False\<rparr>, cooked))"

definition sym_eager_pk ::
  "uint8 \<Rightarrow> nat \<Rightarrow> uint32 \<Rightarrow> 'r::len matrix \<Rightarrow> bool \<Rightarrow> uint8 debounce_state \<times> 'r matrix \<Rightarrow>
   bool \<times> uint8 debounce_state \<times> 'r matrix" where
  "sym_eager_pk DEBOUNCE cols now raw changed = (\<lambda>(st, cooked).
     let st = st\<lparr>cooked_changed := False\<rparr>;
         (updated_last, st, cooked) =
           (if counters_need_update st
            then let elapsed_time = clamped_elapsed now (last_time st); st = st\<lparr>last_time := now\<rparr>
                 in (True, if 0 < elapsed_time then eager_pk_update cols (length raw) elapsed_time (st, cooked) else (st, cooked))
            else (False, st, cooked));
         (st, cooked) =
           (if changed \<or> matrix_need_update st
            then let st = (if \<not> updated_last then st\<lparr>last_time := now\<rparr> else st)
                 in eager_pk_transfer DEBOUNCE cols raw (st, cooked)
            else (st, cooked))
     in (cooked_changed st, st, cooked))"

subsection \<open>asym\_eager\_defer\_pk.c\<close>

text \<open>The bit-field struct \<open>debounce_counter_t\<close>: \<open>pressed : 1\<close> and \<open>time : 7\<close>.\<close>

record asym_counter =
  pressed :: bool
  time :: "7 word"

definition asym_pk_update_key ::
  "nat \<Rightarrow> 'r::len matrix \<Rightarrow> uint8 \<Rightarrow> nat \<times> nat \<Rightarrow> asym_counter debounce_state \<times> 'r matrix \<Rightarrow>
   asym_counter debounce_state \<times> 'r matrix" where
  "asym_pk_update_key cols raw elapsed_time = (\<lambda>(row, col) (st, cooked).
     let i = key_index cols row col; k = debounce_counters st ! i
     in if time k \<noteq> 0
        then if ucast (time k) \<le> elapsed_time
             then let st = st\<lparr>debounce_counters := (debounce_counters st)[i := k\<lparr>time := 0\<rparr>]\<rparr>
                  in if pressed k then (st\<lparr>matrix_need_update := True\<rparr>, cooked)
                     else let cooked_next = (cooked ! row AND NOT (shl1 col)) OR (raw ! row AND shl1 col)
                          in (st\<lparr>cooked_changed := (cooked_changed st \<or> cooked_next XOR cooked ! row \<noteq> 0)\<rparr>,
                              cooked[row := cooked_next])
             else (st\<lparr>debounce_counters := (debounce_counters st)[i := k\<lparr>time := ucast (ucast (time k) - elapsed_time)\<rparr>],
                      counters_need_update := True\<rparr>, cooked)
        else (st, cooked))"

definition asym_pk_update ::
  "nat \<Rightarrow> 'r::len matrix \<Rightarrow> uint8 \<Rightarrow> asym_counter debounce_state \<times> 'r matrix \<Rightarrow> asym_counter debounce_state \<times> 'r matrix" where
  "asym_pk_update cols raw elapsed_time = (\<lambda>(st, cooked).
     fold (\<lambda>row. fold (\<lambda>col. asym_pk_update_key cols raw elapsed_time (row, col)) [0..<cols]) [0..<length raw]
       (st\<lparr>counters_need_update := False, matrix_need_update := False\<rparr>, cooked))"

definition asym_pk_transfer_key ::
  "7 word \<Rightarrow> nat \<Rightarrow> 'r::len matrix \<Rightarrow> 'r word \<Rightarrow> nat \<times> nat \<Rightarrow> asym_counter debounce_state \<times> 'r matrix \<Rightarrow>
   asym_counter debounce_state \<times> 'r matrix" where
  "asym_pk_transfer_key DEBOUNCE cols raw delta = (\<lambda>(row, col) (st, cooked).
     let i = key_index cols row col; k = debounce_counters st ! i
     in if test_mask delta col
        then if time k = 0
             then let k' = k\<lparr>pressed := test_mask (raw ! row) col, time := DEBOUNCE\<rparr>;
                      st = st\<lparr>debounce_counters := (debounce_counters st)[i := k'], counters_need_update := True\<rparr>
                  in if pressed k' then (st\<lparr>cooked_changed := True\<rparr>, cooked[row := cooked ! row XOR shl1 col])
                     else (st, cooked)
             else (st, cooked)
        else if time k \<noteq> 0
        then if \<not> pressed k
             then (st\<lparr>debounce_counters := (debounce_counters st)[i := k\<lparr>time := 0\<rparr>]\<rparr>, cooked)
             else (st, cooked)
        else (st, cooked))"

definition asym_pk_transfer ::
  "7 word \<Rightarrow> nat \<Rightarrow> 'r::len matrix \<Rightarrow> asym_counter debounce_state \<times> 'r matrix \<Rightarrow> asym_counter debounce_state \<times> 'r matrix" where
  "asym_pk_transfer DEBOUNCE cols raw = (\<lambda>(st, cooked).
     fold (\<lambda>row s. let delta = raw ! row XOR snd s ! row
                   in fold (\<lambda>col. asym_pk_transfer_key DEBOUNCE cols raw delta (row, col)) [0..<cols] s) [0..<length raw]
       (st\<lparr>matrix_need_update := False\<rparr>, cooked))"

definition asym_eager_defer_pk ::
  "7 word \<Rightarrow> nat \<Rightarrow> uint32 \<Rightarrow> 'r::len matrix \<Rightarrow> bool \<Rightarrow> asym_counter debounce_state \<times> 'r matrix \<Rightarrow>
   bool \<times> asym_counter debounce_state \<times> 'r matrix" where
  "asym_eager_defer_pk DEBOUNCE cols now raw changed = (\<lambda>(st, cooked).
     let st = st\<lparr>cooked_changed := False\<rparr>;
         (updated_last, st, cooked) =
           (if counters_need_update st
            then let elapsed_time = clamped_elapsed now (last_time st); st = st\<lparr>last_time := now\<rparr>
                 in (True, if 0 < elapsed_time then asym_pk_update cols raw elapsed_time (st, cooked) else (st, cooked))
            else (False, st, cooked));
         (st, cooked) =
           (if changed \<or> matrix_need_update st
            then let st = (if \<not> updated_last then st\<lparr>last_time := now\<rparr> else st)
                 in asym_pk_transfer DEBOUNCE cols raw (st, cooked)
            else (st, cooked))
     in (cooked_changed st, st, cooked))"

subsection \<open>What each loop does to a key\<close>

definition defer_update :: "uint8 \<Rightarrow> bool \<Rightarrow> bool \<times> uint8 \<Rightarrow> bool \<times> uint8" where
  "defer_update e x = (\<lambda>(v, k). if k \<noteq> 0 then if k \<le> e then (x, 0) else (v, k - e) else (v, k))"

definition defer_start :: "uint8 \<Rightarrow> bool \<Rightarrow> bool \<times> uint8 \<Rightarrow> bool \<times> uint8" where
  "defer_start DEBOUNCE x = (\<lambda>(v, k). if x \<noteq> v then if k = 0 then (v, DEBOUNCE) else (v, k) else (v, 0))"

definition eager_update :: "uint8 \<Rightarrow> bool \<Rightarrow> bool \<times> uint8 \<Rightarrow> bool \<times> uint8" where
  "eager_update e x = (\<lambda>(v, k). if k \<noteq> 0 then if k \<le> e then (v, 0) else (v, k - e) else (v, k))"

definition eager_transfer :: "uint8 \<Rightarrow> bool \<Rightarrow> bool \<times> uint8 \<Rightarrow> bool \<times> uint8" where
  "eager_transfer DEBOUNCE x = (\<lambda>(v, k). if x \<noteq> v \<and> k = 0 then (x, DEBOUNCE) else (v, k))"

definition asym_update :: "uint8 \<Rightarrow> bool \<Rightarrow> bool \<times> asym_counter \<Rightarrow> bool \<times> asym_counter" where
  "asym_update e x = (\<lambda>(v, k).
     if time k \<noteq> 0
     then if ucast (time k) \<le> e then (if pressed k then v else x, k\<lparr>time := 0\<rparr>)
          else (v, k\<lparr>time := ucast (ucast (time k) - e)\<rparr>)
     else (v, k))"

definition asym_transfer :: "7 word \<Rightarrow> bool \<Rightarrow> bool \<times> asym_counter \<Rightarrow> bool \<times> asym_counter" where
  "asym_transfer DEBOUNCE x = (\<lambda>(v, k).
     if x \<noteq> v then if time k = 0 then (if x then x else v, k\<lparr>pressed := x, time := DEBOUNCE\<rparr>) else (v, k)
     else if time k \<noteq> 0 \<and> \<not> pressed k then (v, k\<lparr>time := 0\<rparr>) else (v, k))"

interpretation defer_up: key_loop cols raw "defer_pk_update_key cols raw e" "defer_update e"
  "\<lambda>x (v, k). (k \<noteq> 0 \<and> k \<le> e \<and> v \<noteq> x, k \<noteq> 0 \<and> \<not> k \<le> e, False)"
  for cols raw e
proof unfold_locales
  fix s :: "uint8 debounce_state \<times> 'a matrix" and r c
  assume a: "shaped cols (length raw) s" "r < length raw" "c < cols"
  then have c: "c < LENGTH('a)" by (simp add: shaped_def)
  obtain st cooked where s: "s = (st, cooked)" by fastforce
  let ?k = "debounce_counters st ! key_index cols r c"
  note id = put_key_same [OF a(1-3)]
  consider "?k = 0" | "?k \<noteq> 0" "?k \<le> e" | "?k \<noteq> 0" "\<not> ?k \<le> e" by blast
  then show "defer_pk_update_key cols raw e (r, c) s =
    raise_flags (case key_cell cols s (r, c) of (v, k) \<Rightarrow> (k \<noteq> 0 \<and> k \<le> e \<and> v \<noteq> bit (raw ! r) c, k \<noteq> 0 \<and> \<not> k \<le> e, False))
      (put_key cols (r, c) (defer_update e (bit (raw ! r) c) (key_cell cols s (r, c))) s)"
  proof cases
    case 1
    then show ?thesis using id s by (simp add: defer_pk_update_key_def defer_update_def key_cell_def Let_def)
  next
    case 2
    then show ?thesis using s
      by (simp add: defer_pk_update_key_def defer_update_def key_cell_def Let_def copy_column_set_col [OF c]
          xor_eq_0_iff set_col_eq_iff [OF c] put_key_def raise_flags_def)
  next
    case 3
    then show ?thesis using s c a
      by (simp add: defer_pk_update_key_def defer_update_def key_cell_def Let_def put_key_def raise_flags_def shaped_def)
  qed
qed

interpretation defer_st: key_loop cols raw
  "\<lambda>(r, c) s. defer_pk_start_key DEBOUNCE cols (raw ! r XOR snd s ! r) (r, c) s" "defer_start DEBOUNCE"
  "\<lambda>x (v, k). (False, x \<noteq> v \<and> k = 0, False)"
  for DEBOUNCE cols raw
proof unfold_locales
  fix s :: "uint8 debounce_state \<times> 'a matrix" and r c
  assume a: "shaped cols (length raw) s" "r < length raw" "c < cols"
  then have c: "c < LENGTH('a)" by (simp add: shaped_def)
  obtain st cooked where s: "s = (st, cooked)" by fastforce
  let ?k = "debounce_counters st ! key_index cols r c" and ?d = "bit (raw ! r) c \<noteq> bit (cooked ! r) c"
  note id = put_key_same [OF a(1-3)]
  consider "\<not> ?d" | "?d" "?k = 0" | "?d" "?k \<noteq> 0" by blast
  then show "(case (r, c) of (r, c) \<Rightarrow> \<lambda>s. defer_pk_start_key DEBOUNCE cols (raw ! r XOR snd s ! r) (r, c) s) s =
    raise_flags (case key_cell cols s (r, c) of (v, k) \<Rightarrow> (False, bit (raw ! r) c \<noteq> v \<and> k = 0, False))
      (put_key cols (r, c) (defer_start DEBOUNCE (bit (raw ! r) c) (key_cell cols s (r, c))) s)"
  proof cases
    case 1
    then show ?thesis using s c
      by (simp add: defer_pk_start_key_def defer_start_def key_cell_def Let_def test_mask_iff bit_xor_iff put_key_def)
  next
    case 2
    then show ?thesis using s c
      by (simp add: defer_pk_start_key_def defer_start_def key_cell_def Let_def test_mask_iff bit_xor_iff put_key_def
          raise_flags_def)
  next
    case 3
    then show ?thesis using s id
      by (simp add: defer_pk_start_key_def defer_start_def key_cell_def Let_def test_mask_iff bit_xor_iff)
  qed
qed

interpretation eager_up: key_loop cols raw "eager_pk_update_key cols e" "eager_update e"
  "\<lambda>x (v, k). (False, k \<noteq> 0 \<and> \<not> k \<le> e, k \<noteq> 0 \<and> k \<le> e)"
  for cols e and raw :: "'r::len matrix"
proof unfold_locales
  fix s :: "uint8 debounce_state \<times> 'r matrix" and r c
  assume a: "shaped cols (length raw) s" "r < length raw" "c < cols"
  then have c: "c < LENGTH('r)" by (simp add: shaped_def)
  obtain st cooked where s: "s = (st, cooked)" by fastforce
  let ?k = "debounce_counters st ! key_index cols r c"
  note id = put_key_same [OF a(1-3)]
  consider "?k = 0" | "?k \<noteq> 0" "?k \<le> e" | "?k \<noteq> 0" "\<not> ?k \<le> e" by blast
  then show "eager_pk_update_key cols e (r, c) s =
    raise_flags (case key_cell cols s (r, c) of (v, k) \<Rightarrow> (False, k \<noteq> 0 \<and> \<not> k \<le> e, k \<noteq> 0 \<and> k \<le> e))
      (put_key cols (r, c) (eager_update e (bit (raw ! r) c) (key_cell cols s (r, c))) s)"
  proof cases
    case 1
    then show ?thesis using id s by (simp add: eager_pk_update_key_def eager_update_def key_cell_def Let_def)
  qed (use s c in \<open>simp_all add: eager_pk_update_key_def eager_update_def key_cell_def Let_def put_key_def raise_flags_def\<close>)
qed

definition eager_transfer_in_place ::
  "uint8 \<Rightarrow> nat \<Rightarrow> 'r::len word \<Rightarrow> nat \<times> nat \<Rightarrow> uint8 debounce_state \<times> 'r matrix \<Rightarrow> uint8 debounce_state \<times> 'r matrix" where
  "eager_transfer_in_place DEBOUNCE cols delta = (\<lambda>(r, c) (st, cooked).
     case eager_pk_transfer_key DEBOUNCE cols delta r c (st, cooked ! r) of (st', row) \<Rightarrow> (st', cooked[r := row]))"

interpretation eager_tr: key_loop cols raw
  "\<lambda>(r, c) s. eager_transfer_in_place DEBOUNCE cols (raw ! r XOR snd s ! r) (r, c) s" "eager_transfer DEBOUNCE"
  "\<lambda>x (v, k). (x \<noteq> v \<and> k = 0, x \<noteq> v \<and> k = 0, False)"
  for DEBOUNCE cols raw
proof unfold_locales
  fix s :: "uint8 debounce_state \<times> 'a matrix" and r c
  assume a: "shaped cols (length raw) s" "r < length raw" "c < cols"
  then have c: "c < LENGTH('a)" by (simp add: shaped_def)
  obtain st cooked where s: "s = (st, cooked)" by fastforce
  let ?k = "debounce_counters st ! key_index cols r c" and ?d = "bit (raw ! r) c \<noteq> bit (cooked ! r) c"
  note id = put_key_same [OF a(1-3)]
  consider "?d" "?k = 0" | "\<not> (?d \<and> ?k = 0)" by blast
  then show "(case (r, c) of (r, c) \<Rightarrow> \<lambda>s. eager_transfer_in_place DEBOUNCE cols (raw ! r XOR snd s ! r) (r, c) s) s =
    raise_flags (case key_cell cols s (r, c) of (v, k) \<Rightarrow> (bit (raw ! r) c \<noteq> v \<and> k = 0, bit (raw ! r) c \<noteq> v \<and> k = 0, False))
      (put_key cols (r, c) (eager_transfer DEBOUNCE (bit (raw ! r) c) (key_cell cols s (r, c))) s)"
  proof cases
    case 1
    then have "(\<not> bit (cooked ! r) c) = bit (raw ! r) c" by blast
    with 1 show ?thesis using s
      by (simp add: eager_transfer_in_place_def eager_pk_transfer_key_def eager_transfer_def key_cell_def Let_def
          test_mask_iff bit_xor_iff put_key_def raise_flags_def flip_column_set_col [OF c])
  next
    case 2
    then show ?thesis using s id
      by (auto simp: eager_transfer_in_place_def eager_pk_transfer_key_def eager_transfer_def key_cell_def Let_def
          test_mask_iff bit_xor_iff)
  qed
qed

interpretation asym_up: key_loop cols raw "asym_pk_update_key cols raw e" "asym_update e"
  "\<lambda>x (v, k). (time k \<noteq> 0 \<and> ucast (time k) \<le> e \<and> \<not> pressed k \<and> v \<noteq> x, time k \<noteq> 0 \<and> \<not> ucast (time k) \<le> e,
     time k \<noteq> 0 \<and> ucast (time k) \<le> e \<and> pressed k)"
  for cols raw e
proof unfold_locales
  fix s :: "asym_counter debounce_state \<times> 'a matrix" and r c
  assume a: "shaped cols (length raw) s" "r < length raw" "c < cols"
  then have c: "c < LENGTH('a)" by (simp add: shaped_def)
  obtain st cooked where s: "s = (st, cooked)" by fastforce
  let ?k = "debounce_counters st ! key_index cols r c"
  note id = put_key_same [OF a(1-3)]
  consider "time ?k = 0" | "time ?k \<noteq> 0" "ucast (time ?k) \<le> e" "pressed ?k"
    | "time ?k \<noteq> 0" "ucast (time ?k) \<le> e" "\<not> pressed ?k" | "time ?k \<noteq> 0" "\<not> ucast (time ?k) \<le> e" by blast
  then show "asym_pk_update_key cols raw e (r, c) s =
    raise_flags (case key_cell cols s (r, c) of (v, k) \<Rightarrow>
        (time k \<noteq> 0 \<and> ucast (time k) \<le> e \<and> \<not> pressed k \<and> v \<noteq> bit (raw ! r) c, time k \<noteq> 0 \<and> \<not> ucast (time k) \<le> e,
         time k \<noteq> 0 \<and> ucast (time k) \<le> e \<and> pressed k))
      (put_key cols (r, c) (asym_update e (bit (raw ! r) c) (key_cell cols s (r, c))) s)"
  proof cases
    case 1
    then show ?thesis using id s by (simp add: asym_pk_update_key_def asym_update_def key_cell_def Let_def)
  next
    case 3
    then show ?thesis using s
      by (simp add: asym_pk_update_key_def asym_update_def key_cell_def Let_def copy_column_set_col [OF c]
          xor_eq_0_iff set_col_eq_iff [OF c] put_key_def raise_flags_def)
  qed (use s c in \<open>simp_all add: asym_pk_update_key_def asym_update_def key_cell_def Let_def put_key_def raise_flags_def\<close>)
qed

interpretation asym_tr: key_loop cols raw
  "\<lambda>(r, c) s. asym_pk_transfer_key DEBOUNCE cols raw (raw ! r XOR snd s ! r) (r, c) s" "asym_transfer DEBOUNCE"
  "\<lambda>x (v, k). (x \<and> \<not> v \<and> time k = 0, x \<noteq> v \<and> time k = 0, False)"
  for DEBOUNCE cols raw
proof unfold_locales
  fix s :: "asym_counter debounce_state \<times> 'a matrix" and r c
  assume a: "shaped cols (length raw) s" "r < length raw" "c < cols"
  then have c: "c < LENGTH('a)" by (simp add: shaped_def)
  obtain st cooked where s: "s = (st, cooked)" by fastforce
  let ?k = "debounce_counters st ! key_index cols r c" and ?x = "bit (raw ! r) c" and ?v = "bit (cooked ! r) c"
  note id = put_key_same [OF a(1-3)]
  consider "?x" "\<not> ?v" "time ?k = 0" | "\<not> ?x" "?v" "time ?k = 0" | "?x = ?v" "time ?k \<noteq> 0" "\<not> pressed ?k"
    | "?x \<noteq> ?v" "time ?k \<noteq> 0" | "?x = ?v" "time ?k = 0 \<or> pressed ?k" by blast
  then show "(case (r, c) of (r, c) \<Rightarrow> \<lambda>s. asym_pk_transfer_key DEBOUNCE cols raw (raw ! r XOR snd s ! r) (r, c) s) s =
    raise_flags (case key_cell cols s (r, c) of (v, k) \<Rightarrow>
        (?x \<and> \<not> v \<and> time k = 0, ?x \<noteq> v \<and> time k = 0, False))
      (put_key cols (r, c) (asym_transfer DEBOUNCE ?x (key_cell cols s (r, c))) s)"
  proof cases
    case 1
    then show ?thesis using s
      by (simp add: asym_pk_transfer_key_def asym_transfer_def key_cell_def Let_def test_mask_iff bit_xor_iff
          put_key_def raise_flags_def flip_column_set_col [OF c])
  next
    case 2
    then have "set_col (cooked ! r) c True = cooked ! r" by (simp add: set_col_eq_iff [OF c])
    with 2 show ?thesis using s
      by (simp add: asym_pk_transfer_key_def asym_transfer_def key_cell_def Let_def test_mask_iff bit_xor_iff
          put_key_def raise_flags_def)
  next
    case 3
    then show ?thesis using s c
      by (simp add: asym_pk_transfer_key_def asym_transfer_def key_cell_def Let_def test_mask_iff bit_xor_iff
          put_key_def raise_flags_def)
  next
    case 4
    then show ?thesis using s id
      by (simp add: asym_pk_transfer_key_def asym_transfer_def key_cell_def Let_def test_mask_iff bit_xor_iff)
  next
    case 5
    then show ?thesis using s id
      by (auto simp: asym_pk_transfer_key_def asym_transfer_def key_cell_def Let_def test_mask_iff bit_xor_iff)
  qed
qed

subsection \<open>The loops as loops over the keys\<close>

lemma defer_pk_update_loop:
  "defer_pk_update cols raw e (st, cooked) =
   fold (defer_pk_update_key cols raw e) (all_keys cols (length raw)) (st\<lparr>counters_need_update := False\<rparr>, cooked)"
  by (simp add: defer_pk_update_def all_keys_def fold_rows_cols [symmetric])

lemma eager_pk_update_loop:
  "eager_pk_update cols (length raw) e (st, cooked) =
   fold (eager_pk_update_key cols e) (all_keys cols (length raw))
     (st\<lparr>counters_need_update := False, matrix_need_update := False\<rparr>, cooked)"
  by (simp add: eager_pk_update_def all_keys_def fold_rows_cols [symmetric])

lemma asym_pk_update_loop:
  "asym_pk_update cols raw e (st, cooked) =
   fold (asym_pk_update_key cols raw e) (all_keys cols (length raw))
     (st\<lparr>counters_need_update := False, matrix_need_update := False\<rparr>, cooked)"
  by (simp add: asym_pk_update_def all_keys_def fold_rows_cols [symmetric])

lemma defer_pk_start_loop:
  assumes "shaped cols (length raw) s"
  shows "defer_pk_start DEBOUNCE cols raw s =
    fold (\<lambda>(r, c) s. defer_pk_start_key DEBOUNCE cols (raw ! r XOR snd s ! r) (r, c) s) (all_keys cols (length raw)) s"
  unfolding defer_pk_start_def Let_def
  by (rule defer_st.captured_rows [OF _ assms, where bodyd = "\<lambda>r d c. defer_pk_start_key DEBOUNCE cols d (r, c)"])
    (auto simp: defer_pk_start_key_def test_mask_iff)

lemma asym_pk_transfer_loop:
  assumes "shaped cols (length raw) (st, cooked)"
  shows "asym_pk_transfer DEBOUNCE cols raw (st, cooked) =
    fold (\<lambda>(r, c) s. asym_pk_transfer_key DEBOUNCE cols raw (raw ! r XOR snd s ! r) (r, c) s) (all_keys cols (length raw))
      (st\<lparr>matrix_need_update := False\<rparr>, cooked)"
proof -
  have "shaped cols (length raw) (st\<lparr>matrix_need_update := False\<rparr>, cooked)" using assms by (simp add: shaped_def)
  from asym_tr.captured_rows [OF _ this, where bodyd = "\<lambda>r d c. asym_pk_transfer_key DEBOUNCE cols raw d (r, c)"]
  show ?thesis by (auto simp: asym_pk_transfer_def asym_pk_transfer_key_def test_mask_iff)
qed

lemma eager_pk_transfer_loop:
  assumes sh: "shaped cols (length raw) (st, cooked)"
  shows "eager_pk_transfer DEBOUNCE cols raw (st, cooked) =
    fold (\<lambda>(r, c) s. eager_transfer_in_place DEBOUNCE cols (raw ! r XOR snd s ! r) (r, c) s) (all_keys cols (length raw))
      (st\<lparr>matrix_need_update := False\<rparr>, cooked)"
proof -
  let ?row = "\<lambda>row (st, cooked). case fold (eager_pk_transfer_key DEBOUNCE cols (raw ! row XOR cooked ! row) row) [0..<cols]
      (st, cooked ! row) of (st', existing) \<Rightarrow> (st', cooked[row := existing])"
  let ?inpl = "\<lambda>row s. fold (\<lambda>c. eager_transfer_in_place DEBOUNCE cols (raw ! row XOR snd s ! row) (row, c)) [0..<cols] s"
  have row: "?row row s = ?inpl row s" if "row < length (snd s)" for row s
    using that row_buffer [of row "snd s" "eager_pk_transfer_key DEBOUNCE cols (raw ! row XOR snd s ! row) row" "[0..<cols]" "fst s"]
    by (cases s) (simp add: eager_transfer_in_place_def)
  have len: "length (snd (?row row s)) = length (snd s)" for row s by (auto split: prod.splits)
  have "set rs \<subseteq> {0..<length (snd s)} \<Longrightarrow> fold ?row rs s = fold ?inpl rs s" for rs s
  proof (induction rs arbitrary: s)
    case (Cons x rs)
    then have "?row x s = ?inpl x s" by (intro row) auto
    with Cons.IH [of "?row x s"] Cons.prems len [of x s] show ?case by simp
  qed simp
  from this [of "[0..<length raw]" "(st\<lparr>matrix_need_update := False\<rparr>, cooked)"] sh
  have "eager_pk_transfer DEBOUNCE cols raw (st, cooked) = fold ?inpl [0..<length raw] (st\<lparr>matrix_need_update := False\<rparr>, cooked)"
    by (simp add: eager_pk_transfer_def shaped_def Let_def)
  also have "\<dots> = fold (\<lambda>(r, c) s. eager_transfer_in_place DEBOUNCE cols (raw ! r XOR snd s ! r) (r, c) s)
      (all_keys cols (length raw)) (st\<lparr>matrix_need_update := False\<rparr>, cooked)"
    using sh by (intro eager_tr.captured_rows [where bodyd = "\<lambda>r d c. eager_transfer_in_place DEBOUNCE cols d (r, c)"])
      (auto simp: shaped_def eager_transfer_in_place_def eager_pk_transfer_key_def test_mask_iff)
  finally show ?thesis .
qed

subsection \<open>The algorithms keep the contract\<close>

lemma sym_defer_pk_eq: "sym_defer_pk DEBOUNCE cols = pk_debounce (defer_pk_update cols) (defer_pk_start DEBOUNCE cols) False"
  by (intro ext) (simp add: sym_defer_pk_def pk_debounce_def)

lemma sym_eager_pk_eq:
  "sym_eager_pk DEBOUNCE cols =
   pk_debounce (\<lambda>raw. eager_pk_update cols (length raw)) (eager_pk_transfer DEBOUNCE cols) True"
  by (intro ext) (simp add: sym_eager_pk_def pk_debounce_def)

lemma asym_eager_defer_pk_eq:
  "asym_eager_defer_pk DEBOUNCE cols = pk_debounce (asym_pk_update cols) (asym_pk_transfer DEBOUNCE cols) True"
  by (intro ext) (simp add: asym_eager_defer_pk_def pk_debounce_def)

interpretation defer_pk: pk_algorithm cols "defer_pk_update cols" "defer_pk_start DEBOUNCE cols" False
  defer_update "defer_start DEBOUNCE"
  "\<lambda>e x (v, k). (k \<noteq> 0 \<and> k \<le> e \<and> v \<noteq> x, k \<noteq> 0 \<and> \<not> k \<le> e, False)"
  "\<lambda>x (v, k). (False, x \<noteq> v \<and> k = 0, False)" "\<lambda>k. k \<noteq> 0"
  for cols DEBOUNCE
proof unfold_locales
  fix raw cooked :: "'a matrix" and st :: "uint8 debounce_state" and e
  assume sh: "shaped cols (length raw) (st, cooked)"
  then have sh': "shaped cols (length raw) (st\<lparr>counters_need_update := False\<rparr>, cooked)" by (simp add: shaped_def)
  show "key_loop_result cols raw (defer_update e) (\<lambda>x (v, k). (k \<noteq> 0 \<and> k \<le> e \<and> v \<noteq> x, k \<noteq> 0 \<and> \<not> k \<le> e, False))
      (st\<lparr>counters_need_update := False, matrix_need_update := (matrix_need_update st \<and> \<not> False)\<rparr>, cooked)
      (defer_pk_update cols raw e (st, cooked))"
    using defer_up.loop_result [OF sh', of e] by (simp add: defer_pk_update_loop)
  show "key_loop_result cols raw (defer_start DEBOUNCE) (\<lambda>x (v, k). (False, x \<noteq> v \<and> k = 0, False))
      (st\<lparr>matrix_need_update := (matrix_need_update st \<and> \<not> False)\<rparr>, cooked) (defer_pk_start DEBOUNCE cols raw (st, cooked))"
    using defer_st.loop_result [OF sh, of DEBOUNCE] by (simp add: defer_pk_start_loop [OF sh])
qed (auto simp: defer_update_def defer_start_def split: prod.splits if_splits)

interpretation eager_pk: pk_algorithm cols "\<lambda>raw. eager_pk_update cols (length raw)" "eager_pk_transfer DEBOUNCE cols" True
  eager_update "eager_transfer DEBOUNCE"
  "\<lambda>e x (v, k). (False, k \<noteq> 0 \<and> \<not> k \<le> e, k \<noteq> 0 \<and> k \<le> e)"
  "\<lambda>x (v, k). (x \<noteq> v \<and> k = 0, x \<noteq> v \<and> k = 0, False)" "\<lambda>k. k \<noteq> 0"
  for cols DEBOUNCE
proof unfold_locales
  fix raw cooked :: "'a matrix" and st :: "uint8 debounce_state" and e
  assume sh: "shaped cols (length raw) (st, cooked)"
  then have sh': "shaped cols (length raw) (st\<lparr>counters_need_update := False, matrix_need_update := False\<rparr>, cooked)"
    "shaped cols (length raw) (st\<lparr>matrix_need_update := False\<rparr>, cooked)" by (simp_all add: shaped_def)
  show "key_loop_result cols raw (eager_update e) (\<lambda>x (v, k). (False, k \<noteq> 0 \<and> \<not> k \<le> e, k \<noteq> 0 \<and> k \<le> e))
      (st\<lparr>counters_need_update := False, matrix_need_update := (matrix_need_update st \<and> \<not> True)\<rparr>, cooked)
      (eager_pk_update cols (length raw) e (st, cooked))"
    using eager_up.loop_result [OF sh'(1), of e] by (simp add: eager_pk_update_loop)
  show "key_loop_result cols raw (eager_transfer DEBOUNCE) (\<lambda>x (v, k). (x \<noteq> v \<and> k = 0, x \<noteq> v \<and> k = 0, False))
      (st\<lparr>matrix_need_update := (matrix_need_update st \<and> \<not> True)\<rparr>, cooked) (eager_pk_transfer DEBOUNCE cols raw (st, cooked))"
    using eager_tr.loop_result [OF sh'(2), of DEBOUNCE] by (simp add: eager_pk_transfer_loop [OF sh])
qed (auto simp: eager_update_def eager_transfer_def split: prod.splits if_splits)

interpretation asym_pk: pk_algorithm cols "asym_pk_update cols" "asym_pk_transfer DEBOUNCE cols" True
  asym_update "asym_transfer DEBOUNCE"
  "\<lambda>e x (v, k). (time k \<noteq> 0 \<and> ucast (time k) \<le> e \<and> \<not> pressed k \<and> v \<noteq> x, time k \<noteq> 0 \<and> \<not> ucast (time k) \<le> e,
     time k \<noteq> 0 \<and> ucast (time k) \<le> e \<and> pressed k)"
  "\<lambda>x (v, k). (x \<and> \<not> v \<and> time k = 0, x \<noteq> v \<and> time k = 0, False)" "\<lambda>k. time k \<noteq> 0"
  for cols DEBOUNCE
proof unfold_locales
  fix raw cooked :: "'a matrix" and st :: "asym_counter debounce_state" and e
  assume sh: "shaped cols (length raw) (st, cooked)"
  then have sh': "shaped cols (length raw) (st\<lparr>counters_need_update := False, matrix_need_update := False\<rparr>, cooked)"
    "shaped cols (length raw) (st\<lparr>matrix_need_update := False\<rparr>, cooked)" by (simp_all add: shaped_def)
  show "key_loop_result cols raw (asym_update e) (\<lambda>x (v, k). (time k \<noteq> 0 \<and> ucast (time k) \<le> e \<and> \<not> pressed k \<and> v \<noteq> x,
        time k \<noteq> 0 \<and> \<not> ucast (time k) \<le> e, time k \<noteq> 0 \<and> ucast (time k) \<le> e \<and> pressed k))
      (st\<lparr>counters_need_update := False, matrix_need_update := (matrix_need_update st \<and> \<not> True)\<rparr>, cooked)
      (asym_pk_update cols raw e (st, cooked))"
    using asym_up.loop_result [OF sh'(1), of e] by (simp add: asym_pk_update_loop)
  show "key_loop_result cols raw (asym_transfer DEBOUNCE) (\<lambda>x (v, k). (x \<and> \<not> v \<and> time k = 0, x \<noteq> v \<and> time k = 0, False))
      (st\<lparr>matrix_need_update := (matrix_need_update st \<and> \<not> True)\<rparr>, cooked) (asym_pk_transfer DEBOUNCE cols raw (st, cooked))"
    using asym_tr.loop_result [OF sh'(2), of DEBOUNCE] by (simp add: asym_pk_transfer_loop [OF sh])
qed (auto simp: asym_update_def asym_transfer_def split: prod.splits if_splits)

end
