(* ===== verification/Debounce_Timing.thy ===== *)
theory Debounce_Timing
  imports Debounce_Pk
begin

text \<open>
  What the per-key algorithms promise over time. \<open>matrix_scan\<close> of \<^verbatim>\<open>quantum/matrix.c\<close> is run again and
  again on what the switches show at the scans \<open>1, 2, ...\<close>: scan \<open>n\<close> reads the matrix \<open>R n\<close> at
  \<open>T n\<close> milliseconds. \<open>R 0\<close> is the raw matrix the keyboard starts from.
\<close>

subsection \<open>Scanning\<close>

text \<open>\<open>raw_matrix\<close>, the state of the debounce algorithm, and \<open>matrix\<close>\<close>

definition matrix_scan ::
  "(uint32 \<Rightarrow> 'r::len matrix \<Rightarrow> bool \<Rightarrow> 's \<times> 'r matrix \<Rightarrow> bool \<times> 's \<times> 'r matrix) \<Rightarrow> uint32 \<Rightarrow> 'r matrix \<Rightarrow>
   'r matrix \<times> 's \<times> 'r matrix \<Rightarrow> bool \<times> 'r matrix \<times> 's \<times> 'r matrix" where
  "matrix_scan debounce now curr_matrix = (\<lambda>(raw_matrix, st, matrix).
     let changed = (raw_matrix \<noteq> curr_matrix);
         raw_matrix = (if changed then curr_matrix else raw_matrix);
         (changed, st, matrix) = debounce now raw_matrix changed (st, matrix)
     in (changed, raw_matrix, st, matrix))"

primrec scan_run ::
  "(uint32 \<Rightarrow> 'r::len matrix \<Rightarrow> bool \<Rightarrow> 's \<times> 'r matrix \<Rightarrow> bool \<times> 's \<times> 'r matrix) \<Rightarrow> (nat \<Rightarrow> nat) \<Rightarrow> (nat \<Rightarrow> 'r matrix) \<Rightarrow>
   's \<times> 'r matrix \<Rightarrow> nat \<Rightarrow> 'r matrix \<times> 's \<times> 'r matrix" where
  "scan_run debounce T R s 0 = (R 0, s)"
| "scan_run debounce T R s (Suc n) = snd (matrix_scan debounce (of_nat (T (Suc n))) (R (Suc n)) (scan_run debounce T R s n))"

text \<open>Time does not run backwards, and two scans are less than \<open>2 ^ 32\<close> milliseconds apart.\<close>

definition steady_clock :: "(nat \<Rightarrow> nat) \<Rightarrow> bool" where
  "steady_clock T \<longleftrightarrow> (\<forall>n. T n \<le> T (Suc n) \<and> T (Suc n) < T n + 2 ^ 32)"

lemma clamped_elapsed_of_nat:
  assumes "a \<le> b" "b < a + 2 ^ 32"
  shows "unat (clamped_elapsed (of_nat b) (of_nat a)) = min 255 (b - a)"
proof -
  have "(of_nat b :: uint32) - of_nat a = of_nat (b - a)" using assms(1) by (simp add: of_nat_diff)
  moreover have u: "unat (of_nat (b - a) :: uint32) = b - a" using assms by (intro unat_of_nat_small) simp
  moreover have "255 < (of_nat (b - a) :: uint32) \<longleftrightarrow> 255 < b - a"
    using u by (simp add: word_less_nat_alt)
  moreover have "unat (ucast (of_nat (b - a) :: uint32) :: uint8) = b - a" if "b - a \<le> 255"
    using that u by (simp add: unsigned_ucast_eq take_bit_nat_eq_self)
  ultimately show ?thesis by (simp add: clamped_elapsed_def TIMER_DIFF_32_def Let_def min_def)
qed

lemma clock_mono: "steady_clock T \<Longrightarrow> m \<le> n \<Longrightarrow> T m \<le> T n"
  by (rule lift_Suc_mono_le) (auto simp: steady_clock_def)

lemma scan_run_raw: "fst (scan_run debounce T R s n) = R n"
  by (cases n) (auto simp: matrix_scan_def Let_def split: prod.splits)

lemma scan_run_Suc:
  "snd (scan_run debounce T R s (Suc n)) =
   snd (debounce (of_nat (T (Suc n))) (R (Suc n)) (R (Suc n) \<noteq> R n) (snd (scan_run debounce T R s n)))"
  using scan_run_raw [of debounce T R s n]
  by (cases "scan_run debounce T R s n") (auto simp: matrix_scan_def Let_def split: prod.splits)

subsection \<open>Deferred changes\<close>

text \<open>The start of a scan run: nothing pending, the debounced matrix is the raw one.\<close>

definition settled :: "nat \<Rightarrow> uint8 debounce_state \<Rightarrow> 'r::len matrix \<Rightarrow> bool" where
  "settled cols st m \<longleftrightarrow> shaped cols (length m) (st, m) \<and> (\<forall>k\<in>set (debounce_counters st). k = 0)"

text \<open>
  The life of one key: \<open>v\<close> is its debounced value and \<open>k\<close> its counter after scan \<open>n\<close>, and \<open>X j\<close> what
  scan \<open>j\<close> showed. A running counter knows the scan \<open>m\<close> at which the key left \<open>v\<close>.
\<close>

definition defer_life :: "(nat \<Rightarrow> nat) \<Rightarrow> nat \<Rightarrow> (nat \<Rightarrow> bool) \<Rightarrow> nat \<Rightarrow> bool \<times> uint8 \<Rightarrow> bool" where
  "defer_life T D X n = (\<lambda>(v, k).
     if k = 0 then v = X n
     else \<exists>m. 1 \<le> m \<and> m \<le> n \<and> X (m - 1) = v \<and> (\<forall>j. m \<le> j \<and> j \<le> n \<longrightarrow> X j \<noteq> v) \<and> unat k + (T n - T m) = D)"

lemma defer_life_step:
  assumes life: "defer_life T (unat D) X n (v, k)" and T: "steady_clock T" and D: "0 < D"
    and e: "unat e = min 255 (T (Suc n) - T n)"
    and ch: "\<not> changed \<Longrightarrow> X (Suc n) = X n"
    and k1: "(v1, k1) = (if k \<noteq> 0 \<and> 0 < e then defer_update e (X (Suc n)) (v, k) else (v, k))"
    and k2: "cl = (if changed then defer_start D (X (Suc n)) (v1, k1) else (v1, k1))"
  shows "defer_life T (unat D) X (Suc n) cl"
    and "v1 \<noteq> v \<Longrightarrow> \<exists>m\<le>Suc n. unat D \<le> T (Suc n) - T m \<and> (\<forall>j. m \<le> j \<and> j \<le> Suc n \<longrightarrow> X j = v1)"
    and "fst cl = v1"
proof -
  have tick: "T n \<le> T (Suc n)" using T by (simp add: steady_clock_def)
  show "fst cl = v1" using k2 by (auto simp: defer_start_def)
  consider (idle) "k = 0" | (fire) "k \<noteq> 0" "k \<le> e" | (run) "k \<noteq> 0" "\<not> k \<le> e" by blast
  then have "defer_life T (unat D) X (Suc n) cl
    \<and> (v1 \<noteq> v \<longrightarrow> (\<exists>m\<le>Suc n. unat D \<le> T (Suc n) - T m \<and> (\<forall>j. m \<le> j \<and> j \<le> Suc n \<longrightarrow> X j = v1)))"
  proof cases
    case idle
    then have 1: "v1 = v" "k1 = 0" "v = X n" using k1 life by (auto simp: defer_life_def)
    have "X (Suc n) \<noteq> v \<Longrightarrow> changed" using ch 1 by auto
    then show ?thesis using 1 k2 D ch
      by (auto simp: defer_life_def defer_start_def intro!: exI [of _ "Suc n"])
  next
    case fire
    then have "0 < e" by (metis word_gt_0 word_le_0_iff)
    then have 1: "v1 = X (Suc n)" "k1 = 0" using k1 fire by (auto simp: defer_update_def)
    then have "cl = (X (Suc n), 0)" using k2 by (simp add: defer_start_def)
    moreover obtain m where m: "1 \<le> m" "m \<le> n" "\<forall>j. m \<le> j \<and> j \<le> n \<longrightarrow> X j \<noteq> v" "unat k + (T n - T m) = unat D"
      using life fire by (auto simp: defer_life_def)
    have "unat k \<le> T (Suc n) - T n" using fire e by (simp add: word_le_nat_alt)
    then have "unat D \<le> T (Suc n) - T m" using m(4) clock_mono [OF T m(2)] tick by linarith
    moreover have "X (Suc n) \<noteq> v \<Longrightarrow> \<forall>j. m \<le> j \<and> j \<le> Suc n \<longrightarrow> X j = X (Suc n)"
      using m(3) by (auto simp: le_Suc_eq)
    ultimately show ?thesis using 1 m(2) by (auto simp: defer_life_def intro!: exI [of _ m])
  next
    case run
    obtain m where m: "1 \<le> m" "m \<le> n" "X (m - 1) = v" "\<forall>j. m \<le> j \<and> j \<le> n \<longrightarrow> X j \<noteq> v"
      "unat k + (T n - T m) = unat D" using life run by (auto simp: defer_life_def)
    have lt: "unat e < unat k" using run by (simp add: word_le_nat_alt)
    then have ee: "unat e = T (Suc n) - T n" using e unsigned_less [of k, where ?'a = nat] by simp
    have 1: "v1 = v" "unat k1 = unat k - unat e" "k1 \<noteq> 0"
      using k1 run lt by (auto simp: defer_update_def unat_sub word_le_nat_alt word_gt_0 unat_eq_0 split: if_splits)
    have t: "unat k1 + (T (Suc n) - T m) = unat D" using 1 ee lt m(5) clock_mono [OF T m(2)] tick by linarith
    show ?thesis
    proof (cases "X (Suc n) = v")
      case True
      then have "changed" using ch m(2,4) by auto
      then show ?thesis using True 1 k2 by (simp add: defer_life_def defer_start_def)
    next
      case False
      then have "cl = (v, k1)" using k2 1 by (auto simp: defer_start_def)
      moreover have "\<forall>j. m \<le> j \<and> j \<le> Suc n \<longrightarrow> X j \<noteq> v" using m(4) False by (auto simp: le_Suc_eq)
      ultimately show ?thesis using 1 t m(1-3) by (auto simp: defer_life_def)
    qed
  qed
  then show "defer_life T (unat D) X (Suc n) cl"
    and "v1 \<noteq> v \<Longrightarrow> \<exists>m\<le>Suc n. unat D \<le> T (Suc n) - T m \<and> (\<forall>j. m \<le> j \<and> j \<le> Suc n \<longrightarrow> X j = v1)"
    by blast+
qed

text \<open>Every key of a running \<open>sym_defer_pk\<close> leads this life.\<close>

definition defer_tracks ::
  "uint8 \<Rightarrow> nat \<Rightarrow> (nat \<Rightarrow> nat) \<Rightarrow> (nat \<Rightarrow> 'r::len matrix) \<Rightarrow> nat \<Rightarrow> uint8 debounce_state \<times> 'r matrix \<Rightarrow> bool" where
  "defer_tracks D cols T R n s \<longleftrightarrow>
     defer_pk.pk_inv cols (fst s) (snd s) \<and> length (snd s) = length (R 0)
     \<and> (n \<noteq> 0 \<longrightarrow> counters_need_update (fst s) \<longrightarrow> last_time (fst s) = of_nat (T n))
     \<and> (\<forall>r<length (R 0). \<forall>c<cols. defer_life T (unat D) (\<lambda>j. bit (R j ! r) c) n (key_cell cols s (r, c)))"

lemma sym_defer_pk_key_step:
  fixes R :: "nat \<Rightarrow> 'r::len matrix"
  assumes tracks: "defer_tracks D cols T R n (st, c0)" and len: "\<forall>n. length (R n) = length (R 0)"
    and d: "sym_defer_pk D cols (of_nat (T (Suc n))) (R (Suc n)) (R (Suc n) \<noteq> R n) (st, c0) = (f, st', c0')"
    and rc: "r < length (R 0)" "c < cols" and vk: "key_cell cols (st, c0) (r, c) = (v, k)"
  defines "e \<equiv> clamped_elapsed (of_nat (T (Suc n))) (of_nat (T n))" and "x \<equiv> bit (R (Suc n) ! r) c"
  obtains v1 k1 where "(v1, k1) = (if k \<noteq> 0 \<and> 0 < e then defer_update e x (v, k) else (v, k))"
    "key_cell cols (st', c0') (r, c) = (if R (Suc n) \<noteq> R n then defer_start D x (v1, k1) else (v1, k1))"
    "defer_life T (unat D) (\<lambda>j. bit (R j ! r) c) n (v, k)"
proof -
  have inv: "defer_pk.pk_inv cols st c0" and l1: "length (R (Suc n)) = length c0" "length c0 = length (R 0)"
    using tracks len by (auto simp: defer_tracks_def)
  note DR = defer_pk.debounce_result [OF inv l1(1) d [unfolded sym_defer_pk_eq]]
  have "defer_life T (unat D) (\<lambda>j. bit (R j ! r) c) n (key_cell cols (st, c0) (r, c))"
    using tracks rc by (simp add: defer_tracks_def)
  then have old: "defer_life T (unat D) (\<lambda>j. bit (R j ! r) c) n (v, k)" unfolding vk .
  have "k \<noteq> 0 \<Longrightarrow> counters_need_update st" using inv rc l1 vk by (fastforce simp: defer_pk.pk_inv_def)
  moreover have "k \<noteq> 0 \<Longrightarrow> n \<noteq> 0" using old by (auto simp: defer_life_def)
  ultimately have run: "k \<noteq> 0 \<Longrightarrow> counters_need_update st \<and> last_time st = of_nat (T n)"
    using tracks by (auto simp: defer_tracks_def)
  obtain v1 k1 where cnt: "defer_pk.counted (of_nat (T (Suc n))) st x (v, k) = (v1, k1)" by fastforce
  have "(v1, k1) = (if k \<noteq> 0 \<and> 0 < e then defer_update e x (v, k) else (v, k))"
    unfolding cnt [symmetric] using run by (cases "k = 0") (auto simp: defer_pk.counted_def defer_update_def e_def)
  moreover have "key_cell cols (st', c0') (r, c) = (if R (Suc n) \<noteq> R n then defer_start D x (v1, k1) else (v1, k1))"
    using DR(3) [OF rc(1) [folded l1(2)] rc(2), folded x_def, unfolded vk defer_pk.stepped_def cnt]
    by (simp add: defer_pk.second_def)
  ultimately show ?thesis using old that by blast
qed

lemma sym_defer_pk_tracks:
  fixes R :: "nat \<Rightarrow> 'r::len matrix"
  assumes D: "0 < D" and T: "steady_clock T" and start: "settled cols st (R 0)" and len: "\<forall>n. length (R n) = length (R 0)"
  shows "defer_tracks D cols T R n (snd (scan_run (sym_defer_pk D cols) T R (st, R 0) n))"
proof (induction n)
  case 0
  have z: "key_cell cols (st, R 0) (r, c) = (bit (R 0 ! r) c, 0)" if "r < length (R 0)" "c < cols" for r c
    using start key_index_less [OF that] by (auto simp: settled_def shaped_def key_cell_def)
  then show ?case using start by (auto simp: defer_tracks_def defer_pk.pk_inv_def settled_def defer_life_def)
next
  case (Suc n)
  obtain st1 c1 where s1: "snd (scan_run (sym_defer_pk D cols) T R (st, R 0) n) = (st1, c1)" by fastforce
  obtain f st2 c2 where d: "sym_defer_pk D cols (of_nat (T (Suc n))) (R (Suc n)) (R (Suc n) \<noteq> R n) (st1, c1) = (f, st2, c2)"
    by (metis prod_cases3)
  have tr: "defer_tracks D cols T R n (st1, c1)" using Suc s1 by simp
  have inv: "defer_pk.pk_inv cols st1 c1" and l1: "length (R (Suc n)) = length c1" "length c1 = length (R 0)"
    using tr len by (auto simp: defer_tracks_def)
  note d' = d [unfolded sym_defer_pk_eq]
  note DR = defer_pk.debounce_result [OF inv l1(1) d']
  have e: "unat (clamped_elapsed (of_nat (T (Suc n))) (of_nat (T n))) = min 255 (T (Suc n) - T n)"
    using T by (intro clamped_elapsed_of_nat) (auto simp: steady_clock_def)
  have life: "defer_life T (unat D) (\<lambda>j. bit (R j ! r) c) (Suc n) (key_cell cols (st2, c2) (r, c))"
    if rc: "r < length (R 0)" "c < cols" for r c
  proof -
    obtain v k where vk: "key_cell cols (st1, c1) (r, c) = (v, k)" by fastforce
    show ?thesis
      by (rule sym_defer_pk_key_step [OF tr len d rc vk])
        (rule defer_life_step(1) [OF _ T D e, where X = "\<lambda>j. bit (R j ! r) c" and changed = "R (Suc n) \<noteq> R n"], auto)
  qed
  have "snd (scan_run (sym_defer_pk D cols) T R (st, R 0) (Suc n)) = (st2, c2)"
    using scan_run_Suc [of "sym_defer_pk D cols" T R "(st, R 0)" n] s1 d by simp
  then show ?case
    using DR(1,2) l1 life defer_pk.running_last_time [OF inv l1(1) d'] by (simp add: defer_tracks_def)
qed

lemma sym_defer_pk_run:
  fixes R :: "nat \<Rightarrow> 'r::len matrix" and T D cols st
  defines "S \<equiv> \<lambda>n. snd (scan_run (sym_defer_pk D cols) T R (st, R 0) n)"
  assumes D: "0 < D" and T: "steady_clock T" and start: "settled cols st (R 0)" and len: "\<forall>n. length (R n) = length (R 0)"
    and rc: "r < length (R 0)" "c < cols"
  shows "bit (snd (S (Suc n)) ! r) c \<noteq> bit (snd (S n) ! r) c \<Longrightarrow>
      \<exists>m\<le>Suc n. unat D \<le> T (Suc n) - T m
        \<and> (\<forall>j. m \<le> j \<and> j \<le> Suc n \<longrightarrow> bit (R j ! r) c = bit (snd (S (Suc n)) ! r) c)"
    and "m \<le> n \<Longrightarrow> unat D \<le> T n - T m \<Longrightarrow> \<forall>j. m \<le> j \<and> j \<le> n \<longrightarrow> bit (R j ! r) c = x \<Longrightarrow> bit (snd (S n) ! r) c = x"
proof -
  note tracks = sym_defer_pk_tracks [OF D T start len]
  let ?X = "\<lambda>j. bit (R j ! r) c"
  obtain st1 c1 where s1: "S n = (st1, c1)" by fastforce
  obtain f st2 c2 where d: "sym_defer_pk D cols (of_nat (T (Suc n))) (R (Suc n)) (R (Suc n) \<noteq> R n) (st1, c1) = (f, st2, c2)"
    by (metis prod_cases3)
  have s2: "S (Suc n) = (st2, c2)"
    using scan_run_Suc [of "sym_defer_pk D cols" T R "(st, R 0)" n] s1 d by (simp add: S_def)
  obtain v k where vk: "key_cell cols (st1, c1) (r, c) = (v, k)" by fastforce
  have tr: "defer_tracks D cols T R n (st1, c1)" using tracks [of n] s1 by (simp add: S_def)
  have e: "unat (clamped_elapsed (of_nat (T (Suc n))) (of_nat (T n))) = min 255 (T (Suc n) - T n)"
    using T by (intro clamped_elapsed_of_nat) (auto simp: steady_clock_def)
  obtain v1 k1 where k1: "(v1, k1) = (if k \<noteq> 0 \<and> 0 < clamped_elapsed (of_nat (T (Suc n))) (of_nat (T n))
      then defer_update (clamped_elapsed (of_nat (T (Suc n))) (of_nat (T n))) (?X (Suc n)) (v, k) else (v, k))"
    and k2: "key_cell cols (st2, c2) (r, c) = (if R (Suc n) \<noteq> R n then defer_start D (?X (Suc n)) (v1, k1) else (v1, k1))"
    and life: "defer_life T (unat D) ?X n (v, k)"
    by (rule sym_defer_pk_key_step [OF tr len d rc vk])
  have ch: "\<not> R (Suc n) \<noteq> R n \<Longrightarrow> ?X (Suc n) = ?X n" by simp
  note step = defer_life_step(2,3) [OF life T D e ch k1 k2]
  have "bit (snd (S (Suc n)) ! r) c = v1" "bit (snd (S n) ! r) c = v"
    using step(2) vk s1 s2 by (auto simp: key_cell_def)
  then show "bit (snd (S (Suc n)) ! r) c \<noteq> bit (snd (S n) ! r) c \<Longrightarrow>
      \<exists>m\<le>Suc n. unat D \<le> T (Suc n) - T m
        \<and> (\<forall>j. m \<le> j \<and> j \<le> Suc n \<longrightarrow> ?X j = bit (snd (S (Suc n)) ! r) c)"
    using step(1) by simp
  assume m: "m \<le> n" "unat D \<le> T n - T m" and st: "\<forall>j. m \<le> j \<and> j \<le> n \<longrightarrow> ?X j = x"
  have "v = x"
  proof (rule ccontr)
    assume nv: "v \<noteq> x"
    then have "k \<noteq> 0" using life st m(1) by (auto simp: defer_life_def split: if_splits)
    then obtain m0 where m0: "1 \<le> m0" "m0 \<le> n" "?X (m0 - 1) = v" "unat k + (T n - T m0) = unat D"
      using life by (auto simp: defer_life_def split: if_splits)
    have "m0 \<le> m"
    proof (rule ccontr)
      assume "\<not> m0 \<le> m"
      then have "m \<le> m0 - 1" "m0 - 1 \<le> n" using m0(2) by linarith+
      then have "?X (m0 - 1) = x" using st by blast
      with m0(3) nv show False by simp
    qed
    then have "T n - T m \<le> T n - T m0" using clock_mono [OF T] by (simp add: diff_le_mono2)
    moreover have "0 < unat k" using \<open>k \<noteq> 0\<close> by (simp add: unat_gt_0)
    ultimately show False using m(2) m0(4) by linarith
  qed
  then show "bit (snd (S n) ! r) c = x" using vk s1 by (simp add: key_cell_def)
qed

subsection \<open>Eager changes\<close>

text \<open>
  The life of a key under \<open>sym_eager_pk\<close>: \<open>V j\<close> is its debounced value after scan \<open>j\<close>. A running
  counter remembers the last flip, every flip is at least \<open>D - k\<close> milliseconds old, and a flip shows the raw value.
\<close>

definition flips :: "(nat \<Rightarrow> bool) \<Rightarrow> nat \<Rightarrow> bool" where
  "flips V m \<longleftrightarrow> 1 \<le> m \<and> V m \<noteq> V (m - 1)"

definition eager_life ::
  "(nat \<Rightarrow> nat) \<Rightarrow> nat \<Rightarrow> (nat \<Rightarrow> bool) \<Rightarrow> (nat \<Rightarrow> bool) \<Rightarrow> nat \<Rightarrow> bool \<times> uint8 \<Rightarrow> bool" where
  "eager_life T D X V n = (\<lambda>(v, k).
     v = V n \<and> (\<forall>m\<le>n. flips V m \<longrightarrow> D \<le> unat k + (T n - T m)) \<and> (flips V n \<longrightarrow> v = X n)
     \<and> (if k = 0 then v = X n else \<exists>m\<le>n. flips V m \<and> unat k + (T n - T m) = D))"

lemma eager_life_step:
  assumes life: "eager_life T (unat D) X V n (v, k)" and T: "steady_clock T" and D: "0 < D"
    and e: "unat e = min 255 (T (Suc n) - T n)"
    and ch: "\<not> b \<Longrightarrow> X (Suc n) = X n \<and> \<not> (k \<noteq> 0 \<and> k \<le> e)"
    and k1: "(v1, k1) = (if k \<noteq> 0 \<and> 0 < e then eager_update e (X (Suc n)) (v, k) else (v, k))"
    and k2: "cl = (if b then eager_transfer D (X (Suc n)) (v1, k1) else (v1, k1))"
    and V: "V (Suc n) = fst cl"
  shows "eager_life T (unat D) X V (Suc n) cl"
    and "m \<le> n \<Longrightarrow> flips V m \<Longrightarrow> flips V (Suc n) \<Longrightarrow> unat D \<le> T (Suc n) - T m"
proof -
  have tick: "T n \<le> T (Suc n)" using T by (simp add: steady_clock_def)
  have v: "v1 = v" "v = V n" using k1 life by (auto simp: eager_update_def eager_life_def split: if_splits)
  have old: "unat D \<le> unat k + (T n - T m)" if "m \<le> n" "flips V m" for m
    using life that by (auto simp: eager_life_def)
  have kk: "k1 = 0 \<and> unat k \<le> T (Suc n) - T n \<or> k1 \<noteq> 0 \<and> unat k1 + (T (Suc n) - T n) = unat k"
  proof (cases "k \<le> e")
    case True
    then have "k \<noteq> 0 \<Longrightarrow> 0 < e" by (metis word_gt_0 word_le_0_iff)
    then show ?thesis using True k1 e by (auto simp: eager_update_def word_le_nat_alt split: if_splits)
  next
    case False
    then have lt: "unat e < unat k" by (simp add: word_le_nat_alt)
    then have "unat e = T (Suc n) - T n" using e unsigned_less [of k, where ?'a = nat] by simp
    moreover have "k1 = k - e" using k1 False by (auto simp: eager_update_def word_gt_0 split: if_splits)
    ultimately show ?thesis using lt by (auto simp: unat_sub word_le_nat_alt unat_eq_0)
  qed
  have aged: "unat D \<le> unat k1 + (T (Suc n) - T m)" if "m \<le> n" "flips V m" for m
    using old [OF that] kk clock_mono [OF T that(1)] tick by auto
  have fl: "flips V (Suc n) \<longleftrightarrow> b \<and> X (Suc n) \<noteq> v \<and> k1 = 0"
    using V v k2 by (auto simp: flips_def eager_transfer_def split: if_splits)
  show "unat D \<le> T (Suc n) - T m" if "m \<le> n" "flips V m" "flips V (Suc n)"
    using aged [OF that(1,2)] fl that(3) by simp
  show "eager_life T (unat D) X V (Suc n) cl"
  proof (cases "flips V (Suc n)")
    case True
    then have "cl = (X (Suc n), D)" using k2 fl v by (simp add: eager_transfer_def)
    with True D aged V show ?thesis
      by (auto simp: eager_life_def le_Suc_eq word_gt_0 intro!: exI [of _ "Suc n"] intro: order_trans [OF aged])
  next
    case False
    then have cl: "cl = (v, k1)" using k2 fl v by (auto simp: eager_transfer_def)
    have "\<exists>m\<le>Suc n. flips V m \<and> unat k1 + (T (Suc n) - T m) = unat D" if "k1 \<noteq> 0"
    proof -
      have "k \<noteq> 0" using kk that by (auto simp: unat_eq_0)
      then obtain m where "m \<le> n" "flips V m" "unat k + (T n - T m) = unat D" using life by (auto simp: eager_life_def)
      then show ?thesis using kk that clock_mono [OF T \<open>m \<le> n\<close>] tick by (auto intro!: exI [of _ m])
    qed
    moreover have "v = X (Suc n)" if "k1 = 0"
    proof (cases b)
      case True
      then show ?thesis using fl False that by auto
    next
      case nb: False
      have "k = 0" using kk that ch [OF nb] k1 by (auto simp: eager_update_def split: if_splits)
      then show ?thesis using life ch [OF nb] by (auto simp: eager_life_def)
    qed
    ultimately show ?thesis using cl V aged False by (auto simp: eager_life_def le_Suc_eq)
  qed
qed

definition eager_tracks ::
  "uint8 \<Rightarrow> nat \<Rightarrow> (nat \<Rightarrow> nat) \<Rightarrow> (nat \<Rightarrow> 'r::len matrix) \<Rightarrow> (nat \<Rightarrow> uint8 debounce_state \<times> 'r matrix) \<Rightarrow> nat \<Rightarrow> bool" where
  "eager_tracks D cols T R S n \<longleftrightarrow>
     eager_pk.pk_inv cols (fst (S n)) (snd (S n)) \<and> length (snd (S n)) = length (R 0)
     \<and> (n \<noteq> 0 \<longrightarrow> counters_need_update (fst (S n)) \<longrightarrow> last_time (fst (S n)) = of_nat (T n))
     \<and> (\<forall>r<length (R 0). \<forall>c<cols. eager_life T (unat D) (\<lambda>j. bit (R j ! r) c) (\<lambda>j. bit (snd (S j) ! r) c) n
          (key_cell cols (S n) (r, c)))"

lemma sym_eager_pk_key_step:
  fixes R :: "nat \<Rightarrow> 'r::len matrix"
  assumes tracks: "eager_tracks D cols T R S n" and len: "\<forall>n. length (R n) = length (R 0)" and s: "S n = (st, c0)"
    and d: "sym_eager_pk D cols (of_nat (T (Suc n))) (R (Suc n)) (R (Suc n) \<noteq> R n) (st, c0) = (f, st', c0')"
    and rc: "r < length (R 0)" "c < cols" and vk: "key_cell cols (st, c0) (r, c) = (v, k)"
  defines "e \<equiv> clamped_elapsed (of_nat (T (Suc n))) (of_nat (T n))" and "X \<equiv> \<lambda>j. bit (R j ! r) c"
  obtains v1 k1 b where "(v1, k1) = (if k \<noteq> 0 \<and> 0 < e then eager_update e (X (Suc n)) (v, k) else (v, k))"
    "key_cell cols (st', c0') (r, c) = (if b then eager_transfer D (X (Suc n)) (v1, k1) else (v1, k1))"
    "\<not> b \<longrightarrow> X (Suc n) = X n \<and> \<not> (k \<noteq> 0 \<and> k \<le> e)"
    "eager_life T (unat D) X (\<lambda>j. bit (snd (S j) ! r) c) n (v, k)"
proof -
  have inv: "eager_pk.pk_inv cols st c0" and l1: "length (R (Suc n)) = length c0" "length c0 = length (R 0)"
    using tracks len s by (auto simp: eager_tracks_def)
  note DR = eager_pk.debounce_result [OF inv l1(1) d [unfolded sym_eager_pk_eq]]
  have "eager_life T (unat D) X (\<lambda>j. bit (snd (S j) ! r) c) n (key_cell cols (S n) (r, c))"
    using tracks rc by (simp add: eager_tracks_def X_def)
  then have old: "eager_life T (unat D) X (\<lambda>j. bit (snd (S j) ! r) c) n (v, k)" unfolding s vk .
  have need: "k \<noteq> 0 \<Longrightarrow> counters_need_update st" using inv rc l1 vk by (fastforce simp: eager_pk.pk_inv_def)
  moreover have "k \<noteq> 0 \<Longrightarrow> n \<noteq> 0" using old by (auto simp: eager_life_def flips_def)
  ultimately have run: "k \<noteq> 0 \<Longrightarrow> counters_need_update st \<and> last_time st = of_nat (T n)"
    using tracks s by (auto simp: eager_tracks_def)
  let ?b = "eager_pk.second cols (of_nat (T (Suc n))) (R (Suc n)) (R (Suc n) \<noteq> R n) st c0"
  obtain v1 k1 where cnt: "eager_pk.counted (of_nat (T (Suc n))) st (X (Suc n)) (v, k) = (v1, k1)" by fastforce
  have 1: "(v1, k1) = (if k \<noteq> 0 \<and> 0 < e then eager_update e (X (Suc n)) (v, k) else (v, k))"
    unfolding cnt [symmetric] using run by (cases "k = 0") (auto simp: eager_pk.counted_def eager_update_def e_def)
  have 2: "key_cell cols (st', c0') (r, c) = (if ?b then eager_transfer D (X (Suc n)) (v1, k1) else (v1, k1))"
    using DR(3) [OF rc(1) [folded l1(2)] rc(2), folded X_def] cnt vk by (simp add: X_def eager_pk.stepped_def)
  have 3: "X (Suc n) = X n \<and> \<not> (k \<noteq> 0 \<and> k \<le> e)" if nb: "\<not> ?b"
  proof (intro conjI notI)
    show "X (Suc n) = X n" using nb by (auto simp: eager_pk.second_def X_def)
    assume k: "k \<noteq> 0 \<and> k \<le> e"
    then have "0 < e" by (metis word_gt_0 word_le_0_iff)
    then have ?b using eager_pk.second_if_raised [OF inv l1(1) rc(1) [folded l1(2)] rc(2)] run k vk by (simp add: e_def)
    with nb show False ..
  qed
  show ?thesis using 1 2 3 old that by blast
qed

lemma sym_eager_pk_tracks:
  fixes R :: "nat \<Rightarrow> 'r::len matrix" and T D cols st
  defines "S \<equiv> \<lambda>n. snd (scan_run (sym_eager_pk D cols) T R (st, R 0) n)"
  assumes D: "0 < D" and T: "steady_clock T" and start: "settled cols st (R 0)" and len: "\<forall>n. length (R n) = length (R 0)"
  shows "eager_tracks D cols T R S n
    \<and> (\<forall>r<length (R 0). \<forall>c<cols. \<forall>m. m < n \<longrightarrow> flips (\<lambda>j. bit (snd (S j) ! r) c) m \<longrightarrow>
        flips (\<lambda>j. bit (snd (S j) ! r) c) n \<longrightarrow> unat D \<le> T n - T m)"
proof (induction n)
  case 0
  have z: "key_cell cols (st, R 0) (r, c) = (bit (R 0 ! r) c, 0)" if "r < length (R 0)" "c < cols" for r c
    using start key_index_less [OF that] by (auto simp: settled_def shaped_def key_cell_def)
  then show ?case using start
    by (auto simp: S_def eager_tracks_def eager_pk.pk_inv_def settled_def eager_life_def flips_def)
next
  case (Suc n)
  obtain st1 c1 where s1: "S n = (st1, c1)" by fastforce
  obtain f st2 c2 where d: "sym_eager_pk D cols (of_nat (T (Suc n))) (R (Suc n)) (R (Suc n) \<noteq> R n) (st1, c1) = (f, st2, c2)"
    by (metis prod_cases3)
  have s2: "S (Suc n) = (st2, c2)"
    using scan_run_Suc [of "sym_eager_pk D cols" T R "(st, R 0)" n] s1 d by (simp add: S_def)
  have tr: "eager_tracks D cols T R S n" using Suc ..
  have inv: "eager_pk.pk_inv cols st1 c1" and l1: "length (R (Suc n)) = length c1" "length c1 = length (R 0)"
    using tr len s1 by (auto simp: eager_tracks_def)
  note d' = d [unfolded sym_eager_pk_eq]
  note DR = eager_pk.debounce_result [OF inv l1(1) d']
  have e: "unat (clamped_elapsed (of_nat (T (Suc n))) (of_nat (T n))) = min 255 (T (Suc n) - T n)"
    using T by (intro clamped_elapsed_of_nat) (auto simp: steady_clock_def)
  have step: "eager_life T (unat D) (\<lambda>j. bit (R j ! r) c) (\<lambda>j. bit (snd (S j) ! r) c) (Suc n) (key_cell cols (S (Suc n)) (r, c))
      \<and> (\<forall>m. m < Suc n \<longrightarrow> flips (\<lambda>j. bit (snd (S j) ! r) c) m \<longrightarrow>
        flips (\<lambda>j. bit (snd (S j) ! r) c) (Suc n) \<longrightarrow> unat D \<le> T (Suc n) - T m)"
    if rc: "r < length (R 0)" "c < cols" for r c
  proof -
    obtain v k where vk: "key_cell cols (st1, c1) (r, c) = (v, k)" by fastforce
    obtain v1 k1 b where K: "(v1, k1) = (if k \<noteq> 0 \<and> 0 < clamped_elapsed (of_nat (T (Suc n))) (of_nat (T n))
        then eager_update (clamped_elapsed (of_nat (T (Suc n))) (of_nat (T n))) (bit (R (Suc n) ! r) c) (v, k) else (v, k))"
      "key_cell cols (st2, c2) (r, c) = (if b then eager_transfer D (bit (R (Suc n) ! r) c) (v1, k1) else (v1, k1))"
      "\<not> b \<longrightarrow> bit (R (Suc n) ! r) c = bit (R n ! r) c
        \<and> \<not> (k \<noteq> 0 \<and> k \<le> clamped_elapsed (of_nat (T (Suc n))) (of_nat (T n)))"
      "eager_life T (unat D) (\<lambda>j. bit (R j ! r) c) (\<lambda>j. bit (snd (S j) ! r) c) n (v, k)"
      by (rule sym_eager_pk_key_step [OF tr len s1 d rc vk])
    have V: "bit (snd (S (Suc n)) ! r) c = fst (key_cell cols (st2, c2) (r, c))" by (simp add: s2 key_cell_def)
    show ?thesis
      using eager_life_step [OF K(4) T D e K(3) [rule_format] K(1,2) V] s2 by (auto simp: less_Suc_eq_le)
  qed
  then show ?case
    using DR(1,2) l1 s2 eager_pk.running_last_time [OF inv l1(1) d'] by (simp add: eager_tracks_def)
qed

text \<open>Once the last flip is \<open>D\<close> milliseconds old the debounced value is the raw one.\<close>

lemma eager_life_follows:
  assumes "eager_life T D X V n (v, k)" "\<forall>m<n. flips V m \<longrightarrow> D \<le> T n - T m"
  shows "V n = X n"
proof (cases "k = 0 \<or> flips V n")
  case True
  then show ?thesis using assms(1) by (auto simp: eager_life_def)
next
  case False
  then obtain m where "m \<le> n" "flips V m" "unat k + (T n - T m) = D" using assms(1) by (auto simp: eager_life_def)
  moreover have "0 < unat k" using False by (simp add: unat_gt_0)
  moreover have "m < n" using \<open>m \<le> n\<close> \<open>flips V m\<close> False by (auto simp: le_less)
  ultimately show ?thesis using assms(2) by fastforce
qed

end
