(* ===== verification/Keycodes.thy ===== *)
theory Keycodes
  imports Prelude
begin

text \<open>
  Keycodes and the remapping the user can switch on: the constants and range tests of
  \<^verbatim>\<open>quantum/keycodes.h\<close> and \<^verbatim>\<open>quantum/quantum_keycodes.h\<close> that the action code uses, the packed
  modifiers of \<^verbatim>\<open>quantum/modifiers.h\<close>, the record \<open>keymap_config_t\<close> and the functions
  \<open>keycode_config\<close> and \<open>mod_config\<close> of \<^verbatim>\<open>quantum/keycode_config.c\<close>. A keycode is a 16-bit word, a
  basic keycode fits in 8 bits; the basic constants are polymorphic in the width.
\<close>

subsection \<open>Basic keycodes\<close>

definition KC_NO :: "'a::len word" where "KC_NO = 0"

abbreviation (input) KC_TRANSPARENT :: "'a::len word" where "KC_TRANSPARENT \<equiv> 0x01"
abbreviation (input) KC_A :: "'a::len word" where "KC_A \<equiv> 0x04"
abbreviation (input) KC_Z :: "'a::len word" where "KC_Z \<equiv> 0x1D"
abbreviation (input) KC_ESCAPE :: "'a::len word" where "KC_ESCAPE \<equiv> 0x29"
abbreviation (input) KC_BACKSPACE :: "'a::len word" where "KC_BACKSPACE \<equiv> 0x2A"
abbreviation (input) KC_SPACE :: "'a::len word" where "KC_SPACE \<equiv> 0x2C"
abbreviation (input) KC_BACKSLASH :: "'a::len word" where "KC_BACKSLASH \<equiv> 0x31"
abbreviation (input) KC_SEMICOLON :: "'a::len word" where "KC_SEMICOLON \<equiv> 0x33"
abbreviation (input) KC_GRAVE :: "'a::len word" where "KC_GRAVE \<equiv> 0x35"
abbreviation (input) KC_COMMA :: "'a::len word" where "KC_COMMA \<equiv> 0x36"
abbreviation (input) KC_DOT :: "'a::len word" where "KC_DOT \<equiv> 0x37"
abbreviation (input) KC_SLASH :: "'a::len word" where "KC_SLASH \<equiv> 0x38"
abbreviation (input) KC_CAPS_LOCK :: "'a::len word" where "KC_CAPS_LOCK \<equiv> 0x39"
abbreviation (input) KC_SCROLL_LOCK :: "'a::len word" where "KC_SCROLL_LOCK \<equiv> 0x47"
abbreviation (input) KC_NUM_LOCK :: "'a::len word" where "KC_NUM_LOCK \<equiv> 0x53"
abbreviation (input) KC_LOCKING_CAPS_LOCK :: "'a::len word" where "KC_LOCKING_CAPS_LOCK \<equiv> 0x82"
abbreviation (input) KC_LOCKING_NUM_LOCK :: "'a::len word" where "KC_LOCKING_NUM_LOCK \<equiv> 0x83"
abbreviation (input) KC_LOCKING_SCROLL_LOCK :: "'a::len word" where "KC_LOCKING_SCROLL_LOCK \<equiv> 0x84"
abbreviation (input) KC_EXSEL :: "'a::len word" where "KC_EXSEL \<equiv> 0xA4"
abbreviation (input) KC_SYSTEM_POWER :: "'a::len word" where "KC_SYSTEM_POWER \<equiv> 0xA5"
abbreviation (input) KC_SYSTEM_SLEEP :: "'a::len word" where "KC_SYSTEM_SLEEP \<equiv> 0xA6"
abbreviation (input) KC_SYSTEM_WAKE :: "'a::len word" where "KC_SYSTEM_WAKE \<equiv> 0xA7"
abbreviation (input) KC_AUDIO_MUTE :: "'a::len word" where "KC_AUDIO_MUTE \<equiv> 0xA8"
abbreviation (input) KC_AUDIO_VOL_UP :: "'a::len word" where "KC_AUDIO_VOL_UP \<equiv> 0xA9"
abbreviation (input) KC_AUDIO_VOL_DOWN :: "'a::len word" where "KC_AUDIO_VOL_DOWN \<equiv> 0xAA"
abbreviation (input) KC_MEDIA_NEXT_TRACK :: "'a::len word" where "KC_MEDIA_NEXT_TRACK \<equiv> 0xAB"
abbreviation (input) KC_MEDIA_PREV_TRACK :: "'a::len word" where "KC_MEDIA_PREV_TRACK \<equiv> 0xAC"
abbreviation (input) KC_MEDIA_FAST_FORWARD :: "'a::len word" where "KC_MEDIA_FAST_FORWARD \<equiv> 0xBB"
abbreviation (input) KC_MEDIA_REWIND :: "'a::len word" where "KC_MEDIA_REWIND \<equiv> 0xBC"
abbreviation (input) KC_MEDIA_STOP :: "'a::len word" where "KC_MEDIA_STOP \<equiv> 0xAD"
abbreviation (input) KC_MEDIA_EJECT :: "'a::len word" where "KC_MEDIA_EJECT \<equiv> 0xB0"
abbreviation (input) KC_MEDIA_PLAY_PAUSE :: "'a::len word" where "KC_MEDIA_PLAY_PAUSE \<equiv> 0xAE"
abbreviation (input) KC_MEDIA_SELECT :: "'a::len word" where "KC_MEDIA_SELECT \<equiv> 0xAF"
abbreviation (input) KC_MAIL :: "'a::len word" where "KC_MAIL \<equiv> 0xB1"
abbreviation (input) KC_CALCULATOR :: "'a::len word" where "KC_CALCULATOR \<equiv> 0xB2"
abbreviation (input) KC_MY_COMPUTER :: "'a::len word" where "KC_MY_COMPUTER \<equiv> 0xB3"
abbreviation (input) KC_CONTROL_PANEL :: "'a::len word" where "KC_CONTROL_PANEL \<equiv> 0xBF"
abbreviation (input) KC_ASSISTANT :: "'a::len word" where "KC_ASSISTANT \<equiv> 0xC0"
abbreviation (input) KC_WWW_SEARCH :: "'a::len word" where "KC_WWW_SEARCH \<equiv> 0xB4"
abbreviation (input) KC_WWW_HOME :: "'a::len word" where "KC_WWW_HOME \<equiv> 0xB5"
abbreviation (input) KC_WWW_BACK :: "'a::len word" where "KC_WWW_BACK \<equiv> 0xB6"
abbreviation (input) KC_WWW_FORWARD :: "'a::len word" where "KC_WWW_FORWARD \<equiv> 0xB7"
abbreviation (input) KC_WWW_STOP :: "'a::len word" where "KC_WWW_STOP \<equiv> 0xB8"
abbreviation (input) KC_WWW_REFRESH :: "'a::len word" where "KC_WWW_REFRESH \<equiv> 0xB9"
abbreviation (input) KC_BRIGHTNESS_UP :: "'a::len word" where "KC_BRIGHTNESS_UP \<equiv> 0xBD"
abbreviation (input) KC_BRIGHTNESS_DOWN :: "'a::len word" where "KC_BRIGHTNESS_DOWN \<equiv> 0xBE"
abbreviation (input) KC_WWW_FAVORITES :: "'a::len word" where "KC_WWW_FAVORITES \<equiv> 0xBA"
abbreviation (input) KC_MISSION_CONTROL :: "'a::len word" where "KC_MISSION_CONTROL \<equiv> 0xC1"
abbreviation (input) KC_LAUNCHPAD :: "'a::len word" where "KC_LAUNCHPAD \<equiv> 0xC2"
abbreviation (input) KC_MS_UP :: "'a::len word" where "KC_MS_UP \<equiv> 0xCD"
abbreviation (input) KC_MS_ACCEL2 :: "'a::len word" where "KC_MS_ACCEL2 \<equiv> 0xDF"
abbreviation (input) KC_LEFT_CTRL :: "'a::len word" where "KC_LEFT_CTRL \<equiv> 0xE0"
abbreviation (input) KC_LEFT_SHIFT :: "'a::len word" where "KC_LEFT_SHIFT \<equiv> 0xE1"
abbreviation (input) KC_LEFT_ALT :: "'a::len word" where "KC_LEFT_ALT \<equiv> 0xE2"
abbreviation (input) KC_LEFT_GUI :: "'a::len word" where "KC_LEFT_GUI \<equiv> 0xE3"
abbreviation (input) KC_RIGHT_CTRL :: "'a::len word" where "KC_RIGHT_CTRL \<equiv> 0xE4"
abbreviation (input) KC_RIGHT_SHIFT :: "'a::len word" where "KC_RIGHT_SHIFT \<equiv> 0xE5"
abbreviation (input) KC_RIGHT_ALT :: "'a::len word" where "KC_RIGHT_ALT \<equiv> 0xE6"
abbreviation (input) KC_RIGHT_GUI :: "'a::len word" where "KC_RIGHT_GUI \<equiv> 0xE7"

definition IS_BASIC_KEYCODE :: "'a::len word \<Rightarrow> bool" where
  "IS_BASIC_KEYCODE code \<longleftrightarrow> KC_A \<le> code \<and> code \<le> KC_EXSEL"
definition IS_SYSTEM_KEYCODE :: "'a::len word \<Rightarrow> bool" where
  "IS_SYSTEM_KEYCODE code \<longleftrightarrow> KC_SYSTEM_POWER \<le> code \<and> code \<le> KC_SYSTEM_WAKE"
definition IS_CONSUMER_KEYCODE :: "'a::len word \<Rightarrow> bool" where
  "IS_CONSUMER_KEYCODE code \<longleftrightarrow> KC_AUDIO_MUTE \<le> code \<and> code \<le> KC_LAUNCHPAD"
definition IS_MOUSE_KEYCODE :: "'a::len word \<Rightarrow> bool" where
  "IS_MOUSE_KEYCODE code \<longleftrightarrow> KC_MS_UP \<le> code \<and> code \<le> KC_MS_ACCEL2"
definition IS_MODIFIER_KEYCODE :: "'a::len word \<Rightarrow> bool" where
  "IS_MODIFIER_KEYCODE code \<longleftrightarrow> KC_LEFT_CTRL \<le> code \<and> code \<le> KC_RIGHT_GUI"

lemmas keycode_ranges =
  IS_BASIC_KEYCODE_def IS_SYSTEM_KEYCODE_def IS_CONSUMER_KEYCODE_def IS_MOUSE_KEYCODE_def IS_MODIFIER_KEYCODE_def

subsection \<open>Quantum keycodes\<close>

abbreviation (input) QK_MODS :: uint16 where "QK_MODS \<equiv> 0x0100"
abbreviation (input) QK_MODS_MAX :: uint16 where "QK_MODS_MAX \<equiv> 0x1FFF"
abbreviation (input) QK_MOD_TAP :: uint16 where "QK_MOD_TAP \<equiv> 0x2000"
abbreviation (input) QK_MOD_TAP_MAX :: uint16 where "QK_MOD_TAP_MAX \<equiv> 0x3FFF"
abbreviation (input) QK_LAYER_TAP :: uint16 where "QK_LAYER_TAP \<equiv> 0x4000"
abbreviation (input) QK_LAYER_TAP_MAX :: uint16 where "QK_LAYER_TAP_MAX \<equiv> 0x4FFF"
abbreviation (input) QK_LAYER_MOD :: uint16 where "QK_LAYER_MOD \<equiv> 0x5000"
abbreviation (input) QK_LAYER_MOD_MAX :: uint16 where "QK_LAYER_MOD_MAX \<equiv> 0x51FF"
abbreviation (input) QK_TO :: uint16 where "QK_TO \<equiv> 0x5200"
abbreviation (input) QK_TO_MAX :: uint16 where "QK_TO_MAX \<equiv> 0x521F"
abbreviation (input) QK_MOMENTARY :: uint16 where "QK_MOMENTARY \<equiv> 0x5220"
abbreviation (input) QK_MOMENTARY_MAX :: uint16 where "QK_MOMENTARY_MAX \<equiv> 0x523F"
abbreviation (input) QK_DEF_LAYER :: uint16 where "QK_DEF_LAYER \<equiv> 0x5240"
abbreviation (input) QK_DEF_LAYER_MAX :: uint16 where "QK_DEF_LAYER_MAX \<equiv> 0x525F"
abbreviation (input) QK_TOGGLE_LAYER :: uint16 where "QK_TOGGLE_LAYER \<equiv> 0x5260"
abbreviation (input) QK_TOGGLE_LAYER_MAX :: uint16 where "QK_TOGGLE_LAYER_MAX \<equiv> 0x527F"
abbreviation (input) QK_ONE_SHOT_LAYER :: uint16 where "QK_ONE_SHOT_LAYER \<equiv> 0x5280"
abbreviation (input) QK_ONE_SHOT_LAYER_MAX :: uint16 where "QK_ONE_SHOT_LAYER_MAX \<equiv> 0x529F"
abbreviation (input) QK_TRI_LAYER_LOWER :: uint16 where "QK_TRI_LAYER_LOWER \<equiv> 0x7C77"
abbreviation (input) QK_TRI_LAYER_UPPER :: uint16 where "QK_TRI_LAYER_UPPER \<equiv> 0x7C78"
abbreviation (input) QK_ONE_SHOT_MOD :: uint16 where "QK_ONE_SHOT_MOD \<equiv> 0x52A0"
abbreviation (input) QK_ONE_SHOT_MOD_MAX :: uint16 where "QK_ONE_SHOT_MOD_MAX \<equiv> 0x52BF"
abbreviation (input) QK_LAYER_TAP_TOGGLE :: uint16 where "QK_LAYER_TAP_TOGGLE \<equiv> 0x52C0"
abbreviation (input) QK_LAYER_TAP_TOGGLE_MAX :: uint16 where "QK_LAYER_TAP_TOGGLE_MAX \<equiv> 0x52DF"
abbreviation (input) QK_SWAP_HANDS :: uint16 where "QK_SWAP_HANDS \<equiv> 0x5600"
abbreviation (input) QK_SWAP_HANDS_MAX :: uint16 where "QK_SWAP_HANDS_MAX \<equiv> 0x56FF"
abbreviation (input) QK_SWAP_HANDS_TOGGLE :: uint16 where "QK_SWAP_HANDS_TOGGLE \<equiv> 0x56F0"
abbreviation (input) QK_SWAP_HANDS_ONE_SHOT :: uint16 where "QK_SWAP_HANDS_ONE_SHOT \<equiv> 0x56F6"
abbreviation (input) QK_BOOTLOADER :: uint16 where "QK_BOOTLOADER \<equiv> 0x7C00"
abbreviation (input) QK_REBOOT :: uint16 where "QK_REBOOT \<equiv> 0x7C01"
abbreviation (input) QK_DEBUG_TOGGLE :: uint16 where "QK_DEBUG_TOGGLE \<equiv> 0x7C02"
abbreviation (input) QK_CLEAR_EEPROM :: uint16 where "QK_CLEAR_EEPROM \<equiv> 0x7C03"
abbreviation (input) QK_ONE_SHOT_ON :: uint16 where "QK_ONE_SHOT_ON \<equiv> 0x7C5A"
abbreviation (input) QK_ONE_SHOT_OFF :: uint16 where "QK_ONE_SHOT_OFF \<equiv> 0x7C5B"
abbreviation (input) QK_ONE_SHOT_TOGGLE :: uint16 where "QK_ONE_SHOT_TOGGLE \<equiv> 0x7C5C"

definition IS_QK_MOD_TAP :: "uint16 \<Rightarrow> bool" where
  "IS_QK_MOD_TAP code \<longleftrightarrow> QK_MOD_TAP \<le> code \<and> code \<le> QK_MOD_TAP_MAX"
definition IS_QK_LAYER_TAP :: "uint16 \<Rightarrow> bool" where
  "IS_QK_LAYER_TAP code \<longleftrightarrow> QK_LAYER_TAP \<le> code \<and> code \<le> QK_LAYER_TAP_MAX"
definition IS_SWAP_HANDS_KEYCODE :: "uint16 \<Rightarrow> bool" where
  "IS_SWAP_HANDS_KEYCODE code \<longleftrightarrow> QK_SWAP_HANDS_TOGGLE \<le> code \<and> code \<le> QK_SWAP_HANDS_ONE_SHOT"

text \<open>
  The fields of a keycode: \<open>low5\<close> is \<open>kc & 0x1F\<close> (layer or modifiers), \<open>low8\<close> is \<open>kc & 0xFF\<close>
  (a basic keycode), \<open>mods5\<close> is \<open>(kc >> 8) & 0x1F\<close>.
\<close>

definition low5 :: "uint16 \<Rightarrow> uint8" where "low5 kc = ucast (kc AND 0x1F)"
definition low8 :: "uint16 \<Rightarrow> uint8" where "low8 kc = ucast (kc AND 0xFF)"
definition mods5 :: "uint16 \<Rightarrow> uint8" where "mods5 kc = ucast (drop_bit 8 kc AND 0x1F)"
definition QK_LAYER_TAP_GET_LAYER :: "uint16 \<Rightarrow> uint8" where "QK_LAYER_TAP_GET_LAYER kc = ucast (drop_bit 8 kc AND 0xF)"
definition QK_LAYER_MOD_GET_LAYER :: "uint16 \<Rightarrow> uint8" where "QK_LAYER_MOD_GET_LAYER kc = ucast (drop_bit 5 kc AND 0xF)"

subsection \<open>Modifiers\<close>

text \<open>Five packed bits (a right-hand flag and Control, Shift, Alt, Gui), and eight bits in a report.\<close>

abbreviation (input) MOD_LCTL :: uint8 where "MOD_LCTL \<equiv> 0x01"
abbreviation (input) MOD_LALT :: uint8 where "MOD_LALT \<equiv> 0x04"
abbreviation (input) MOD_LGUI :: uint8 where "MOD_LGUI \<equiv> 0x08"
abbreviation (input) MOD_RCTL :: uint8 where "MOD_RCTL \<equiv> 0x11"
abbreviation (input) MOD_RALT :: uint8 where "MOD_RALT \<equiv> 0x14"
abbreviation (input) MOD_RGUI :: uint8 where "MOD_RGUI \<equiv> 0x18"
abbreviation (input) MOD_BIT_LALT :: uint8 where "MOD_BIT_LALT \<equiv> 0x04"
abbreviation (input) MOD_MASK_CG :: uint8 where "MOD_MASK_CG \<equiv> 0x99"

definition MOD_BIT :: "uint8 \<Rightarrow> uint8" where "MOD_BIT code = shl1 (unat (code AND 7))"

subsection \<open>Remapping\<close>

record keymap_config_t =
  swap_control_capslock :: bool
  capslock_to_control :: bool
  swap_lalt_lgui :: bool
  swap_ralt_rgui :: bool
  no_gui :: bool
  swap_grave_esc :: bool
  swap_backslash_backspace :: bool
  nkro :: bool
  swap_lctl_lgui :: bool
  swap_rctl_rgui :: bool
  oneshot_enable :: bool
  swap_escape_capslock :: bool
  autocorrect_enable :: bool

text \<open>Nothing remapped, six-key rollover, one-shot keys on.\<close>

definition plain_config :: keymap_config_t where
  "plain_config = \<lparr>swap_control_capslock = False, capslock_to_control = False, swap_lalt_lgui = False, swap_ralt_rgui = False,
     no_gui = False, swap_grave_esc = False, swap_backslash_backspace = False, nkro = False, swap_lctl_lgui = False,
     swap_rctl_rgui = False, oneshot_enable = True, swap_escape_capslock = False, autocorrect_enable = False\<rparr>"

definition keycode_config :: "keymap_config_t \<Rightarrow> uint16 \<Rightarrow> uint16" where
  "keycode_config cfg keycode =
     (if keycode = KC_CAPS_LOCK \<or> keycode = KC_LOCKING_CAPS_LOCK then
        (if swap_control_capslock cfg \<or> capslock_to_control cfg then KC_LEFT_CTRL
         else if swap_escape_capslock cfg then KC_ESCAPE else keycode)
      else if keycode = KC_LEFT_CTRL then
        (if swap_control_capslock cfg then KC_CAPS_LOCK
         else if swap_lctl_lgui cfg then (if no_gui cfg then KC_NO else KC_LEFT_GUI) else KC_LEFT_CTRL)
      else if keycode = KC_LEFT_ALT then
        (if swap_lalt_lgui cfg then (if no_gui cfg then KC_NO else KC_LEFT_GUI) else KC_LEFT_ALT)
      else if keycode = KC_LEFT_GUI then
        (if swap_lalt_lgui cfg then KC_LEFT_ALT else if swap_lctl_lgui cfg then KC_LEFT_CTRL
         else if no_gui cfg then KC_NO else KC_LEFT_GUI)
      else if keycode = KC_RIGHT_CTRL then
        (if swap_rctl_rgui cfg then (if no_gui cfg then KC_NO else KC_RIGHT_GUI) else KC_RIGHT_CTRL)
      else if keycode = KC_RIGHT_ALT then
        (if swap_ralt_rgui cfg then (if no_gui cfg then KC_NO else KC_RIGHT_GUI) else KC_RIGHT_ALT)
      else if keycode = KC_RIGHT_GUI then
        (if swap_ralt_rgui cfg then KC_RIGHT_ALT else if swap_rctl_rgui cfg then KC_RIGHT_CTRL
         else if no_gui cfg then KC_NO else KC_RIGHT_GUI)
      else if keycode = KC_GRAVE then (if swap_grave_esc cfg then KC_ESCAPE else KC_GRAVE)
      else if keycode = KC_ESCAPE then
        (if swap_grave_esc cfg then KC_GRAVE else if swap_escape_capslock cfg then KC_CAPS_LOCK else KC_ESCAPE)
      else if keycode = KC_BACKSLASH then (if swap_backslash_backspace cfg then KC_BACKSPACE else KC_BACKSLASH)
      else if keycode = KC_BACKSPACE then (if swap_backslash_backspace cfg then KC_BACKSLASH else KC_BACKSPACE)
      else keycode)"

definition mod_config :: "keymap_config_t \<Rightarrow> uint8 \<Rightarrow> uint8" where
  "mod_config cfg m =
     (let m = (if swap_lalt_lgui cfg \<and> ((m AND MOD_RALT = MOD_LALT) \<noteq> (m AND MOD_RGUI = MOD_LGUI))
                 then m XOR (MOD_LALT OR MOD_LGUI) else m);
          m = (if swap_ralt_rgui cfg \<and> ((m AND MOD_RALT = MOD_RALT) \<noteq> (m AND MOD_RGUI = MOD_RGUI))
                 then m XOR (MOD_LALT OR MOD_LGUI) else m);
          m = (if swap_lctl_lgui cfg \<and> ((m AND MOD_RCTL = MOD_LCTL) \<noteq> (m AND MOD_RGUI = MOD_LGUI))
                 then m XOR (MOD_LCTL OR MOD_LGUI) else m);
          m = (if swap_rctl_rgui cfg \<and> ((m AND MOD_RCTL = MOD_RCTL) \<noteq> (m AND MOD_RGUI = MOD_RGUI))
                 then m XOR (MOD_LCTL OR MOD_LGUI) else m)
      in if no_gui cfg then m AND NOT MOD_LGUI AND NOT MOD_RGUI else m)"

end
