(* ===== verification/Report.thy ===== *)
theory Report
  imports Bitwise Keycodes
begin

text \<open>
  The keyboard report: which keys are down, as the host is told. \<^verbatim>\<open>tmk_core/protocol/report.c\<close> keeps a
  six-key array (\<open>keyboard_report->keys\<close>) and, for N-key rollover, a bitmap (\<open>nkro_report->bits\<close>), and
  uses the bitmap when \<open>keyboard_protocol && keymap_config.nkro\<close>. The plain array variant of the six-key
  report is modelled (\<open>RING_BUFFERED_6KRO_REPORT_ENABLE\<close> is off by default). Both keep one contract,
  the locale \<open>key_report\<close>.
\<close>

subsection \<open>Constants and state\<close>

definition KEYBOARD_REPORT_KEYS :: nat where "KEYBOARD_REPORT_KEYS = 6"
definition NKRO_REPORT_BITS :: nat where "NKRO_REPORT_BITS = 30"

text \<open>The report is the first part of the state of the action code, which extends it.\<close>

record report_state =
  keys :: "uint8 list"
  bits :: "uint8 list"
  keyboard_protocol :: bool
  keymap_config :: keymap_config_t

definition use_nkro :: "'z report_state_scheme \<Rightarrow> bool" where
  "use_nkro s \<longleftrightarrow> keyboard_protocol s \<and> nkro (keymap_config s)"

subsection \<open>The six-key array\<close>

text \<open>The search loop of \<open>add_key_byte\<close>: whether the code was found, and the first empty slot.\<close>

fun find_code :: "uint8 \<Rightarrow> nat \<Rightarrow> nat option \<Rightarrow> uint8 list \<Rightarrow> bool \<times> nat option" where
  "find_code code i slot [] = (False, slot)"
| "find_code code i slot (k # ks) =
     (if k = code then (True, slot)
      else find_code code (i + 1) (if slot = None \<and> k = 0 then Some i else slot) ks)"

definition add_key_byte :: "uint8 \<Rightarrow> uint8 list \<Rightarrow> uint8 list" where
  "add_key_byte code ks =
     (case find_code code 0 None ks of
        (True, _) \<Rightarrow> ks
      | (False, None) \<Rightarrow> ks
      | (False, Some slot) \<Rightarrow> ks[slot := code])"

definition del_key_byte :: "uint8 \<Rightarrow> uint8 list \<Rightarrow> uint8 list" where
  "del_key_byte code ks = fold (\<lambda>i ks. if ks ! i = code then ks[i := 0] else ks) [0..<KEYBOARD_REPORT_KEYS] ks"

subsection \<open>The bitmap\<close>

definition add_key_bit :: "uint8 \<Rightarrow> uint8 list \<Rightarrow> uint8 list" where
  "add_key_bit code bs =
     (let i = unat (drop_bit 3 code)
      in if i < NKRO_REPORT_BITS then bs[i := bs ! i OR shl1 (unat (code AND 7))] else bs)"

definition del_key_bit :: "uint8 \<Rightarrow> uint8 list \<Rightarrow> uint8 list" where
  "del_key_bit code bs =
     (let i = unat (drop_bit 3 code)
      in if i < NKRO_REPORT_BITS then bs[i := bs ! i AND NOT (shl1 (unat (code AND 7)))] else bs)"

subsection \<open>The report\<close>

definition has_anykey :: "'z report_state_scheme \<Rightarrow> uint8" where
  "has_anykey s = fold (\<lambda>p cnt. if p \<noteq> 0 then cnt + 1 else cnt) (if use_nkro s then bits s else keys s) 0"

text \<open>
  With an empty bitmap the loop runs to \<open>NKRO_REPORT_BITS\<close> and the code reads the byte behind the
  array, here \<open>junk\<close>.
\<close>

fun first_nonzero :: "uint8 list \<Rightarrow> nat" where
  "first_nonzero [] = 0"
| "first_nonzero (b # bs) = (if b \<noteq> 0 then 0 else Suc (first_nonzero bs))"

definition get_first_key :: "uint8 \<Rightarrow> 'z report_state_scheme \<Rightarrow> uint8" where
  "get_first_key junk s =
     (if use_nkro s
      then let i = first_nonzero (bits s)
           in push_bit 3 (of_nat i) OR biton (if i < NKRO_REPORT_BITS then bits s ! i else junk)
      else keys s ! 0)"

definition is_key_pressed :: "uint8 \<Rightarrow> 'z report_state_scheme \<Rightarrow> bool" where
  "is_key_pressed key s =
     (if key = KC_NO then False
      else if use_nkro s
      then (if unat (drop_bit 3 key) < NKRO_REPORT_BITS
            then test_mask (bits s ! unat (drop_bit 3 key)) (unat (key AND 7)) else False)
      else list_ex (\<lambda>k. k = key) (take KEYBOARD_REPORT_KEYS (keys s)))"

definition add_key_to_report :: "uint8 \<Rightarrow> 'z report_state_scheme \<Rightarrow> 'z report_state_scheme" where
  "add_key_to_report key s =
     (if use_nkro s then s\<lparr>bits := add_key_bit key (bits s)\<rparr> else s\<lparr>keys := add_key_byte key (keys s)\<rparr>)"

definition del_key_from_report :: "uint8 \<Rightarrow> 'z report_state_scheme \<Rightarrow> 'z report_state_scheme" where
  "del_key_from_report key s =
     (if use_nkro s then s\<lparr>bits := del_key_bit key (bits s)\<rparr> else s\<lparr>keys := del_key_byte key (keys s)\<rparr>)"

definition clear_keys_from_report :: "'z report_state_scheme \<Rightarrow> 'z report_state_scheme" where
  "clear_keys_from_report s =
     (if use_nkro s then s\<lparr>bits := replicate (length (bits s)) 0\<rparr> else s\<lparr>keys := replicate (length (keys s)) 0\<rparr>)"

subsection \<open>The contract of a report\<close>

text \<open>\<open>accepts r k\<close>: the report has room for \<open>k\<close>.\<close>

locale key_report =
  fixes pressed :: "'r \<Rightarrow> uint8 \<Rightarrow> bool"
    and add del :: "uint8 \<Rightarrow> 'r \<Rightarrow> 'r"
    and clear :: "'r \<Rightarrow> 'r"
    and accepts :: "'r \<Rightarrow> uint8 \<Rightarrow> bool"
    and inv :: "'r \<Rightarrow> bool"
  assumes inv_ops: "inv r \<Longrightarrow> inv (add k r)" "inv r \<Longrightarrow> inv (del k r)" "inv r \<Longrightarrow> inv (clear r)"
    and pressed_add: "inv r \<Longrightarrow> k \<noteq> 0 \<Longrightarrow> pressed (add k r) j \<longleftrightarrow> pressed r j \<or> (j = k \<and> accepts r k)"
    and pressed_del: "inv r \<Longrightarrow> k \<noteq> 0 \<Longrightarrow> pressed (del k r) j \<longleftrightarrow> pressed r j \<and> j \<noteq> k"
    and pressed_clear: "inv r \<Longrightarrow> \<not> pressed (clear r) j"
    and pressed_accepted: "inv r \<Longrightarrow> pressed r k \<Longrightarrow> accepts r k"
begin

text \<open>A stream of key events: down and up.\<close>

fun events :: "(bool \<times> uint8) list \<Rightarrow> 'r \<Rightarrow> 'r" where
  "events [] r = r"
| "events ((down, k) # es) r = events es (if down then add k r else del k r)"

lemma events_inv: "inv r \<Longrightarrow> inv (events es r)"
  by (induction es r rule: events.induct) (auto simp: inv_ops)

text \<open>No stuck keys: a key whose last event is its release is not in the report.\<close>

lemma events_append: "events (xs @ ys) r = events ys (events xs r)"
  by (induction xs r rule: events.induct) auto

lemma not_pressed_stays:
  "inv r \<Longrightarrow> \<not> pressed r k \<Longrightarrow> \<forall>(down, j)\<in>set es. j \<noteq> 0 \<and> (down \<longrightarrow> j \<noteq> k) \<Longrightarrow> \<not> pressed (events es r) k"
proof (induction es r rule: events.induct)
  case (2 down j es r)
  then show ?case by (auto simp: inv_ops pressed_add pressed_del)
qed simp

lemma released_not_pressed:
  assumes "inv r" "k \<noteq> 0" "\<forall>(down, j)\<in>set es. j \<noteq> 0 \<and> (down \<longrightarrow> j \<noteq> k)"
  shows "\<not> pressed (events ((False, k) # es) r) k"
  using assms not_pressed_stays [of "del k r" k es] by (simp add: inv_ops pressed_del)

text \<open>Pressing and releasing a key that was up leaves the set of keys that are down as it was.\<close>

lemma press_release: "inv r \<Longrightarrow> k \<noteq> 0 \<Longrightarrow> \<not> pressed r k \<Longrightarrow> pressed (del k (add k r)) j \<longleftrightarrow> pressed r j"
  by (auto simp: inv_ops pressed_add pressed_del)

text \<open>Two keys that both fit can be pressed in either order.\<close>

lemma press_twice:
  "inv r \<Longrightarrow> k \<noteq> 0 \<Longrightarrow> i \<noteq> 0 \<Longrightarrow> accepts (add k r) i \<Longrightarrow> accepts (add i r) k \<Longrightarrow> accepts r i \<Longrightarrow> accepts r k \<Longrightarrow>
   pressed (add i (add k r)) j \<longleftrightarrow> pressed (add k (add i r)) j"
  by (auto simp: inv_ops pressed_add)

end

subsection \<open>The six-key array keeps the contract\<close>

lemma find_code_found: "fst (find_code code i slot ks) \<longleftrightarrow> code \<in> set ks"
  by (induction code i slot ks rule: find_code.induct) auto

lemma find_code_empty:
  "code \<notin> set ks \<Longrightarrow> snd (find_code code i slot ks) =
   (case slot of Some e \<Rightarrow> Some e | None \<Rightarrow> if 0 \<in> set ks then Some (i + (LEAST j. j < length ks \<and> ks ! j = 0)) else None)"
proof (induction code i slot ks rule: find_code.induct)
  case (2 code i slot k ks)
  show ?case
  proof (cases "slot = None \<and> k = 0")
    case True
    then have "(LEAST j. j < length (k # ks) \<and> (k # ks) ! j = 0) = 0" by (intro Least_equality) auto
    with True 2 show ?thesis by auto
  next
    case False
    then show ?thesis
    proof (cases "slot = None \<and> 0 \<in> set ks")
      case True
      then have "k \<noteq> 0" using False by simp
      obtain m where "m < length ks" "ks ! m = 0" using True by (auto simp: in_set_conv_nth)
      then have "(LEAST j. j < length (k # ks) \<and> (k # ks) ! j = 0) = Suc (LEAST j. j < length ks \<and> ks ! j = 0)"
        using Least_Suc [of "\<lambda>j. j < length (k # ks) \<and> (k # ks) ! j = 0" "Suc m"] \<open>k \<noteq> 0\<close> by simp
      with True False 2 show ?thesis by auto
    qed (use False 2 in \<open>auto split: option.splits\<close>)
  qed
qed (auto split: option.splits)

lemma add_key_byte_cases:
  assumes "code \<noteq> 0"
  shows "(code \<in> set ks \<or> 0 \<notin> set ks) \<and> add_key_byte code ks = ks
    \<or> code \<notin> set ks \<and> (\<exists>i<length ks. ks ! i = 0 \<and> add_key_byte code ks = ks[i := code])"
proof (cases "code \<in> set ks \<or> 0 \<notin> set ks")
  case True
  then show ?thesis
    using find_code_found [of code 0 None ks] find_code_empty [of code ks 0 None]
    by (auto simp: add_key_byte_def split: prod.splits bool.splits option.splits)
next
  case False
  let ?i = "LEAST j. j < length ks \<and> ks ! j = 0"
  have "\<exists>j. j < length ks \<and> ks ! j = 0" using False by (auto simp: in_set_conv_nth)
  then have i: "?i < length ks \<and> ks ! ?i = 0" by (rule LeastI_ex)
  have "find_code code 0 None ks = (False, Some ?i)"
    using find_code_found [of code 0 None ks] find_code_empty [of code ks 0 None] False by (simp add: prod_eq_iff)
  then have "add_key_byte code ks = ks[?i := code]" by (simp add: add_key_byte_def)
  with i False show ?thesis by auto
qed

lemma set_update_zero:
  "i < length ks \<Longrightarrow> ks ! i = 0 \<Longrightarrow> j \<noteq> 0 \<Longrightarrow> j \<in> set (ks[i := k]) \<longleftrightarrow> j \<in> set ks \<or> j = (k :: uint8)"
  by (auto simp: in_set_conv_nth nth_list_update)

lemma del_key_byte_map: "length ks = KEYBOARD_REPORT_KEYS \<Longrightarrow> del_key_byte code ks = map (\<lambda>k. if k = code then 0 else k) ks"
  by (auto simp: del_key_byte_def KEYBOARD_REPORT_KEYS_def eval_nat_numeral length_Suc_conv upt_rec)

interpretation report_6kro: key_report "\<lambda>ks k. k \<noteq> 0 \<and> k \<in> set ks" add_key_byte del_key_byte
  "\<lambda>ks. replicate (length ks) 0" "\<lambda>ks k. k \<in> set ks \<or> 0 \<in> set ks" "\<lambda>ks. length ks = KEYBOARD_REPORT_KEYS"
proof unfold_locales
  fix ks :: "uint8 list" and k j :: uint8
  assume len: "length ks = KEYBOARD_REPORT_KEYS"
  show "length (del_key_byte k ks) = KEYBOARD_REPORT_KEYS" using len by (simp add: del_key_byte_map)
  show "length (add_key_byte k ks) = KEYBOARD_REPORT_KEYS"
    using len by (auto simp: add_key_byte_def split: prod.splits bool.splits option.splits)
  show "j \<noteq> 0 \<and> j \<in> set (add_key_byte k ks) \<longleftrightarrow> (j \<noteq> 0 \<and> j \<in> set ks) \<or> (j = k \<and> (k \<in> set ks \<or> 0 \<in> set ks))" if "k \<noteq> 0"
  proof -
    have "0 \<in> set ks" if "i < length ks" "ks ! i = 0" for i using that by (metis nth_mem)
    with add_key_byte_cases [OF that, of ks] that show ?thesis using set_update_zero [of _ ks j k] by auto
  qed
  show "j \<noteq> 0 \<and> j \<in> set (del_key_byte k ks) \<longleftrightarrow> (j \<noteq> 0 \<and> j \<in> set ks) \<and> j \<noteq> k" if "k \<noteq> 0"
    using len by (auto simp: del_key_byte_map)
qed auto

subsection \<open>The bitmap keeps the contract\<close>

definition bit_pressed :: "uint8 list \<Rightarrow> uint8 \<Rightarrow> bool" where
  "bit_pressed bs k \<longleftrightarrow> k \<noteq> 0 \<and> unat (drop_bit 3 k) < NKRO_REPORT_BITS \<and> bit (bs ! unat (drop_bit 3 k)) (unat (k AND 7))"

lemma code_split: "drop_bit 3 k = drop_bit 3 j \<Longrightarrow> k AND 7 = j AND 7 \<Longrightarrow> k = (j :: uint8)"
proof (rule bit_word_eqI)
  fix n assume n: "n < LENGTH(8)" and d: "drop_bit 3 k = drop_bit 3 j" and m: "k AND 7 = j AND 7"
  show "bit k n = bit j n"
  proof (cases "n < 3")
    case True
    have "bit (mask 3 :: uint8) n" using True n by (simp add: bit_mask_iff)
    then have "bit (7 :: uint8) n" by (simp add: mask_eq_exp_minus_1)
    then show ?thesis using arg_cong [where f = "\<lambda>w. bit w n", OF m] by (simp only: bit_and_iff simp_thms)
  next
    case False
    then show ?thesis using arg_cong [where f = "\<lambda>w. bit w (n - 3)", OF d] by (simp add: bit_drop_bit_eq)
  qed
qed

lemma low_bits_less: "unat ((k :: uint8) AND 7) < 8"
proof -
  have "k AND 7 \<le> 7" by (rule word_and_le1)
  then show ?thesis by (simp add: word_le_nat_alt)
qed

interpretation report_nkro: key_report bit_pressed add_key_bit del_key_bit "\<lambda>bs. replicate (length bs) 0"
  "\<lambda>bs k. k \<noteq> 0 \<and> unat (drop_bit 3 k) < NKRO_REPORT_BITS" "\<lambda>bs. length bs = NKRO_REPORT_BITS"
proof unfold_locales
  fix bs :: "uint8 list" and k j :: uint8
  assume len: "length bs = NKRO_REPORT_BITS"
  have same: "unat (drop_bit 3 j) = unat (drop_bit 3 k) \<and> unat (j AND 7) = unat (k AND 7) \<longleftrightarrow> j = k"
  proof
    assume "unat (drop_bit 3 j) = unat (drop_bit 3 k) \<and> unat (j AND 7) = unat (k AND 7)"
    then show "j = k" using code_split [of j k] by (simp add: word_unat_eq_iff)
  qed simp
  show "bit_pressed (add_key_bit k bs) j \<longleftrightarrow> bit_pressed bs j \<or> (j = k \<and> k \<noteq> 0 \<and> unat (drop_bit 3 k) < NKRO_REPORT_BITS)"
    if "k \<noteq> 0"
    using len same that low_bits_less [of k]
    by (auto simp: bit_pressed_def add_key_bit_def Let_def nth_list_update c_bits)
  show "bit_pressed (del_key_bit k bs) j \<longleftrightarrow> bit_pressed bs j \<and> j \<noteq> k" if "k \<noteq> 0"
    using len same that
    by (auto simp: bit_pressed_def del_key_bit_def Let_def nth_list_update c_bits)
  show "\<not> bit_pressed (replicate (length bs) 0) j" using len by (auto simp: bit_pressed_def)
qed (auto simp: add_key_bit_def del_key_bit_def Let_def bit_pressed_def)

subsection \<open>The report the firmware uses\<close>

definition report_ok :: "'z report_state_scheme \<Rightarrow> bool" where
  "report_ok s \<longleftrightarrow> length (keys s) = KEYBOARD_REPORT_KEYS \<and> length (bits s) = NKRO_REPORT_BITS"

definition has_room :: "'z report_state_scheme \<Rightarrow> uint8 \<Rightarrow> bool" where
  "has_room s k \<longleftrightarrow> (if use_nkro s then k \<noteq> 0 \<and> unat (drop_bit 3 k) < NKRO_REPORT_BITS else k \<in> set (keys s) \<or> 0 \<in> set (keys s))"

lemma is_key_pressed_report:
  "report_ok s \<Longrightarrow> is_key_pressed k s \<longleftrightarrow> (if use_nkro s then bit_pressed (bits s) k else k \<noteq> 0 \<and> k \<in> set (keys s))"
  by (auto simp: is_key_pressed_def report_ok_def bit_pressed_def KC_NO_def test_mask_iff list_ex_iff)

interpretation report: key_report "\<lambda>s k. is_key_pressed k s" add_key_to_report del_key_from_report clear_keys_from_report
  has_room report_ok
proof unfold_locales
  fix s :: "'a report_state_scheme" and k j :: uint8
  assume ok: "report_ok s"
  then have k6: "length (keys s) = KEYBOARD_REPORT_KEYS" and kn: "length (bits s) = NKRO_REPORT_BITS"
    by (auto simp: report_ok_def)
  show oks: "report_ok (add_key_to_report k s)" "report_ok (del_key_from_report k s)" "report_ok (clear_keys_from_report s)"
    using ok report_6kro.inv_ops [OF k6] report_nkro.inv_ops [OF kn]
    by (auto simp: report_ok_def add_key_to_report_def del_key_from_report_def clear_keys_from_report_def)
  have un: "use_nkro (add_key_to_report k s) = use_nkro s" "use_nkro (del_key_from_report k s) = use_nkro s"
    "use_nkro (clear_keys_from_report s) = use_nkro s"
    by (auto simp: use_nkro_def add_key_to_report_def del_key_from_report_def clear_keys_from_report_def)
  show "is_key_pressed j (add_key_to_report k s) \<longleftrightarrow> is_key_pressed j s \<or> (j = k \<and> has_room s k)" if "k \<noteq> 0"
    using report_6kro.pressed_add [OF k6 that, of j] report_nkro.pressed_add [OF kn that, of j] ok oks(1) un(1)
    by (simp add: is_key_pressed_report has_room_def) (simp add: add_key_to_report_def)
  show "is_key_pressed j (del_key_from_report k s) \<longleftrightarrow> is_key_pressed j s \<and> j \<noteq> k" if "k \<noteq> 0"
    using report_6kro.pressed_del [OF k6 that, of j] report_nkro.pressed_del [OF kn that, of j] ok oks(2) un(2)
    by (simp add: is_key_pressed_report) (simp add: del_key_from_report_def)
  show "\<not> is_key_pressed j (clear_keys_from_report s)"
    using report_6kro.pressed_clear [OF k6, of j] report_nkro.pressed_clear [OF kn, of j] oks(3) un(3)
    by (simp add: is_key_pressed_report) (simp add: clear_keys_from_report_def)
  show "is_key_pressed k s \<Longrightarrow> has_room s k"
    using ok by (auto simp: is_key_pressed_report has_room_def bit_pressed_def split: if_splits)
qed

text \<open>\<open>has_anykey\<close> is nonzero exactly if a byte of the report is.\<close>

lemma has_anykey_count:
  "has_anykey s = of_nat (length (filter (\<lambda>b. b \<noteq> 0) (if use_nkro s then bits s else keys s)))"
proof -
  have "fold (\<lambda>p cnt. if p \<noteq> 0 then cnt + 1 else cnt) xs n = (n :: uint8) + of_nat (length (filter (\<lambda>b. b \<noteq> 0) xs))"
    for xs :: "uint8 list" and n
    by (induction xs arbitrary: n) auto
  then show ?thesis by (simp add: has_anykey_def)
qed

lemma has_anykey_zero:
  assumes "report_ok s"
  shows "has_anykey s = 0 \<longleftrightarrow> (\<forall>b\<in>set (if use_nkro s then bits s else keys s). b = 0)"
proof -
  let ?xs = "if use_nkro s then bits s else keys s" and ?n = "length (filter (\<lambda>b. b \<noteq> 0) (if use_nkro s then bits s else keys s))"
  have "length ?xs < 256" using assms by (simp add: report_ok_def KEYBOARD_REPORT_KEYS_def NKRO_REPORT_BITS_def)
  then have "?n < 2 ^ LENGTH(8)" using le_less_trans [OF length_filter_le [of "\<lambda>b. b \<noteq> 0" ?xs]] by simp
  then have "unat (of_nat ?n :: uint8) = ?n" by (rule unat_of_nat_small)
  then have "(of_nat ?n :: uint8) = 0 \<longleftrightarrow> ?n = 0" by (simp only: word_unat_eq_iff unsigned_0)
  then have "has_anykey s = 0 \<longleftrightarrow> ?n = 0" by (simp only: has_anykey_count)
  then show ?thesis by (simp only: length_0_conv filter_empty_conv not_not)
qed

end
