(* ===== verification/Action_Code.thy ===== *)
theory Action_Code
  imports Keycodes
begin

text \<open>
  Action codes (\<^verbatim>\<open>quantum/action_code.h\<close>) and the translation of keycodes to actions
  (\<^verbatim>\<open>quantum/keymap_common.c\<close>). The union \<open>action_t\<close> is its 16-bit code; each bit field of its structs is
  a function of the code. The macros that build a code compute in \<open>int\<close> and are cut to 16 bits when
  assigned, which is word arithmetic.
\<close>

type_synonym action_t = uint16

subsection \<open>Fields of an action\<close>

definition kind_id :: "action_t \<Rightarrow> uint8" where "kind_id a = ucast (drop_bit 12 a)"
definition key_code :: "action_t \<Rightarrow> uint8" where "key_code a = ucast a"
definition key_mods :: "action_t \<Rightarrow> uint8" where "key_mods a = ucast (drop_bit 8 a AND 0xF)"
definition layer_bitop_bits :: "action_t \<Rightarrow> uint8" where "layer_bitop_bits a = ucast (a AND 0xF)"
definition layer_bitop_xbit :: "action_t \<Rightarrow> bool" where "layer_bitop_xbit a = bit a 4"
definition layer_bitop_part :: "action_t \<Rightarrow> uint8" where "layer_bitop_part a = ucast (drop_bit 5 a AND 7)"
definition layer_bitop_on :: "action_t \<Rightarrow> uint8" where "layer_bitop_on a = ucast (drop_bit 8 a AND 3)"
definition layer_bitop_op :: "action_t \<Rightarrow> uint8" where "layer_bitop_op a = ucast (drop_bit 10 a AND 3)"
definition layer_mods_mods :: "action_t \<Rightarrow> uint8" where "layer_mods_mods a = ucast a"
definition layer_mods_layer :: "action_t \<Rightarrow> uint8" where "layer_mods_layer a = ucast (drop_bit 8 a AND 0xF)"
definition layer_tap_code :: "action_t \<Rightarrow> uint8" where "layer_tap_code a = ucast a"
definition layer_tap_val :: "action_t \<Rightarrow> uint8" where "layer_tap_val a = ucast (drop_bit 8 a AND 0x1F)"
definition usage_code :: "action_t \<Rightarrow> uint16" where "usage_code a = a AND 0x3FF"
definition usage_page :: "action_t \<Rightarrow> uint8" where "usage_page a = ucast (drop_bit 10 a AND 3)"
definition swap_code :: "action_t \<Rightarrow> uint8" where "swap_code a = ucast a"

lemmas action_fields = kind_id_def key_code_def key_mods_def layer_bitop_bits_def layer_bitop_xbit_def layer_bitop_part_def
  layer_bitop_on_def layer_bitop_op_def layer_mods_mods_def layer_mods_layer_def layer_tap_code_def layer_tap_val_def
  usage_code_def usage_page_def swap_code_def

subsection \<open>Kinds and operation codes\<close>

abbreviation (input) ACT_LMODS :: uint8 where "ACT_LMODS \<equiv> 0"
abbreviation (input) ACT_RMODS :: uint8 where "ACT_RMODS \<equiv> 1"
abbreviation (input) ACT_LMODS_TAP :: uint8 where "ACT_LMODS_TAP \<equiv> 2"
abbreviation (input) ACT_RMODS_TAP :: uint8 where "ACT_RMODS_TAP \<equiv> 3"
abbreviation (input) ACT_USAGE :: uint8 where "ACT_USAGE \<equiv> 4"
abbreviation (input) ACT_MOUSEKEY :: uint8 where "ACT_MOUSEKEY \<equiv> 5"
abbreviation (input) ACT_SWAP_HANDS :: uint8 where "ACT_SWAP_HANDS \<equiv> 6"
abbreviation (input) ACT_LAYER :: uint8 where "ACT_LAYER \<equiv> 8"
abbreviation (input) ACT_LAYER_MODS :: uint8 where "ACT_LAYER_MODS \<equiv> 9"
abbreviation (input) ACT_LAYER_TAP :: uint8 where "ACT_LAYER_TAP \<equiv> 10"
abbreviation (input) ACT_LAYER_TAP_EXT :: uint8 where "ACT_LAYER_TAP_EXT \<equiv> 11"

abbreviation (input) MODS_ONESHOT :: uint8 where "MODS_ONESHOT \<equiv> 0"
abbreviation (input) MODS_TAP_TOGGLE :: uint8 where "MODS_TAP_TOGGLE \<equiv> 1"
abbreviation (input) PAGE_SYSTEM :: uint8 where "PAGE_SYSTEM \<equiv> 0"
abbreviation (input) PAGE_CONSUMER :: uint8 where "PAGE_CONSUMER \<equiv> 1"
abbreviation (input) ON_PRESS :: uint8 where "ON_PRESS \<equiv> 1"
abbreviation (input) ON_RELEASE :: uint8 where "ON_RELEASE \<equiv> 2"
abbreviation (input) OP_BIT_AND :: uint8 where "OP_BIT_AND \<equiv> 0"
abbreviation (input) OP_BIT_OR :: uint8 where "OP_BIT_OR \<equiv> 1"
abbreviation (input) OP_BIT_XOR :: uint8 where "OP_BIT_XOR \<equiv> 2"
abbreviation (input) OP_BIT_SET :: uint8 where "OP_BIT_SET \<equiv> 3"
abbreviation (input) OP_TAP_TOGGLE :: uint8 where "OP_TAP_TOGGLE \<equiv> 0xF0"
abbreviation (input) OP_ON_OFF :: uint8 where "OP_ON_OFF \<equiv> 0xF1"
abbreviation (input) OP_OFF_ON :: uint8 where "OP_OFF_ON \<equiv> 0xF2"
abbreviation (input) OP_SET_CLEAR :: uint8 where "OP_SET_CLEAR \<equiv> 0xF3"
abbreviation (input) OP_ONESHOT :: uint8 where "OP_ONESHOT \<equiv> 0xF4"
abbreviation (input) OP_SH_TOGGLE :: uint8 where "OP_SH_TOGGLE \<equiv> 0xF0"
abbreviation (input) OP_SH_TAP_TOGGLE :: uint8 where "OP_SH_TAP_TOGGLE \<equiv> 0xF1"
abbreviation (input) OP_SH_ON_OFF :: uint8 where "OP_SH_ON_OFF \<equiv> 0xF2"
abbreviation (input) OP_SH_OFF_ON :: uint8 where "OP_SH_OFF_ON \<equiv> 0xF3"
abbreviation (input) OP_SH_OFF :: uint8 where "OP_SH_OFF \<equiv> 0xF4"
abbreviation (input) OP_SH_ON :: uint8 where "OP_SH_ON \<equiv> 0xF5"
abbreviation (input) OP_SH_ONESHOT :: uint8 where "OP_SH_ONESHOT \<equiv> 0xF6"

subsection \<open>Building an action\<close>

abbreviation (input) ACTION_NO :: action_t where "ACTION_NO \<equiv> 0"
abbreviation (input) ACTION_TRANSPARENT :: action_t where "ACTION_TRANSPARENT \<equiv> 1"

definition ACTION :: "uint8 \<Rightarrow> uint16 \<Rightarrow> action_t" where "ACTION kind param = push_bit 12 (ucast kind) OR param"
definition ACTION_KEY :: "uint16 \<Rightarrow> action_t" where "ACTION_KEY k = ACTION ACT_LMODS k"
definition ACTION_MODS_KEY :: "uint8 \<Rightarrow> uint16 \<Rightarrow> action_t" where
  "ACTION_MODS_KEY mods k = ACTION ACT_LMODS (push_bit 8 (ucast mods AND 0x1F) OR k)"
definition ACTION_MODS_TAP_KEY :: "uint8 \<Rightarrow> uint16 \<Rightarrow> action_t" where
  "ACTION_MODS_TAP_KEY mods k = ACTION ACT_LMODS_TAP (push_bit 8 (ucast mods AND 0x1F) OR k)"
definition ACTION_MODS_ONESHOT :: "uint8 \<Rightarrow> action_t" where
  "ACTION_MODS_ONESHOT mods = ACTION ACT_LMODS_TAP (push_bit 8 (ucast mods AND 0x1F) OR ucast MODS_ONESHOT)"
definition ACTION_USAGE_SYSTEM :: "uint16 \<Rightarrow> action_t" where
  "ACTION_USAGE_SYSTEM i = ACTION ACT_USAGE (push_bit 10 (ucast PAGE_SYSTEM) OR i)"
definition ACTION_USAGE_CONSUMER :: "uint16 \<Rightarrow> action_t" where
  "ACTION_USAGE_CONSUMER i = ACTION ACT_USAGE (push_bit 10 (ucast PAGE_CONSUMER) OR i)"
definition ACTION_MOUSEKEY :: "uint16 \<Rightarrow> action_t" where "ACTION_MOUSEKEY k = ACTION ACT_MOUSEKEY k"
definition ACTION_LAYER_BITOP :: "uint8 \<Rightarrow> uint16 \<Rightarrow> uint16 \<Rightarrow> uint8 \<Rightarrow> action_t" where
  "ACTION_LAYER_BITOP oper part bs on =
     ACTION ACT_LAYER (push_bit 10 (ucast oper) OR push_bit 8 (ucast on) OR push_bit 5 part OR (bs AND 0x1F))"
definition ACTION_LAYER_TAP :: "uint8 \<Rightarrow> uint16 \<Rightarrow> action_t" where
  "ACTION_LAYER_TAP layer k = ACTION ACT_LAYER_TAP (push_bit 8 (ucast layer) OR k)"
definition ACTION_DEFAULT_LAYER_SET :: "uint8 \<Rightarrow> action_t" where
  "ACTION_DEFAULT_LAYER_SET layer = ACTION_LAYER_BITOP OP_BIT_SET (ucast layer div 4) (shl1 (unat (layer mod 4))) 0"
definition ACTION_LAYER_TOGGLE :: "uint8 \<Rightarrow> action_t" where
  "ACTION_LAYER_TOGGLE layer = ACTION_LAYER_BITOP OP_BIT_XOR (ucast layer div 4) (shl1 (unat (layer mod 4))) ON_RELEASE"
definition ACTION_LAYER_GOTO :: "uint8 \<Rightarrow> action_t" where
  "ACTION_LAYER_GOTO layer = ACTION_LAYER_BITOP OP_BIT_SET (ucast layer div 4) (shl1 (unat (layer mod 4))) ON_PRESS"
definition ACTION_LAYER_MOMENTARY :: "uint8 \<Rightarrow> action_t" where
  "ACTION_LAYER_MOMENTARY layer = ACTION_LAYER_TAP layer (ucast OP_ON_OFF)"
definition ACTION_LAYER_ONESHOT :: "uint8 \<Rightarrow> action_t" where
  "ACTION_LAYER_ONESHOT layer = ACTION_LAYER_TAP layer (ucast OP_ONESHOT)"
definition ACTION_LAYER_TAP_TOGGLE :: "uint8 \<Rightarrow> action_t" where
  "ACTION_LAYER_TAP_TOGGLE layer = ACTION_LAYER_TAP layer (ucast OP_TAP_TOGGLE)"
definition ACTION_LAYER_TAP_KEY :: "uint8 \<Rightarrow> uint16 \<Rightarrow> action_t" where
  "ACTION_LAYER_TAP_KEY layer k = ACTION_LAYER_TAP layer k"

text \<open>\<open>mods\<close> is an \<open>int\<close> here: for right-hand modifiers \<open>mod << 4\<close> has nine bits.\<close>

definition ACTION_LAYER_MODS :: "uint8 \<Rightarrow> uint16 \<Rightarrow> action_t" where
  "ACTION_LAYER_MODS layer mods = ACTION ACT_LAYER_MODS (push_bit 8 (ucast layer) OR mods)"

subsection \<open>System and consumer usages\<close>

definition KEYCODE2SYSTEM :: "uint8 \<Rightarrow> uint16" where
  "KEYCODE2SYSTEM k = (if k = KC_SYSTEM_POWER then 0x81 else if k = KC_SYSTEM_SLEEP then 0x82
     else if k = KC_SYSTEM_WAKE then 0x83 else 0)"

definition KEYCODE2CONSUMER :: "uint8 \<Rightarrow> uint16" where
  "KEYCODE2CONSUMER k = (case map_of
     [(KC_AUDIO_MUTE, 0x0E2), (KC_AUDIO_VOL_UP, 0x0E9), (KC_AUDIO_VOL_DOWN, 0x0EA), (KC_MEDIA_NEXT_TRACK, 0x0B5),
      (KC_MEDIA_PREV_TRACK, 0x0B6), (KC_MEDIA_FAST_FORWARD, 0x0B3), (KC_MEDIA_REWIND, 0x0B4), (KC_MEDIA_STOP, 0x0B7),
      (KC_MEDIA_EJECT, 0x0CC), (KC_MEDIA_PLAY_PAUSE, 0x0CD), (KC_MEDIA_SELECT, 0x183), (KC_MAIL, 0x18A),
      (KC_CALCULATOR, 0x192), (KC_MY_COMPUTER, 0x194), (KC_CONTROL_PANEL, 0x19F), (KC_ASSISTANT, 0x1CB),
      (KC_WWW_SEARCH, 0x221), (KC_WWW_HOME, 0x223), (KC_WWW_BACK, 0x224), (KC_WWW_FORWARD, 0x225), (KC_WWW_STOP, 0x226),
      (KC_WWW_REFRESH, 0x227), (KC_BRIGHTNESS_UP, 0x06F), (KC_BRIGHTNESS_DOWN, 0x070), (KC_WWW_FAVORITES, 0x22A),
      (KC_MISSION_CONTROL, 0x29F), (KC_LAUNCHPAD, 0x2A0)] k of Some u \<Rightarrow> u | None \<Rightarrow> 0)"

subsection \<open>From keycodes to actions\<close>

text \<open>
  The default build: layers, tapping, one-shot keys and extra keys on, legacy magic handling off.
  \<open>swap\<close> is \<open>SWAP_HANDS_ENABLE\<close>.
\<close>

definition action_for_keycode :: "bool \<Rightarrow> keymap_config_t \<Rightarrow> uint16 \<Rightarrow> action_t" where
  "action_for_keycode swap cfg kc =
     (let kc = keycode_config cfg kc; basic = keycode_config cfg (ucast (low8 kc)) in
      if IS_BASIC_KEYCODE kc \<or> IS_MODIFIER_KEYCODE kc then ACTION_KEY kc
      else if IS_SYSTEM_KEYCODE kc then ACTION_USAGE_SYSTEM (KEYCODE2SYSTEM (ucast kc))
      else if IS_CONSUMER_KEYCODE kc then ACTION_USAGE_CONSUMER (KEYCODE2CONSUMER (ucast kc))
      else if IS_MOUSE_KEYCODE kc then ACTION_MOUSEKEY kc
      else if kc = KC_TRANSPARENT then ACTION_TRANSPARENT
      else if QK_MODS \<le> kc \<and> kc \<le> QK_MODS_MAX then ACTION_MODS_KEY (mod_config cfg (mods5 kc)) basic
      else if QK_LAYER_TAP \<le> kc \<and> kc \<le> QK_LAYER_TAP_MAX then ACTION_LAYER_TAP_KEY (QK_LAYER_TAP_GET_LAYER kc) basic
      else if QK_TO \<le> kc \<and> kc \<le> QK_TO_MAX then ACTION_LAYER_GOTO (low5 kc)
      else if QK_MOMENTARY \<le> kc \<and> kc \<le> QK_MOMENTARY_MAX then ACTION_LAYER_MOMENTARY (low5 kc)
      else if QK_DEF_LAYER \<le> kc \<and> kc \<le> QK_DEF_LAYER_MAX then ACTION_DEFAULT_LAYER_SET (low5 kc)
      else if QK_TOGGLE_LAYER \<le> kc \<and> kc \<le> QK_TOGGLE_LAYER_MAX then ACTION_LAYER_TOGGLE (low5 kc)
      else if QK_ONE_SHOT_LAYER \<le> kc \<and> kc \<le> QK_ONE_SHOT_LAYER_MAX then ACTION_LAYER_ONESHOT (low5 kc)
      else if QK_ONE_SHOT_MOD \<le> kc \<and> kc \<le> QK_ONE_SHOT_MOD_MAX then ACTION_MODS_ONESHOT (mod_config cfg (low5 kc))
      else if QK_LAYER_TAP_TOGGLE \<le> kc \<and> kc \<le> QK_LAYER_TAP_TOGGLE_MAX then ACTION_LAYER_TAP_TOGGLE (low5 kc)
      else if QK_LAYER_MOD \<le> kc \<and> kc \<le> QK_LAYER_MOD_MAX then
        (let m = mod_config cfg (low5 kc)
         in ACTION_LAYER_MODS (QK_LAYER_MOD_GET_LAYER kc) (if m AND 0x10 \<noteq> 0 then push_bit 4 (ucast m) else ucast m))
      else if QK_MOD_TAP \<le> kc \<and> kc \<le> QK_MOD_TAP_MAX then ACTION_MODS_TAP_KEY (mod_config cfg (mods5 kc)) basic
      else if swap \<and> QK_SWAP_HANDS \<le> kc \<and> kc \<le> QK_SWAP_HANDS_MAX then ACTION ACT_SWAP_HANDS basic
      else ACTION_NO)"

subsection \<open>Fields of the actions that are built\<close>

lemma layer_tap_fields:
  "layer_tap_code (ACTION_LAYER_TAP l (ucast (k :: uint8))) = k"
  "layer_tap_val (ACTION_LAYER_TAP l (ucast (k :: uint8))) = l AND 0x1F"
  by (rule byte_eqI, elim disjE; simp add: ACTION_LAYER_TAP_def ACTION_def layer_tap_code_def layer_tap_val_def bit_simps)+

lemma layer_tap_kind:
  "kind_id (ACTION_LAYER_TAP l (ucast (k :: uint8))) = ACT_LAYER_TAP OR (drop_bit 4 l AND 0xF)"
  by (rule byte_eqI, elim disjE; simp add: ACTION_LAYER_TAP_def ACTION_def kind_id_def bit_simps)

lemma mods_tap_fields:
  "key_code (ACTION_MODS_TAP_KEY mods (ucast (k :: uint8))) = k"
  "key_mods (ACTION_MODS_TAP_KEY mods (ucast (k :: uint8))) = mods AND 0xF"
  "kind_id (ACTION_MODS_TAP_KEY mods (ucast (k :: uint8))) = ACT_LMODS_TAP OR (drop_bit 4 mods AND 1)"
  by (rule byte_eqI, elim disjE; simp add: ACTION_MODS_TAP_KEY_def ACTION_def action_fields bit_simps)+

text \<open>Right-hand modifiers of a layer-mod key overflow into the layer number.\<close>

lemma layer_mods_fields:
  "layer_mods_layer (ACTION_LAYER_MODS l (push_bit 4 (ucast (m :: uint8)))) = (l AND 0xF) OR drop_bit 4 m"
  "layer_mods_layer (ACTION_LAYER_MODS l (ucast (m :: uint8))) = l AND 0xF"
  "layer_mods_mods (ACTION_LAYER_MODS l (ucast (m :: uint8))) = m"
  by (rule byte_eqI, elim disjE; simp add: ACTION_LAYER_MODS_def ACTION_def action_fields bit_simps)+

lemma keycode_config_big: "0x100 \<le> kc \<Longrightarrow> keycode_config cfg kc = kc"
proof -
  assume "0x100 \<le> kc"
  then have ne: "c < 0x100 \<Longrightarrow> kc \<noteq> c" for c by auto
  show ?thesis by (simp add: keycode_config_def ne)
qed

text \<open>What decides the tests of \<open>action_for_keycode\<close> for a keycode of a given range.\<close>

lemma in_range:
  assumes "lo \<le> kc" "kc \<le> hi" "0x100 \<le> lo"
  shows "keycode_config cfg kc = kc" "c < lo \<Longrightarrow> \<not> kc \<le> c" "hi < c \<Longrightarrow> \<not> c \<le> kc" "kc \<noteq> 1"
proof -
  show "keycode_config cfg kc = kc" using assms by (intro keycode_config_big) simp
  show "kc \<noteq> 1" using assms by (auto simp: word_le_nat_alt)
qed (use assms in auto)

lemma action_for_layer_mod:
  assumes "QK_LAYER_MOD \<le> kc" "kc \<le> QK_LAYER_MOD_MAX"
  shows "action_for_keycode swap cfg kc =
    (let m = mod_config cfg (low5 kc)
     in ACTION_LAYER_MODS (QK_LAYER_MOD_GET_LAYER kc) (if m AND 0x10 \<noteq> 0 then push_bit 4 (ucast m) else ucast m))"
  using assms in_range [OF assms] by (simp add: action_for_keycode_def Let_def keycode_ranges)

lemma action_for_momentary:
  assumes "QK_MOMENTARY \<le> kc" "kc \<le> QK_MOMENTARY_MAX"
  shows "action_for_keycode swap cfg kc = ACTION_LAYER_MOMENTARY (low5 kc)"
  using assms in_range [OF assms] by (simp add: action_for_keycode_def Let_def keycode_ranges)

lemma action_for_oneshot_layer:
  assumes "QK_ONE_SHOT_LAYER \<le> kc" "kc \<le> QK_ONE_SHOT_LAYER_MAX"
  shows "action_for_keycode swap cfg kc = ACTION_LAYER_ONESHOT (low5 kc)"
  using assms in_range [OF assms] by (simp add: action_for_keycode_def Let_def keycode_ranges)

lemma action_for_layer_tap:
  assumes "QK_LAYER_TAP \<le> kc" "kc \<le> QK_LAYER_TAP_MAX"
  shows "action_for_keycode swap cfg kc = ACTION_LAYER_TAP_KEY (QK_LAYER_TAP_GET_LAYER kc) (keycode_config cfg (ucast (low8 kc)))"
  using assms in_range [OF assms] by (simp add: action_for_keycode_def Let_def keycode_ranges)

lemma action_for_mod_tap:
  assumes "QK_MOD_TAP \<le> kc" "kc \<le> QK_MOD_TAP_MAX"
  shows "action_for_keycode swap cfg kc =
    ACTION_MODS_TAP_KEY (mod_config cfg (mods5 kc)) (keycode_config cfg (ucast (low8 kc)))"
  using assms in_range [OF assms] by (simp add: action_for_keycode_def Let_def keycode_ranges)

text \<open>A remapped basic keycode is basic.\<close>

lemma keycode_config_basic: "keycode_config cfg (ucast (k :: uint8)) = ucast (low8 (keycode_config cfg (ucast k)))"
proof -
  have "low8 (ucast k) = k" by (rule byte_eqI, elim disjE; simp add: low8_def bit_simps)
  then show ?thesis by (auto simp: keycode_config_def KC_NO_def low8_def)
qed

text \<open>Disabling the GUI keys also drops the right-hand flag of the other modifiers.\<close>

lemma no_gui_drops_right: "no_gui cfg \<Longrightarrow> mod_config cfg m AND 0x10 = 0"
  by (rule byte_eqI, elim disjE; simp add: mod_config_def Let_def bit_simps)

subsection \<open>The keymap macros\<close>

text \<open>How a keymap names tap-hold and layer keys (\<^verbatim>\<open>quantum/quantum_keycodes.h\<close>).\<close>

definition TO :: "uint8 \<Rightarrow> uint16" where "TO layer = QK_TO OR (ucast layer AND 0x1F)"
definition MO :: "uint8 \<Rightarrow> uint16" where "MO layer = QK_MOMENTARY OR (ucast layer AND 0x1F)"
definition OSL :: "uint8 \<Rightarrow> uint16" where "OSL layer = QK_ONE_SHOT_LAYER OR (ucast layer AND 0x1F)"
definition OSM :: "uint8 \<Rightarrow> uint16" where "OSM m = QK_ONE_SHOT_MOD OR (ucast m AND 0x1F)"
definition LM :: "uint8 \<Rightarrow> uint8 \<Rightarrow> uint16" where
  "LM layer m = QK_LAYER_MOD OR push_bit 5 (ucast layer AND 0xF) OR (ucast m AND 0x1F)"
definition LT :: "uint8 \<Rightarrow> uint8 \<Rightarrow> uint16" where "LT layer kc = QK_LAYER_TAP OR push_bit 8 (ucast layer AND 0xF) OR ucast kc"
definition MT :: "uint8 \<Rightarrow> uint8 \<Rightarrow> uint16" where "MT m kc = QK_MOD_TAP OR push_bit 8 (ucast m AND 0x1F) OR ucast kc"

lemmas keymap_macros = TO_def MO_def OSL_def OSM_def LM_def LT_def MT_def

lemma macro_prefix:
  "drop_bit 12 (LT l k) = 4" "drop_bit 13 (MT m k) = 1" "drop_bit 9 (LM l m) = 0x28"
  "drop_bit 5 (MO l) = 0x291" "drop_bit 5 (OSL l) = 0x294" "drop_bit 5 (OSM m) = 0x295"
  by (rule half_eqI, elim disjE; simp add: keymap_macros bit_simps)+

lemma macro_fields:
  "low8 (LT l k) = k" "QK_LAYER_TAP_GET_LAYER (LT l k) = l AND 0xF"
  "low8 (MT m k) = k" "mods5 (MT m k) = m AND 0x1F"
  "low5 (LM l m) = m AND 0x1F" "QK_LAYER_MOD_GET_LAYER (LM l m) = l AND 0xF"
  "low5 (MO l) = l AND 0x1F" "low5 (OSL l) = l AND 0x1F" "low5 (OSM m) = m AND 0x1F"
  by (rule byte_eqI, elim disjE;
      simp add: keymap_macros low8_def low5_def mods5_def QK_LAYER_TAP_GET_LAYER_def QK_LAYER_MOD_GET_LAYER_def bit_simps)+

lemma macro_range:
  "QK_LAYER_TAP \<le> LT l k \<and> LT l k \<le> QK_LAYER_TAP_MAX" "QK_MOD_TAP \<le> MT m k \<and> MT m k \<le> QK_MOD_TAP_MAX"
  "QK_LAYER_MOD \<le> LM l m \<and> LM l m \<le> QK_LAYER_MOD_MAX" "QK_MOMENTARY \<le> MO l \<and> MO l \<le> QK_MOMENTARY_MAX"
  "QK_ONE_SHOT_LAYER \<le> OSL l \<and> OSL l \<le> QK_ONE_SHOT_LAYER_MAX"
  using prefix_range [OF macro_prefix(1), of l k] prefix_range [OF macro_prefix(2), of m k] prefix_range [OF macro_prefix(3), of l m]
    prefix_range [OF macro_prefix(4), of l] prefix_range [OF macro_prefix(5), of l]
  by (simp_all add: word_le_nat_alt)

text \<open>A key that the keymap names decodes to the action it stands for.\<close>

lemma layer_tap_decodes:
  fixes swap cfg l k
  defines "a \<equiv> action_for_keycode swap cfg (LT l k)"
  shows "kind_id a = ACT_LAYER_TAP" "layer_tap_val a = l AND 0xF"
    "layer_tap_code a = low8 (keycode_config cfg (ucast k))"
proof -
  let ?k = "low8 (keycode_config cfg (ucast k))"
  have a: "a = ACTION_LAYER_TAP (l AND 0xF) (ucast ?k)"
    using macro_range(1) [of l k] action_for_layer_tap [of "LT l k" swap cfg] keycode_config_basic [of cfg k]
    by (simp add: a_def macro_fields ACTION_LAYER_TAP_KEY_def)
  have "ACT_LAYER_TAP OR (drop_bit 4 (l AND 0xF) AND 0xF) = ACT_LAYER_TAP"
    by (rule byte_eqI, elim disjE; simp add: bit_simps)
  moreover have "(l AND 0xF) AND 0x1F = l AND 0xF" by (rule byte_eqI, elim disjE; simp add: bit_simps)
  ultimately show "kind_id a = ACT_LAYER_TAP" "layer_tap_val a = l AND 0xF" "layer_tap_code a = ?k"
    unfolding a layer_tap_kind layer_tap_fields by simp_all
qed

lemma mod_tap_decodes:
  fixes swap cfg m k
  defines "a \<equiv> action_for_keycode swap cfg (MT m k)"
  shows "kind_id a = ACT_LMODS_TAP OR (drop_bit 4 (mod_config cfg (m AND 0x1F)) AND 1)"
    "key_mods a = mod_config cfg (m AND 0x1F) AND 0xF" "key_code a = low8 (keycode_config cfg (ucast k))"
proof -
  have a: "a = ACTION_MODS_TAP_KEY (mod_config cfg (m AND 0x1F)) (ucast (low8 (keycode_config cfg (ucast k))))"
    using macro_range(2) [of m k] action_for_mod_tap [of "MT m k" swap cfg] keycode_config_basic [of cfg k]
    by (simp add: a_def macro_fields)
  show "kind_id a = ACT_LMODS_TAP OR (drop_bit 4 (mod_config cfg (m AND 0x1F)) AND 1)"
    "key_mods a = mod_config cfg (m AND 0x1F) AND 0xF" "key_code a = low8 (keycode_config cfg (ucast k))"
    unfolding a mods_tap_fields by simp_all
qed

lemma layer_key_decodes:
  "kind_id (action_for_keycode swap cfg (MO l)) = ACT_LAYER_TAP OR (drop_bit 4 l AND 1)"
  "layer_tap_val (action_for_keycode swap cfg (MO l)) = l AND 0x1F"
  "layer_tap_code (action_for_keycode swap cfg (MO l)) = OP_ON_OFF"
  "kind_id (action_for_keycode swap cfg (OSL l)) = ACT_LAYER_TAP OR (drop_bit 4 l AND 1)"
  "layer_tap_val (action_for_keycode swap cfg (OSL l)) = l AND 0x1F"
  "layer_tap_code (action_for_keycode swap cfg (OSL l)) = OP_ONESHOT"
proof -
  have m: "action_for_keycode swap cfg (MO l) = ACTION_LAYER_TAP (l AND 0x1F) (ucast OP_ON_OFF)"
    and o: "action_for_keycode swap cfg (OSL l) = ACTION_LAYER_TAP (l AND 0x1F) (ucast OP_ONESHOT)"
    using macro_range(4,5) [of l] action_for_momentary [of "MO l" swap cfg] action_for_oneshot_layer [of "OSL l" swap cfg]
    by (simp_all add: macro_fields ACTION_LAYER_MOMENTARY_def ACTION_LAYER_ONESHOT_def)
  have "ACT_LAYER_TAP OR (drop_bit 4 (l AND 0x1F) AND 0xF) = ACT_LAYER_TAP OR (drop_bit 4 l AND 1)"
    "(l AND 0x1F) AND 0x1F = l AND 0x1F"
    by (rule byte_eqI, elim disjE; simp add: bit_simps)+
  then show "kind_id (action_for_keycode swap cfg (MO l)) = ACT_LAYER_TAP OR (drop_bit 4 l AND 1)"
    "layer_tap_val (action_for_keycode swap cfg (MO l)) = l AND 0x1F"
    "layer_tap_code (action_for_keycode swap cfg (MO l)) = OP_ON_OFF"
    "kind_id (action_for_keycode swap cfg (OSL l)) = ACT_LAYER_TAP OR (drop_bit 4 l AND 1)"
    "layer_tap_val (action_for_keycode swap cfg (OSL l)) = l AND 0x1F"
    "layer_tap_code (action_for_keycode swap cfg (OSL l)) = OP_ONESHOT"
    unfolding m o layer_tap_kind layer_tap_fields by simp_all
qed

text \<open>A layer-mod key with a right-hand modifier turns on another layer: the flag is added to the layer number.\<close>

lemma layer_mod_decodes:
  assumes "mod_config cfg (m AND 0x1F) = m AND 0x1F"
  shows "layer_mods_layer (action_for_keycode swap cfg (LM l m)) = (l AND 0xF) OR (drop_bit 4 m AND 1)"
    "layer_mods_mods (action_for_keycode swap cfg (LM l m)) = (if bit m 4 then push_bit 4 m else m AND 0xF)"
proof -
  have f: "(m AND 0x1F) AND 0x10 \<noteq> 0 \<longleftrightarrow> bit m 4"
  proof -
    have "bit m 4 \<longleftrightarrow> bit ((m AND 0x1F) AND 0x10) 4" by (simp add: bit_simps)
    moreover have "(m AND 0x1F) AND 0x10 = 0 \<or> bit ((m AND 0x1F) AND 0x10) 4"
      by (cases "bit m 4"; simp add: bit_simps) (rule byte_eqI, elim disjE; simp add: bit_simps)
    ultimately show ?thesis by auto
  qed
  have a: "action_for_keycode swap cfg (LM l m) =
      ACTION_LAYER_MODS (l AND 0xF) (if bit m 4 then push_bit 4 (ucast (m AND 0x1F)) else ucast (m AND 0x1F))"
    using macro_range(3) [of l m] action_for_layer_mod [of "LM l m" swap cfg] assms f by (simp add: macro_fields Let_def)
  show "layer_mods_layer (action_for_keycode swap cfg (LM l m)) = (l AND 0xF) OR (drop_bit 4 m AND 1)"
    "layer_mods_mods (action_for_keycode swap cfg (LM l m)) = (if bit m 4 then push_bit 4 m else m AND 0xF)"
    unfolding a
    by (cases "bit m 4"; rule byte_eqI, elim disjE; simp add: ACTION_LAYER_MODS_def ACTION_def action_fields bit_simps)+
qed

end
