(* ===== verification/Keyboard.thy ===== *)
theory Keyboard
  imports Report Action_Code
begin

text \<open>
  Key events and records (\<^verbatim>\<open>quantum/keyboard.h\<close>, \<^verbatim>\<open>quantum/action.h\<close>), the global state of the action
  code, its compile-time configuration, and the host interface (\<^verbatim>\<open>tmk_core/protocol/host.c\<close>). What the
  firmware sends, and the notifications it gives to the keyboard's own code, is a log of events,
  newest last.
\<close>

subsection \<open>Key events\<close>

record keypos_t =
  row :: uint8
  col :: uint8

definition KEYEQ :: "keypos_t \<Rightarrow> keypos_t \<Rightarrow> bool" where
  "KEYEQ a b \<longleftrightarrow> row a = row b \<and> col a = col b"

lemma KEYEQ_eq [simp]: "KEYEQ a b \<longleftrightarrow> a = b"
  by (auto simp: KEYEQ_def)

datatype keyevent_type_t = TICK_EVENT | KEY_EVENT | ENCODER_CW_EVENT | ENCODER_CCW_EVENT | COMBO_EVENT
  | DIP_SWITCH_ON_EVENT | DIP_SWITCH_OFF_EVENT

record keyevent_t =
  key :: keypos_t
  time :: uint16
  event_type :: keyevent_type_t
  pressed :: bool

definition IS_NOEVENT :: "keyevent_t \<Rightarrow> bool" where "IS_NOEVENT ev \<longleftrightarrow> event_type ev = TICK_EVENT"
definition IS_EVENT :: "keyevent_t \<Rightarrow> bool" where "IS_EVENT ev \<longleftrightarrow> event_type ev \<noteq> TICK_EVENT"
definition IS_KEYEVENT :: "keyevent_t \<Rightarrow> bool" where "IS_KEYEVENT ev \<longleftrightarrow> event_type ev = KEY_EVENT"

text \<open>The tap counter has four bits.\<close>

record tap_t =
  interrupted :: bool
  count :: "4 word"

text \<open>\<open>keycode\<close> is 0 unless the record comes from a combo or a repeated key.\<close>

record keyrecord_t =
  event :: keyevent_t
  tap :: tap_t
  keycode :: uint16

definition no_record :: keyrecord_t where
  "no_record = \<lparr>event = \<lparr>key = \<lparr>row = 0, col = 0\<rparr>, time = 0, event_type = TICK_EVENT, pressed = False\<rparr>,
     tap = \<lparr>interrupted = False, count = 0\<rparr>, keycode = 0\<rparr>"

text \<open>\<open>record->tap.count = n\<close> and \<open>record->tap.interrupted = b\<close>\<close>

definition set_count :: "4 word \<Rightarrow> keyrecord_t \<Rightarrow> keyrecord_t" where
  "set_count n r = r\<lparr>tap := (tap r)\<lparr>count := n\<rparr>\<rparr>"
definition set_interrupted :: "bool \<Rightarrow> keyrecord_t \<Rightarrow> keyrecord_t" where
  "set_interrupted b r = r\<lparr>tap := (tap r)\<lparr>interrupted := b\<rparr>\<rparr>"

lemma set_count_simps [simp]:
  "event (set_count n r) = event r" "count (tap (set_count n r)) = n" "keycode (set_count n r) = keycode r"
  "interrupted (tap (set_count n r)) = interrupted (tap r)"
  "event (set_interrupted b r) = event r" "count (tap (set_interrupted b r)) = count (tap r)"
  "keycode (set_interrupted b r) = keycode r" "interrupted (tap (set_interrupted b r)) = b"
  by (simp_all add: set_count_def set_interrupted_def)

subsection \<open>What leaves the action code\<close>

datatype host_event =
    SendKeyboard uint8 "uint8 list"
  | SendNkro uint8 "uint8 list"
  | SendSystem uint16
  | SendConsumer uint16
  | LedSet uint8
  | OneshotModsChanged uint8
  | OneshotLockedModsChanged uint8
  | OneshotLayerChanged uint8
  | EeconfigUpdateKeymap keymap_config_t
  | EeconfigDisable
  | BootloaderJump
  | McuReset

subsection \<open>The state\<close>

datatype swap_hands_oneshot_t = SHO_OFF | SHO_ACTIVE | SHO_PRESSED | SHO_USED

text \<open>
  The report comes first (\<open>report_state\<close>); the other fields are the static and global variables of
  \<^verbatim>\<open>host.c\<close>, \<^verbatim>\<open>action_layer.c\<close>, \<^verbatim>\<open>action_util.c\<close>, \<^verbatim>\<open>action.c\<close> and \<^verbatim>\<open>action_tapping.c\<close>, in this order.
  \<open>now\<close> is what \<open>timer_read\<close> returns, \<open>leds\<close> what the host driver reports. A bit array of
  the C code that holds one small number per matrix position (the swap state, the source layer) keeps
  its C layout.
\<close>

record kbd = report_state +
  out :: "host_event list"
  now :: uint16
  driver :: bool
  leds :: uint8
  last_system_usage :: uint16
  last_consumer_usage :: uint16
  layer_state :: uint16
  default_layer_state :: uint16
  source_layers_cache :: "uint8 list list"
  real_mods :: uint8
  weak_mods :: uint8
  weak_override_mods :: uint8
  suppressed_mods :: uint8
  oneshot_mods :: uint8
  oneshot_locked_mods :: uint8
  oneshot_time :: uint16
  oneshot_layer_data :: uint8
  oneshot_layer_time :: uint16
  swap_hands_oneshot :: swap_hands_oneshot_t
  oneshot_swaphands_time :: uint16
  last_6kro :: "uint8 \<times> uint8 list"
  nkro_report_id :: uint8
  last_nkro :: "uint8 \<times> uint8 \<times> uint8 list"
  retro_tapping_counter :: int
  swap_hands :: bool
  swap_held :: bool
  matrix_swap_state :: "uint8 list"
  disable_action_cache :: bool
  debug_enable :: bool
  registered_taps :: "keypos_t list"
  num_registered_taps :: nat
  flow_tap_prev_keycode :: uint16
  flow_tap_prev_time :: uint16
  flow_tap_expired :: bool
  tapping_key :: keyrecord_t
  waiting_buffer :: "keyrecord_t list"
  waiting_buffer_head :: nat
  waiting_buffer_tail :: nat
  arg_record :: keyrecord_t
  tmp_record :: keyrecord_t

subsection \<open>Pointers to records\<close>

text \<open>
  The C code passes records by pointer, and a pointer can lead into \<open>tapping_key\<close> or into a slot of the
  waiting buffer, which other functions change too. \<open>Arg\<close> is the record \<open>action_exec\<close> makes
  (\<open>arg_record\<close>), \<open>Tmp\<close> a temporary (\<open>tmp_record\<close>).
\<close>

datatype recptr = Arg | Tmp | TappingKey | Slot nat

fun deref :: "recptr \<Rightarrow> 'z kbd_scheme \<Rightarrow> keyrecord_t" where
  "deref Arg s = arg_record s"
| "deref Tmp s = tmp_record s"
| "deref TappingKey s = tapping_key s"
| "deref (Slot i) s = waiting_buffer s ! i"

fun assign :: "recptr \<Rightarrow> keyrecord_t \<Rightarrow> 'z kbd_scheme \<Rightarrow> 'z kbd_scheme" where
  "assign Arg r s = s\<lparr>arg_record := r\<rparr>"
| "assign Tmp r s = s\<lparr>tmp_record := r\<rparr>"
| "assign TappingKey r s = s\<lparr>tapping_key := r\<rparr>"
| "assign (Slot i) r s = s\<lparr>waiting_buffer := (waiting_buffer s)[i := r]\<rparr>"

subsection \<open>The configuration\<close>

text \<open>
  Compile-time settings and the functions a keyboard's own code provides. \<open>ONESHOT_TIMEOUT\<close>,
  \<open>FLOW_TAP_TERM\<close> and \<open>ONESHOT_TAP_TOGGLE\<close> are 0 when not defined. \<open>keymaps\<close> is the keymap as a
  list of layers of rows; \<open>preprocess_record\<close> is what \<open>process_record_quantum\<close> does first and what may
  change the keycode (\<open>preprocess_tap_dance\<close> and \<open>process_key_lock\<close>), \<open>record_handlers\<close> is the chain of handlers of \<open>process_record_quantum\<close>
  that are compiled in, \<open>process_record_kb\<close> among them. The tapping options have the signature of
  their per-key variants; the others are constant functions.
\<close>

record 's config =
  MATRIX_ROWS :: uint8
  MATRIX_COLS :: uint8
  keymaps :: "uint16 list list list"
  layer_state_set_kb :: "uint16 \<Rightarrow> uint16"
  default_layer_state_set_kb :: "uint16 \<Rightarrow> uint16"
  ONESHOT_TIMEOUT :: uint16
  ONESHOT_TAP_TOGGLE :: nat
  TAPPING_TOGGLE :: nat
  TAP_CODE_DELAY :: uint16
  TAP_HOLD_CAPS_DELAY :: uint16
  LOCKING_SUPPORT_ENABLE :: bool
  LOCKING_RESYNC_ENABLE :: bool
  SWAP_HANDS_ENABLE :: bool
  hand_swap_config :: "keypos_t \<Rightarrow> keypos_t"
  DUMMY_MOD_NEUTRALIZER_KEYCODE :: "uint8 option"
  MODS_TO_NEUTRALIZE :: "uint8 list"
  HOLD_ON_OTHER_KEY_PRESS :: bool
  RETRO_TAPPING :: bool
  get_retro_tapping :: "uint16 \<Rightarrow> keyrecord_t \<Rightarrow> bool"
  get_tapping_term :: "uint16 \<Rightarrow> keyrecord_t \<Rightarrow> uint16"
  get_quick_tap_term :: "uint16 \<Rightarrow> keyrecord_t \<Rightarrow> uint16"
  get_permissive_hold :: "uint16 \<Rightarrow> keyrecord_t \<Rightarrow> bool"
  get_hold_on_other_key_press :: "uint16 \<Rightarrow> keyrecord_t \<Rightarrow> bool"
  CHORDAL_HOLD :: bool
  chordal_hold_layout :: "keypos_t \<Rightarrow> char"
  get_chordal_hold_kb :: "(uint16 \<Rightarrow> keyrecord_t \<Rightarrow> uint16 \<Rightarrow> keyrecord_t \<Rightarrow> bool) option"
  FLOW_TAP_TERM :: uint16
  TRI_LAYER_ENABLE :: bool
  pre_process_record_kb :: "uint16 \<Rightarrow> keyrecord_t \<Rightarrow> 's \<Rightarrow> bool \<times> 's"
  preprocess_record :: "uint16 \<Rightarrow> keyrecord_t \<Rightarrow> 's \<Rightarrow> bool \<times> uint16 \<times> 's"
  record_handlers :: "(uint16 \<Rightarrow> keyrecord_t \<Rightarrow> 's \<Rightarrow> bool \<times> 's) list"
  process_action_kb :: "keyrecord_t \<Rightarrow> 's \<Rightarrow> bool \<times> 's"
  post_process_record_kb :: "uint16 \<Rightarrow> keyrecord_t \<Rightarrow> 's \<Rightarrow> 's"

subsection \<open>The host interface\<close>

definition emit :: "host_event \<Rightarrow> 'z kbd_scheme \<Rightarrow> 'z kbd_scheme" where "emit x s = s\<lparr>out := out s @ [x]\<rparr>"

definition wait_ms :: "uint16 \<Rightarrow> 'z kbd_scheme \<Rightarrow> 'z kbd_scheme" where "wait_ms d s = s\<lparr>now := now s + d\<rparr>"

definition host_keyboard_leds :: "'z kbd_scheme \<Rightarrow> uint8" where
  "host_keyboard_leds s = (if driver s then leds s else 0)"

definition host_keyboard_send :: "uint8 \<Rightarrow> uint8 list \<Rightarrow> 'z kbd_scheme \<Rightarrow> 'z kbd_scheme" where
  "host_keyboard_send mods ks s = (if driver s then emit (SendKeyboard mods ks) s else s)"

abbreviation (input) REPORT_ID_NKRO :: uint8 where "REPORT_ID_NKRO \<equiv> 6"

text \<open>The N-key report is stamped with its identifier here, after the caller has compared and copied it.\<close>

definition host_nkro_send :: "uint8 \<Rightarrow> uint8 list \<Rightarrow> 'z kbd_scheme \<Rightarrow> 'z kbd_scheme" where
  "host_nkro_send mods bs s =
     (if driver s then emit (SendNkro mods bs) (s\<lparr>nkro_report_id := REPORT_ID_NKRO\<rparr>) else s)"

definition host_system_send :: "uint16 \<Rightarrow> 'z kbd_scheme \<Rightarrow> 'z kbd_scheme" where
  "host_system_send usage s =
     (if usage = last_system_usage s then s
      else let s = s\<lparr>last_system_usage := usage\<rparr> in if driver s then emit (SendSystem usage) s else s)"

definition host_consumer_send :: "uint16 \<Rightarrow> 'z kbd_scheme \<Rightarrow> 'z kbd_scheme" where
  "host_consumer_send usage s =
     (if usage = last_consumer_usage s then s
      else let s = s\<lparr>last_consumer_usage := usage\<rparr> in if driver s then emit (SendConsumer usage) s else s)"

subsection \<open>Timers\<close>

text \<open>\<open>TIMER_DIFF_16(timer_read(), t) >= timeout\<close>\<close>

definition timed_out :: "uint16 \<Rightarrow> uint16 \<Rightarrow> 'z kbd_scheme \<Rightarrow> bool" where
  "timed_out t timeout s \<longleftrightarrow> timeout \<le> TIMER_DIFF_16 (now s) t"

end
