(* ===== verification/Action_Layer.thy ===== *)
theory Action_Layer
  imports Keyboard
begin

text \<open>
  Layers (\<^verbatim>\<open>quantum/action_layer.c\<close>) and the keymap lookup (\<^verbatim>\<open>quantum/keymap_common.c\<close>,
  \<^verbatim>\<open>quantum/keymap_introspection.c\<close>), for the default build: 16-bit layer masks, neither strict nor
  semi-strict layer release. A shift \<open>1 << layer\<close> is cut to 16 bits, so a layer of 16 or more has the
  empty mask.
\<close>

subsection \<open>Keymap lookup\<close>

definition keycode_at_keymap_location :: "'z kbd_scheme config \<Rightarrow> uint8 \<Rightarrow> uint8 \<Rightarrow> uint8 \<Rightarrow> uint16" where
  "keycode_at_keymap_location cf layer_num r c =
     (if unat layer_num < length (keymaps cf) \<and> r < MATRIX_ROWS cf \<and> c < MATRIX_COLS cf
      then keymaps cf ! unat layer_num ! unat r ! unat c else KC_TRANSPARENT)"

definition keymap_key_to_keycode :: "'z kbd_scheme config \<Rightarrow> uint8 \<Rightarrow> keypos_t \<Rightarrow> uint16" where
  "keymap_key_to_keycode cf layer k =
     (if row k < MATRIX_ROWS cf \<and> col k < MATRIX_COLS cf then keycode_at_keymap_location cf layer (row k) (col k) else KC_NO)"

definition action_for_key :: "'z kbd_scheme config \<Rightarrow> 'z kbd_scheme \<Rightarrow> uint8 \<Rightarrow> keypos_t \<Rightarrow> action_t" where
  "action_for_key cf s layer k = action_for_keycode (SWAP_HANDS_ENABLE cf) (keymap_config s) (keymap_key_to_keycode cf layer k)"

subsection \<open>Layer masks\<close>

abbreviation (input) MAX_LAYER :: nat where "MAX_LAYER \<equiv> 16"
abbreviation (input) MAX_LAYER_BITS :: nat where "MAX_LAYER_BITS \<equiv> 4"

definition layer_mask :: "uint8 \<Rightarrow> uint16" where "layer_mask layer = shl1 (unat layer)"

definition default_layer_set :: "'z kbd_scheme config \<Rightarrow> uint16 \<Rightarrow> 'z kbd_scheme \<Rightarrow> 'z kbd_scheme" where
  "default_layer_set cf state s = s\<lparr>default_layer_state := default_layer_state_set_kb cf state\<rparr>"
definition default_layer_or :: "'z kbd_scheme config \<Rightarrow> uint16 \<Rightarrow> 'z kbd_scheme \<Rightarrow> 'z kbd_scheme" where
  "default_layer_or cf state s = default_layer_set cf (default_layer_state s OR state) s"
definition default_layer_and :: "'z kbd_scheme config \<Rightarrow> uint16 \<Rightarrow> 'z kbd_scheme \<Rightarrow> 'z kbd_scheme" where
  "default_layer_and cf state s = default_layer_set cf (default_layer_state s AND state) s"
definition default_layer_xor :: "'z kbd_scheme config \<Rightarrow> uint16 \<Rightarrow> 'z kbd_scheme \<Rightarrow> 'z kbd_scheme" where
  "default_layer_xor cf state s = default_layer_set cf (default_layer_state s XOR state) s"

definition layer_state_set :: "'z kbd_scheme config \<Rightarrow> uint16 \<Rightarrow> 'z kbd_scheme \<Rightarrow> 'z kbd_scheme" where
  "layer_state_set cf state s = s\<lparr>layer_state := layer_state_set_kb cf state\<rparr>"
definition layer_clear :: "'z kbd_scheme config \<Rightarrow> 'z kbd_scheme \<Rightarrow> 'z kbd_scheme" where
  "layer_clear cf s = layer_state_set cf 0 s"
definition layer_move :: "'z kbd_scheme config \<Rightarrow> uint8 \<Rightarrow> 'z kbd_scheme \<Rightarrow> 'z kbd_scheme" where
  "layer_move cf layer s = layer_state_set cf (layer_mask layer) s"
definition layer_on :: "'z kbd_scheme config \<Rightarrow> uint8 \<Rightarrow> 'z kbd_scheme \<Rightarrow> 'z kbd_scheme" where
  "layer_on cf layer s = layer_state_set cf (layer_state s OR layer_mask layer) s"
definition layer_off :: "'z kbd_scheme config \<Rightarrow> uint8 \<Rightarrow> 'z kbd_scheme \<Rightarrow> 'z kbd_scheme" where
  "layer_off cf layer s = layer_state_set cf (layer_state s AND NOT (layer_mask layer)) s"
definition layer_invert :: "'z kbd_scheme config \<Rightarrow> uint8 \<Rightarrow> 'z kbd_scheme \<Rightarrow> 'z kbd_scheme" where
  "layer_invert cf layer s = layer_state_set cf (layer_state s XOR layer_mask layer) s"
definition layer_or :: "'z kbd_scheme config \<Rightarrow> uint16 \<Rightarrow> 'z kbd_scheme \<Rightarrow> 'z kbd_scheme" where
  "layer_or cf state s = layer_state_set cf (layer_state s OR state) s"
definition layer_and :: "'z kbd_scheme config \<Rightarrow> uint16 \<Rightarrow> 'z kbd_scheme \<Rightarrow> 'z kbd_scheme" where
  "layer_and cf state s = layer_state_set cf (layer_state s AND state) s"
definition layer_xor :: "'z kbd_scheme config \<Rightarrow> uint16 \<Rightarrow> 'z kbd_scheme \<Rightarrow> 'z kbd_scheme" where
  "layer_xor cf state s = layer_state_set cf (layer_state s XOR state) s"

definition layer_state_cmp :: "uint16 \<Rightarrow> uint8 \<Rightarrow> bool" where
  "layer_state_cmp state layer = (if state = 0 then layer = 0 else state AND layer_mask layer \<noteq> 0)"
definition layer_state_is :: "uint8 \<Rightarrow> 'z kbd_scheme \<Rightarrow> bool" where
  "layer_state_is layer s = layer_state_cmp (layer_state s) layer"

definition update_tri_layer_state :: "uint16 \<Rightarrow> uint8 \<Rightarrow> uint8 \<Rightarrow> uint8 \<Rightarrow> uint16" where
  "update_tri_layer_state state layer1 layer2 layer3 =
     (let mask12 = layer_mask layer1 OR layer_mask layer2; mask3 = layer_mask layer3
      in if state AND mask12 = mask12 then state OR mask3 else state AND NOT mask3)"
definition update_tri_layer :: "'z kbd_scheme config \<Rightarrow> uint8 \<Rightarrow> uint8 \<Rightarrow> uint8 \<Rightarrow> 'z kbd_scheme \<Rightarrow> 'z kbd_scheme" where
  "update_tri_layer cf layer1 layer2 layer3 s =
     layer_state_set cf (update_tri_layer_state (layer_state s) layer1 layer2 layer3) s"

lemmas layer_defs = layer_state_set_def layer_clear_def layer_move_def layer_on_def layer_off_def layer_invert_def
  layer_or_def layer_and_def layer_xor_def default_layer_set_def default_layer_or_def default_layer_and_def
  default_layer_xor_def update_tri_layer_def

subsection \<open>The source layer cache\<close>

text \<open>
  Byte \<open>i div 8\<close> of plane \<open>b\<close> holds, in bit \<open>i mod 8\<close>, bit \<open>b\<close> of the layer from which the key with
  number \<open>i\<close> was pressed.
\<close>

definition update_source_layers_cache_impl :: "uint8 \<Rightarrow> nat \<Rightarrow> uint8 list list \<Rightarrow> uint8 list list" where
  "update_source_layers_cache_impl layer entry_number ch =
     (let storage_idx = entry_number div 8; storage_bit = entry_number mod 8
      in fold (\<lambda>bit_number ch.
           let c = ch ! storage_idx ! bit_number;
               flag = (if layer AND shl1 bit_number \<noteq> 0 then NOT 0 else 0)
           in ch[storage_idx := (ch ! storage_idx)[bit_number := c XOR ((flag XOR c) AND shl1 storage_bit)]])
         [0..<MAX_LAYER_BITS] ch)"

definition read_source_layers_cache_impl :: "nat \<Rightarrow> uint8 list list \<Rightarrow> uint8" where
  "read_source_layers_cache_impl entry_number ch =
     (let storage_idx = entry_number div 8; storage_bit = entry_number mod 8
      in fold (\<lambda>bit_number layer.
           layer OR push_bit bit_number (if ch ! storage_idx ! bit_number AND shl1 storage_bit \<noteq> 0 then 1 else 0))
         [0..<MAX_LAYER_BITS] 0)"

definition entry_number :: "'z kbd_scheme config \<Rightarrow> keypos_t \<Rightarrow> nat" where
  "entry_number cf k = unat (row k) * unat (MATRIX_COLS cf) + unat (col k)"

definition in_matrix :: "'z kbd_scheme config \<Rightarrow> keypos_t \<Rightarrow> bool" where
  "in_matrix cf k \<longleftrightarrow> row k < MATRIX_ROWS cf \<and> col k < MATRIX_COLS cf"

definition update_source_layers_cache :: "'z kbd_scheme config \<Rightarrow> keypos_t \<Rightarrow> uint8 \<Rightarrow> 'z kbd_scheme \<Rightarrow> 'z kbd_scheme" where
  "update_source_layers_cache cf k layer s =
     (if in_matrix cf k
      then s\<lparr>source_layers_cache := update_source_layers_cache_impl layer (entry_number cf k) (source_layers_cache s)\<rparr>
      else s)"

definition read_source_layers_cache :: "'z kbd_scheme config \<Rightarrow> keypos_t \<Rightarrow> 'z kbd_scheme \<Rightarrow> uint8" where
  "read_source_layers_cache cf k s =
     (if in_matrix cf k then read_source_layers_cache_impl (entry_number cf k) (source_layers_cache s) else 0)"

subsection \<open>Which layer a key is on\<close>

text \<open>The loop from the top layer down; \<open>layers\<close> is \<open>layer_state | default_layer_state\<close>.\<close>

fun top_layer :: "'z kbd_scheme config \<Rightarrow> 'z kbd_scheme \<Rightarrow> uint16 \<Rightarrow> keypos_t \<Rightarrow> nat \<Rightarrow> uint8" where
  "top_layer cf s layers k 0 = 0"
| "top_layer cf s layers k (Suc i) =
     (if test_mask layers i \<and> action_for_key cf s (of_nat i) k \<noteq> ACTION_TRANSPARENT then of_nat i
      else top_layer cf s layers k i)"

definition layer_switch_get_layer :: "'z kbd_scheme config \<Rightarrow> 'z kbd_scheme \<Rightarrow> keypos_t \<Rightarrow> uint8" where
  "layer_switch_get_layer cf s k = top_layer cf s (layer_state s OR default_layer_state s) k MAX_LAYER"

definition layer_switch_get_action :: "'z kbd_scheme config \<Rightarrow> 'z kbd_scheme \<Rightarrow> keypos_t \<Rightarrow> action_t" where
  "layer_switch_get_action cf s k = action_for_key cf s (layer_switch_get_layer cf s k) k"

definition store_or_get_action :: "'z kbd_scheme config \<Rightarrow> bool \<Rightarrow> keypos_t \<Rightarrow> 'z kbd_scheme \<Rightarrow> action_t \<times> 'z kbd_scheme" where
  "store_or_get_action cf press k s =
     (if disable_action_cache s then (layer_switch_get_action cf s k, s)
      else if press then
        let layer = layer_switch_get_layer cf s k; s = update_source_layers_cache cf k layer s
        in (action_for_key cf s layer k, s)
      else (action_for_key cf s (read_source_layers_cache cf k s) k, s))"

text \<open>\<open>get_event_keycode\<close> and \<open>get_record_keycode\<close> of \<^verbatim>\<open>quantum/quantum.c\<close>\<close>

definition get_event_keycode :: "'z kbd_scheme config \<Rightarrow> keyevent_t \<Rightarrow> bool \<Rightarrow> 'z kbd_scheme \<Rightarrow> uint16 \<times> 'z kbd_scheme" where
  "get_event_keycode cf ev update_layer_cache s =
     (if \<not> disable_action_cache s then
        (if pressed ev \<and> update_layer_cache then
           let layer = layer_switch_get_layer cf s (key ev); s = update_source_layers_cache cf (key ev) layer s
           in (keymap_key_to_keycode cf layer (key ev), s)
         else (keymap_key_to_keycode cf (read_source_layers_cache cf (key ev) s) (key ev), s))
      else (keymap_key_to_keycode cf (layer_switch_get_layer cf s (key ev)) (key ev), s))"

definition get_record_keycode :: "'z kbd_scheme config \<Rightarrow> keyrecord_t \<Rightarrow> bool \<Rightarrow> 'z kbd_scheme \<Rightarrow> uint16 \<times> 'z kbd_scheme" where
  "get_record_keycode cf r update_layer_cache s =
     (if keycode r \<noteq> 0 then (keycode r, s) else get_event_keycode cf (event r) update_layer_cache s)"

subsection \<open>The cache returns what was stored\<close>

definition cache_ok :: "'z kbd_scheme config \<Rightarrow> uint8 list list \<Rightarrow> bool" where
  "cache_ok cf ch \<longleftrightarrow> length ch = (unat (MATRIX_ROWS cf) * unat (MATRIX_COLS cf) + 7) div 8
     \<and> (\<forall>p\<in>set ch. length p = MAX_LAYER_BITS)"

text \<open>Bit \<open>b\<close> of the layer stored for entry \<open>e\<close>.\<close>

definition cached_bit :: "uint8 list list \<Rightarrow> nat \<Rightarrow> nat \<Rightarrow> bool" where
  "cached_bit ch e b \<longleftrightarrow> bit (ch ! (e div 8) ! b) (e mod 8)"

definition store_plane :: "uint8 \<Rightarrow> nat \<Rightarrow> nat \<Rightarrow> uint8 list list \<Rightarrow> uint8 list list" where
  "store_plane layer e b ch =
     (let c = ch ! (e div 8) ! b; flag = (if layer AND shl1 b \<noteq> 0 then NOT 0 else 0)
      in ch[e div 8 := (ch ! (e div 8))[b := c XOR ((flag XOR c) AND shl1 (e mod 8))]])"

lemma store_plane_lengths:
  "length (store_plane layer e b ch) = length ch"
  "i < length ch \<Longrightarrow> length (store_plane layer e b ch ! i) = length (ch ! i)"
  by (simp add: store_plane_def Let_def) (cases "i = e div 8"; simp add: store_plane_def Let_def)

lemma cached_bit_store_plane:
  assumes "e div 8 < length ch" "b < length (ch ! (e div 8))"
  shows "cached_bit (store_plane layer e b ch) e' b' \<longleftrightarrow>
    (if e' = e \<and> b' = b then bit layer b else cached_bit ch e' b')"
proof -
  let ?c = "ch ! (e div 8) ! b" and ?flag = "if layer AND shl1 b \<noteq> 0 then NOT 0 else 0 :: uint8"
  have lt: "k mod 8 < 8" for k :: nat by simp
  have f: "bit ?flag k \<longleftrightarrow> k < 8 \<and> bit layer b" for k
    using test_mask_iff [of layer b] by (simp add: test_mask_def bit_not_iff)
  have c: "bit (?c XOR ((?flag XOR ?c) AND shl1 (e mod 8))) (e' mod 8) \<longleftrightarrow>
      (if e' mod 8 = e mod 8 then bit layer b else bit ?c (e' mod 8))"
    using f [of "e' mod 8"] lt by (auto simp: bit_xor_iff bit_and_iff bit_shl1)
  have same: "e' div 8 = e div 8 \<Longrightarrow> e' mod 8 = e mod 8 \<longleftrightarrow> e' = e" by (metis div_mult_mod_eq)
  show ?thesis
  proof (cases "e' div 8 = e div 8 \<and> b' = b")
    case True
    then show ?thesis using assms same c by (simp add: store_plane_def cached_bit_def Let_def)
  next
    case False
    then show ?thesis using assms by (cases "e' div 8 = e div 8") (auto simp: store_plane_def cached_bit_def Let_def)
  qed
qed

lemma store_planes:
  assumes "e div 8 < length ch" "n \<le> length (ch ! (e div 8))"
  shows "length (fold (store_plane layer e) [0..<n] ch) = length ch
    \<and> (\<forall>i<length ch. length (fold (store_plane layer e) [0..<n] ch ! i) = length (ch ! i))
    \<and> (\<forall>e' b'. cached_bit (fold (store_plane layer e) [0..<n] ch) e' b' \<longleftrightarrow>
          (if e' = e \<and> b' < n then bit layer b' else cached_bit ch e' b'))"
  using assms(2)
proof (induction n)
  case (Suc n)
  let ?m = "fold (store_plane layer e) [0..<n] ch"
  note IH = Suc.IH [OF Suc_leD [OF Suc.prems]]
  have "e div 8 < length ?m" "n < length (?m ! (e div 8))" using IH assms(1) Suc.prems by auto
  note step = cached_bit_store_plane [OF this, of layer]
  show ?case using IH step by (auto simp: store_plane_lengths less_Suc_eq)
qed simp

lemma update_impl_planes: "update_source_layers_cache_impl layer e ch = fold (store_plane layer e) [0..<MAX_LAYER_BITS] ch"
  by (simp add: update_source_layers_cache_impl_def store_plane_def [abs_def] Let_def)

lemma read_impl_bits:
  "bit (read_source_layers_cache_impl e ch) b \<longleftrightarrow> b < MAX_LAYER_BITS \<and> cached_bit ch e b"
proof -
  have lt: "e mod 8 < 8" by simp
  have "bit (fold (\<lambda>b layer. layer OR push_bit b (if ch ! (e div 8) ! b AND shl1 (e mod 8) \<noteq> 0 then 1 else 0)) [0..<n] (0 :: uint8)) b
      \<longleftrightarrow> b < n \<and> cached_bit ch e b" if "n \<le> 8" for n
    using that
  proof (induction n)
    case (Suc n)
    have "bit (push_bit n (if ch ! (e div 8) ! n AND shl1 (e mod 8) \<noteq> 0 then 1 else 0) :: uint8) b \<longleftrightarrow> b = n \<and> cached_bit ch e n"
      using Suc.prems lt test_mask_iff [of "ch ! (e div 8) ! n" "e mod 8"]
      by (auto simp: bit_push_bit_iff cached_bit_def test_mask_def bit_1_iff)
    then show ?case using Suc by (auto simp: bit_or_iff less_Suc_eq)
  qed simp
  then show ?thesis by (simp add: read_source_layers_cache_impl_def Let_def)
qed

lemma entry_number_less: "in_matrix cf k \<Longrightarrow> entry_number cf k < unat (MATRIX_ROWS cf) * unat (MATRIX_COLS cf)"
  using block_bound [of "unat (row k)" "unat (MATRIX_ROWS cf)" "unat (MATRIX_COLS cf)"]
  by (simp add: in_matrix_def entry_number_def word_less_nat_alt)

lemma entry_number_inj: "in_matrix cf k \<Longrightarrow> in_matrix cf j \<Longrightarrow> entry_number cf k = entry_number cf j \<longleftrightarrow> k = j"
proof
  assume m: "in_matrix cf k" "in_matrix cf j" and e: "entry_number cf k = entry_number cf j"
  let ?c = "unat (MATRIX_COLS cf)"
  have "unat (col k) < ?c" "unat (col j) < ?c" using m by (simp_all add: in_matrix_def word_less_nat_alt)
  then have "unat (row k) = unat (row j)" "unat (col k) = unat (col j)"
    using arg_cong [where f = "\<lambda>x. x div ?c", OF e] arg_cong [where f = "\<lambda>x. x mod ?c", OF e]
    by (simp_all add: entry_number_def)
  then show "k = j" by (simp add: word_unat_eq_iff)
qed simp

lemma update_cache:
  assumes "cache_ok cf (source_layers_cache s)" "in_matrix cf k"
  shows "cache_ok cf (source_layers_cache (update_source_layers_cache cf k layer s))"
    and "in_matrix cf j \<Longrightarrow> read_source_layers_cache cf j (update_source_layers_cache cf k layer s) =
      (if j = k then layer AND mask MAX_LAYER_BITS else read_source_layers_cache cf j s)"
proof -
  let ?e = "entry_number cf k" and ?ch = "source_layers_cache s"
  have "?e div 8 < length ?ch" using assms entry_number_less [OF assms(2)] by (auto simp: cache_ok_def)
  moreover from this have "MAX_LAYER_BITS \<le> length (?ch ! (?e div 8))" using assms(1) by (auto simp: cache_ok_def)
  ultimately have P: "length (update_source_layers_cache_impl layer ?e ?ch) = length ?ch"
    "\<forall>i<length ?ch. length (update_source_layers_cache_impl layer ?e ?ch ! i) = length (?ch ! i)"
    "\<And>e' b'. cached_bit (update_source_layers_cache_impl layer ?e ?ch) e' b' \<longleftrightarrow>
       (if e' = ?e \<and> b' < MAX_LAYER_BITS then bit layer b' else cached_bit ?ch e' b')"
    using store_planes [of ?e ?ch MAX_LAYER_BITS layer] unfolding update_impl_planes by blast+
  show "cache_ok cf (source_layers_cache (update_source_layers_cache cf k layer s))"
    using assms P(1,2) by (auto simp: update_source_layers_cache_def cache_ok_def all_set_conv_all_nth)
  assume j: "in_matrix cf j"
  show "read_source_layers_cache cf j (update_source_layers_cache cf k layer s) =
      (if j = k then layer AND mask MAX_LAYER_BITS else read_source_layers_cache cf j s)"
    using entry_number_inj [OF j assms(2)] assms(2) j
    by (auto intro!: bit_word_eqI
        simp: read_source_layers_cache_def update_source_layers_cache_def read_impl_bits P(3) bit_and_iff bit_mask_iff)
qed

subsection \<open>Looking up a key\<close>

text \<open>The result of the search is the highest layer that is on and not transparent for the key, or 0.\<close>

definition opaque :: "'z kbd_scheme config \<Rightarrow> 'z kbd_scheme \<Rightarrow> keypos_t \<Rightarrow> nat \<Rightarrow> bool" where
  "opaque cf s k i \<longleftrightarrow> bit (layer_state s OR default_layer_state s) i \<and> action_for_key cf s (of_nat i) k \<noteq> ACTION_TRANSPARENT"

lemma top_layer_bound: "n \<le> MAX_LAYER \<Longrightarrow> unat (top_layer cf s layers k n) < MAX_LAYER"
  by (induction n) (auto simp: unat_of_nat_small)

lemma top_layer_opaque:
  "n \<le> MAX_LAYER \<Longrightarrow> (\<exists>i<n. test_mask layers i \<and> action_for_key cf s (of_nat i) k \<noteq> ACTION_TRANSPARENT) \<Longrightarrow>
   (let i = unat (top_layer cf s layers k n)
    in i < n \<and> test_mask layers i \<and> action_for_key cf s (of_nat i) k \<noteq> ACTION_TRANSPARENT
       \<and> (\<forall>j. i < j \<and> j < n \<longrightarrow> \<not> (test_mask layers j \<and> action_for_key cf s (of_nat j) k \<noteq> ACTION_TRANSPARENT)))"
proof (induction n)
  case (Suc n)
  show ?case
  proof (cases "test_mask layers n \<and> action_for_key cf s (of_nat n) k \<noteq> ACTION_TRANSPARENT")
    case True
    then show ?thesis using Suc.prems(1) by (auto simp: Let_def unat_of_nat_small)
  next
    case False
    then have "\<exists>i<n. test_mask layers i \<and> action_for_key cf s (of_nat i) k \<noteq> ACTION_TRANSPARENT"
      using Suc.prems(2) less_Suc_eq by blast
    then show ?thesis using Suc.IH Suc.prems(1) False by (simp add: Let_def) (metis less_Suc_eq)
  qed
qed simp

lemma top_layer_none:
  "\<forall>i<n. \<not> (test_mask layers i \<and> action_for_key cf s (of_nat i) k \<noteq> ACTION_TRANSPARENT) \<Longrightarrow> top_layer cf s layers k n = 0"
  by (induction n) auto

lemma layer_switch_get_layer_spec:
  "(\<exists>i<MAX_LAYER. opaque cf s k i) \<Longrightarrow>
     unat (layer_switch_get_layer cf s k) < MAX_LAYER \<and> opaque cf s k (unat (layer_switch_get_layer cf s k))
     \<and> (\<forall>j. unat (layer_switch_get_layer cf s k) < j \<and> j < MAX_LAYER \<longrightarrow> \<not> opaque cf s k j)"
  "\<not> (\<exists>i<MAX_LAYER. opaque cf s k i) \<Longrightarrow> layer_switch_get_layer cf s k = 0"
  using top_layer_opaque [of MAX_LAYER "layer_state s OR default_layer_state s" cf s k]
    top_layer_none [of MAX_LAYER "layer_state s OR default_layer_state s" cf s k]
  by (simp_all add: layer_switch_get_layer_def opaque_def test_mask_iff Let_def)

subsection \<open>A release gets the action of its press\<close>

lemma get_layer_fits: "layer_switch_get_layer cf s k AND mask MAX_LAYER_BITS = layer_switch_get_layer cf s k"
proof -
  let ?l = "layer_switch_get_layer cf s k"
  have "unat ?l < 2 ^ 4" using top_layer_bound [of MAX_LAYER cf s "layer_state s OR default_layer_state s" k]
    by (simp add: layer_switch_get_layer_def)
  then have "?l = take_bit 4 ?l" by (simp add: word_unat_eq_iff unsigned_take_bit_eq take_bit_nat_eq_self)
  then show ?thesis by (simp add: take_bit_eq_mask)
qed

lemma update_cache_frame [simp]:
  "keymap_config (update_source_layers_cache cf k l s) = keymap_config s"
  "disable_action_cache (update_source_layers_cache cf k l s) = disable_action_cache s"
  by (simp_all add: update_source_layers_cache_def)

text \<open>Presses of other keys leave the stored layer alone.\<close>

lemma other_updates:
  "cache_ok cf (source_layers_cache s) \<Longrightarrow> in_matrix cf k \<Longrightarrow> \<forall>(j, l)\<in>set us. in_matrix cf j \<and> j \<noteq> k \<Longrightarrow>
   read_source_layers_cache cf k (fold (\<lambda>(j, l). update_source_layers_cache cf j l) us s) = read_source_layers_cache cf k s"
  by (induction us arbitrary: s) (auto simp: update_cache)

lemma action_for_key_cong: "keymap_config s = keymap_config s' \<Longrightarrow> action_for_key cf s = action_for_key cf s'"
  by (intro ext) (simp add: action_for_key_def)

lemma read_cache_cong:
  "source_layers_cache s = source_layers_cache s' \<Longrightarrow> read_source_layers_cache cf k s = read_source_layers_cache cf k s'"
  by (simp add: read_source_layers_cache_def)

lemma stored_action:
  assumes "cache_ok cf (source_layers_cache s)" "in_matrix cf k" "\<not> disable_action_cache s"
    and "\<forall>(j, l)\<in>set us. in_matrix cf j \<and> j \<noteq> k"
    and "source_layers_cache s' = source_layers_cache
      (fold (\<lambda>(j, l). update_source_layers_cache cf j l) us (snd (store_or_get_action cf True k s)))"
    and "keymap_config s' = keymap_config s" "\<not> disable_action_cache s'"
  shows "fst (store_or_get_action cf False k s') = fst (store_or_get_action cf True k s)"
proof -
  let ?l = "layer_switch_get_layer cf s k"
  let ?s1 = "update_source_layers_cache cf k ?l s"
  have s1: "snd (store_or_get_action cf True k s) = ?s1" using assms(3) by (simp add: store_or_get_action_def Let_def)
  have "read_source_layers_cache cf k s' = read_source_layers_cache cf k ?s1"
    using read_cache_cong [OF assms(5)] other_updates [OF update_cache(1) [OF assms(1,2)] assms(2,4)] s1 by simp
  also have "\<dots> = ?l" using update_cache(2) [OF assms(1,2,2)] by (simp add: get_layer_fits)
  finally show ?thesis
    using assms(3,6,7) action_for_key_cong [of s' s cf] action_for_key_cong [of ?s1 s cf]
    by (simp add: store_or_get_action_def Let_def)
qed

subsection \<open>Layer masks bit by bit\<close>

lemma bit_layer_mask: "bit (layer_mask l) i \<longleftrightarrow> i = unat l \<and> unat l < 16"
  by (auto simp: layer_mask_def bit_shl1)

lemma subset_mask_iff: "x AND m = m \<longleftrightarrow> (\<forall>i. bit m i \<longrightarrow> bit (x :: 'a::len word) i)"
  by (auto simp: bit_eq_iff bit_and_iff dest: bit_imp_le_length)

lemma tri_layer_bits:
  assumes "unat a < MAX_LAYER" "unat b < MAX_LAYER" "unat c < MAX_LAYER"
  shows "bit (update_tri_layer_state st a b c) i \<longleftrightarrow> (if i = unat c then bit st (unat a) \<and> bit st (unat b) else bit st i)"
proof -
  have "st AND (layer_mask a OR layer_mask b) = layer_mask a OR layer_mask b \<longleftrightarrow> bit st (unat a) \<and> bit st (unat b)"
    using assms by (auto simp: subset_mask_iff bit_or_iff bit_layer_mask)
  then show ?thesis
    using assms by (auto simp: update_tri_layer_state_def Let_def bit_or_iff bit_and_iff bit_not_iff bit_layer_mask
        dest: bit_imp_le_length)
qed

end
