(* ===== verification/Action_Util.thy ===== *)
theory Action_Util
  imports Action_Layer
begin

text \<open>
  Modifiers, one-shot keys and sending the report (\<^verbatim>\<open>quantum/action_util.c\<close>). A timeout of 0 stands for
  \<open>ONESHOT_TIMEOUT\<close> not being defined, and then the time stamps are not kept. The callbacks
  \<open>oneshot_*_changed_kb\<close> are events of the log. The key-override modifiers are part of the state and
  are 0 unless key overrides set them.
\<close>

subsection \<open>Modifiers\<close>

definition add_mods :: "uint8 \<Rightarrow> 'z kbd_scheme \<Rightarrow> 'z kbd_scheme" where "add_mods mods s = s\<lparr>real_mods := real_mods s OR mods\<rparr>"
definition del_mods :: "uint8 \<Rightarrow> 'z kbd_scheme \<Rightarrow> 'z kbd_scheme" where "del_mods mods s = s\<lparr>real_mods := real_mods s AND NOT mods\<rparr>"
definition set_mods :: "uint8 \<Rightarrow> 'z kbd_scheme \<Rightarrow> 'z kbd_scheme" where "set_mods mods s = s\<lparr>real_mods := mods\<rparr>"
definition clear_mods :: "'z kbd_scheme \<Rightarrow> 'z kbd_scheme" where "clear_mods s = s\<lparr>real_mods := 0\<rparr>"
definition add_weak_mods :: "uint8 \<Rightarrow> 'z kbd_scheme \<Rightarrow> 'z kbd_scheme" where "add_weak_mods mods s = s\<lparr>weak_mods := weak_mods s OR mods\<rparr>"
definition del_weak_mods :: "uint8 \<Rightarrow> 'z kbd_scheme \<Rightarrow> 'z kbd_scheme" where "del_weak_mods mods s = s\<lparr>weak_mods := weak_mods s AND NOT mods\<rparr>"
definition set_weak_mods :: "uint8 \<Rightarrow> 'z kbd_scheme \<Rightarrow> 'z kbd_scheme" where "set_weak_mods mods s = s\<lparr>weak_mods := mods\<rparr>"
definition clear_weak_mods :: "'z kbd_scheme \<Rightarrow> 'z kbd_scheme" where "clear_weak_mods s = s\<lparr>weak_mods := 0\<rparr>"
definition set_weak_override_mods :: "uint8 \<Rightarrow> 'z kbd_scheme \<Rightarrow> 'z kbd_scheme" where
  "set_weak_override_mods mods s = s\<lparr>weak_override_mods := mods\<rparr>"
definition clear_weak_override_mods :: "'z kbd_scheme \<Rightarrow> 'z kbd_scheme" where "clear_weak_override_mods s = s\<lparr>weak_override_mods := 0\<rparr>"
definition set_suppressed_override_mods :: "uint8 \<Rightarrow> 'z kbd_scheme \<Rightarrow> 'z kbd_scheme" where
  "set_suppressed_override_mods mods s = s\<lparr>suppressed_mods := mods\<rparr>"
definition clear_suppressed_override_mods :: "'z kbd_scheme \<Rightarrow> 'z kbd_scheme" where
  "clear_suppressed_override_mods s = s\<lparr>suppressed_mods := 0\<rparr>"
definition has_anymod :: "'z kbd_scheme \<Rightarrow> uint8" where "has_anymod s = bitpop (real_mods s)"

lemmas mods_defs = add_mods_def del_mods_def set_mods_def clear_mods_def add_weak_mods_def del_weak_mods_def
  set_weak_mods_def clear_weak_mods_def

subsection \<open>Locked one-shot modifiers\<close>

definition set_locked :: "uint8 \<Rightarrow> 'z kbd_scheme \<Rightarrow> 'z kbd_scheme" where
  "set_locked m s = emit (OneshotLockedModsChanged m) (s\<lparr>oneshot_locked_mods := m\<rparr>)"

definition add_oneshot_locked_mods :: "uint8 \<Rightarrow> 'z kbd_scheme \<Rightarrow> 'z kbd_scheme" where
  "add_oneshot_locked_mods mods s =
     (if oneshot_locked_mods s AND mods \<noteq> mods then set_locked (oneshot_locked_mods s OR mods) s else s)"
definition set_oneshot_locked_mods :: "uint8 \<Rightarrow> 'z kbd_scheme \<Rightarrow> 'z kbd_scheme" where
  "set_oneshot_locked_mods mods s = (if mods \<noteq> oneshot_locked_mods s then set_locked mods s else s)"
definition clear_oneshot_locked_mods :: "'z kbd_scheme \<Rightarrow> 'z kbd_scheme" where
  "clear_oneshot_locked_mods s = (if oneshot_locked_mods s \<noteq> 0 then set_locked 0 s else s)"
definition del_oneshot_locked_mods :: "uint8 \<Rightarrow> 'z kbd_scheme \<Rightarrow> 'z kbd_scheme" where
  "del_oneshot_locked_mods mods s =
     (if oneshot_locked_mods s AND mods \<noteq> 0 then set_locked (oneshot_locked_mods s AND NOT mods) s else s)"

subsection \<open>One-shot modifiers\<close>

text \<open>\<open>oneshot_time = t\<close> where it is compiled in.\<close>

definition stamp_mods :: "'z kbd_scheme config \<Rightarrow> uint16 \<Rightarrow> 'z kbd_scheme \<Rightarrow> 'z kbd_scheme" where
  "stamp_mods cf t s = (if 0 < ONESHOT_TIMEOUT cf then s\<lparr>oneshot_time := t\<rparr> else s)"

definition has_oneshot_mods_timed_out :: "'z kbd_scheme config \<Rightarrow> 'z kbd_scheme \<Rightarrow> bool" where
  "has_oneshot_mods_timed_out cf s \<longleftrightarrow> 0 < ONESHOT_TIMEOUT cf \<and> timed_out (oneshot_time s) (ONESHOT_TIMEOUT cf) s"

definition add_oneshot_mods :: "'z kbd_scheme config \<Rightarrow> uint8 \<Rightarrow> 'z kbd_scheme \<Rightarrow> 'z kbd_scheme" where
  "add_oneshot_mods cf mods s =
     (if oneshot_mods s AND mods \<noteq> mods
      then emit (OneshotModsChanged mods) ((stamp_mods cf (now s) s)\<lparr>oneshot_mods := oneshot_mods s OR mods\<rparr>)
      else s)"

definition del_oneshot_mods :: "'z kbd_scheme config \<Rightarrow> uint8 \<Rightarrow> 'z kbd_scheme \<Rightarrow> 'z kbd_scheme" where
  "del_oneshot_mods cf mods s =
     (if oneshot_mods s AND mods \<noteq> 0
      then let m = oneshot_mods s AND NOT mods
           in emit (OneshotModsChanged m) (stamp_mods cf (if m \<noteq> 0 then now s else 0) (s\<lparr>oneshot_mods := m\<rparr>))
      else s)"

definition set_oneshot_mods :: "'z kbd_scheme config \<Rightarrow> uint8 \<Rightarrow> 'z kbd_scheme \<Rightarrow> 'z kbd_scheme" where
  "set_oneshot_mods cf mods s =
     (if oneshot_enable (keymap_config s) \<and> oneshot_mods s \<noteq> mods
      then emit (OneshotModsChanged mods) ((stamp_mods cf (now s) s)\<lparr>oneshot_mods := mods\<rparr>)
      else s)"

definition clear_oneshot_mods :: "'z kbd_scheme config \<Rightarrow> 'z kbd_scheme \<Rightarrow> 'z kbd_scheme" where
  "clear_oneshot_mods cf s =
     (if oneshot_mods s \<noteq> 0
      then emit (OneshotModsChanged 0) (stamp_mods cf 0 (s\<lparr>oneshot_mods := 0\<rparr>))
      else s)"

subsection \<open>One-shot layer\<close>

abbreviation (input) ONESHOT_PRESSED :: uint8 where "ONESHOT_PRESSED \<equiv> 1"
abbreviation (input) ONESHOT_OTHER_KEY_PRESSED :: uint8 where "ONESHOT_OTHER_KEY_PRESSED \<equiv> 2"
abbreviation (input) ONESHOT_START :: uint8 where "ONESHOT_START \<equiv> 3"
abbreviation (input) ONESHOT_TOGGLED :: uint8 where "ONESHOT_TOGGLED \<equiv> 4"

definition get_oneshot_layer :: "'z kbd_scheme \<Rightarrow> uint8" where "get_oneshot_layer s = drop_bit 3 (oneshot_layer_data s)"
definition get_oneshot_layer_state :: "'z kbd_scheme \<Rightarrow> uint8" where "get_oneshot_layer_state s = oneshot_layer_data s AND 7"
definition is_oneshot_layer_active :: "'z kbd_scheme \<Rightarrow> bool" where "is_oneshot_layer_active s \<longleftrightarrow> get_oneshot_layer_state s \<noteq> 0"

definition stamp_layer :: "'z kbd_scheme config \<Rightarrow> uint16 \<Rightarrow> 'z kbd_scheme \<Rightarrow> 'z kbd_scheme" where
  "stamp_layer cf t s = (if 0 < ONESHOT_TIMEOUT cf then s\<lparr>oneshot_layer_time := t\<rparr> else s)"

definition has_oneshot_layer_timed_out :: "'z kbd_scheme config \<Rightarrow> 'z kbd_scheme \<Rightarrow> bool" where
  "has_oneshot_layer_timed_out cf s \<longleftrightarrow>
     timed_out (oneshot_layer_time s) (ONESHOT_TIMEOUT cf) s \<and> get_oneshot_layer_state s AND ONESHOT_TOGGLED = 0"

definition set_oneshot_layer :: "'z kbd_scheme config \<Rightarrow> uint8 \<Rightarrow> uint8 \<Rightarrow> 'z kbd_scheme \<Rightarrow> 'z kbd_scheme" where
  "set_oneshot_layer cf layer state s =
     (if oneshot_enable (keymap_config s)
      then let s = s\<lparr>oneshot_layer_data := push_bit 3 layer OR state\<rparr>; s = layer_on cf layer s; s = stamp_layer cf (now s) s
           in emit (OneshotLayerChanged (get_oneshot_layer s)) s
      else layer_on cf layer s)"

definition reset_oneshot_layer :: "'z kbd_scheme config \<Rightarrow> 'z kbd_scheme \<Rightarrow> 'z kbd_scheme" where
  "reset_oneshot_layer cf s =
     (let s = stamp_layer cf 0 (s\<lparr>oneshot_layer_data := 0\<rparr>) in emit (OneshotLayerChanged (get_oneshot_layer s)) s)"

definition clear_oneshot_layer_state :: "'z kbd_scheme config \<Rightarrow> uint8 \<Rightarrow> 'z kbd_scheme \<Rightarrow> 'z kbd_scheme" where
  "clear_oneshot_layer_state cf state s =
     (let start_state = oneshot_layer_data s; s = s\<lparr>oneshot_layer_data := oneshot_layer_data s AND NOT state\<rparr>
      in if get_oneshot_layer_state s = 0 \<and> start_state \<noteq> oneshot_layer_data s \<and> oneshot_enable (keymap_config s)
         then reset_oneshot_layer cf (layer_off cf (get_oneshot_layer s) s)
         else s)"

definition oneshot_set :: "'z kbd_scheme config \<Rightarrow> bool \<Rightarrow> 'z kbd_scheme \<Rightarrow> 'z kbd_scheme" where
  "oneshot_set cf active s =
     (if oneshot_enable (keymap_config s) \<noteq> active
      then let s = s\<lparr>keymap_config := (keymap_config s)\<lparr>oneshot_enable := active\<rparr>\<rparr>;
               s = emit (EeconfigUpdateKeymap (keymap_config s)) s
           in clear_oneshot_layer_state cf ONESHOT_OTHER_KEY_PRESSED s
      else s)"

definition oneshot_toggle :: "'z kbd_scheme config \<Rightarrow> 'z kbd_scheme \<Rightarrow> 'z kbd_scheme" where
  "oneshot_toggle cf s = oneshot_set cf (\<not> oneshot_enable (keymap_config s)) s"

subsection \<open>One-shot swap hands\<close>

definition has_oneshot_swaphands_timed_out :: "'z kbd_scheme config \<Rightarrow> 'z kbd_scheme \<Rightarrow> bool" where
  "has_oneshot_swaphands_timed_out cf s \<longleftrightarrow>
     timed_out (oneshot_swaphands_time s) (ONESHOT_TIMEOUT cf) s \<and> swap_hands_oneshot s = SHO_ACTIVE"

definition clear_oneshot_swaphands :: "'z kbd_scheme config \<Rightarrow> 'z kbd_scheme \<Rightarrow> 'z kbd_scheme" where
  "clear_oneshot_swaphands cf s =
     (let s = s\<lparr>swap_hands_oneshot := SHO_OFF, swap_hands := False\<rparr>
      in if 0 < ONESHOT_TIMEOUT cf then s\<lparr>oneshot_swaphands_time := 0\<rparr> else s)"

definition set_oneshot_swaphands :: "'z kbd_scheme config \<Rightarrow> 'z kbd_scheme \<Rightarrow> 'z kbd_scheme" where
  "set_oneshot_swaphands cf s =
     (let s = s\<lparr>swap_hands_oneshot := SHO_PRESSED, swap_hands := True\<rparr>
      in if 0 < ONESHOT_TIMEOUT cf
         then let s = s\<lparr>oneshot_swaphands_time := now s\<rparr>
              in if oneshot_layer_time s \<noteq> 0 then s\<lparr>oneshot_layer_time := oneshot_swaphands_time s\<rparr> else s
         else s)"

definition release_oneshot_swaphands :: "'z kbd_scheme config \<Rightarrow> 'z kbd_scheme \<Rightarrow> 'z kbd_scheme" where
  "release_oneshot_swaphands cf s =
     (let s = (if swap_hands_oneshot s = SHO_PRESSED then s\<lparr>swap_hands_oneshot := SHO_ACTIVE\<rparr> else s)
      in if swap_hands_oneshot s = SHO_USED then clear_oneshot_swaphands cf s else s)"

definition use_oneshot_swaphands :: "'z kbd_scheme config \<Rightarrow> 'z kbd_scheme \<Rightarrow> 'z kbd_scheme" where
  "use_oneshot_swaphands cf s =
     (let s = (if swap_hands_oneshot s = SHO_PRESSED then s\<lparr>swap_hands_oneshot := SHO_USED\<rparr> else s)
      in if swap_hands_oneshot s = SHO_ACTIVE then clear_oneshot_swaphands cf s else s)"

subsection \<open>Sending the report\<close>

definition get_mods_for_report :: "'z kbd_scheme config \<Rightarrow> 'z kbd_scheme \<Rightarrow> uint8 \<times> 'z kbd_scheme" where
  "get_mods_for_report cf s =
     (let mods = real_mods s OR weak_mods s;
          (mods, s) =
            (if oneshot_mods s \<noteq> 0
             then let s = (if has_oneshot_mods_timed_out cf s then clear_oneshot_mods cf s else s);
                      mods = mods OR oneshot_mods s
                  in (mods, if has_anykey s \<noteq> 0 then clear_oneshot_mods cf s else s)
             else (mods, s))
      in ((mods AND NOT (suppressed_mods s)) OR weak_override_mods s, s))"

definition send_6kro_report :: "'z kbd_scheme config \<Rightarrow> 'z kbd_scheme \<Rightarrow> 'z kbd_scheme" where
  "send_6kro_report cf s =
     (let (mods, s) = get_mods_for_report cf s
      in if (mods, keys s) \<noteq> last_6kro s then host_keyboard_send mods (keys s) (s\<lparr>last_6kro := (mods, keys s)\<rparr>) else s)"

definition send_nkro_report :: "'z kbd_scheme config \<Rightarrow> 'z kbd_scheme \<Rightarrow> 'z kbd_scheme" where
  "send_nkro_report cf s =
     (let (mods, s) = get_mods_for_report cf s
      in if (nkro_report_id s, mods, bits s) \<noteq> last_nkro s
         then host_nkro_send mods (bits s) (s\<lparr>last_nkro := (nkro_report_id s, mods, bits s)\<rparr>) else s)"

definition send_keyboard_report :: "'z kbd_scheme config \<Rightarrow> 'z kbd_scheme \<Rightarrow> 'z kbd_scheme" where
  "send_keyboard_report cf s = (if use_nkro s then send_nkro_report cf s else send_6kro_report cf s)"

end
