(* ===== verification/Action.thy ===== *)
theory Action
  imports Action_Util
begin

text \<open>
  Executing actions (\<^verbatim>\<open>quantum/action.c\<close>) and the core of \<open>process_record_quantum\<close>
  (\<^verbatim>\<open>quantum/quantum.c\<close>). The build has extra keys and N-key rollover, and neither mouse keys nor a
  pointing device, so \<open>register_mouse\<close> does nothing. A record is passed by pointer in C and some actions
  change it: the functions return it.
\<close>

subsection \<open>Register and unregister\<close>

definition add_key :: "uint8 \<Rightarrow> 'z kbd_scheme \<Rightarrow> 'z kbd_scheme" where "add_key k s = add_key_to_report k s"
definition del_key :: "uint8 \<Rightarrow> 'z kbd_scheme \<Rightarrow> 'z kbd_scheme" where "del_key k s = del_key_from_report k s"

definition register_mods :: "'z kbd_scheme config \<Rightarrow> uint8 \<Rightarrow> 'z kbd_scheme \<Rightarrow> 'z kbd_scheme" where
  "register_mods cf mods s = (if mods \<noteq> 0 then send_keyboard_report cf (add_mods mods s) else s)"
definition unregister_mods :: "'z kbd_scheme config \<Rightarrow> uint8 \<Rightarrow> 'z kbd_scheme \<Rightarrow> 'z kbd_scheme" where
  "unregister_mods cf mods s = (if mods \<noteq> 0 then send_keyboard_report cf (del_mods mods s) else s)"
definition register_weak_mods :: "'z kbd_scheme config \<Rightarrow> uint8 \<Rightarrow> 'z kbd_scheme \<Rightarrow> 'z kbd_scheme" where
  "register_weak_mods cf mods s = (if mods \<noteq> 0 then send_keyboard_report cf (add_weak_mods mods s) else s)"
definition unregister_weak_mods :: "'z kbd_scheme config \<Rightarrow> uint8 \<Rightarrow> 'z kbd_scheme \<Rightarrow> 'z kbd_scheme" where
  "unregister_weak_mods cf mods s = (if mods \<noteq> 0 then send_keyboard_report cf (del_weak_mods mods s) else s)"

text \<open>A locking key is tapped on every press and on every release; \<open>led\<close> is its bit in the LED report.\<close>

definition locking_key :: "uint8 \<Rightarrow> (uint8 \<times> nat) option" where
  "locking_key code = (if code = KC_LOCKING_CAPS_LOCK then Some (KC_CAPS_LOCK, 1)
     else if code = KC_LOCKING_NUM_LOCK then Some (KC_NUM_LOCK, 0)
     else if code = KC_LOCKING_SCROLL_LOCK then Some (KC_SCROLL_LOCK, 2) else None)"

definition register_locking :: "'z kbd_scheme config \<Rightarrow> uint8 \<Rightarrow> nat \<Rightarrow> 'z kbd_scheme \<Rightarrow> 'z kbd_scheme" where
  "register_locking cf k led s =
     (if LOCKING_RESYNC_ENABLE cf \<and> bit (host_keyboard_leds s) led then s
      else let s = send_keyboard_report cf (add_key k s);
               s = wait_ms (if k = KC_CAPS_LOCK then TAP_HOLD_CAPS_DELAY cf else 100) s
           in send_keyboard_report cf (del_key k s))"

definition unregister_locking :: "'z kbd_scheme config \<Rightarrow> uint8 \<Rightarrow> nat \<Rightarrow> 'z kbd_scheme \<Rightarrow> 'z kbd_scheme" where
  "unregister_locking cf k led s =
     (if LOCKING_RESYNC_ENABLE cf \<and> \<not> bit (host_keyboard_leds s) led then s
      else let s = send_keyboard_report cf (add_key k s) in send_keyboard_report cf (del_key k s))"

definition register_code :: "'z kbd_scheme config \<Rightarrow> uint8 \<Rightarrow> 'z kbd_scheme \<Rightarrow> 'z kbd_scheme" where
  "register_code cf code s =
     (if code = KC_NO then s
      else if LOCKING_SUPPORT_ENABLE cf \<and> locking_key code \<noteq> None
      then (case the (locking_key code) of (k, led) \<Rightarrow> register_locking cf k led s)
      else if IS_BASIC_KEYCODE code
      then let s = (if is_key_pressed code s then send_keyboard_report cf (del_key code s) else s)
           in send_keyboard_report cf (add_key code s)
      else if IS_MODIFIER_KEYCODE code then send_keyboard_report cf (add_mods (MOD_BIT code) s)
      else if IS_SYSTEM_KEYCODE code then host_system_send (KEYCODE2SYSTEM code) s
      else if IS_CONSUMER_KEYCODE code then host_consumer_send (KEYCODE2CONSUMER code) s
      else s)"

definition unregister_code :: "'z kbd_scheme config \<Rightarrow> uint8 \<Rightarrow> 'z kbd_scheme \<Rightarrow> 'z kbd_scheme" where
  "unregister_code cf code s =
     (if code = KC_NO then s
      else if LOCKING_SUPPORT_ENABLE cf \<and> locking_key code \<noteq> None
      then (case the (locking_key code) of (k, led) \<Rightarrow> unregister_locking cf k led s)
      else if IS_BASIC_KEYCODE code then send_keyboard_report cf (del_key code s)
      else if IS_MODIFIER_KEYCODE code then send_keyboard_report cf (del_mods (MOD_BIT code) s)
      else if IS_SYSTEM_KEYCODE code then host_system_send 0 s
      else if IS_CONSUMER_KEYCODE code then host_consumer_send 0 s
      else s)"

definition tap_code_delay :: "'z kbd_scheme config \<Rightarrow> uint8 \<Rightarrow> uint16 \<Rightarrow> 'z kbd_scheme \<Rightarrow> 'z kbd_scheme" where
  "tap_code_delay cf code delay s = unregister_code cf code (wait_ms delay (register_code cf code s))"

definition tap_code :: "'z kbd_scheme config \<Rightarrow> uint8 \<Rightarrow> 'z kbd_scheme \<Rightarrow> 'z kbd_scheme" where
  "tap_code cf code s = tap_code_delay cf code (if code = KC_CAPS_LOCK then TAP_HOLD_CAPS_DELAY cf else TAP_CODE_DELAY cf) s"

definition clear_keyboard_but_mods_and_keys :: "'z kbd_scheme config \<Rightarrow> 'z kbd_scheme \<Rightarrow> 'z kbd_scheme" where
  "clear_keyboard_but_mods_and_keys cf s =
     send_keyboard_report cf (clear_weak_mods (host_consumer_send 0 (host_system_send 0 s)))"
definition clear_keyboard_but_mods :: "'z kbd_scheme config \<Rightarrow> 'z kbd_scheme \<Rightarrow> 'z kbd_scheme" where
  "clear_keyboard_but_mods cf s = clear_keyboard_but_mods_and_keys cf (clear_keys_from_report s)"
definition clear_keyboard :: "'z kbd_scheme config \<Rightarrow> 'z kbd_scheme \<Rightarrow> 'z kbd_scheme" where
  "clear_keyboard cf s = clear_keyboard_but_mods cf (clear_mods s)"

definition neutralize_flashing_modifiers :: "'z kbd_scheme config \<Rightarrow> uint8 \<Rightarrow> uint8 \<Rightarrow> 'z kbd_scheme \<Rightarrow> 'z kbd_scheme" where
  "neutralize_flashing_modifiers cf dummy active_mods s =
     (if active_mods \<in> set (MODS_TO_NEUTRALIZE cf) then tap_code cf dummy s else s)"

subsection \<open>Keycodes with modifiers\<close>

text \<open>\<open>extract_mod_bits\<close> to \<open>tap_code16\<close> of \<^verbatim>\<open>quantum/quantum.c\<close>\<close>

definition extract_mod_bits :: "uint16 \<Rightarrow> uint8" where
  "extract_mod_bits code =
     (if QK_MODS \<le> code \<and> code \<le> QK_MODS_MAX
      then let base = (if code AND 0x1000 \<noteq> 0 then 4 else 0)
           in (if code AND 0x0100 \<noteq> 0 then shl1 base else 0) OR (if code AND 0x0200 \<noteq> 0 then shl1 (base + 1) else 0)
              OR (if code AND 0x0400 \<noteq> 0 then shl1 (base + 2) else 0) OR (if code AND 0x0800 \<noteq> 0 then shl1 (base + 3) else 0)
      else 0)"

definition register_code16 :: "'z kbd_scheme config \<Rightarrow> uint16 \<Rightarrow> 'z kbd_scheme \<Rightarrow> 'z kbd_scheme" where
  "register_code16 cf code s =
     register_code cf (ucast code)
       (if IS_MODIFIER_KEYCODE code \<or> code = KC_NO then register_mods cf (extract_mod_bits code) s
        else register_weak_mods cf (extract_mod_bits code) s)"

definition unregister_code16 :: "'z kbd_scheme config \<Rightarrow> uint16 \<Rightarrow> 'z kbd_scheme \<Rightarrow> 'z kbd_scheme" where
  "unregister_code16 cf code s =
     (let s = unregister_code cf (ucast code) s
      in if IS_MODIFIER_KEYCODE code \<or> code = KC_NO then unregister_mods cf (extract_mod_bits code) s
         else unregister_weak_mods cf (extract_mod_bits code) s)"

definition tap_code16_delay :: "'z kbd_scheme config \<Rightarrow> uint16 \<Rightarrow> uint16 \<Rightarrow> 'z kbd_scheme \<Rightarrow> 'z kbd_scheme" where
  "tap_code16_delay cf code delay s =
     unregister_code16 cf code (fold (\<lambda>_. wait_ms 1) [0..<unat delay] (register_code16 cf code s))"

definition tap_code16 :: "'z kbd_scheme config \<Rightarrow> uint16 \<Rightarrow> 'z kbd_scheme \<Rightarrow> 'z kbd_scheme" where
  "tap_code16 cf code s =
     tap_code16_delay cf code (if code = KC_CAPS_LOCK then TAP_HOLD_CAPS_DELAY cf else TAP_CODE_DELAY cf) s"

subsection \<open>Actions by kind\<close>

text \<open>\<open>ACT_LMODS\<close> and \<open>ACT_RMODS\<close>: \<open>mods\<close> are the action's modifiers as report bits.\<close>

definition action_mods :: "action_t \<Rightarrow> uint8" where
  "action_mods a = (if kind_id a = ACT_LMODS \<or> kind_id a = ACT_LMODS_TAP then key_mods a else push_bit 4 (key_mods a))"

definition strong_mods :: "action_t \<Rightarrow> bool" where
  "strong_mods a \<longleftrightarrow> IS_MODIFIER_KEYCODE (key_code a) \<or> key_code a = KC_NO"

definition press_mods_key :: "'z kbd_scheme config \<Rightarrow> action_t \<Rightarrow> 'z kbd_scheme \<Rightarrow> 'z kbd_scheme" where
  "press_mods_key cf a s =
     (let mods = action_mods a;
          s = (if mods \<noteq> 0 then send_keyboard_report cf ((if strong_mods a then add_mods else add_weak_mods) mods s) else s)
      in register_code cf (key_code a) s)"

definition release_mods_key :: "'z kbd_scheme config \<Rightarrow> action_t \<Rightarrow> 'z kbd_scheme \<Rightarrow> 'z kbd_scheme" where
  "release_mods_key cf a s =
     (let mods = action_mods a; s = unregister_code cf (key_code a) s
      in if mods \<noteq> 0 then send_keyboard_report cf ((if strong_mods a then del_mods else del_weak_mods) mods s) else s)"

text \<open>The pause before a tapped key is unregistered.\<close>

definition tap_delay :: "'z kbd_scheme config \<Rightarrow> uint8 \<Rightarrow> uint16" where
  "tap_delay cf code = (if code = KC_CAPS_LOCK then TAP_HOLD_CAPS_DELAY cf else TAP_CODE_DELAY cf)"

definition process_oneshot_mods :: "'z kbd_scheme config \<Rightarrow> action_t \<Rightarrow> bool \<Rightarrow> nat \<Rightarrow> 'z kbd_scheme \<Rightarrow> 'z kbd_scheme" where
  "process_oneshot_mods cf a press tap_count s =
     (let mods = action_mods a;
          drop = (\<lambda>s. del_oneshot_locked_mods mods (del_oneshot_mods cf mods (unregister_mods cf mods s)))
      in if press
         then if tap_count = 0 then register_mods cf mods s
              else if tap_count = 1 then add_oneshot_mods cf mods s
              else if 1 < ONESHOT_TAP_TOGGLE cf \<and> tap_count = ONESHOT_TAP_TOGGLE cf
              then add_oneshot_locked_mods mods (del_oneshot_mods cf mods (register_mods cf mods s))
              else s
         else if tap_count = 0 then drop s
              else if 1 < ONESHOT_TAP_TOGGLE cf \<and> tap_count = 1 \<and> mods AND real_mods s \<noteq> 0 then drop s
              else s)"

definition process_mods_tap_key :: "'z kbd_scheme config \<Rightarrow> keyrecord_t \<Rightarrow> action_t \<Rightarrow> 'z kbd_scheme \<Rightarrow> keyrecord_t \<times> 'z kbd_scheme" where
  "process_mods_tap_key cf r a s =
     (let mods = action_mods a; tap_count = unat (count (tap r))
      in if pressed (event r)
         then if 0 < tap_count
              then if HOLD_ON_OTHER_KEY_PRESS cf
                      \<and> get_hold_on_other_key_press cf (fst (get_event_keycode cf (event r) False s)) r
                      \<and> interrupted (tap r)
                   then (set_count 0 r, register_mods cf mods s)
                   else (r, register_code cf (key_code a) s)
              else (r, register_mods cf mods s)
         else if 0 < tap_count
              then (r, unregister_code cf (key_code a) (wait_ms (tap_delay cf (layer_tap_code a)) s))
              else (r, unregister_mods cf mods
                     (case DUMMY_MOD_NEUTRALIZER_KEYCODE cf of
                        Some dummy \<Rightarrow> if RETRO_TAPPING cf \<and> retro_tapping_counter s = 2
                                       then neutralize_flashing_modifiers cf dummy (real_mods s) s else s
                      | None \<Rightarrow> s)))"

definition process_mods_tap :: "'z kbd_scheme config \<Rightarrow> keyrecord_t \<Rightarrow> action_t \<Rightarrow> 'z kbd_scheme \<Rightarrow> keyrecord_t \<times> 'z kbd_scheme" where
  "process_mods_tap cf r a s =
     (let mods = action_mods a; tap_count = unat (count (tap r)); press = pressed (event r)
      in if layer_tap_code a = MODS_ONESHOT
         then (r, if \<not> oneshot_enable (keymap_config s)
                  then (if press then press_mods_key cf a s else release_mods_key cf a s)
                  else process_oneshot_mods cf a press tap_count s)
         else if layer_tap_code a = MODS_TAP_TOGGLE
         then (r, if press then (if tap_count \<le> TAPPING_TOGGLE cf then register_mods cf mods s else s)
                  else (if tap_count < TAPPING_TOGGLE cf then unregister_mods cf mods s else s))
         else process_mods_tap_key cf r a s)"

definition process_usage :: "action_t \<Rightarrow> bool \<Rightarrow> 'z kbd_scheme \<Rightarrow> 'z kbd_scheme" where
  "process_usage a press s =
     (if usage_page a = PAGE_SYSTEM then host_system_send (if press then usage_code a else 0) s
      else if usage_page a = PAGE_CONSUMER then host_consumer_send (if press then usage_code a else 0) s
      else s)"

definition bitop_mask :: "action_t \<Rightarrow> uint16" where
  "bitop_mask a =
     (let shift = unat (layer_bitop_part a) * 4;
          bs = push_bit shift (ucast (layer_bitop_bits a));
          m = (if layer_bitop_xbit a then NOT (push_bit shift 0xF) else 0)
      in bs OR m)"

definition process_layer_bitop :: "'z kbd_scheme config \<Rightarrow> action_t \<Rightarrow> bool \<Rightarrow> 'z kbd_scheme \<Rightarrow> 'z kbd_scheme" where
  "process_layer_bitop cf a press s =
     (let oper = layer_bitop_op a; m = bitop_mask a
      in if layer_bitop_on a = 0
         then if \<not> press
              then if oper = OP_BIT_AND then default_layer_and cf m s
                   else if oper = OP_BIT_OR then default_layer_or cf m s
                   else if oper = OP_BIT_XOR then default_layer_xor cf m s
                   else default_layer_set cf m s
              else s
         else if layer_bitop_on a AND (if press then ON_PRESS else ON_RELEASE) \<noteq> 0
              then if oper = OP_BIT_AND then layer_and cf m s
                   else if oper = OP_BIT_OR then layer_or cf m s
                   else if oper = OP_BIT_XOR then layer_xor cf m s
                   else layer_state_set cf m s
              else s)"

definition process_layer_mods :: "'z kbd_scheme config \<Rightarrow> action_t \<Rightarrow> bool \<Rightarrow> 'z kbd_scheme \<Rightarrow> 'z kbd_scheme" where
  "process_layer_mods cf a press s =
     (if press then register_mods cf (layer_mods_mods a) (layer_on cf (layer_mods_layer a) s)
      else layer_off cf (layer_mods_layer a) (unregister_mods cf (layer_mods_mods a) s))"

text \<open>The one-shot layer key; the first result is \<open>do_release_oneshot\<close>.\<close>

definition process_oneshot_layer :: "'z kbd_scheme config \<Rightarrow> action_t \<Rightarrow> bool \<Rightarrow> nat \<Rightarrow> bool \<Rightarrow> 'z kbd_scheme \<Rightarrow> bool \<times> 'z kbd_scheme" where
  "process_oneshot_layer cf a press tap_count rel s =
     (let layer = layer_tap_val a
      in if \<not> oneshot_enable (keymap_config s) then (rel, if press then layer_on cf layer s else layer_off cf layer s)
         else if 1 < ONESHOT_TAP_TOGGLE cf
         then (False,
               if press
               then if get_oneshot_layer_state s = ONESHOT_TOGGLED then layer_off cf layer (reset_oneshot_layer cf s)
                    else if tap_count < ONESHOT_TAP_TOGGLE cf then set_oneshot_layer cf layer ONESHOT_START s
                    else s
               else if ONESHOT_TAP_TOGGLE cf \<le> tap_count
                    then set_oneshot_layer cf layer ONESHOT_TOGGLED (reset_oneshot_layer cf s)
                    else clear_oneshot_layer_state cf ONESHOT_PRESSED s)
         else (rel,
               if press then set_oneshot_layer cf layer ONESHOT_START s
               else let s = clear_oneshot_layer_state cf ONESHOT_PRESSED s
                    in if 1 < tap_count then clear_oneshot_layer_state cf ONESHOT_OTHER_KEY_PRESSED s else s))"

definition process_layer_tap :: "'z kbd_scheme config \<Rightarrow> action_t \<Rightarrow> bool \<Rightarrow> nat \<Rightarrow> bool \<Rightarrow> 'z kbd_scheme \<Rightarrow> bool \<times> 'z kbd_scheme" where
  "process_layer_tap cf a press tap_count rel s =
     (let code = layer_tap_code a; layer = layer_tap_val a
      in if code = OP_TAP_TOGGLE
         then (rel, if press then (if tap_count < TAPPING_TOGGLE cf then layer_invert cf layer s else s)
                    else (if tap_count \<le> TAPPING_TOGGLE cf then layer_invert cf layer s else s))
         else if code = OP_ON_OFF then (rel, if press then layer_on cf layer s else layer_off cf layer s)
         else if code = OP_OFF_ON then (rel, if press then layer_off cf layer s else layer_on cf layer s)
         else if code = OP_SET_CLEAR then (rel, if press then layer_move cf layer s else layer_clear cf s)
         else if code = OP_ONESHOT then process_oneshot_layer cf a press tap_count rel s
         else (rel,
               if press then (if 0 < tap_count then register_code cf code s else layer_on cf layer s)
               else (if 0 < tap_count then unregister_code cf code (wait_ms (tap_delay cf code) s)
                     else layer_off cf layer s)))"

definition process_swap_hands :: "'z kbd_scheme config \<Rightarrow> keyrecord_t \<Rightarrow> action_t \<Rightarrow> 'z kbd_scheme \<Rightarrow> keyrecord_t \<times> 'z kbd_scheme" where
  "process_swap_hands cf r a s =
     (let code = swap_code a; press = pressed (event r); tap_count = unat (count (tap r))
      in if code = OP_SH_TOGGLE then (r, if press then s\<lparr>swap_hands := \<not> swap_hands s\<rparr> else s)
         else if code = OP_SH_ON_OFF then (r, s\<lparr>swap_hands := press\<rparr>)
         else if code = OP_SH_OFF_ON then (r, s\<lparr>swap_hands := \<not> press\<rparr>)
         else if code = OP_SH_ON then (r, if \<not> press then s\<lparr>swap_hands := True\<rparr> else s)
         else if code = OP_SH_OFF then (r, if \<not> press then s\<lparr>swap_hands := False\<rparr> else s)
         else if code = OP_SH_ONESHOT then (r, if press then set_oneshot_swaphands cf s else release_oneshot_swaphands cf s)
         else if code = OP_SH_TAP_TOGGLE
         then (r, if press then (if swap_held s then s\<lparr>swap_held := False\<rparr> else s\<lparr>swap_hands := \<not> swap_hands s\<rparr>)
                  else (if tap_count < TAPPING_TOGGLE cf then s\<lparr>swap_hands := \<not> swap_hands s\<rparr> else s))
         else if 0 < tap_count
         then let s = (if swap_held s then s\<lparr>swap_hands := \<not> swap_hands s, swap_held := False\<rparr> else s)
              in if press then (r, register_code cf code s)
                 else (no_record, unregister_code cf code (wait_ms (TAP_CODE_DELAY cf) s))
         else (r, if swap_held s \<and> \<not> press then s\<lparr>swap_hands := \<not> swap_hands s, swap_held := False\<rparr> else s))"

definition is_tap_action :: "action_t \<Rightarrow> bool" where
  "is_tap_action a =
     (if kind_id a = ACT_LMODS_TAP \<or> kind_id a = ACT_RMODS_TAP \<or> kind_id a = ACT_LAYER_TAP \<or> kind_id a = ACT_LAYER_TAP_EXT
      then layer_tap_code a \<le> KC_RIGHT_GUI \<or> layer_tap_code a = OP_TAP_TOGGLE \<or> layer_tap_code a = OP_ONESHOT
      else if kind_id a = ACT_SWAP_HANDS then swap_code a \<le> KC_RIGHT_GUI \<or> swap_code a = OP_SH_TAP_TOGGLE
      else False)"

definition is_tap_record :: "'z kbd_scheme config \<Rightarrow> keyrecord_t \<Rightarrow> 'z kbd_scheme \<Rightarrow> bool" where
  "is_tap_record cf r s =
     (if IS_NOEVENT (event r) then False
      else is_tap_action (if keycode r \<noteq> 0 then action_for_keycode (SWAP_HANDS_ENABLE cf) (keymap_config s) (keycode r)
                          else layer_switch_get_action cf s (key (event r))))"

definition get_tap_keycode :: "uint16 \<Rightarrow> uint16" where
  "get_tap_keycode kc =
     (if IS_QK_MOD_TAP kc \<or> IS_QK_LAYER_TAP kc then ucast (low8 kc)
      else if QK_SWAP_HANDS \<le> kc \<and> kc \<le> QK_SWAP_HANDS_MAX \<and> \<not> IS_SWAP_HANDS_KEYCODE kc then ucast (low8 kc)
      else kc)"

subsection \<open>Executing an action\<close>

text \<open>A press of a key that is not a modifier uses up the one-shot layer.\<close>

definition uses_oneshot_layer :: "'z kbd_scheme config \<Rightarrow> keyrecord_t \<Rightarrow> action_t \<Rightarrow> 'z kbd_scheme \<Rightarrow> bool" where
  "uses_oneshot_layer cf r a s \<longleftrightarrow>
     is_oneshot_layer_active s \<and> pressed (event r)
     \<and> (kind_id a = ACT_USAGE
        \<or> \<not> (IS_MODIFIER_KEYCODE (key_code a)
             \<or> (kind_id a = ACT_LMODS_TAP \<or> kind_id a = ACT_RMODS_TAP)
               \<and> (layer_tap_code a \<le> MODS_TAP_TOGGLE \<or> count (tap r) = 0)))
     \<and> \<not> (SWAP_HANDS_ENABLE cf \<and> kind_id a = ACT_SWAP_HANDS \<and> swap_code a = OP_SH_ONESHOT)
     \<and> oneshot_enable (keymap_config s)"

text \<open>The big \<open>switch\<close>: \<open>do_release_oneshot\<close>, the record and the state.\<close>

definition dispatch_action :: "'z kbd_scheme config \<Rightarrow> action_t \<Rightarrow> bool \<Rightarrow> keyrecord_t \<Rightarrow> 'z kbd_scheme \<Rightarrow> bool \<times> keyrecord_t \<times> 'z kbd_scheme" where
  "dispatch_action cf a rel r s =
     (let press = pressed (event r); tap_count = unat (count (tap r)); kind = kind_id a
      in if kind = ACT_LMODS \<or> kind = ACT_RMODS
         then (rel, r, if press then press_mods_key cf a s else release_mods_key cf a s)
         else if kind = ACT_LMODS_TAP \<or> kind = ACT_RMODS_TAP then (rel, process_mods_tap cf r a s)
         else if kind = ACT_USAGE then (rel, r, process_usage a press s)
         else if kind = ACT_LAYER then (rel, r, process_layer_bitop cf a press s)
         else if kind = ACT_LAYER_MODS then (rel, r, process_layer_mods cf a press s)
         else if kind = ACT_LAYER_TAP \<or> kind = ACT_LAYER_TAP_EXT
         then (case process_layer_tap cf a press tap_count rel s of (rel, s) \<Rightarrow> (rel, r, s))
         else if SWAP_HANDS_ENABLE cf \<and> kind = ACT_SWAP_HANDS then (rel, process_swap_hands cf r a s)
         else (rel, r, s))"

definition update_leds :: "action_t \<Rightarrow> 'z kbd_scheme \<Rightarrow> 'z kbd_scheme" where
  "update_leds a s =
     (if kind_id a = ACT_LAYER \<or> kind_id a = ACT_LAYER_MODS \<or> kind_id a = ACT_LAYER_TAP \<or> kind_id a = ACT_LAYER_TAP_EXT
      then emit (LedSet (host_keyboard_leds s)) s else s)"

definition retro_tapping :: "'z kbd_scheme config \<Rightarrow> action_t \<Rightarrow> bool \<Rightarrow> nat \<Rightarrow> keyrecord_t \<Rightarrow> 'z kbd_scheme \<Rightarrow> 'z kbd_scheme" where
  "retro_tapping cf a press tap_count r s =
     (if \<not> RETRO_TAPPING cf then s
      else if \<not> is_tap_action a then s\<lparr>retro_tapping_counter := 0\<rparr>
      else if press then (if 0 < tap_count then s\<lparr>retro_tapping_counter := 0\<rparr> else s)
      else if 0 < tap_count then s\<lparr>retro_tapping_counter := 0\<rparr>
      else let s = (if get_retro_tapping cf (fst (get_event_keycode cf (event r) False s)) r \<and> retro_tapping_counter s = 2
                    then tap_code cf (layer_tap_code a) s else s)
           in s\<lparr>retro_tapping_counter := 0\<rparr>)"

text \<open>Everything \<open>process_action\<close> does before it releases the key that used the one-shot layer.\<close>

definition perform_action :: "'z kbd_scheme config \<Rightarrow> recptr \<Rightarrow> action_t \<Rightarrow> 'z kbd_scheme \<Rightarrow> bool \<times> keyrecord_t \<times> 'z kbd_scheme" where
  "perform_action cf p a s =
     (let r = deref p s; press = pressed (event r); tap_count = unat (count (tap r));
          uses = uses_oneshot_layer cf r a s;
          s = (if uses then clear_oneshot_layer_state cf ONESHOT_OTHER_KEY_PRESSED s else s);
          (rel, r, s) = dispatch_action cf a (uses \<and> \<not> is_oneshot_layer_active s) r s;
          s = assign p r s;
          s = update_leds a s;
          s = retro_tapping cf a press tap_count r s;
          s = (if SWAP_HANDS_ENABLE cf \<and> press \<and> \<not> (kind_id a = ACT_SWAP_HANDS \<and> swap_code a = OP_SH_ONESHOT)
               then use_oneshot_swaphands cf s else s)
      in (rel, r, s))"

text \<open>
  \<open>process_action\<close> calls \<open>process_record\<close> to release the key that used the one-shot layer, before the
  layer goes away. That call is the argument \<open>again\<close>; the record has \<open>pressed = false\<close>, so no third
  level can follow, and \<open>process_record\<close> below unrolls the recursion twice.
\<close>

definition process_action :: "'z kbd_scheme config \<Rightarrow> (recptr \<Rightarrow> 'z kbd_scheme \<Rightarrow> 'z kbd_scheme) \<Rightarrow> recptr \<Rightarrow> action_t \<Rightarrow> 'z kbd_scheme \<Rightarrow> 'z kbd_scheme" where
  "process_action cf again p a s =
     (let (rel, r, s) = perform_action cf p a s
      in if rel \<and> get_oneshot_layer_state s AND ONESHOT_PRESSED = 0
         then let s = assign p (r\<lparr>event := (event r)\<lparr>pressed := False\<rparr>\<rparr>) s;
                  s = layer_on cf (get_oneshot_layer s) s;
                  s = again p s
              in layer_off cf (get_oneshot_layer s) s
         else s)"

subsection \<open>process\_record\<close>

fun run_handlers :: "(uint16 \<Rightarrow> keyrecord_t \<Rightarrow> 'z kbd_scheme \<Rightarrow> bool \<times> 'z kbd_scheme) list \<Rightarrow> uint16 \<Rightarrow> keyrecord_t \<Rightarrow> 'z kbd_scheme \<Rightarrow> bool \<times> 'z kbd_scheme" where
  "run_handlers [] kc r s = (True, s)"
| "run_handlers (h # hs) kc r s = (case h kc r s of (ok, s) \<Rightarrow> if ok then run_handlers hs kc r s else (False, s))"

definition shutdown_quantum :: "'z kbd_scheme config \<Rightarrow> 'z kbd_scheme \<Rightarrow> 'z kbd_scheme" where
  "shutdown_quantum cf s = wait_ms 250 (clear_keyboard cf s)"
definition reset_keyboard :: "'z kbd_scheme config \<Rightarrow> 'z kbd_scheme \<Rightarrow> 'z kbd_scheme" where
  "reset_keyboard cf s = emit BootloaderJump (shutdown_quantum cf s)"
definition soft_reset_keyboard :: "'z kbd_scheme config \<Rightarrow> 'z kbd_scheme \<Rightarrow> 'z kbd_scheme" where
  "soft_reset_keyboard cf s = emit McuReset (shutdown_quantum cf s)"

definition process_record_quantum :: "'z kbd_scheme config \<Rightarrow> keyrecord_t \<Rightarrow> 'z kbd_scheme \<Rightarrow> bool \<times> 'z kbd_scheme" where
  "process_record_quantum cf r s =
     (let (kc, s) = get_record_keycode cf r True s; (ok, kc, s) = preprocess_record cf kc r s;
          (ok, s) = (if ok then run_handlers (record_handlers cf) kc r s else (False, s))
      in if \<not> ok then (False, s)
         else if \<not> pressed (event r) then process_action_kb cf r s
         else if kc = QK_BOOTLOADER then (False, reset_keyboard cf s)
         else if kc = QK_REBOOT then (False, soft_reset_keyboard cf s)
         else if kc = QK_DEBUG_TOGGLE then (False, s\<lparr>debug_enable := \<not> debug_enable s\<rparr>)
         else if kc = QK_CLEAR_EEPROM then (False, soft_reset_keyboard cf (emit EeconfigDisable s))
         else if kc = QK_ONE_SHOT_TOGGLE then process_action_kb cf r (oneshot_toggle cf s)
         else if kc = QK_ONE_SHOT_ON then process_action_kb cf r (oneshot_set cf True s)
         else if kc = QK_ONE_SHOT_OFF then process_action_kb cf r (oneshot_set cf False s)
         else process_action_kb cf r s)"

definition process_record_handler :: "'z kbd_scheme config \<Rightarrow> (recptr \<Rightarrow> 'z kbd_scheme \<Rightarrow> 'z kbd_scheme) \<Rightarrow> recptr \<Rightarrow> 'z kbd_scheme \<Rightarrow> 'z kbd_scheme" where
  "process_record_handler cf again p s =
     (let r = deref p s;
          (a, s) = (if keycode r \<noteq> 0
                    then (action_for_keycode (SWAP_HANDS_ENABLE cf) (keymap_config s) (keycode r), s)
                    else store_or_get_action cf (pressed (event r)) (key (event r)) s)
      in process_action cf again p a s)"

text \<open>\<open>flow_tap_update_last_event\<close> of \<^verbatim>\<open>quantum/action_tapping.c\<close>, which \<open>process_record\<close> calls\<close>

definition flow_tap_ignored :: "'z kbd_scheme config \<Rightarrow> uint16 \<Rightarrow> keyrecord_t \<Rightarrow> bool" where
  "flow_tap_ignored cf kc r \<longleftrightarrow>
     IS_MODIFIER_KEYCODE kc \<or> QK_MOMENTARY \<le> kc \<and> kc \<le> QK_MOMENTARY_MAX
     \<or> QK_LAYER_TAP_TOGGLE \<le> kc \<and> kc \<le> QK_LAYER_TAP_TOGGLE_MAX \<or> QK_ONE_SHOT_MOD \<le> kc \<and> kc \<le> QK_ONE_SHOT_MOD_MAX
     \<or> QK_ONE_SHOT_LAYER \<le> kc \<and> kc \<le> QK_ONE_SHOT_LAYER_MAX
     \<or> TRI_LAYER_ENABLE cf \<and> (kc = QK_TRI_LAYER_LOWER \<or> kc = QK_TRI_LAYER_UPPER)
     \<or> QK_MODS \<le> kc \<and> kc \<le> QK_MODS_MAX \<and> low8 kc = KC_NO
     \<or> (IS_QK_MOD_TAP kc \<or> IS_QK_LAYER_TAP kc) \<and> count (tap r) = 0"

definition flow_tap_update_last_event :: "'z kbd_scheme config \<Rightarrow> keyrecord_t \<Rightarrow> 'z kbd_scheme \<Rightarrow> 'z kbd_scheme" where
  "flow_tap_update_last_event cf r s =
     (let kc = fst (get_record_keycode cf r False s)
      in if count (tap r) = 0 \<and> (waiting_buffer_tail s \<noteq> waiting_buffer_head s
             \<or> pressed (event (tapping_key s)) \<and> count (tap (tapping_key s)) = 0) then s
         else if \<not> pressed (event r) \<and> flow_tap_ignored cf kc r then s
         else s\<lparr>flow_tap_prev_keycode := kc, flow_tap_prev_time := time (event r), flow_tap_expired := False\<rparr>)"

definition process_record_level :: "'z kbd_scheme config \<Rightarrow> (recptr \<Rightarrow> 'z kbd_scheme \<Rightarrow> 'z kbd_scheme) \<Rightarrow> recptr \<Rightarrow> 'z kbd_scheme \<Rightarrow> 'z kbd_scheme" where
  "process_record_level cf again p s =
     (if IS_NOEVENT (event (deref p s)) then s
      else let s = (if 0 < FLOW_TAP_TERM cf then flow_tap_update_last_event cf (deref p s) s else s);
               (ok, s) = process_record_quantum cf (deref p s) s
           in if \<not> ok
              then if is_oneshot_layer_active s \<and> pressed (event (deref p s)) \<and> oneshot_enable (keymap_config s)
                   then clear_oneshot_layer_state cf ONESHOT_OTHER_KEY_PRESSED s else s
              else let s = process_record_handler cf again p s; (kc, s) = get_record_keycode cf (deref p s) False s
                   in post_process_record_kb cf kc (deref p s) s)"

definition process_record :: "'z kbd_scheme config \<Rightarrow> recptr \<Rightarrow> 'z kbd_scheme \<Rightarrow> 'z kbd_scheme" where
  "process_record cf = process_record_level cf (process_record_level cf (\<lambda>p s. s))"

definition process_record_nocache :: "'z kbd_scheme config \<Rightarrow> recptr \<Rightarrow> 'z kbd_scheme \<Rightarrow> 'z kbd_scheme" where
  "process_record_nocache cf p s =
     (process_record cf p (s\<lparr>disable_action_cache := True\<rparr>))\<lparr>disable_action_cache := False\<rparr>"

end
