(* ===== verification/Tapping.thy ===== *)
theory Tapping
  imports Action
begin

text \<open>
  Tap-hold keys (\<^verbatim>\<open>quantum/action_tapping.c\<close>): the tapping state machine, the waiting buffer, Chordal
  Hold and Flow Tap, and \<open>action_exec\<close> (\<^verbatim>\<open>quantum/action.c\<close>), which feeds it. Auto Shift's retro shift is
  not compiled in. The buffer keeps its C layout, eight slots with a head and a tail index. A loop that
  moves the tail runs on fuel \<open>WAITING_BUFFER_SIZE\<close>: it can take at most seven steps.
\<close>

subsection \<open>The waiting buffer\<close>

definition WAITING_BUFFER_SIZE :: nat where "WAITING_BUFFER_SIZE = 8"

definition next_slot :: "nat \<Rightarrow> nat" where "next_slot i = (i + 1) mod WAITING_BUFFER_SIZE"

text \<open>The slots of \<open>for (i = tail; i != head; i = (i + 1) % WAITING_BUFFER_SIZE)\<close>\<close>

fun slots_from :: "nat \<Rightarrow> nat \<Rightarrow> nat \<Rightarrow> nat list" where
  "slots_from 0 i head = []"
| "slots_from (Suc n) i head = (if i = head then [] else i # slots_from n (next_slot i) head)"

definition waiting_slots :: "'z kbd_scheme \<Rightarrow> nat list" where
  "waiting_slots s = slots_from WAITING_BUFFER_SIZE (waiting_buffer_tail s) (waiting_buffer_head s)"

definition waiting_buffer_enq :: "keyrecord_t \<Rightarrow> 'z kbd_scheme \<Rightarrow> bool \<times> 'z kbd_scheme" where
  "waiting_buffer_enq r s =
     (if IS_NOEVENT (event r) then (True, s)
      else if next_slot (waiting_buffer_head s) = waiting_buffer_tail s then (False, s)
      else (True, s\<lparr>waiting_buffer := (waiting_buffer s)[waiting_buffer_head s := r],
                    waiting_buffer_head := next_slot (waiting_buffer_head s)\<rparr>))"

definition waiting_buffer_clear :: "'z kbd_scheme \<Rightarrow> 'z kbd_scheme" where
  "waiting_buffer_clear s = s\<lparr>waiting_buffer_head := 0, waiting_buffer_tail := 0\<rparr>"

definition pop_tail :: "'z kbd_scheme \<Rightarrow> 'z kbd_scheme" where
  "pop_tail s = s\<lparr>waiting_buffer_tail := next_slot (waiting_buffer_tail s)\<rparr>"

definition waiting_buffer_typed :: "keyevent_t \<Rightarrow> 'z kbd_scheme \<Rightarrow> bool" where
  "waiting_buffer_typed ev s =
     list_ex (\<lambda>i. let ev' = event (waiting_buffer s ! i) in KEYEQ (key ev) (key ev') \<and> pressed ev \<noteq> pressed ev') (waiting_slots s)"

definition waiting_buffer_has_anykey_pressed :: "'z kbd_scheme \<Rightarrow> bool" where
  "waiting_buffer_has_anykey_pressed s = list_ex (\<lambda>i. pressed (event (waiting_buffer s ! i))) (waiting_slots s)"

subsection \<open>Terms\<close>

definition tapping_keycode :: "'z kbd_scheme config \<Rightarrow> 'z kbd_scheme \<Rightarrow> uint16" where
  "tapping_keycode cf s = fst (get_record_keycode cf (tapping_key s) False s)"

definition WITHIN_TAPPING_TERM :: "'z kbd_scheme config \<Rightarrow> keyevent_t \<Rightarrow> 'z kbd_scheme \<Rightarrow> bool" where
  "WITHIN_TAPPING_TERM cf ev s \<longleftrightarrow>
     TIMER_DIFF_16 (time ev) (time (event (tapping_key s))) < get_tapping_term cf (tapping_keycode cf s) (tapping_key s)"

definition WITHIN_QUICK_TAP_TERM :: "'z kbd_scheme config \<Rightarrow> keyevent_t \<Rightarrow> 'z kbd_scheme \<Rightarrow> bool" where
  "WITHIN_QUICK_TAP_TERM cf ev s \<longleftrightarrow>
     TIMER_DIFF_16 (time ev) (time (event (tapping_key s))) < get_quick_tap_term cf (tapping_keycode cf s) (tapping_key s)"

definition IS_TAPPING_RECORD :: "keyrecord_t \<Rightarrow> 'z kbd_scheme \<Rightarrow> bool" where
  "IS_TAPPING_RECORD r s \<longleftrightarrow> KEYEQ (key (event (tapping_key s))) (key (event r)) \<and> keycode (tapping_key s) = keycode r"

definition is_mt_or_lt :: "uint16 \<Rightarrow> bool" where "is_mt_or_lt kc \<longleftrightarrow> IS_QK_MOD_TAP kc \<or> IS_QK_LAYER_TAP kc"

subsection \<open>Scanning the buffer for the release of the tapping key\<close>

definition scan_hit :: "'z kbd_scheme config \<Rightarrow> 'z kbd_scheme \<Rightarrow> nat \<Rightarrow> bool" where
  "scan_hit cf s i \<longleftrightarrow>
     (let ev = event (waiting_buffer s ! i)
      in IS_EVENT ev \<and> KEYEQ (key ev) (key (event (tapping_key s))) \<and> \<not> pressed ev \<and> WITHIN_TAPPING_TERM cf ev s)"

definition waiting_buffer_scan_tap :: "'z kbd_scheme config \<Rightarrow> 'z kbd_scheme \<Rightarrow> 'z kbd_scheme" where
  "waiting_buffer_scan_tap cf s =
     (if 0 < count (tap (tapping_key s)) \<or> \<not> pressed (event (tapping_key s)) then s
      else case List.find (scan_hit cf s) (waiting_slots s) of
        None \<Rightarrow> s
      | Some i \<Rightarrow>
          let s = assign TappingKey (set_count 1 (tapping_key s)) s;
              s = assign (Slot i) (set_count 1 (waiting_buffer s ! i)) s
          in process_record cf TappingKey s)"

subsection \<open>Registered taps\<close>

definition REGISTERED_TAPS_SIZE :: nat where "REGISTERED_TAPS_SIZE = 8"

definition registered_taps_add :: "'z kbd_scheme config \<Rightarrow> keypos_t \<Rightarrow> 'z kbd_scheme \<Rightarrow> 'z kbd_scheme" where
  "registered_taps_add cf k s =
     (let s = (if REGISTERED_TAPS_SIZE \<le> num_registered_taps s then (clear_keyboard cf s)\<lparr>num_registered_taps := 0\<rparr> else s)
      in s\<lparr>registered_taps := (registered_taps s)[num_registered_taps s := k],
           num_registered_taps := num_registered_taps s + 1\<rparr>)"

definition registered_tap_find :: "keypos_t \<Rightarrow> 'z kbd_scheme \<Rightarrow> nat option" where
  "registered_tap_find k s = List.find (\<lambda>i. KEYEQ (registered_taps s ! i) k) [0..<num_registered_taps s]"

definition registered_taps_del_index :: "nat \<Rightarrow> 'z kbd_scheme \<Rightarrow> 'z kbd_scheme" where
  "registered_taps_del_index i s =
     (if i < num_registered_taps s
      then let s = s\<lparr>num_registered_taps := num_registered_taps s - 1\<rparr>
           in if i < num_registered_taps s
              then s\<lparr>registered_taps := (registered_taps s)[i := registered_taps s ! num_registered_taps s]\<rparr> else s
      else s)"

subsection \<open>Flow Tap\<close>

definition is_flow_tap_key :: "uint16 \<Rightarrow> 'z kbd_scheme \<Rightarrow> bool" where
  "is_flow_tap_key kc s =
     (if real_mods s AND (MOD_MASK_CG OR MOD_BIT_LALT) \<noteq> 0 then False
      else let k = get_tap_keycode kc
           in k = KC_SPACE \<or> KC_A \<le> k \<and> k \<le> KC_Z \<or> k = KC_DOT \<or> k = KC_COMMA \<or> k = KC_SEMICOLON \<or> k = KC_SLASH)"

definition get_flow_tap_term :: "'z kbd_scheme config \<Rightarrow> uint16 \<Rightarrow> uint16 \<Rightarrow> 'z kbd_scheme \<Rightarrow> uint16" where
  "get_flow_tap_term cf kc prev_keycode s =
     (if is_flow_tap_key kc s \<and> is_flow_tap_key prev_keycode s then FLOW_TAP_TERM cf else 0)"

definition flow_tap_key_if_within_term :: "'z kbd_scheme config \<Rightarrow> recptr \<Rightarrow> uint16 \<Rightarrow> 'z kbd_scheme \<Rightarrow> bool \<times> 'z kbd_scheme" where
  "flow_tap_key_if_within_term cf p prev_time s =
     (let idle_time = TIMER_DIFF_16 (time (event (deref p s))) prev_time
      in if flow_tap_expired s \<or> 500 \<le> idle_time then (False, s)
         else let kc = fst (get_record_keycode cf (deref p s) False s);
                  term = get_flow_tap_term cf kc (flow_tap_prev_keycode s) s;
                  term = (if 500 < term then 500 else term)
              in if is_mt_or_lt kc \<and> idle_time < term
                 then let s = assign p (set_count 1 (deref p s)) s;
                          s = registered_taps_add cf (key (event (deref p s))) s
                      in (True, process_record cf p s)
                 else (False, s))"

text \<open>The loop after a first tap: following records of the buffer may settle as taps too.\<close>

fun flow_tap_settle :: "'z kbd_scheme config \<Rightarrow> nat \<Rightarrow> uint16 \<Rightarrow> 'z kbd_scheme \<Rightarrow> 'z kbd_scheme" where
  "flow_tap_settle cf 0 prev_time s = s"
| "flow_tap_settle cf (Suc n) prev_time s =
     (if waiting_buffer_tail s = waiting_buffer_head s then s
      else let p = Slot (waiting_buffer_tail s); next_time = time (event (deref p s))
           in if \<not> pressed (event (deref p s)) then s
              else if \<not> is_tap_record cf (deref p s) s then flow_tap_settle cf n next_time (pop_tail (process_record cf p s))
              else case flow_tap_key_if_within_term cf p prev_time s of
                (True, s) \<Rightarrow> flow_tap_settle cf n next_time (pop_tail s)
              | (False, s) \<Rightarrow> s)"

subsection \<open>Chordal Hold\<close>

definition get_chordal_hold_default :: "'z kbd_scheme config \<Rightarrow> keyrecord_t \<Rightarrow> keyrecord_t \<Rightarrow> bool" where
  "get_chordal_hold_default cf tap_hold_record other_record =
     (if event_type (event tap_hold_record) \<noteq> KEY_EVENT \<or> event_type (event other_record) \<noteq> KEY_EVENT then True
      else let tap_hold_hand = chordal_hold_layout cf (key (event tap_hold_record))
           in if tap_hold_hand = CHR ''*'' then True
              else let other_hand = chordal_hold_layout cf (key (event other_record))
                   in other_hand = CHR ''*'' \<or> tap_hold_hand \<noteq> other_hand)"

text \<open>A keyboard may replace the function; \<open>get_chordal_hold_kb\<close> is its own one.\<close>

definition get_chordal_hold :: "'z kbd_scheme config \<Rightarrow> uint16 \<Rightarrow> keyrecord_t \<Rightarrow> uint16 \<Rightarrow> keyrecord_t \<Rightarrow> bool" where
  "get_chordal_hold cf tap_hold_keycode tap_hold_record other_keycode other_record =
     (case get_chordal_hold_kb cf of
        None \<Rightarrow> get_chordal_hold_default cf tap_hold_record other_record
      | Some f \<Rightarrow> f tap_hold_keycode tap_hold_record other_keycode other_record)"

text \<open>One past the latest hold, or \<open>WAITING_BUFFER_SIZE\<close>.\<close>

fun find_chordal_hold_tap :: "'z kbd_scheme config \<Rightarrow> 'z kbd_scheme \<Rightarrow> keyrecord_t \<Rightarrow> uint16 \<Rightarrow> nat \<Rightarrow> nat list \<Rightarrow> nat" where
  "find_chordal_hold_tap cf s prev prev_keycode first_tap [] = first_tap"
| "find_chordal_hold_tap cf s prev prev_keycode first_tap (i # is) =
     (let cur = waiting_buffer s ! i; cur_keycode = fst (get_record_keycode cf cur False s)
      in if \<not> pressed (event cur) \<or> \<not> is_mt_or_lt prev_keycode then first_tap
         else find_chordal_hold_tap cf s cur cur_keycode (if get_chordal_hold cf prev_keycode prev cur_keycode cur then i else first_tap) is)"

definition waiting_buffer_find_chordal_hold_tap :: "'z kbd_scheme config \<Rightarrow> 'z kbd_scheme \<Rightarrow> nat" where
  "waiting_buffer_find_chordal_hold_tap cf s =
     find_chordal_hold_tap cf s (tapping_key s) (tapping_keycode cf s) WAITING_BUFFER_SIZE (waiting_slots s)"

fun chordal_hold_taps_until :: "'z kbd_scheme config \<Rightarrow> keypos_t \<Rightarrow> nat \<Rightarrow> 'z kbd_scheme \<Rightarrow> 'z kbd_scheme" where
  "chordal_hold_taps_until cf k 0 s = s"
| "chordal_hold_taps_until cf k (Suc n) s =
     (if waiting_buffer_tail s = waiting_buffer_head s then s
      else let p = Slot (waiting_buffer_tail s);
               s = (if pressed (event (deref p s)) \<and> is_tap_record cf (deref p s) s
                    then registered_taps_add cf (key (event (deref p s))) (assign p (set_count 1 (deref p s)) s) else s);
               s = pop_tail (process_record cf p s)
           in if KEYEQ k (key (event (deref p s))) \<and> pressed (event (deref p s)) then s
              else chordal_hold_taps_until cf k n s)"

definition waiting_buffer_chordal_hold_taps_until :: "'z kbd_scheme config \<Rightarrow> keypos_t \<Rightarrow> 'z kbd_scheme \<Rightarrow> 'z kbd_scheme" where
  "waiting_buffer_chordal_hold_taps_until cf k s = chordal_hold_taps_until cf k WAITING_BUFFER_SIZE s"

fun process_regular :: "'z kbd_scheme config \<Rightarrow> nat \<Rightarrow> 'z kbd_scheme \<Rightarrow> 'z kbd_scheme" where
  "process_regular cf 0 s = s"
| "process_regular cf (Suc n) s =
     (if waiting_buffer_tail s = waiting_buffer_head s then s
      else let p = Slot (waiting_buffer_tail s)
           in if is_tap_record cf (deref p s) s then s else process_regular cf n (pop_tail (process_record cf p s)))"

text \<open>Processing the buffer up to \<open>first_tap\<close>.\<close>

fun process_until :: "'z kbd_scheme config \<Rightarrow> nat \<Rightarrow> nat \<Rightarrow> 'z kbd_scheme \<Rightarrow> 'z kbd_scheme" where
  "process_until cf first_tap 0 s = s"
| "process_until cf first_tap (Suc n) s =
     (if waiting_buffer_tail s = first_tap then s
      else process_until cf first_tap n (pop_tail (process_record cf (Slot (waiting_buffer_tail s)) s)))"

subsection \<open>The tapping state machine\<close>

text \<open>
  \<open>process_tapping\<close>, one definition per state; the result tells whether the event is consumed. No tapping
  key: a press of a tap-hold key starts one, anything else is processed.
\<close>

definition start_tapping :: "'z kbd_scheme config \<Rightarrow> keyrecord_t \<Rightarrow> 'z kbd_scheme \<Rightarrow> 'z kbd_scheme" where
  "start_tapping cf r s = waiting_buffer_scan_tap cf (s\<lparr>tapping_key := r\<rparr>)"

text \<open>\<open>process_record_tap_hint\<close> of \<^verbatim>\<open>quantum/action.c\<close>\<close>

definition process_record_tap_hint :: "'z kbd_scheme config \<Rightarrow> keyrecord_t \<Rightarrow> 'z kbd_scheme \<Rightarrow> 'z kbd_scheme" where
  "process_record_tap_hint cf r s =
     (if \<not> IS_KEYEVENT (event r) then s
      else let a = layer_switch_get_action cf s (key (event r))
           in if SWAP_HANDS_ENABLE cf \<and> kind_id a = ACT_SWAP_HANDS \<and> swap_code a \<noteq> OP_SH_ONESHOT
              then s\<lparr>swap_hands := \<not> swap_hands s, swap_held := True\<rparr> else s)"

definition tapping_idle :: "'z kbd_scheme config \<Rightarrow> recptr \<Rightarrow> 'z kbd_scheme \<Rightarrow> bool \<times> 'z kbd_scheme" where
  "tapping_idle cf p s =
     (let r = deref p s
      in if \<not> IS_EVENT (event r) then (True, s)
         else if pressed (event r) \<and> is_tap_record cf r s
         then case (if 0 < FLOW_TAP_TERM cf then flow_tap_key_if_within_term cf p (flow_tap_prev_time s) s else (False, s)) of
             (True, s) \<Rightarrow> (True, s)
           | (False, s) \<Rightarrow>
               (True, waiting_buffer_scan_tap cf (process_record_tap_hint cf (deref p s) (s\<lparr>tapping_key := deref p s\<rparr>)))
         else (True, process_record cf p s))"

text \<open>A key pressed before the tapping key is released: modifiers and layers are kept until the tap settles.\<close>

definition retained_release :: "keyrecord_t \<Rightarrow> action_t \<Rightarrow> bool" where
  "retained_release r a \<longleftrightarrow>
     (if kind_id a = ACT_LMODS \<or> kind_id a = ACT_RMODS
      then key_mods a \<noteq> 0 \<and> key_code a = 0 \<or> IS_MODIFIER_KEYCODE (key_code a)
      else if kind_id a = ACT_LMODS_TAP \<or> kind_id a = ACT_RMODS_TAP
      then key_mods a \<noteq> 0 \<and> count (tap r) = 0 \<or> IS_MODIFIER_KEYCODE (key_code a)
      else if kind_id a = ACT_LAYER_TAP \<or> kind_id a = ACT_LAYER_TAP_EXT
      then layer_tap_code a < OP_TAP_TOGGLE \<or> layer_tap_code a = OP_ON_OFF \<or> layer_tap_code a = OP_OFF_ON
           \<or> layer_tap_code a = OP_SET_CLEAR
      else False)"

text \<open>Another key is pressed while the tapping key is down and not settled.\<close>

definition tapping_interrupt :: "'z kbd_scheme config \<Rightarrow> recptr \<Rightarrow> 'z kbd_scheme \<Rightarrow> 'z kbd_scheme" where
  "tapping_interrupt cf p s =
     (let s = assign TappingKey (set_interrupted True (tapping_key s)) s
      in if CHORDAL_HOLD cf \<and> is_mt_or_lt (tapping_keycode cf s) \<and> \<not> get_chordal_hold cf (tapping_keycode cf s) (tapping_key s) (fst (get_record_keycode cf (deref p s) False s)) (deref p s)
         then let s = assign TappingKey (set_interrupted False (tapping_key s)) s
              in if \<not> is_tap_record cf (deref p s) s
                 then let s = assign TappingKey (set_count 1 (tapping_key s)) s;
                          s = registered_taps_add cf (key (event (tapping_key s))) s
                      in (process_record cf TappingKey s)\<lparr>tapping_key := no_record\<rparr>
                 else s
         else if get_hold_on_other_key_press cf (tapping_keycode cf s) (tapping_key s)
         then let s = process_record cf TappingKey s;
                  s = (if CHORDAL_HOLD cf \<and> waiting_buffer_tail s \<noteq> waiting_buffer_head s
                          \<and> is_tap_record cf (waiting_buffer s ! waiting_buffer_tail s) s
                       then pop_tail (s\<lparr>tapping_key := waiting_buffer s ! waiting_buffer_tail s\<rparr>)
                       else s\<lparr>tapping_key := no_record\<rparr>)
              in if CHORDAL_HOLD cf then process_regular cf WAITING_BUFFER_SIZE s else s
         else s)"

text \<open>The tapping key is down, within the tapping term, not settled.\<close>

definition tapping_unsettled :: "'z kbd_scheme config \<Rightarrow> recptr \<Rightarrow> 'z kbd_scheme \<Rightarrow> bool \<times> 'z kbd_scheme" where
  "tapping_unsettled cf p s =
     (let r = deref p s; ev = event r; kc = tapping_keycode cf s
      in if IS_TAPPING_RECORD r s \<and> \<not> pressed ev
         then let s = assign TappingKey (set_count 1 (tapping_key s)) s;
                  s = process_record cf TappingKey s;
                  s = assign p ((deref p s)\<lparr>tap := tap (tapping_key s)\<rparr>) s
              in (False, if 0 < FLOW_TAP_TERM cf then flow_tap_settle cf WAITING_BUFFER_SIZE (time (event (tapping_key s))) s else s)
         else if CHORDAL_HOLD cf \<and> is_mt_or_lt kc \<and> \<not> pressed ev \<and> waiting_buffer_typed ev s
                 \<and> \<not> get_chordal_hold cf kc (tapping_key s) (fst (get_record_keycode cf r False s)) r
         then let s = assign TappingKey (set_count 1 (tapping_key s)) s;
                  s = registered_taps_add cf (key (event (tapping_key s))) s;
                  s = (process_record cf TappingKey s)\<lparr>tapping_key := no_record\<rparr>
              in (False, waiting_buffer_chordal_hold_taps_until cf (key ev) s)
         else if \<not> pressed ev \<and> waiting_buffer_typed ev s \<and> get_permissive_hold cf kc (tapping_key s)
         then let s = process_record cf TappingKey s;
                  s = (if CHORDAL_HOLD cf
                       then let first_tap = waiting_buffer_find_chordal_hold_tap cf s;
                                s = (if first_tap < WAITING_BUFFER_SIZE then process_until cf first_tap WAITING_BUFFER_SIZE s else s)
                            in waiting_buffer_chordal_hold_taps_until cf (key ev) s
                       else s)
              in (False, s\<lparr>tapping_key := no_record\<rparr>)
         else if \<not> pressed ev \<and> \<not> waiting_buffer_typed ev s
         then if retained_release r (layer_switch_get_action cf s (key ev)) then (False, s)
              else (True, process_record cf p s)
         else (False, if pressed ev then tapping_interrupt cf p s else s))"

text \<open>The record that releases the last tap, at the time of the new event.\<close>

definition release_of_tap :: "keyevent_t \<Rightarrow> keyrecord_t \<Rightarrow> keyrecord_t" where
  "release_of_tap ev tk =
     \<lparr>event = \<lparr>key = key (event tk), time = time ev, event_type = event_type (event tk), pressed = False\<rparr>,
      tap = tap tk, keycode = keycode tk\<rparr>"

text \<open>
  The tapping key is down and settled as a tap; \<open>keep\<close> says what becomes of it at its release: within
  the term it stays for a sequential tap, after the term it is reset.
\<close>

definition tapping_settled :: "'z kbd_scheme config \<Rightarrow> bool \<Rightarrow> recptr \<Rightarrow> 'z kbd_scheme \<Rightarrow> bool \<times> 'z kbd_scheme" where
  "tapping_settled cf keep p s =
     (let r = deref p s; ev = event r
      in if IS_TAPPING_RECORD r s \<and> \<not> pressed ev
         then let s = process_record cf p (assign p (r\<lparr>tap := tap (tapping_key s)\<rparr>) s)
              in (True, s\<lparr>tapping_key := (if keep then deref p s else no_record)\<rparr>)
         else if is_tap_record cf r s \<and> pressed ev
         then let s = (if 1 < count (tap (tapping_key s))
                       then process_record cf Tmp (s\<lparr>tmp_record := release_of_tap ev (tapping_key s)\<rparr>) else s)
              in (True, start_tapping cf (deref p s) s)
         else (True, process_record cf p s))"

text \<open>The tapping key is down and its term is over.\<close>

definition tapping_timeout :: "'z kbd_scheme config \<Rightarrow> recptr \<Rightarrow> 'z kbd_scheme \<Rightarrow> bool \<times> 'z kbd_scheme" where
  "tapping_timeout cf p s =
     (if count (tap (tapping_key s)) = 0 then (False, (process_record cf TappingKey s)\<lparr>tapping_key := no_record\<rparr>)
      else if IS_NOEVENT (event (deref p s)) then (True, s)
      else tapping_settled cf False p s)"

text \<open>The tapping key has been released.\<close>

definition tapping_released :: "'z kbd_scheme config \<Rightarrow> recptr \<Rightarrow> 'z kbd_scheme \<Rightarrow> bool \<times> 'z kbd_scheme" where
  "tapping_released cf p s =
     (let r = deref p s; ev = event r
      in if \<not> WITHIN_TAPPING_TERM cf ev s then (False, s\<lparr>tapping_key := no_record\<rparr>)
         else if IS_NOEVENT ev then (True, s)
         else if \<not> pressed ev then (True, process_record cf p s)
         else if IS_TAPPING_RECORD r s
         then if WITHIN_QUICK_TAP_TERM cf ev s \<and> \<not> interrupted (tap (tapping_key s)) \<and> 0 < count (tap (tapping_key s))
              then let r = r\<lparr>tap := tap (tapping_key s)\<rparr>;
                       r = (if count (tap r) < 15 then set_count (count (tap r) + 1) r else r);
                       s = process_record cf p (assign p r s)
                   in (True, s\<lparr>tapping_key := deref p s\<rparr>)
              else (True, s\<lparr>tapping_key := r\<rparr>)
         else if is_tap_record cf r s
         then case (if 0 < FLOW_TAP_TERM cf then flow_tap_key_if_within_term cf p (flow_tap_prev_time s) s else (False, s)) of
             (True, s) \<Rightarrow> (True, s\<lparr>tapping_key := no_record\<rparr>)
           | (False, s) \<Rightarrow> (True, start_tapping cf (deref p s) s)
         else (True, process_record cf p (assign TappingKey (set_interrupted True (tapping_key s)) s)))"

definition note_tap_release :: "'z kbd_scheme config \<Rightarrow> recptr \<Rightarrow> 'z kbd_scheme \<Rightarrow> 'z kbd_scheme" where
  "note_tap_release cf p s =
     (if (CHORDAL_HOLD cf \<or> 0 < FLOW_TAP_TERM cf) \<and> \<not> pressed (event (deref p s))
      then case registered_tap_find (key (event (deref p s))) s of
          Some i \<Rightarrow> registered_taps_del_index i (assign p (set_count 1 (deref p s)) s)
        | None \<Rightarrow> s
      else s)"

definition process_tapping :: "'z kbd_scheme config \<Rightarrow> recptr \<Rightarrow> 'z kbd_scheme \<Rightarrow> bool \<times> 'z kbd_scheme" where
  "process_tapping cf p s =
     (let s = note_tap_release cf p s; ev = event (deref p s)
      in if IS_NOEVENT (event (tapping_key s)) then tapping_idle cf p s
         else if pressed (event (tapping_key s))
         then if WITHIN_TAPPING_TERM cf ev s
              then if IS_NOEVENT ev then (True, s)
                   else if count (tap (tapping_key s)) = 0 then tapping_unsettled cf p s
                   else tapping_settled cf True p s
              else tapping_timeout cf p s
         else tapping_released cf p s)"

subsection \<open>Feeding the state machine\<close>

fun process_waiting :: "'z kbd_scheme config \<Rightarrow> nat \<Rightarrow> 'z kbd_scheme \<Rightarrow> 'z kbd_scheme" where
  "process_waiting cf 0 s = s"
| "process_waiting cf (Suc n) s =
     (if waiting_buffer_tail s = waiting_buffer_head s then s
      else case process_tapping cf (Slot (waiting_buffer_tail s)) s of
          (True, s) \<Rightarrow> process_waiting cf n (pop_tail s)
        | (False, s) \<Rightarrow> s)"

definition flow_tap_expire :: "'z kbd_scheme config \<Rightarrow> 'z kbd_scheme \<Rightarrow> 'z kbd_scheme" where
  "flow_tap_expire cf s =
     (if 0 < FLOW_TAP_TERM cf \<and> \<not> IS_EVENT (event (arg_record s)) \<and> \<not> flow_tap_expired s
         \<and> 16383 \<le> TIMER_DIFF_16 (time (event (arg_record s))) (flow_tap_prev_time s)
      then s\<lparr>flow_tap_expired := True\<rparr> else s)"

definition action_tapping_process :: "'z kbd_scheme config \<Rightarrow> 'z kbd_scheme \<Rightarrow> 'z kbd_scheme" where
  "action_tapping_process cf s =
     (let (consumed, s) = process_tapping cf Arg s;
          s = (if consumed then s
               else let (queued, s) = waiting_buffer_enq (arg_record s) s
                    in if queued then s
                       else (waiting_buffer_clear (clear_keyboard cf s))\<lparr>tapping_key := no_record\<rparr>)
      in flow_tap_expire cf (process_waiting cf WAITING_BUFFER_SIZE s))"

subsection \<open>Swap hands\<close>

definition should_swap_hands :: "nat \<Rightarrow> uint8 list \<Rightarrow> bool \<Rightarrow> 'z kbd_scheme \<Rightarrow> bool" where
  "should_swap_hands index swap_state press s =
     (if press then swap_hands s else test_mask (swap_state ! (index div 8)) (index mod 8))"

definition set_swap_hands_state :: "nat \<Rightarrow> bool \<Rightarrow> uint8 list \<Rightarrow> uint8 list" where
  "set_swap_hands_state index on swap_state =
     (let i = index div 8; bit_val = shl1 (index mod 8)
      in swap_state[i := if on then swap_state ! i OR bit_val else swap_state ! i AND NOT bit_val])"

definition process_hand_swap :: "'z kbd_scheme config \<Rightarrow> keyevent_t \<Rightarrow> 'z kbd_scheme \<Rightarrow> keyevent_t \<times> 'z kbd_scheme" where
  "process_hand_swap cf ev s =
     (if IS_KEYEVENT ev \<and> in_matrix cf (key ev)
      then let index = entry_number cf (key ev);
               do_swap = should_swap_hands index (matrix_swap_state s) (pressed ev) s
           in (if do_swap then ev\<lparr>key := hand_swap_config cf (key ev)\<rparr> else ev,
               s\<lparr>matrix_swap_state := set_swap_hands_state index do_swap (matrix_swap_state s)\<rparr>)
      else (ev, s))"

subsection \<open>action\_exec\<close>

definition pre_process_record_quantum :: "'z kbd_scheme config \<Rightarrow> keyrecord_t \<Rightarrow> 'z kbd_scheme \<Rightarrow> bool \<times> 'z kbd_scheme" where
  "pre_process_record_quantum cf r s = (let (kc, s) = get_record_keycode cf r True s in pre_process_record_kb cf kc r s)"

definition oneshot_timeouts :: "'z kbd_scheme config \<Rightarrow> 'z kbd_scheme \<Rightarrow> 'z kbd_scheme" where
  "oneshot_timeouts cf s =
     (if oneshot_enable (keymap_config s) \<and> 0 < ONESHOT_TIMEOUT cf
      then let s = (if has_oneshot_layer_timed_out cf s then clear_oneshot_layer_state cf ONESHOT_OTHER_KEY_PRESSED s else s);
               s = (if has_oneshot_mods_timed_out cf s then clear_oneshot_mods cf s else s)
           in if SWAP_HANDS_ENABLE cf \<and> has_oneshot_swaphands_timed_out cf s then clear_oneshot_swaphands cf s else s
      else s)"

definition action_exec :: "'z kbd_scheme config \<Rightarrow> keyevent_t \<Rightarrow> 'z kbd_scheme \<Rightarrow> 'z kbd_scheme" where
  "action_exec cf ev s =
     (let s = (if IS_EVENT ev \<and> RETRO_TAPPING cf then s\<lparr>retro_tapping_counter := retro_tapping_counter s + 1\<rparr> else s);
          s = (if pressed ev then clear_weak_mods s else s);
          (ev, s) = (if SWAP_HANDS_ENABLE cf \<and> IS_EVENT ev then process_hand_swap cf ev s else (ev, s));
          s = s\<lparr>arg_record := \<lparr>event = ev, tap = \<lparr>interrupted = False, count = 0\<rparr>, keycode = 0\<rparr>\<rparr>;
          s = oneshot_timeouts cf s
      in if IS_NOEVENT ev then action_tapping_process cf s
         else let (ok, s) = pre_process_record_quantum cf (arg_record s) s
              in if ok then action_tapping_process cf s else s)"

end
