(* ===== verification/Action_Inv.thy ===== *)
theory Action_Inv
  imports Tapping
begin

text \<open>
  Invariants of the action code. The locale \<open>state_invariant\<close> says what a property of the state has to
  put up with so that the actions keep it, \<open>action_invariant\<close> the same for \<open>process_record\<close> and
  \<open>tapping_invariant\<close> for \<open>action_exec\<close>; the keyboard's own functions (the hooks of the configuration) are
  assumed to keep it too. The invariant
  proper, \<open>kbd_inv\<close>, says that the arrays have their sizes, the indices are in range, and the host was
  last sent the keys the report holds. Other instances give that
  \<open>process_record\<close> leaves the indices of the waiting buffer alone, so that the loops over the buffer end,
  and that the recursion of \<open>process_record\<close> is at most two deep.
\<close>

subsection \<open>What a property has to put up with\<close>

text \<open>The keyboard's own functions keep \<open>P\<close>.\<close>

definition hooks_keep :: "'z kbd_scheme config \<Rightarrow> ('z kbd_scheme \<Rightarrow> bool) \<Rightarrow> bool" where
  "hooks_keep cf P \<longleftrightarrow>
     (\<forall>kc r s. P s \<longrightarrow> P (snd (pre_process_record_kb cf kc r s)))
     \<and> (\<forall>kc r s. P s \<longrightarrow> P (snd (snd (preprocess_record cf kc r s))))
     \<and> (\<forall>h\<in>set (record_handlers cf). \<forall>kc r s. P s \<longrightarrow> P (snd (h kc r s)))
     \<and> (\<forall>r s. P s \<longrightarrow> P (snd (process_action_kb cf r s)))
     \<and> (\<forall>kc r s. P s \<longrightarrow> P (post_process_record_kb cf kc r s))"

text \<open>Events that are not a keyboard report.\<close>

fun report_event :: "host_event \<Rightarrow> bool" where
  "report_event (SendKeyboard m ks) = True"
| "report_event (SendNkro m bs) = True"
| "report_event _ = False"

text \<open>
  \<open>Q\<close> is what remains of \<open>P\<close> while the report has been changed and not yet sent.
\<close>

locale state_invariant =
  fixes cf :: "'z kbd_scheme config" and P Q :: "'z kbd_scheme \<Rightarrow> bool"
  assumes weaken [simp]: "P s \<Longrightarrow> Q s"
    and send [simp]: "Q s \<Longrightarrow> P (send_keyboard_report cf s)"
    and report_ops [simp]: "Q s \<Longrightarrow> Q (add_key k s)" "Q s \<Longrightarrow> Q (del_key k s)" "Q s \<Longrightarrow> Q (clear_keys_from_report s)"
    and pending [simp]: "Q s \<Longrightarrow> Q (s\<lparr>real_mods := y\<rparr>)" "Q s \<Longrightarrow> Q (s\<lparr>weak_mods := y\<rparr>)"
      "Q s \<Longrightarrow> Q (s\<lparr>weak_override_mods := y\<rparr>)" "Q s \<Longrightarrow> Q (s\<lparr>suppressed_mods := y\<rparr>)"
      "Q s \<Longrightarrow> Q (host_system_send u s)" "Q s \<Longrightarrow> Q (host_consumer_send u s)"
    and emitted [simp]: "P s \<Longrightarrow> \<not> report_event e \<Longrightarrow> P (emit e s)"
    and sent [simp]: "P s \<Longrightarrow> P (host_system_send u s)" "P s \<Longrightarrow> P (host_consumer_send u s)"
    and cached [simp]: "P s \<Longrightarrow> P (update_source_layers_cache cf pos layer s)"
    and oneshot_config [simp]: "P s \<Longrightarrow> P (s\<lparr>keymap_config := (keymap_config s)\<lparr>oneshot_enable := b\<rparr>\<rparr>)"
    and kept [simp]: "P s \<Longrightarrow> P (s\<lparr>now := x\<rparr>)" "P s \<Longrightarrow> P (s\<lparr>layer_state := x\<rparr>)"
      "P s \<Longrightarrow> P (s\<lparr>default_layer_state := x\<rparr>)" "P s \<Longrightarrow> P (s\<lparr>real_mods := y\<rparr>)" "P s \<Longrightarrow> P (s\<lparr>weak_mods := y\<rparr>)"
      "P s \<Longrightarrow> P (s\<lparr>weak_override_mods := y\<rparr>)" "P s \<Longrightarrow> P (s\<lparr>suppressed_mods := y\<rparr>)"
      "P s \<Longrightarrow> P (s\<lparr>oneshot_mods := y\<rparr>)" "P s \<Longrightarrow> P (s\<lparr>oneshot_locked_mods := y\<rparr>)" "P s \<Longrightarrow> P (s\<lparr>oneshot_time := x\<rparr>)"
      "P s \<Longrightarrow> P (s\<lparr>oneshot_layer_data := y\<rparr>)" "P s \<Longrightarrow> P (s\<lparr>oneshot_layer_time := x\<rparr>)"
      "P s \<Longrightarrow> P (s\<lparr>swap_hands_oneshot := z\<rparr>)" "P s \<Longrightarrow> P (s\<lparr>oneshot_swaphands_time := x\<rparr>)"
      "P s \<Longrightarrow> P (s\<lparr>retro_tapping_counter := i\<rparr>)" "P s \<Longrightarrow> P (s\<lparr>swap_hands := b\<rparr>)" "P s \<Longrightarrow> P (s\<lparr>swap_held := b\<rparr>)"
      "P s \<Longrightarrow> P (s\<lparr>disable_action_cache := b\<rparr>)" "P s \<Longrightarrow> P (s\<lparr>debug_enable := b\<rparr>)"
      "P s \<Longrightarrow> P (s\<lparr>flow_tap_prev_keycode := x\<rparr>)" "P s \<Longrightarrow> P (s\<lparr>flow_tap_prev_time := x\<rparr>)"
      "P s \<Longrightarrow> P (s\<lparr>flow_tap_expired := b\<rparr>)"
begin

subsection \<open>Modifiers, layers and one-shot keys\<close>

lemma mods_kept [simp]:
  "P s \<Longrightarrow> P (add_mods m s)" "P s \<Longrightarrow> P (del_mods m s)" "P s \<Longrightarrow> P (clear_mods s)"
  "P s \<Longrightarrow> P (add_weak_mods m s)" "P s \<Longrightarrow> P (del_weak_mods m s)" "P s \<Longrightarrow> P (clear_weak_mods s)"
  "Q s \<Longrightarrow> Q (add_mods m s)" "Q s \<Longrightarrow> Q (del_mods m s)" "Q s \<Longrightarrow> Q (clear_mods s)"
  "Q s \<Longrightarrow> Q (add_weak_mods m s)" "Q s \<Longrightarrow> Q (del_weak_mods m s)" "Q s \<Longrightarrow> Q (clear_weak_mods s)"
  by (simp_all add: mods_defs)

lemma layers_kept [simp]:
  "P s \<Longrightarrow> P (layer_state_set cf x s)" "P s \<Longrightarrow> P (layer_clear cf s)" "P s \<Longrightarrow> P (layer_move cf l s)"
  "P s \<Longrightarrow> P (layer_on cf l s)" "P s \<Longrightarrow> P (layer_off cf l s)" "P s \<Longrightarrow> P (layer_invert cf l s)"
  "P s \<Longrightarrow> P (layer_or cf x s)" "P s \<Longrightarrow> P (layer_and cf x s)" "P s \<Longrightarrow> P (layer_xor cf x s)"
  "P s \<Longrightarrow> P (default_layer_set cf x s)" "P s \<Longrightarrow> P (default_layer_or cf x s)"
  "P s \<Longrightarrow> P (default_layer_and cf x s)" "P s \<Longrightarrow> P (default_layer_xor cf x s)"
  by (simp_all add: layer_defs)

lemma oneshot_kept [simp]:
  "P s \<Longrightarrow> P (stamp_mods cf t s)" "P s \<Longrightarrow> P (stamp_layer cf t s)"
  "P s \<Longrightarrow> P (set_locked m s)" "P s \<Longrightarrow> P (add_oneshot_locked_mods m s)" "P s \<Longrightarrow> P (del_oneshot_locked_mods m s)"
  "P s \<Longrightarrow> P (add_oneshot_mods cf m s)" "P s \<Longrightarrow> P (del_oneshot_mods cf m s)" "P s \<Longrightarrow> P (clear_oneshot_mods cf s)"
  by (simp_all add: stamp_mods_def stamp_layer_def set_locked_def add_oneshot_locked_mods_def del_oneshot_locked_mods_def
      add_oneshot_mods_def del_oneshot_mods_def clear_oneshot_mods_def Let_def)

lemma oneshot_layer_kept [simp]:
  "P s \<Longrightarrow> P (set_oneshot_layer cf l st s)" "P s \<Longrightarrow> P (reset_oneshot_layer cf s)"
  "P s \<Longrightarrow> P (clear_oneshot_layer_state cf st s)"
  "P s \<Longrightarrow> P (oneshot_set cf b s)" "P s \<Longrightarrow> P (oneshot_toggle cf s)"
  by (simp_all add: set_oneshot_layer_def reset_oneshot_layer_def clear_oneshot_layer_state_def oneshot_set_def
      oneshot_toggle_def Let_def)

lemma swaphands_kept [simp]:
  "P s \<Longrightarrow> P (clear_oneshot_swaphands cf s)" "P s \<Longrightarrow> P (set_oneshot_swaphands cf s)"
  "P s \<Longrightarrow> P (release_oneshot_swaphands cf s)" "P s \<Longrightarrow> P (use_oneshot_swaphands cf s)"
  by (simp_all add: clear_oneshot_swaphands_def set_oneshot_swaphands_def release_oneshot_swaphands_def
      use_oneshot_swaphands_def Let_def)

subsection \<open>Registering keys\<close>

lemma wait_kept [simp]: "P s \<Longrightarrow> P (wait_ms d s)"
  by (simp add: wait_ms_def)

lemma register_kept [simp]:
  "P s \<Longrightarrow> P (register_mods cf m s)" "P s \<Longrightarrow> P (unregister_mods cf m s)"
  "P s \<Longrightarrow> P (register_weak_mods cf m s)" "P s \<Longrightarrow> P (unregister_weak_mods cf m s)"
  "P s \<Longrightarrow> P (register_locking cf k led s)" "P s \<Longrightarrow> P (unregister_locking cf k led s)"
  by (simp_all add: register_mods_def unregister_mods_def register_weak_mods_def unregister_weak_mods_def
      register_locking_def unregister_locking_def Let_def)

lemma register_code_kept [simp]:
  "P s \<Longrightarrow> P (register_code cf k s)" "P s \<Longrightarrow> P (unregister_code cf k s)"
  by (simp_all add: register_code_def unregister_code_def Let_def split: prod.splits)

lemma tap_code_kept [simp]: "P s \<Longrightarrow> P (tap_code cf k s)"
  by (simp add: tap_code_def tap_code_delay_def)

lemma clear_keyboard_kept [simp]:
  "P s \<Longrightarrow> P (clear_keyboard cf s)" "P s \<Longrightarrow> P (neutralize_flashing_modifiers cf d m s)"
  by (simp_all add: clear_keyboard_def clear_keyboard_but_mods_def clear_keyboard_but_mods_and_keys_def
      neutralize_flashing_modifiers_def)

lemma keycode_kept [simp]:
  "P s \<Longrightarrow> P (snd (get_event_keycode cf ev b s))"
  "P s \<Longrightarrow> P (snd (get_record_keycode cf r b s))"
  "P s \<Longrightarrow> P (snd (store_or_get_action cf b pos s))"
  by (simp_all add: get_event_keycode_def get_record_keycode_def store_or_get_action_def Let_def)

subsection \<open>Actions\<close>

lemma mods_key_kept [simp]:
  "P s \<Longrightarrow> P (press_mods_key cf a s)" "P s \<Longrightarrow> P (release_mods_key cf a s)"
  "P s \<Longrightarrow> P (process_oneshot_mods cf a press n s)"
  by (simp_all add: press_mods_key_def release_mods_key_def process_oneshot_mods_def Let_def)

lemma mods_tap_kept [simp]:
  "P s \<Longrightarrow> P (snd (process_mods_tap_key cf r a s))" "P s \<Longrightarrow> P (snd (process_mods_tap cf r a s))"
  by (simp_all add: process_mods_tap_key_def process_mods_tap_def Let_def split: option.splits)

lemma layer_action_kept [simp]:
  "P s \<Longrightarrow> P (process_usage a press s)" "P s \<Longrightarrow> P (process_layer_bitop cf a press s)"
  "P s \<Longrightarrow> P (process_layer_mods cf a press s)"
  "P s \<Longrightarrow> P (snd (process_oneshot_layer cf a press n rel s))" "P s \<Longrightarrow> P (snd (process_layer_tap cf a press n rel s))"
  by (simp_all add: process_usage_def process_layer_bitop_def process_layer_mods_def process_oneshot_layer_def
      process_layer_tap_def Let_def)

lemma swap_action_kept [simp]: "P s \<Longrightarrow> P (snd (process_swap_hands cf r a s))"
  by (simp add: process_swap_hands_def Let_def)

lemma dispatch_kept [simp]: "P s \<Longrightarrow> P (snd (snd (dispatch_action cf a rel r s)))"
  by (simp add: dispatch_action_def Let_def case_prod_beta)

lemma after_action_kept [simp]: "P s \<Longrightarrow> P (update_leds a s)" "P s \<Longrightarrow> P (retro_tapping cf a press n r s)"
  by (simp_all add: update_leds_def retro_tapping_def Let_def)

lemma handlers_kept: "\<forall>h\<in>set hs. \<forall>kc r s. P s \<longrightarrow> P (snd (h kc r s)) \<Longrightarrow> P s \<Longrightarrow> P (snd (run_handlers hs kc r s))"
proof (induction hs arbitrary: s)
  case (Cons h hs)
  then show ?case by (cases "h kc r s") (auto simp: split_pairs dest!: spec [of _ kc] spec [of _ r] spec [of _ s])
qed simp

lemma record_quantum_kept: "hooks_keep cf P \<Longrightarrow> P s \<Longrightarrow> P (snd (process_record_quantum cf r s))"
  using handlers_kept [of "record_handlers cf"]
  by (simp add: process_record_quantum_def Let_def case_prod_beta hooks_keep_def reset_keyboard_def soft_reset_keyboard_def
      shutdown_quantum_def)

lemma flow_update_kept [simp]: "P s \<Longrightarrow> P (flow_tap_update_last_event cf r s)"
  by (simp add: flow_tap_update_last_event_def Let_def)

end

subsection \<open>process\_record\<close>

text \<open>\<open>process_action\<close> also writes to the record it is given.\<close>

locale action_invariant = state_invariant +
  assumes assigned [simp]: "P s \<Longrightarrow> P (assign p r s)"
begin

lemma perform_action_kept: "P s \<Longrightarrow> P (snd (snd (perform_action cf p a s)))"
  by (simp add: perform_action_def Let_def case_prod_beta)

lemma process_action_kept:
  assumes "P s" and again: "\<And>s. P s \<Longrightarrow> P (again p s)"
  shows "P (process_action cf again p a s)"
  using assms perform_action_kept [of s p a] by (simp add: process_action_def Let_def case_prod_beta)

lemma record_level_kept:
  assumes "hooks_keep cf P" "P s" and again: "\<And>s. P s \<Longrightarrow> P (again p s)"
  shows "P (process_record_level cf again p s)"
proof -
  have "P (process_record_handler cf again p s)" if "P s" for s
    using that again by (simp add: process_record_handler_def Let_def case_prod_beta process_action_kept)
  then show ?thesis using assms(1,2) record_quantum_kept [OF assms(1)]
    by (simp add: process_record_level_def Let_def case_prod_beta hooks_keep_def)
qed

theorem process_record_kept: "hooks_keep cf P \<Longrightarrow> P s \<Longrightarrow> P (process_record cf p s)"
  by (simp add: process_record_def record_level_kept)

end

subsection \<open>The tapping state machine\<close>

text \<open>The waiting buffer and the list of registered taps come in here.\<close>

locale tapping_invariant = action_invariant +
  assumes tapping_key_set [simp]: "P s \<Longrightarrow> P (s\<lparr>tapping_key := r\<rparr>)"
    and popped [simp]: "P s \<Longrightarrow> P (pop_tail s)"
    and queued [simp]: "P s \<Longrightarrow> P (snd (waiting_buffer_enq r s))"
    and cleared [simp]: "P s \<Longrightarrow> P (waiting_buffer_clear s)"
    and tap_added [simp]: "P s \<Longrightarrow> P (registered_taps_add cf pos s)"
    and tap_removed [simp]: "P s \<Longrightarrow> P (registered_taps_del_index n s)"
    and hands_swapped [simp]: "P s \<Longrightarrow> P (snd (process_hand_swap cf ev s))"
begin

lemma local_record_kept [simp]: "P s \<Longrightarrow> P (s\<lparr>tmp_record := r\<rparr>)" "P s \<Longrightarrow> P (s\<lparr>arg_record := r\<rparr>)"
  using assigned [of s Tmp r] assigned [of s Arg r] by simp_all

lemma side_steps_kept [simp]:
  "P s \<Longrightarrow> P (process_record_tap_hint cf r s)" "P s \<Longrightarrow> P (note_tap_release cf p s)"
  "P s \<Longrightarrow> P (oneshot_timeouts cf s)" "P s \<Longrightarrow> P (flow_tap_expire cf s)"
  by (simp_all add: process_record_tap_hint_def note_tap_release_def oneshot_timeouts_def flow_tap_expire_def Let_def
      split: option.splits)

lemma scan_tap_kept [simp]: "hooks_keep cf P \<Longrightarrow> P s \<Longrightarrow> P (waiting_buffer_scan_tap cf s)"
  by (simp add: waiting_buffer_scan_tap_def Let_def process_record_kept del: assign.simps split: option.splits)

lemma start_tapping_kept [simp]: "hooks_keep cf P \<Longrightarrow> P s \<Longrightarrow> P (start_tapping cf r s)"
  by (simp add: start_tapping_def)

lemma flow_key_kept [simp]: "hooks_keep cf P \<Longrightarrow> P s \<Longrightarrow> P (snd (flow_tap_key_if_within_term cf p t s))"
  by (simp add: flow_tap_key_if_within_term_def Let_def process_record_kept del: assign.simps)

lemma flow_key_cases:
  assumes "hooks_keep cf P" "P s"
  obtains b s' where "flow_tap_key_if_within_term cf p t s = (b, s')" "P s'"
  using flow_key_kept [OF assms, of p t] by (cases "flow_tap_key_if_within_term cf p t s") auto

lemma flow_settle_kept [simp]: "hooks_keep cf P \<Longrightarrow> P s \<Longrightarrow> P (flow_tap_settle cf n t s)"
proof (induction n arbitrary: s t)
  case (Suc n)
  obtain b s' where "flow_tap_key_if_within_term cf (Slot (waiting_buffer_tail s)) t s = (b, s')" "P s'"
    by (rule flow_key_cases [OF Suc.prems])
  then show ?case using Suc by (cases b) (simp_all add: Let_def process_record_kept)
qed simp

lemma taps_until_kept [simp]: "hooks_keep cf P \<Longrightarrow> P s \<Longrightarrow> P (chordal_hold_taps_until cf pos n s)"
  by (induction n arbitrary: s) (simp_all add: Let_def process_record_kept del: assign.simps)

lemma regular_kept [simp]: "hooks_keep cf P \<Longrightarrow> P s \<Longrightarrow> P (process_regular cf n s)"
  by (induction n arbitrary: s) (simp_all add: Let_def process_record_kept)

lemma until_kept [simp]: "hooks_keep cf P \<Longrightarrow> P s \<Longrightarrow> P (process_until cf i n s)"
  by (induction n arbitrary: s) (simp_all add: process_record_kept)

lemma idle_kept: "hooks_keep cf P \<Longrightarrow> P s \<Longrightarrow> P (snd (tapping_idle cf p s))"
proof -
  assume h: "hooks_keep cf P" "P s"
  obtain b s' where "flow_tap_key_if_within_term cf p (flow_tap_prev_time s) s = (b, s')" "P s'"
    by (rule flow_key_cases [OF h])
  then show ?thesis using h by (cases b) (simp_all add: tapping_idle_def Let_def process_record_kept)
qed

lemma interrupt_kept: "hooks_keep cf P \<Longrightarrow> P s \<Longrightarrow> P (tapping_interrupt cf p s)"
  by (simp add: tapping_interrupt_def Let_def process_record_kept del: assign.simps)

lemma unsettled_kept: "hooks_keep cf P \<Longrightarrow> P s \<Longrightarrow> P (snd (tapping_unsettled cf p s))"
  by (simp add: tapping_unsettled_def Let_def process_record_kept interrupt_kept waiting_buffer_chordal_hold_taps_until_def
      del: assign.simps)

lemma settled_kept: "hooks_keep cf P \<Longrightarrow> P s \<Longrightarrow> P (snd (tapping_settled cf keep p s))"
  by (simp add: tapping_settled_def Let_def process_record_kept del: assign.simps)

lemma timeout_kept: "hooks_keep cf P \<Longrightarrow> P s \<Longrightarrow> P (snd (tapping_timeout cf p s))"
  by (simp add: tapping_timeout_def process_record_kept settled_kept)

lemma released_kept: "hooks_keep cf P \<Longrightarrow> P s \<Longrightarrow> P (snd (tapping_released cf p s))"
proof -
  assume h: "hooks_keep cf P" "P s"
  obtain b s' where "flow_tap_key_if_within_term cf p (flow_tap_prev_time s) s = (b, s')" "P s'"
    by (rule flow_key_cases [OF h])
  then show ?thesis using h by (cases b) (simp_all add: tapping_released_def Let_def process_record_kept del: assign.simps)
qed

lemma process_tapping_kept: "hooks_keep cf P \<Longrightarrow> P s \<Longrightarrow> P (snd (process_tapping cf p s))"
  by (simp add: process_tapping_def Let_def idle_kept unsettled_kept settled_kept timeout_kept released_kept)

lemma process_waiting_kept: "hooks_keep cf P \<Longrightarrow> P s \<Longrightarrow> P (process_waiting cf n s)"
proof (induction n arbitrary: s)
  case (Suc n)
  then show ?case using process_tapping_kept [OF Suc.prems(1,2), of "Slot (waiting_buffer_tail s)"]
    by (auto split: prod.split bool.split)
qed simp

lemma action_tapping_process_kept: "hooks_keep cf P \<Longrightarrow> P s \<Longrightarrow> P (action_tapping_process cf s)"
  using process_tapping_kept
  by (simp add: action_tapping_process_def Let_def case_prod_beta process_waiting_kept)

theorem action_exec_kept: "hooks_keep cf P \<Longrightarrow> P s \<Longrightarrow> P (action_exec cf ev s)"
  by (simp add: action_exec_def Let_def case_prod_beta action_tapping_process_kept pre_process_record_quantum_def hooks_keep_def)

end

subsection \<open>What the host sees\<close>

fun view6 :: "host_event \<Rightarrow> uint8 \<times> uint8 list \<Rightarrow> uint8 \<times> uint8 list" where
  "view6 (SendKeyboard m ks) v = (m, ks)"
| "view6 _ v = v"

fun viewn :: "host_event \<Rightarrow> uint8 \<times> uint8 list \<Rightarrow> uint8 \<times> uint8 list" where
  "viewn (SendNkro m bs) v = (m, bs)"
| "viewn _ v = v"

text \<open>The last six-key and the last N-key report the host received.\<close>

definition host_keyboard :: "'z kbd_scheme \<Rightarrow> uint8 \<times> uint8 list" where
  "host_keyboard s = fold view6 (out s) (0, replicate KEYBOARD_REPORT_KEYS 0)"
definition host_nkro :: "'z kbd_scheme \<Rightarrow> uint8 \<times> uint8 list" where
  "host_nkro s = fold viewn (out s) (0, replicate NKRO_REPORT_BITS 0)"

definition views :: "'z kbd_scheme \<Rightarrow> bool" where
  "views s \<longleftrightarrow> report_ok s \<and> (driver s \<longrightarrow> host_keyboard s = last_6kro s \<and> host_nkro s = snd (last_nkro s))"

text \<open>The keys of the report in use are the keys of the last report that was built.\<close>

definition shown :: "'z kbd_scheme \<Rightarrow> bool" where
  "shown s \<longleftrightarrow> (if use_nkro s then bits s = snd (snd (last_nkro s)) else keys s = snd (last_6kro s))"

subsection \<open>The invariant\<close>

definition sizes :: "'z kbd_scheme config \<Rightarrow> 'z kbd_scheme \<Rightarrow> bool" where
  "sizes cf s \<longleftrightarrow> cache_ok cf (source_layers_cache s)
     \<and> length (matrix_swap_state s) = (unat (MATRIX_ROWS cf) * unat (MATRIX_COLS cf) + 7) div 8
     \<and> length (waiting_buffer s) = WAITING_BUFFER_SIZE \<and> waiting_buffer_head s < WAITING_BUFFER_SIZE
     \<and> waiting_buffer_tail s < WAITING_BUFFER_SIZE
     \<and> length (registered_taps s) = REGISTERED_TAPS_SIZE \<and> num_registered_taps s \<le> REGISTERED_TAPS_SIZE"

definition partial_inv :: "'z kbd_scheme config \<Rightarrow> 'z kbd_scheme \<Rightarrow> bool" where "partial_inv cf s \<longleftrightarrow> sizes cf s \<and> views s"
definition kbd_inv :: "'z kbd_scheme config \<Rightarrow> 'z kbd_scheme \<Rightarrow> bool" where "kbd_inv cf s \<longleftrightarrow> partial_inv cf s \<and> shown s"

lemmas inv_defs = kbd_inv_def partial_inv_def sizes_def views_def shown_def host_keyboard_def host_nkro_def
  report_ok_def use_nkro_def

lemma clear_oneshot_mods_partial [simp]: "partial_inv cf (clear_oneshot_mods cf' s) = partial_inv cf s"
  by (simp add: clear_oneshot_mods_def stamp_mods_def emit_def inv_defs)

lemma mods_for_report_partial: "get_mods_for_report cf' s = (m, s') \<Longrightarrow> partial_inv cf s \<Longrightarrow> partial_inv cf s'"
  by (auto simp: get_mods_for_report_def Let_def split: if_splits)

lemma clear_oneshot_mods_report:
  "keys (clear_oneshot_mods cf s) = keys s" "bits (clear_oneshot_mods cf s) = bits s"
  "keyboard_protocol (clear_oneshot_mods cf s) = keyboard_protocol s" "keymap_config (clear_oneshot_mods cf s) = keymap_config s"
  "driver (clear_oneshot_mods cf s) = driver s"
  by (simp_all add: clear_oneshot_mods_def stamp_mods_def emit_def)

lemma mods_for_report_frame:
  "get_mods_for_report cf s = (m, s') \<Longrightarrow> keys s' = keys s \<and> bits s' = bits s \<and> use_nkro s' = use_nkro s \<and> driver s' = driver s"
  by (auto simp: get_mods_for_report_def Let_def use_nkro_def clear_oneshot_mods_report split: if_splits)

lemma send_6kro_inv: "partial_inv cf s \<Longrightarrow> \<not> use_nkro s \<Longrightarrow> kbd_inv cf (send_6kro_report cf' s)"
proof -
  assume p: "partial_inv cf s" "\<not> use_nkro s"
  obtain m s' where g: "get_mods_for_report cf' s = (m, s')" by fastforce
  have "partial_inv cf s'" "\<not> use_nkro s'" using mods_for_report_partial [OF g p(1)] mods_for_report_frame [OF g] p(2) by auto
  then show ?thesis
    by (auto simp: send_6kro_report_def g host_keyboard_send_def emit_def inv_defs dest: arg_cong [where f = snd])
qed

lemma send_nkro_inv: "partial_inv cf s \<Longrightarrow> use_nkro s \<Longrightarrow> kbd_inv cf (send_nkro_report cf' s)"
proof -
  assume p: "partial_inv cf s" "use_nkro s"
  obtain m s' where g: "get_mods_for_report cf' s = (m, s')" by fastforce
  have "partial_inv cf s'" "use_nkro s'" using mods_for_report_partial [OF g p(1)] mods_for_report_frame [OF g] p(2) by auto
  then show ?thesis
    by (auto simp: send_nkro_report_def g host_nkro_send_def emit_def inv_defs dest: arg_cong [where f = "snd \<circ> snd"])
qed

lemma send_inv: "partial_inv cf s \<Longrightarrow> kbd_inv cf (send_keyboard_report cf' s)"
  by (simp add: send_keyboard_report_def send_6kro_inv send_nkro_inv)

lemma report_op_partial:
  "partial_inv cf s \<Longrightarrow> partial_inv cf (add_key k s)"
  "partial_inv cf s \<Longrightarrow> partial_inv cf (del_key k s)"
  "partial_inv cf s \<Longrightarrow> partial_inv cf (clear_keys_from_report s)"
  using report.inv_ops [of s]
  by (auto simp: inv_defs add_key_def del_key_def add_key_to_report_def del_key_from_report_def clear_keys_from_report_def
      split: if_splits)

lemma emit_inv: "\<not> report_event e \<Longrightarrow> kbd_inv cf s \<Longrightarrow> kbd_inv cf (emit e s)"
  by (cases e; simp add: emit_def inv_defs)

lemma host_send_inv:
  "kbd_inv cf s \<Longrightarrow> kbd_inv cf (host_system_send u s)" "kbd_inv cf s \<Longrightarrow> kbd_inv cf (host_consumer_send u s)"
  "partial_inv cf s \<Longrightarrow> partial_inv cf (host_system_send u s)" "partial_inv cf s \<Longrightarrow> partial_inv cf (host_consumer_send u s)"
  by (auto simp: host_system_send_def host_consumer_send_def Let_def emit_def inv_defs)

lemma update_cache_inv: "kbd_inv cf s \<Longrightarrow> kbd_inv cf (update_source_layers_cache cf k l s)"
  using update_cache(1) [of cf s k l]
  by (auto simp: inv_defs update_source_layers_cache_def in_matrix_def [symmetric] split: if_splits)

lemma next_slot_less [simp]: "next_slot i < WAITING_BUFFER_SIZE"
  by (simp add: next_slot_def WAITING_BUFFER_SIZE_def)

interpretation inv_record: action_invariant cf "kbd_inv cf" "partial_inv cf" for cf
proof unfold_locales
  fix p r s assume "kbd_inv cf s"
  then show "kbd_inv cf (assign p r s)" by (cases p) (simp_all add: inv_defs)
qed (simp_all add: send_inv report_op_partial emit_inv host_send_inv update_cache_inv, simp_all add: inv_defs)

lemma taps_add_inv: "kbd_inv cf s \<Longrightarrow> kbd_inv cf (registered_taps_add cf k s)"
proof -
  assume i: "kbd_inv cf s"
  have "kbd_inv cf (clear_keyboard cf s)" by (rule inv_record.clear_keyboard_kept(1) [OF i])
  then show ?thesis using i by (auto simp: registered_taps_add_def Let_def inv_defs REGISTERED_TAPS_SIZE_def)
qed

interpretation inv: tapping_invariant cf "kbd_inv cf" "partial_inv cf" for cf
proof unfold_locales
  fix s r n ev k assume i: "kbd_inv cf s"
  show "kbd_inv cf (registered_taps_add cf k s)" by (rule taps_add_inv [OF i])
  show "kbd_inv cf (s\<lparr>tapping_key := r\<rparr>)" using i by (simp add: inv_defs)
  show "kbd_inv cf (pop_tail s)" using i by (simp add: inv_defs pop_tail_def)
  show "kbd_inv cf (snd (waiting_buffer_enq r s))" using i by (auto simp: inv_defs waiting_buffer_enq_def)
  show "kbd_inv cf (waiting_buffer_clear s)" using i by (simp add: inv_defs waiting_buffer_clear_def WAITING_BUFFER_SIZE_def)
  show "kbd_inv cf (registered_taps_del_index n s)" using i by (auto simp: inv_defs registered_taps_del_index_def Let_def)
  show "kbd_inv cf (snd (process_hand_swap cf ev s))"
    using i by (simp add: inv_defs process_hand_swap_def set_swap_hands_state_def Let_def)
qed

end
