(* ===== verification/Action_Loops.thy ===== *)
theory Action_Loops
  imports Action_Inv
begin

text \<open>
  The waiting buffer as a bounded queue (\<open>bounded_queue\<close> is the contract, the ring of eight slots the
  instance), the loops over it, which end within the fuel they are given, and the recursion of
  \<open>process_record\<close>, which is at most two deep.
\<close>

subsection \<open>The indices of the waiting buffer\<close>

text \<open>Executing a record never moves the head or the tail.\<close>

definition at_indices :: "nat \<Rightarrow> nat \<Rightarrow> 'z kbd_scheme \<Rightarrow> bool" where
  "at_indices h t s \<longleftrightarrow> waiting_buffer_head s = h \<and> waiting_buffer_tail s = t"

lemma at_indices_cong:
  "waiting_buffer_head s' = waiting_buffer_head s \<Longrightarrow> waiting_buffer_tail s' = waiting_buffer_tail s \<Longrightarrow>
   at_indices h t s' = at_indices h t s"
  by (simp add: at_indices_def)

lemma mods_for_report_indices:
  "get_mods_for_report cf s = (m, s') \<Longrightarrow>
   waiting_buffer_head s' = waiting_buffer_head s \<and> waiting_buffer_tail s' = waiting_buffer_tail s"
  by (auto simp: get_mods_for_report_def clear_oneshot_mods_def stamp_mods_def emit_def Let_def split: if_splits)

lemma send_indices: "at_indices h t (send_keyboard_report cf s) = at_indices h t s"
  using mods_for_report_indices [of cf s]
  by (cases "get_mods_for_report cf s")
    (simp add: at_indices_def send_keyboard_report_def send_6kro_report_def send_nkro_report_def host_keyboard_send_def
      host_nkro_send_def emit_def)

interpretation indices: action_invariant cf "at_indices h t" "at_indices h t" for cf h t
proof unfold_locales
  fix p r s assume "at_indices h t s"
  then show "at_indices h t (assign p r s)" by (cases p) (simp_all add: at_indices_def)
qed (simp_all add: send_indices, simp_all add: at_indices_def add_key_def del_key_def add_key_to_report_def
    del_key_from_report_def clear_keys_from_report_def host_system_send_def host_consumer_send_def emit_def
    update_source_layers_cache_def Let_def)

declare indices.weaken [simp del]

lemma process_record_indices:
  assumes "\<And>h t. hooks_keep cf (at_indices h t)"
  shows "waiting_buffer_head (process_record cf p s) = waiting_buffer_head s"
    "waiting_buffer_tail (process_record cf p s) = waiting_buffer_tail s"
  using indices.process_record_kept [OF assms, where s = s and p = p] by (simp_all add: at_indices_def)

text \<open>A record of the buffer that is consumed leaves the indices where they are.\<close>

lemma clear_keyboard_indices [simp]:
  "waiting_buffer_head (clear_keyboard cf s) = waiting_buffer_head s" "waiting_buffer_tail (clear_keyboard cf s) = waiting_buffer_tail s"
  using indices.clear_keyboard_kept(1) [where cf = cf and s = s] by (simp_all add: at_indices_def)

lemma assign_indices [simp]:
  "waiting_buffer_head (assign p r s) = waiting_buffer_head s" "waiting_buffer_tail (assign p r s) = waiting_buffer_tail s"
  by (cases p; simp)+

lemma side_step_indices [simp]:
  "waiting_buffer_head (registered_taps_add cf k s) = waiting_buffer_head s"
  "waiting_buffer_tail (registered_taps_add cf k s) = waiting_buffer_tail s"
  "waiting_buffer_head (registered_taps_del_index n s) = waiting_buffer_head s"
  "waiting_buffer_tail (registered_taps_del_index n s) = waiting_buffer_tail s"
  "waiting_buffer_head (process_record_tap_hint cf r s) = waiting_buffer_head s"
  "waiting_buffer_tail (process_record_tap_hint cf r s) = waiting_buffer_tail s"
  by (simp_all add: registered_taps_add_def registered_taps_del_index_def process_record_tap_hint_def Let_def)

lemma note_release_indices [simp]:
  "waiting_buffer_head (note_tap_release cf p s) = waiting_buffer_head s"
  "waiting_buffer_tail (note_tap_release cf p s) = waiting_buffer_tail s"
  by (simp_all add: note_tap_release_def split: option.split)

definition same_indices :: "'z kbd_scheme \<Rightarrow> 'z kbd_scheme \<Rightarrow> bool" where
  "same_indices s' s \<longleftrightarrow> waiting_buffer_head s' = waiting_buffer_head s \<and> waiting_buffer_tail s' = waiting_buffer_tail s"

lemma tapping_steps_indices:
  assumes h: "\<And>h t. hooks_keep cf (at_indices h t)"
  shows "same_indices (waiting_buffer_scan_tap cf s) s" "same_indices (start_tapping cf r s) s"
    "same_indices (snd (flow_tap_key_if_within_term cf p t s)) s"
proof -
  show scan: "same_indices (waiting_buffer_scan_tap cf s) s" for s
    by (auto simp: same_indices_def waiting_buffer_scan_tap_def Let_def process_record_indices [OF h] split: option.split)
  show "same_indices (start_tapping cf r s) s" using scan [of "s\<lparr>tapping_key := r\<rparr>"] by (simp add: same_indices_def start_tapping_def)
  show "same_indices (snd (flow_tap_key_if_within_term cf p t s)) s"
    by (simp add: same_indices_def flow_tap_key_if_within_term_def Let_def process_record_indices [OF h])
qed

lemma consumed_indices:
  assumes h: "\<And>h t. hooks_keep cf (at_indices h t)" and c: "process_tapping cf p s = (True, s')"
  shows "same_indices s' s"
proof -
  note steps = process_record_indices [OF h] tapping_steps_indices [OF h, unfolded same_indices_def]
  have flow: "waiting_buffer_head s' = waiting_buffer_head s \<and> waiting_buffer_tail s' = waiting_buffer_tail s"
    if "flow_tap_key_if_within_term cf p t s = (b, s')" for b s s' t
    using steps(5) [of p t s] that by simp
  have "same_indices s' s" if "tapping_idle cf p s = (True, s')" for s
    using that flow by (auto simp: same_indices_def tapping_idle_def Let_def steps split: if_splits prod.splits bool.splits)
  moreover have "same_indices s' s" if "tapping_unsettled cf p s = (True, s')" for s
    using that by (auto simp: same_indices_def tapping_unsettled_def Let_def steps split: if_splits)
  moreover have settled: "same_indices s' s" if "tapping_settled cf k p s = (True, s')" for s k
    using that by (auto simp: same_indices_def tapping_settled_def Let_def steps split: if_splits)
  moreover have "same_indices s' s" if "tapping_timeout cf p s = (True, s')" for s
    using that settled by (auto simp: tapping_timeout_def same_indices_def split: if_splits)
  moreover have "same_indices s' s" if "tapping_released cf p s = (True, s')" for s
    using that flow by (auto simp: same_indices_def tapping_released_def Let_def steps split: if_splits prod.splits bool.splits)
  ultimately have "same_indices s' (note_tap_release cf p s)"
    using c by (auto simp: process_tapping_def Let_def same_indices_def split: if_splits)
  then show ?thesis by (simp add: same_indices_def)
qed

text \<open>So the loop over the waiting buffer ends after at most as many rounds as there are records in it.\<close>

definition waiting_count :: "'z kbd_scheme \<Rightarrow> nat" where
  "waiting_count s = (waiting_buffer_head s + WAITING_BUFFER_SIZE - waiting_buffer_tail s) mod WAITING_BUFFER_SIZE"

lemma slot_distance:
  assumes "h < WAITING_BUFFER_SIZE" "t < WAITING_BUFFER_SIZE" "t \<noteq> h"
  shows "(h + WAITING_BUFFER_SIZE - t) mod WAITING_BUFFER_SIZE =
    Suc ((h + WAITING_BUFFER_SIZE - next_slot t) mod WAITING_BUFFER_SIZE)"
proof -
  have w: "h + 8 - t = (if t < h then h - t + 8 else h + 8 - t)" using assms by (simp add: WAITING_BUFFER_SIZE_def)
  have l: "h - t < 8" "\<not> t < h \<Longrightarrow> h + 8 - t < 8" using assms by (auto simp: WAITING_BUFFER_SIZE_def)
  have n: "next_slot t = (if t = 7 then 0 else Suc t)" using assms(2) by (auto simp: WAITING_BUFFER_SIZE_def next_slot_def)
  have "(h + 8 - t) mod 8 = (if t < h then h - t else h + 8 - t)"
    using w l by (metis mod_add_self2 mod_less)
  moreover have "(h + 8 - next_slot t) mod 8 = (if t < h then h - Suc t else h + 8 - Suc t)"
  proof (cases "t = 7")
    case False
    have "h + 8 - Suc t = (if t < h then h - Suc t + 8 else h + 8 - Suc t)" using assms by (simp add: WAITING_BUFFER_SIZE_def)
    moreover have "h - Suc t < 8" "\<not> t < h \<Longrightarrow> h + 8 - Suc t < 8" using assms by (auto simp: WAITING_BUFFER_SIZE_def)
    ultimately show ?thesis using n False by (metis mod_add_self2 mod_less)
  qed (use assms n in \<open>auto simp: WAITING_BUFFER_SIZE_def\<close>)
  ultimately show ?thesis using assms by (auto simp: WAITING_BUFFER_SIZE_def)
qed

lemma process_waiting_fuel:
  assumes h: "\<And>h t. hooks_keep cf (at_indices h t)"
  shows "waiting_buffer_head s < WAITING_BUFFER_SIZE \<Longrightarrow> waiting_buffer_tail s < WAITING_BUFFER_SIZE \<Longrightarrow>
    waiting_count s \<le> n \<Longrightarrow> waiting_count s \<le> m \<Longrightarrow> process_waiting cf n s = process_waiting cf m s"
proof (induction n arbitrary: s m)
  case 0
  then have "waiting_buffer_tail s = waiting_buffer_head s"
    using slot_distance [of "waiting_buffer_head s" "waiting_buffer_tail s"] by (auto simp: waiting_count_def)
  then show ?case by (cases m) simp_all
next
  case (Suc n)
  show ?case
  proof (cases "waiting_buffer_tail s = waiting_buffer_head s")
    case True
    then show ?thesis by (cases m) simp_all
  next
    case False
    note d = slot_distance [OF Suc.prems(1,2) False]
    from d Suc.prems obtain m' where m: "m = Suc m'" by (cases m) (auto simp: waiting_count_def)
    have "process_waiting cf n (pop_tail s') = process_waiting cf m' (pop_tail s')"
      if "process_tapping cf (Slot (waiting_buffer_tail s)) s = (True, s')" for s'
      using consumed_indices [OF h that] d Suc.prems m
      by (intro Suc.IH) (auto simp: same_indices_def pop_tail_def waiting_count_def)
    then show ?thesis using m by (auto split: prod.split bool.split)
  qed
qed

text \<open>The other loops over the buffer pop one record in each round.\<close>

lemma waiting_count_pop:
  assumes "waiting_buffer_head s < WAITING_BUFFER_SIZE" "waiting_buffer_tail s < WAITING_BUFFER_SIZE"
    "waiting_buffer_tail s \<noteq> waiting_buffer_head s" "same_indices s' s"
  shows "Suc (waiting_count (pop_tail s')) = waiting_count s" "waiting_buffer_head (pop_tail s') < WAITING_BUFFER_SIZE"
    "waiting_buffer_tail (pop_tail s') < WAITING_BUFFER_SIZE"
  using assms slot_distance [OF assms(1,2,3)] by (auto simp: same_indices_def pop_tail_def waiting_count_def)

lemma waiting_count_0:
  "waiting_buffer_head s < WAITING_BUFFER_SIZE \<Longrightarrow> waiting_buffer_tail s < WAITING_BUFFER_SIZE \<Longrightarrow> waiting_count s = 0 \<Longrightarrow>
   waiting_buffer_tail s = waiting_buffer_head s"
  using slot_distance [of "waiting_buffer_head s" "waiting_buffer_tail s"] by (auto simp: waiting_count_def)

lemma waiting_count_less: "waiting_count s < WAITING_BUFFER_SIZE"
  by (simp add: waiting_count_def WAITING_BUFFER_SIZE_def)

lemma process_regular_fuel:
  assumes h: "\<And>h t. hooks_keep cf (at_indices h t)"
  shows "waiting_buffer_head s < WAITING_BUFFER_SIZE \<Longrightarrow> waiting_buffer_tail s < WAITING_BUFFER_SIZE \<Longrightarrow>
    waiting_count s \<le> n \<Longrightarrow> waiting_count s \<le> m \<Longrightarrow> process_regular cf n s = process_regular cf m s"
proof (induction n arbitrary: s m)
  case 0
  then show ?case using waiting_count_0 [of s] by (cases m) simp_all
next
  case (Suc n)
  show ?case
  proof (cases "waiting_buffer_tail s = waiting_buffer_head s")
    case False
    let ?s = "process_record cf (Slot (waiting_buffer_tail s)) s"
    have "same_indices ?s s" by (simp add: same_indices_def process_record_indices [OF h])
    note pop = waiting_count_pop [OF Suc.prems(1,2) False this]
    then obtain m' where "m = Suc m'" using Suc.prems by (cases m) auto
    then show ?thesis using Suc.IH [OF pop(2,3), of m'] pop(1) Suc.prems by (auto simp: Let_def)
  qed (cases m; simp)
qed

lemma chordal_hold_taps_until_fuel:
  assumes h: "\<And>h t. hooks_keep cf (at_indices h t)"
  shows "waiting_buffer_head s < WAITING_BUFFER_SIZE \<Longrightarrow> waiting_buffer_tail s < WAITING_BUFFER_SIZE \<Longrightarrow>
    waiting_count s \<le> n \<Longrightarrow> waiting_count s \<le> m \<Longrightarrow> chordal_hold_taps_until cf k n s = chordal_hold_taps_until cf k m s"
proof (induction n arbitrary: s m)
  case 0
  then show ?case using waiting_count_0 [of s] by (cases m) simp_all
next
  case (Suc n)
  show ?case
  proof (cases "waiting_buffer_tail s = waiting_buffer_head s")
    case False
    let ?p = "Slot (waiting_buffer_tail s)"
    let ?s1 = "if pressed (event (deref ?p s)) \<and> is_tap_record cf (deref ?p s) s
      then registered_taps_add cf (key (event (deref ?p s))) (assign ?p (set_count 1 (deref ?p s)) s) else s"
    have "same_indices (process_record cf ?p ?s1) s" by (simp add: same_indices_def process_record_indices [OF h])
    note pop = waiting_count_pop [OF Suc.prems(1,2) False this]
    then obtain m' where "m = Suc m'" using Suc.prems by (cases m) auto
    then show ?thesis using Suc.IH [OF pop(2,3), of m'] pop(1) Suc.prems by (simp only: chordal_hold_taps_until.simps Let_def)
  qed (cases m; simp)
qed

lemma flow_tap_settle_fuel:
  assumes h: "\<And>h t. hooks_keep cf (at_indices h t)"
  shows "waiting_buffer_head s < WAITING_BUFFER_SIZE \<Longrightarrow> waiting_buffer_tail s < WAITING_BUFFER_SIZE \<Longrightarrow>
    waiting_count s \<le> n \<Longrightarrow> waiting_count s \<le> m \<Longrightarrow> flow_tap_settle cf n t s = flow_tap_settle cf m t s"
proof (induction n arbitrary: s m t)
  case 0
  then show ?case using waiting_count_0 [of s] by (cases m) simp_all
next
  case (Suc n)
  show ?case
  proof (cases "waiting_buffer_tail s = waiting_buffer_head s")
    case False
    have step: "flow_tap_settle cf n t' (pop_tail s') = flow_tap_settle cf (m - 1) t' (pop_tail s')" if "same_indices s' s" for s' t'
      using waiting_count_pop [OF Suc.prems(1,2) False that] Suc.prems by (intro Suc.IH) auto
    have "m \<noteq> 0" using waiting_count_pop [OF Suc.prems(1,2) False, of s] Suc.prems by (auto simp: same_indices_def)
    then obtain m' where m: "m = Suc m'" by (cases m) auto
    let ?p = "Slot (waiting_buffer_tail s)"
    have r: "same_indices (process_record cf ?p s) s" by (simp add: same_indices_def process_record_indices [OF h])
    obtain b s' where f: "flow_tap_key_if_within_term cf ?p t s = (b, s')" by fastforce
    have "same_indices s' s" using tapping_steps_indices(3) [OF h, where p = ?p and t = t and s = s] f by simp
    then show ?thesis using step [OF r] step [of s'] m f by (cases b) (simp_all add: Let_def)
  qed (cases m; simp)
qed

text \<open>\<open>process_until\<close> stops at a slot of the buffer.\<close>

lemma process_until_stops:
  assumes h: "\<And>h t. hooks_keep cf (at_indices h t)"
  shows "i < WAITING_BUFFER_SIZE \<Longrightarrow> waiting_buffer_tail s < WAITING_BUFFER_SIZE \<Longrightarrow>
    (i + WAITING_BUFFER_SIZE - waiting_buffer_tail s) mod WAITING_BUFFER_SIZE \<le> n \<Longrightarrow>
    waiting_buffer_tail (process_until cf i n s) = i"
proof (induction n arbitrary: s)
  case 0
  then show ?case using slot_distance [of i "waiting_buffer_tail s"] by auto
next
  case (Suc n)
  then show ?case
    using slot_distance [of i "waiting_buffer_tail s"] Suc.IH [of "pop_tail (process_record cf (Slot (waiting_buffer_tail s)) s)"]
    by (auto simp: pop_tail_def process_record_indices [OF h])
qed

subsection \<open>The waiting buffer is a bounded queue\<close>

text \<open>
  The contract: a queue of at most \<open>capacity\<close> elements that refuses an element when it is full and
  takes no notice of those that are \<open>ignored\<close>.
\<close>

locale bounded_queue =
  fixes contents :: "'s \<Rightarrow> 'a list" and inv :: "'s \<Rightarrow> bool" and ignored :: "'a \<Rightarrow> bool" and capacity :: nat
    and enq :: "'a \<Rightarrow> 's \<Rightarrow> bool \<times> 's" and pop clear :: "'s \<Rightarrow> 's"
  assumes inv_ops: "inv s \<Longrightarrow> inv (snd (enq x s))" "inv s \<Longrightarrow> inv (pop s)" "inv s \<Longrightarrow> inv (clear s)"
    and enq_ignored: "ignored x \<Longrightarrow> enq x s = (True, s)"
    and enq_room: "inv s \<Longrightarrow> \<not> ignored x \<Longrightarrow> length (contents s) < capacity \<Longrightarrow>
      fst (enq x s) \<and> contents (snd (enq x s)) = contents s @ [x]"
    and enq_full: "inv s \<Longrightarrow> \<not> ignored x \<Longrightarrow> length (contents s) = capacity \<Longrightarrow> enq x s = (False, s)"
    and pop_head: "inv s \<Longrightarrow> contents s \<noteq> [] \<Longrightarrow> contents (pop s) = tl (contents s)"
    and clear_empty: "inv s \<Longrightarrow> contents (clear s) = []"
    and bounded: "inv s \<Longrightarrow> length (contents s) \<le> capacity"
begin

fun enq_all :: "'a list \<Rightarrow> 's \<Rightarrow> bool \<times> 's" where
  "enq_all [] s = (True, s)"
| "enq_all (x # xs) s = (case enq x s of (ok, s) \<Rightarrow> if ok then enq_all xs s else (False, s))"

text \<open>What is queued comes out in its order; a batch is refused only when it does not fit.\<close>

lemma enq_all_contents:
  "inv s \<Longrightarrow> length (contents s) + length (filter (\<lambda>x. \<not> ignored x) xs) \<le> capacity \<Longrightarrow>
   fst (enq_all xs s) \<and> contents (snd (enq_all xs s)) = contents s @ filter (\<lambda>x. \<not> ignored x) xs"
proof (induction xs arbitrary: s)
  case (Cons x xs)
  show ?case
  proof (cases "ignored x")
    case True
    then show ?thesis using Cons by (simp add: enq_ignored)
  next
    case False
    then have "fst (enq x s)" "contents (snd (enq x s)) = contents s @ [x]" using Cons.prems enq_room [of s x] by auto
    then show ?thesis using Cons.IH [of "snd (enq x s)"] Cons.prems inv_ops(1) [of s x] False by (simp add: case_prod_beta)
  qed
qed simp

lemma pops_contents:
  "inv s \<Longrightarrow> n \<le> length (contents s) \<Longrightarrow> contents ((pop ^^ n) s) = drop n (contents s) \<and> inv ((pop ^^ n) s)"
proof (induction n)
  case (Suc n)
  then have IH: "contents ((pop ^^ n) s) = drop n (contents s)" "inv ((pop ^^ n) s)" by simp_all
  moreover have "drop n (contents s) \<noteq> []" using Suc.prems by simp
  ultimately show ?case using pop_head inv_ops(2) by (simp add: drop_Suc tl_drop)
qed simp

text \<open>First in, first out.\<close>

lemma fifo:
  assumes "inv s" "length (contents s) + length (filter (\<lambda>x. \<not> ignored x) xs) \<le> capacity"
  shows "contents ((pop ^^ length (contents s)) (snd (enq_all xs s))) = filter (\<lambda>x. \<not> ignored x) xs"
proof -
  have "inv (snd (enq_all xs s))" using assms(1)
    by (induction xs arbitrary: s) (auto simp: case_prod_beta inv_ops)
  then show ?thesis using enq_all_contents [OF assms] pops_contents [of "snd (enq_all xs s)" "length (contents s)"] by simp
qed

end

text \<open>The slots between the tail and the head, and the records in them.\<close>

definition waiting_records :: "'z kbd_scheme \<Rightarrow> keyrecord_t list" where
  "waiting_records s = map (\<lambda>i. waiting_buffer s ! i) (waiting_slots s)"

definition ring_ok :: "'z kbd_scheme \<Rightarrow> bool" where
  "ring_ok s \<longleftrightarrow> length (waiting_buffer s) = WAITING_BUFFER_SIZE \<and> waiting_buffer_head s < WAITING_BUFFER_SIZE
     \<and> waiting_buffer_tail s < WAITING_BUFFER_SIZE"

lemma slots_from_offsets:
  "h < WAITING_BUFFER_SIZE \<Longrightarrow> t < WAITING_BUFFER_SIZE \<Longrightarrow> (h + WAITING_BUFFER_SIZE - t) mod WAITING_BUFFER_SIZE \<le> n \<Longrightarrow>
   slots_from n t h = map (\<lambda>j. (t + j) mod WAITING_BUFFER_SIZE) [0..<(h + WAITING_BUFFER_SIZE - t) mod WAITING_BUFFER_SIZE]"
proof (induction n arbitrary: t)
  case (Suc n)
  show ?case
  proof (cases "t = h")
    case False
    let ?d = "(h + WAITING_BUFFER_SIZE - next_slot t) mod WAITING_BUFFER_SIZE"
    have "(next_slot t + j) mod WAITING_BUFFER_SIZE = (t + Suc j) mod WAITING_BUFFER_SIZE" for j
      by (simp add: next_slot_def mod_simps)
    then have "map (\<lambda>j. (t + j) mod WAITING_BUFFER_SIZE) [0..<Suc ?d] = t # map (\<lambda>j. (next_slot t + j) mod WAITING_BUFFER_SIZE) [0..<?d]"
      using Suc.prems(2) by (simp add: upt_conv_Cons map_Suc_upt [symmetric] del: upt_Suc)
    then show ?thesis using Suc slot_distance [OF Suc.prems(1,2) False] False by simp
  qed simp
qed (auto dest: slot_distance)

lemma waiting_slots_offsets:
  "ring_ok s \<Longrightarrow> waiting_slots s = map (\<lambda>j. (waiting_buffer_tail s + j) mod WAITING_BUFFER_SIZE) [0..<waiting_count s]"
  unfolding waiting_slots_def waiting_count_def ring_ok_def
  by (rule slots_from_offsets) (auto simp: WAITING_BUFFER_SIZE_def intro: less_imp_le)

lemma length_waiting_records: "ring_ok s \<Longrightarrow> length (waiting_records s) = waiting_count s"
  by (simp add: waiting_records_def waiting_slots_offsets)

lemma slot_of_head: "ring_ok s \<Longrightarrow> (waiting_buffer_tail s + waiting_count s) mod WAITING_BUFFER_SIZE = waiting_buffer_head s"
  by (simp add: waiting_count_def ring_ok_def mod_simps)

lemma slots_distinct:
  assumes "j < k" "k < WAITING_BUFFER_SIZE"
  shows "(t + j) mod WAITING_BUFFER_SIZE \<noteq> (t + k) mod WAITING_BUFFER_SIZE"
proof
  assume "(t + j) mod WAITING_BUFFER_SIZE = (t + k) mod WAITING_BUFFER_SIZE"
  then have "WAITING_BUFFER_SIZE dvd k - j"
    using mod_eq_dvd_iff_nat [of "t + j" "t + k" WAITING_BUFFER_SIZE] assms(1) by simp
  then show False using assms by (auto dest: dvd_imp_le)
qed

lemma full_iff: "ring_ok s \<Longrightarrow> next_slot (waiting_buffer_head s) = waiting_buffer_tail s \<longleftrightarrow> waiting_count s = 7"
proof -
  assume r: "ring_ok s"
  have n: "next_slot (waiting_buffer_head s) = (waiting_buffer_tail s + Suc (waiting_count s)) mod WAITING_BUFFER_SIZE"
    using slot_of_head [OF r] by (simp add: next_slot_def) (metis mod_Suc_eq)
  have t: "waiting_buffer_tail s mod WAITING_BUFFER_SIZE = waiting_buffer_tail s" using r by (simp add: ring_ok_def)
  show ?thesis
    using n t slots_distinct [of 0 "Suc (waiting_count s)" "waiting_buffer_tail s"] waiting_count_less [of s]
    by (cases "waiting_count s = 7") (auto simp: WAITING_BUFFER_SIZE_def)
qed

lemma count_enq: 
  "ring_ok s \<Longrightarrow> waiting_count s < 7 \<Longrightarrow>
   waiting_count (s\<lparr>waiting_buffer := b, waiting_buffer_head := next_slot (waiting_buffer_head s)\<rparr>) = Suc (waiting_count s)"
proof -
  assume r: "ring_ok s" and c: "waiting_count s < 7"
  let ?h = "waiting_buffer_head s" and ?t = "waiting_buffer_tail s"
  have e: "x + WAITING_BUFFER_SIZE - ?t = x + (WAITING_BUFFER_SIZE - ?t)" for x using r by (simp add: ring_ok_def)
  have "(next_slot ?h + WAITING_BUFFER_SIZE - ?t) mod WAITING_BUFFER_SIZE =
      Suc ((?h + WAITING_BUFFER_SIZE - ?t) mod WAITING_BUFFER_SIZE) mod WAITING_BUFFER_SIZE"
    unfolding e next_slot_def by (simp add: mod_simps)
  then show ?thesis using c by (simp add: waiting_count_def WAITING_BUFFER_SIZE_def)
qed

lemma enq_records:
  assumes r: "ring_ok s" and c: "waiting_count s < 7"
  shows "waiting_records (s\<lparr>waiting_buffer := (waiting_buffer s)[waiting_buffer_head s := x],
    waiting_buffer_head := next_slot (waiting_buffer_head s)\<rparr>) = waiting_records s @ [x]" (is "waiting_records ?s = _")
proof -
  have "ring_ok ?s" using r by (simp add: ring_ok_def)
  note off = waiting_slots_offsets [OF this] waiting_slots_offsets [OF r] count_enq [OF r c]
  have "waiting_buffer_head s \<noteq> (waiting_buffer_tail s + j) mod WAITING_BUFFER_SIZE" if "j < waiting_count s" for j
    using slots_distinct [OF that waiting_count_less, of "waiting_buffer_tail s"] slot_of_head [OF r] by simp
  then show ?thesis using r slot_of_head [OF r] by (simp add: waiting_records_def off ring_ok_def)
qed

lemma pop_records:
  assumes r: "ring_ok s" and c: "waiting_records s \<noteq> []"
  shows "waiting_records (pop_tail s) = tl (waiting_records s)"
proof -
  have p: "ring_ok (pop_tail s)" using r by (simp add: ring_ok_def pop_tail_def)
  have d: "waiting_buffer_tail s \<noteq> waiting_buffer_head s"
    using c length_waiting_records [OF r] by (auto simp: waiting_count_def)
  have "Suc (waiting_count (pop_tail s)) = waiting_count s"
    using waiting_count_pop(1) [OF _ _ d, of s] r by (auto simp: ring_ok_def same_indices_def)
  then have "waiting_count (pop_tail s) \<le> 7" using waiting_count_less [of s] by (simp add: WAITING_BUFFER_SIZE_def)
  then have "slots_from 7 (next_slot (waiting_buffer_tail s)) (waiting_buffer_head s) = waiting_slots (pop_tail s)"
    using waiting_slots_offsets [OF p] p
    by (subst slots_from_offsets) (auto simp: ring_ok_def waiting_count_def pop_tail_def)
  moreover have "waiting_slots s = waiting_buffer_tail s # slots_from 7 (next_slot (waiting_buffer_tail s)) (waiting_buffer_head s)"
    using d slots_from.simps(2) [of 7] by (simp add: waiting_slots_def WAITING_BUFFER_SIZE_def)
  ultimately show ?thesis by (simp add: waiting_records_def pop_tail_def)
qed

interpretation waiting: bounded_queue waiting_records ring_ok "\<lambda>r. IS_NOEVENT (event r)" "WAITING_BUFFER_SIZE - 1"
  waiting_buffer_enq pop_tail waiting_buffer_clear
proof unfold_locales
  fix s x assume r: "ring_ok s"
  show "ring_ok (snd (waiting_buffer_enq x s))" "ring_ok (pop_tail s)" "ring_ok (waiting_buffer_clear s)"
    using r by (simp_all add: ring_ok_def waiting_buffer_enq_def pop_tail_def waiting_buffer_clear_def)
  show "waiting_records (pop_tail s) = tl (waiting_records s)" if "waiting_records s \<noteq> []" by (rule pop_records [OF r that])
  show "waiting_records (waiting_buffer_clear s) = []"
    by (simp add: waiting_records_def waiting_slots_def waiting_buffer_clear_def WAITING_BUFFER_SIZE_def numeral_eq_Suc)
  note len = length_waiting_records [OF r] and full = full_iff [OF r] and enq = enq_records [OF r]
  show "length (waiting_records s) \<le> WAITING_BUFFER_SIZE - 1" using len waiting_count_less [of s] by simp
  assume e: "\<not> IS_NOEVENT (event x)"
  show "fst (waiting_buffer_enq x s) \<and> waiting_records (snd (waiting_buffer_enq x s)) = waiting_records s @ [x]"
    if "length (waiting_records s) < WAITING_BUFFER_SIZE - 1"
    using that len full enq e by (simp add: waiting_buffer_enq_def WAITING_BUFFER_SIZE_def)
  show "waiting_buffer_enq x s = (False, s)" if "length (waiting_records s) = WAITING_BUFFER_SIZE - 1"
    using that len full e by (simp add: waiting_buffer_enq_def WAITING_BUFFER_SIZE_def)
qed (simp add: waiting_buffer_enq_def)

lemma oldest_record:
  "ring_ok s \<Longrightarrow> waiting_records s \<noteq> [] \<Longrightarrow> waiting_buffer s ! waiting_buffer_tail s = hd (waiting_records s)"
  using length_waiting_records [of s] by (simp add: waiting_records_def waiting_slots_offsets ring_ok_def hd_map upt_conv_Cons)

lemma typed_iff:
  "waiting_buffer_typed ev s \<longleftrightarrow> (\<exists>r\<in>set (waiting_records s). key ev = key (event r) \<and> pressed ev \<noteq> pressed (event r))"
  by (auto simp: waiting_buffer_typed_def waiting_records_def list_ex_iff Let_def)

subsection \<open>The recursion of process\_record\<close>

definition valid_ptr :: "recptr \<Rightarrow> 'z kbd_scheme \<Rightarrow> bool" where
  "valid_ptr p s \<longleftrightarrow> (case p of Slot i \<Rightarrow> i < length (waiting_buffer s) | _ \<Rightarrow> True)"

definition release_ptr :: "recptr \<Rightarrow> 'z kbd_scheme \<Rightarrow> bool" where
  "release_ptr p s \<longleftrightarrow> \<not> pressed (event (deref p s))"

lemma deref_assign [simp]: "valid_ptr p s \<Longrightarrow> deref p (assign p r s) = r"
  by (cases p) (simp_all add: valid_ptr_def)

lemma ptr_cong:
  "waiting_buffer s' = waiting_buffer s \<Longrightarrow> valid_ptr p s' = valid_ptr p s"
  "waiting_buffer s' = waiting_buffer s \<Longrightarrow> arg_record s' = arg_record s \<Longrightarrow> tmp_record s' = tmp_record s \<Longrightarrow>
   tapping_key s' = tapping_key s \<Longrightarrow> deref p s' = deref p s"
  by (cases p; simp add: valid_ptr_def)+

lemma mods_for_report_records:
  "get_mods_for_report cf s = (m, s') \<Longrightarrow> waiting_buffer s' = waiting_buffer s \<and> arg_record s' = arg_record s
     \<and> tmp_record s' = tmp_record s \<and> tapping_key s' = tapping_key s"
  by (auto simp: get_mods_for_report_def clear_oneshot_mods_def stamp_mods_def emit_def Let_def split: if_splits)

lemma send_records:
  "waiting_buffer (send_keyboard_report cf s) = waiting_buffer s" "arg_record (send_keyboard_report cf s) = arg_record s"
  "tmp_record (send_keyboard_report cf s) = tmp_record s" "tapping_key (send_keyboard_report cf s) = tapping_key s"
  using mods_for_report_records [of cf s]
  by (cases "get_mods_for_report cf s"; simp add: send_keyboard_report_def send_6kro_report_def send_nkro_report_def
      host_keyboard_send_def host_nkro_send_def emit_def)+

lemmas record_frame = add_key_def del_key_def add_key_to_report_def del_key_from_report_def clear_keys_from_report_def
  host_system_send_def host_consumer_send_def emit_def update_source_layers_cache_def Let_def

interpretation release: state_invariant cf "release_ptr p" "release_ptr p" for cf p
  by unfold_locales (cases p; simp add: release_ptr_def record_frame send_records)+

declare release.weaken [simp del]

interpretation valid: action_invariant cf "valid_ptr p" "valid_ptr p" for cf p
proof unfold_locales
  fix q r s assume "valid_ptr p s"
  then show "valid_ptr p (assign q r s)" by (cases p; cases q) (simp_all add: valid_ptr_def)
qed (cases p; simp add: valid_ptr_def record_frame send_records)+

declare valid.weaken [simp del]

text \<open>A release calls \<open>process_record\<close> no more.\<close>

lemma dispatch_no_release: "\<not> fst (dispatch_action cf a False r s)"
  by (auto simp: dispatch_action_def process_layer_tap_def process_oneshot_layer_def Let_def split: prod.splits if_splits)

lemma process_action_release: "release_ptr p s \<Longrightarrow> process_action cf A p a s = process_action cf B p a s"
proof -
  assume "release_ptr p s"
  then have "\<not> fst (perform_action cf p a s)"
    by (simp add: perform_action_def release_ptr_def uses_oneshot_layer_def dispatch_no_release Let_def case_prod_beta)
  then show ?thesis by (simp add: process_action_def case_prod_beta)
qed

lemma process_record_level_release:
  assumes "hooks_keep cf (release_ptr p)" "release_ptr p s"
  shows "process_record_level cf A p s = process_record_level cf B p s"
proof -
  have "process_record_handler cf A p s = process_record_handler cf B p s" if "release_ptr p s" for s
    using that release.keycode_kept(3) [of p s]
    by (simp add: process_action_release [of p] process_record_handler_def Let_def case_prod_beta)
  then show ?thesis using assms(2) release.record_quantum_kept [OF assms(1)]
    by (simp add: process_record_level_def Let_def case_prod_beta)
qed

lemma process_action_cong:
  assumes "\<And>s. release_ptr p s \<Longrightarrow> A p s = B p s" "valid_ptr p s"
  shows "process_action cf A p a s = process_action cf B p a s"
proof -
  obtain rel r s' where pa: "perform_action cf p a s = (rel, r, s')" by (cases "perform_action cf p a s") auto
  let ?s = "assign p (r\<lparr>event := (event r)\<lparr>pressed := False\<rparr>\<rparr>) s'"
  have "valid_ptr p s'" using valid.perform_action_kept [OF assms(2), of cf p a] pa by simp
  then have "release_ptr p ?s" by (simp add: release_ptr_def)
  then have "A p (layer_on cf l ?s) = B p (layer_on cf l ?s)" for l by (intro assms(1) release.layers_kept)
  then show ?thesis by (simp add: process_action_def pa Let_def)
qed

lemma process_record_level_cong:
  assumes "\<And>s. release_ptr p s \<Longrightarrow> A p s = B p s" "hooks_keep cf (valid_ptr p)" "valid_ptr p s"
  shows "process_record_level cf A p s = process_record_level cf B p s"
proof -
  have "process_record_handler cf A p s = process_record_handler cf B p s" if "valid_ptr p s" for s
    using that valid.keycode_kept(3) [of p s] process_action_cong [of p A B, OF assms(1)]
    by (simp add: process_record_handler_def Let_def case_prod_beta)
  then show ?thesis using assms(3) valid.record_quantum_kept [OF assms(2)]
    by (simp add: process_record_level_def Let_def case_prod_beta)
qed

lemma process_record_unfold:
  assumes "hooks_keep cf (release_ptr p)" "hooks_keep cf (valid_ptr p)" "valid_ptr p s"
  shows "process_record cf p s = process_record_level cf (process_record cf) p s"
  unfolding process_record_def
  by (intro process_record_level_cong process_record_level_release assms)

end
