(* ===== verification/Host_View.thy ===== *)
theory Host_View
  imports Action_Inv
begin

text \<open>
  The host's side: which keys and modifiers are down in the last report it received, and what
  registering a key or a one-shot modifier does to them.
\<close>

subsection \<open>Keys as the host sees them\<close>

definition host_pressed :: "uint8 \<Rightarrow> 'z kbd_scheme \<Rightarrow> bool" where
  "host_pressed k s \<longleftrightarrow>
     is_key_pressed k (s\<lparr>keys := snd (host_keyboard s), bits := snd (host_nkro s)\<rparr>)"

lemma host_pressed_iff: "kbd_inv cf s \<Longrightarrow> driver s \<Longrightarrow> host_pressed k s \<longleftrightarrow> is_key_pressed k s"
  by (auto simp: host_pressed_def is_key_pressed_def kbd_inv_def partial_inv_def views_def shown_def use_nkro_def split: if_splits)

lemma use_nkro_frame [simp]:
  "use_nkro (s\<lparr>last_6kro := x\<rparr>) = use_nkro s" "use_nkro (s\<lparr>last_nkro := y\<rparr>) = use_nkro s"
  "use_nkro (s\<lparr>nkro_report_id := z\<rparr>) = use_nkro s" "use_nkro (s\<lparr>out := l\<rparr>) = use_nkro s"
  by (simp_all add: use_nkro_def)

lemma send_report:
  "keys (send_keyboard_report cf s) = keys s" "bits (send_keyboard_report cf s) = bits s"
  "use_nkro (send_keyboard_report cf s) = use_nkro s" "driver (send_keyboard_report cf s) = driver s"
proof -
  obtain m s' where g: "get_mods_for_report cf s = (m, s')" by fastforce
  note f = mods_for_report_frame [OF g]
  show "keys (send_keyboard_report cf s) = keys s" "bits (send_keyboard_report cf s) = bits s"
    "use_nkro (send_keyboard_report cf s) = use_nkro s" "driver (send_keyboard_report cf s) = driver s"
    using f by (simp_all add: g send_keyboard_report_def send_6kro_report_def send_nkro_report_def host_keyboard_send_def
        host_nkro_send_def emit_def)
qed

lemma pressed_cong:
  "keys s = keys s' \<Longrightarrow> bits s = bits s' \<Longrightarrow> use_nkro s = use_nkro s' \<Longrightarrow> is_key_pressed k s = is_key_pressed k s'"
  "keys s = keys s' \<Longrightarrow> bits s = bits s' \<Longrightarrow> use_nkro s = use_nkro s' \<Longrightarrow> has_room s k = has_room s' k"
  by (simp_all add: is_key_pressed_def has_room_def)

lemma pressed_send [simp]: "is_key_pressed k (send_keyboard_report cf s) = is_key_pressed k s"
  by (rule pressed_cong) (simp_all add: send_report)

lemma room_send [simp]: "has_room (send_keyboard_report cf s) k = has_room s k"
  by (rule pressed_cong) (simp_all add: send_report)

lemma driver_report_ops [simp]:
  "driver (add_key k s) = driver s" "driver (del_key k s) = driver s"
  by (simp_all add: add_key_def del_key_def add_key_to_report_def del_key_from_report_def)

lemma pressed_report_ops:
  assumes "report_ok s" "k \<noteq> 0"
  shows "is_key_pressed j (add_key k s) \<longleftrightarrow> is_key_pressed j s \<or> (j = k \<and> has_room s k)"
    "is_key_pressed j (del_key k s) \<longleftrightarrow> is_key_pressed j s \<and> j \<noteq> k"
  using report.pressed_add [OF assms, of j] report.pressed_del [OF assms, of j] by (simp_all add: add_key_def del_key_def)

lemma room_after_del: "report_ok s \<Longrightarrow> k \<noteq> 0 \<Longrightarrow> is_key_pressed k s \<Longrightarrow> has_room (del_key k s) k"
  by (auto simp: del_key_def del_key_from_report_def has_room_def is_key_pressed_def use_nkro_def del_key_byte_map report_ok_def
      list_ex_iff image_iff dest: in_set_takeD split: if_splits)

lemma pressed_has_room: "report_ok s \<Longrightarrow> is_key_pressed k s \<Longrightarrow> has_room s k"
  by (rule report.pressed_accepted)

lemma inv_report_ok: "kbd_inv cf s \<Longrightarrow> report_ok s"
  by (simp add: kbd_inv_def partial_inv_def views_def)

text \<open>A basic key that is registered or unregistered is so for the host.\<close>

lemma basic_code: "IS_BASIC_KEYCODE (k :: uint8) \<Longrightarrow> k \<noteq> 0"
  by (auto simp: IS_BASIC_KEYCODE_def)

lemma register_code_host:
  assumes "kbd_inv cf s" "driver s" "IS_BASIC_KEYCODE k" "\<not> LOCKING_SUPPORT_ENABLE cf"
  shows "host_pressed j (register_code cf k s) \<longleftrightarrow> host_pressed j s \<or> (j = k \<and> has_room s k)"
    "host_pressed j (unregister_code cf k s) \<longleftrightarrow> host_pressed j s \<and> j \<noteq> k"
proof -
  note k0 = basic_code [OF assms(3)] and ok = inv_report_ok [OF assms(1)]
  let ?d = "send_keyboard_report cf (del_key k s)"
  have "kbd_inv cf ?d" using assms(1) by (intro send_inv report_op_partial(2)) (simp add: kbd_inv_def)
  note okd = inv_report_ok [OF this]
  have r: "register_code cf k s = send_keyboard_report cf (add_key k (if is_key_pressed k s then ?d else s))"
    "unregister_code cf k s = ?d"
    using assms(3,4) k0 by (simp_all add: register_code_def unregister_code_def KC_NO_def Let_def)
  have i: "kbd_inv cf (register_code cf k s)" "kbd_inv cf (unregister_code cf k s)"
    using inv_record.register_code_kept [OF assms(1)] by simp_all
  have d: "driver (register_code cf k s)" "driver (unregister_code cf k s)" unfolding r using assms(2) by (simp_all add: send_report)
  have "is_key_pressed j (register_code cf k s) \<longleftrightarrow> is_key_pressed j s \<or> (j = k \<and> has_room s k)"
    unfolding r using pressed_report_ops [OF ok k0] pressed_report_ops [OF okd k0] room_after_del [OF ok k0] pressed_has_room [OF ok, of k]
    by auto
  then show "host_pressed j (register_code cf k s) \<longleftrightarrow> host_pressed j s \<or> (j = k \<and> has_room s k)"
    using host_pressed_iff [OF i(1) d(1)] host_pressed_iff [OF assms(1,2)] by simp
  show "host_pressed j (unregister_code cf k s) \<longleftrightarrow> host_pressed j s \<and> j \<noteq> k"
    using host_pressed_iff [OF i(2) d(2)] host_pressed_iff [OF assms(1,2)] pressed_report_ops(2) [OF ok k0] by (simp add: r)
qed

text \<open>One-shot modifiers are in the report that carries a key, and only in the first such report.\<close>

definition host_mods :: "'z kbd_scheme \<Rightarrow> uint8" where
  "host_mods s = (if use_nkro s then fst (host_nkro s) else fst (host_keyboard s))"

lemma host_after_send:
  assumes "partial_inv cf s" "driver s"
  shows "host_mods (send_keyboard_report cf s) = fst (get_mods_for_report cf s)"
proof -
  obtain m s' where g: "get_mods_for_report cf s = (m, s')" by fastforce
  have p: "partial_inv cf s'" "driver s'" "use_nkro s' = use_nkro s"
    using mods_for_report_partial [OF g assms(1)] mods_for_report_frame [OF g] assms(2) by auto
  have "use_nkro (send_keyboard_report cf s) = use_nkro s" by (simp add: send_report)
  then show ?thesis using p
    by (auto simp: host_mods_def send_keyboard_report_def send_6kro_report_def send_nkro_report_def g host_keyboard_send_def
        host_nkro_send_def emit_def partial_inv_def views_def host_keyboard_def host_nkro_def dest: sym)
qed

lemma oneshot_mods_of_send: "oneshot_mods (send_keyboard_report cf s) = oneshot_mods (snd (get_mods_for_report cf s))"
  by (cases "get_mods_for_report cf s")
    (simp add: send_keyboard_report_def send_6kro_report_def send_nkro_report_def host_keyboard_send_def host_nkro_send_def emit_def)

lemma oneshot_mods_used:
  assumes "partial_inv cf s" "driver s" "\<not> has_oneshot_mods_timed_out cf s" "suppressed_mods s = 0" "weak_override_mods s = 0"
  shows "host_mods (send_keyboard_report cf s) = real_mods s OR weak_mods s OR oneshot_mods s"
    "oneshot_mods (send_keyboard_report cf s) = (if has_anykey s \<noteq> 0 then 0 else oneshot_mods s)"
  unfolding host_after_send [OF assms(1,2)] oneshot_mods_of_send
  using assms(3-)
  by (auto simp: get_mods_for_report_def Let_def clear_oneshot_mods_def stamp_mods_def emit_def or.assoc)

text \<open>\<open>clear_keyboard\<close> takes everything out of the report.\<close>

lemma send_mods:
  "real_mods (send_keyboard_report cf s) = real_mods s" "weak_mods (send_keyboard_report cf s) = weak_mods s"
proof -
  obtain m s' where g: "get_mods_for_report cf s = (m, s')" by fastforce
  then have "real_mods s' = real_mods s \<and> weak_mods s' = weak_mods s"
    by (auto simp: get_mods_for_report_def clear_oneshot_mods_def stamp_mods_def emit_def Let_def split: if_splits)
  then show "real_mods (send_keyboard_report cf s) = real_mods s" "weak_mods (send_keyboard_report cf s) = weak_mods s"
    by (simp_all add: g send_keyboard_report_def send_6kro_report_def send_nkro_report_def host_keyboard_send_def
        host_nkro_send_def emit_def)
qed

lemma clear_keyboard_clears:
  assumes "report_ok s"
  shows "\<not> is_key_pressed k (clear_keyboard cf s)" "real_mods (clear_keyboard cf s) = 0" "weak_mods (clear_keyboard cf s) = 0"
proof -
  let ?c = "clear_keys_from_report (clear_mods s)"
  let ?d = "clear_weak_mods (host_consumer_send 0 (host_system_send 0 ?c))"
  have "report_ok (clear_mods s)" using assms by (simp add: report_ok_def clear_mods_def)
  then have "\<not> is_key_pressed k ?c" by (rule report.pressed_clear)
  moreover have "is_key_pressed k ?d = is_key_pressed k ?c"
    by (rule pressed_cong) (simp_all add: clear_weak_mods_def host_consumer_send_def host_system_send_def emit_def use_nkro_def Let_def)
  moreover have "real_mods ?d = 0"
    by (simp add: clear_weak_mods_def host_consumer_send_def host_system_send_def emit_def Let_def clear_keys_from_report_def clear_mods_def)
  ultimately show "\<not> is_key_pressed k (clear_keyboard cf s)" "real_mods (clear_keyboard cf s) = 0" "weak_mods (clear_keyboard cf s) = 0"
    by (simp_all add: clear_keyboard_def clear_keyboard_but_mods_def clear_keyboard_but_mods_and_keys_def send_mods)
      (simp add: clear_weak_mods_def)
qed

end
