(* ===== verification/Tap_Hold.thy ===== *)
theory Tap_Hold
  imports Action_Loops Host_View
begin

text \<open>
  A mod-tap key from the matrix event to the reports the host receives, for a keyboard without functions
  of its own and without Flow Tap, Chordal Hold and retro tapping: released within the tapping term it is
  a tap, held longer it is the modifier, whatever ticks come in between.
\<close>

subsection \<open>The keyboard\<close>

definition bare :: "'z kbd_scheme config \<Rightarrow> bool" where
  "bare cf \<longleftrightarrow> pre_process_record_kb cf = (\<lambda>_ _ s. (True, s)) \<and> preprocess_record cf = (\<lambda>kc _ s. (True, kc, s)) \<and> record_handlers cf = []
     \<and> process_action_kb cf = (\<lambda>_ s. (True, s)) \<and> post_process_record_kb cf = (\<lambda>_ _ s. s)
     \<and> FLOW_TAP_TERM cf = 0 \<and> \<not> CHORDAL_HOLD cf \<and> \<not> SWAP_HANDS_ENABLE cf \<and> \<not> RETRO_TAPPING cf \<and> ONESHOT_TIMEOUT cf = 0
     \<and> \<not> LOCKING_SUPPORT_ENABLE cf"

text \<open>A mod-tap key: its keycode and action on layer \<open>l\<close>.\<close>

definition mod_tap_at :: "'z kbd_scheme config \<Rightarrow> 'z kbd_scheme \<Rightarrow> keypos_t \<Rightarrow> uint8 \<Rightarrow> action_t \<Rightarrow> bool" where
  "mod_tap_at cf s k l a \<longleftrightarrow> in_matrix cf k \<and> IS_QK_MOD_TAP (keymap_key_to_keycode cf l k) \<and> action_for_key cf s l k = a
     \<and> (kind_id a = ACT_LMODS_TAP \<or> kind_id a = ACT_RMODS_TAP) \<and> IS_BASIC_KEYCODE (key_code a)"

text \<open>What the key does when its record is executed.\<close>

definition mod_tap_effect :: "'z kbd_scheme config \<Rightarrow> action_t \<Rightarrow> keyrecord_t \<Rightarrow> 'z kbd_scheme \<Rightarrow> 'z kbd_scheme" where
  "mod_tap_effect cf a r s =
     (if pressed (event r)
      then (if 0 < count (tap r) then register_code cf (key_code a) s else register_mods cf (action_mods a) s)
      else if 0 < count (tap r) then unregister_code cf (key_code a) (wait_ms (tap_delay cf (key_code a)) s)
      else unregister_mods cf (action_mods a) s)"

interpretation ptr: state_invariant cf "\<lambda>s. deref p s = r" "\<lambda>s. deref p s = r" for cf p r
  by unfold_locales (cases p; simp add: record_frame send_records)+

declare ptr.weaken [simp del]

lemma assign_deref: "assign p (deref p s) s = s"
  by (cases p) simp_all

lemma basic_tap_code:
  assumes "IS_BASIC_KEYCODE (key_code a)"
  shows "layer_tap_code a = key_code a" "key_code a \<noteq> 0" "key_code a \<noteq> 1" "key_code a \<le> KC_RIGHT_GUI"
  using assms by (auto simp: IS_BASIC_KEYCODE_def layer_tap_code_def key_code_def word_le_nat_alt)

lemma perform_mod_tap:
  assumes "bare cf" "oneshot_layer_data s = 0" "kind_id a = ACT_LMODS_TAP \<or> kind_id a = ACT_RMODS_TAP" "IS_BASIC_KEYCODE (key_code a)"
    "\<not> interrupted (tap (deref p s))"
  shows "perform_action cf p a s = (False, deref p s, mod_tap_effect cf a (deref p s) s)"
proof -
  note b = basic_tap_code [OF assms(4)]
  have e: "deref p (mod_tap_effect cf a (deref p s) s) = deref p s" by (simp add: mod_tap_effect_def)
  have u: "\<not> uses_oneshot_layer cf r a s" for r
    using assms(2) by (simp add: uses_oneshot_layer_def is_oneshot_layer_active_def get_oneshot_layer_state_def)
  have "process_mods_tap_key cf (deref p s) a s = (deref p s, mod_tap_effect cf a (deref p s) s)"
    using assms(1,5) b
    by (cases "count (tap (deref p s)) = 0")
      (simp_all add: process_mods_tap_key_def mod_tap_effect_def bare_def Let_def word_gt_0 unat_gt_0 split: option.split)
  then have d: "dispatch_action cf a rel (deref p s) s = (rel, deref p s, mod_tap_effect cf a (deref p s) s)" for rel
    using assms(3) b by (elim disjE) (simp_all add: dispatch_action_def process_mods_tap_def Let_def)
  have "update_leds a s' = s'" for s' using assms(3) by (elim disjE) (simp_all add: update_leds_def)
  then show ?thesis
    using assms(1) u d assign_deref [of p "mod_tap_effect cf a (deref p s) s"] e
    by (simp add: perform_action_def Let_def retro_tapping_def bare_def)
qed


lemma layer_lookup_frame [simp]:
  "layer_switch_get_layer cf (update_source_layers_cache cf k l s) j = layer_switch_get_layer cf s j"
proof -
  have "top_layer cf (update_source_layers_cache cf k l s) m j n = top_layer cf s m j n" for m n
    by (induction n) (simp_all add: action_for_key_def)
  then show ?thesis by (simp add: layer_switch_get_layer_def) (simp add: update_source_layers_cache_def)
qed

text \<open>The layer from which the key acts: the current one at a press, the stored one at a release.\<close>

definition acting_layer :: "'z kbd_scheme config \<Rightarrow> keyevent_t \<Rightarrow> 'z kbd_scheme \<Rightarrow> uint8" where
  "acting_layer cf ev s = (if pressed ev then layer_switch_get_layer cf s (key ev) else read_source_layers_cache cf (key ev) s)"

definition noted :: "'z kbd_scheme config \<Rightarrow> keyevent_t \<Rightarrow> 'z kbd_scheme \<Rightarrow> 'z kbd_scheme" where
  "noted cf ev s = (if pressed ev then update_source_layers_cache cf (key ev) (layer_switch_get_layer cf s (key ev)) s else s)"

lemma process_record_mod_tap:
  fixes p s
  defines "r \<equiv> deref p s"
  assumes b: "bare cf" and s: "oneshot_layer_data s = 0" "\<not> disable_action_cache s"
    and r: "IS_EVENT (event r)" "keycode r = 0" "\<not> interrupted (tap r)"
    and a: "mod_tap_at cf s (key (event r)) (acting_layer cf (event r) s) a"
  shows "process_record cf p s = mod_tap_effect cf a r (noted cf (event r) (noted cf (event r) s))"
proof -
  let ?s1 = "noted cf (event r) s" and ?s2 = "noted cf (event r) (noted cf (event r) s)"
  have d: "deref p ?s1 = r" "deref p ?s2 = r" by (simp_all add: noted_def r_def)
  have n: "\<not> disable_action_cache ?s1" "\<not> disable_action_cache ?s2" "keymap_config ?s1 = keymap_config s"
    "keymap_config ?s2 = keymap_config s" "oneshot_layer_data ?s1 = 0" "oneshot_layer_data ?s2 = 0"
    using s by (simp_all add: noted_def update_source_layers_cache_def)
  let ?kc = "keymap_key_to_keycode cf (acting_layer cf (event r) s) (key (event r))"
  have g: "get_record_keycode cf r True s = (?kc, ?s1)"
    using r(2) s(2) by (simp add: get_record_keycode_def get_event_keycode_def noted_def acting_layer_def Let_def)
  have "IS_QK_MOD_TAP ?kc" using a by (simp add: mod_tap_at_def)
  then have "?kc \<noteq> QK_BOOTLOADER" "?kc \<noteq> QK_REBOOT" "?kc \<noteq> QK_DEBUG_TOGGLE" "?kc \<noteq> QK_CLEAR_EEPROM"
    "?kc \<noteq> QK_ONE_SHOT_TOGGLE" "?kc \<noteq> QK_ONE_SHOT_ON" "?kc \<noteq> QK_ONE_SHOT_OFF"
    by (auto simp: IS_QK_MOD_TAP_def)
  then have q: "process_record_quantum cf r s = (True, ?s1)"
    using b by (simp add: process_record_quantum_def bare_def g)
  have act: "store_or_get_action cf (pressed (event r)) (key (event r)) ?s1 = (a, ?s2)"
    using a n action_for_key_cong [of ?s1 s cf] action_for_key_cong [of ?s2 s cf]
    by (auto simp: store_or_get_action_def noted_def acting_layer_def mod_tap_at_def Let_def)
  have pa: "perform_action cf p a ?s2 = (False, r, mod_tap_effect cf a r ?s2)"
    using perform_mod_tap [OF b n(6), of a p] a r d by (simp add: mod_tap_at_def)
  have h: "process_record_handler cf again p ?s1 = mod_tap_effect cf a r ?s2" for again
    using act pa d r by (simp add: process_record_handler_def process_action_def)
  have k: "snd (get_record_keycode cf r' False s') = s'" for r' s'
    by (simp add: get_record_keycode_def get_event_keycode_def Let_def)
  show ?thesis
    using b r q h k by (simp add: process_record_def process_record_level_def bare_def IS_NOEVENT_def IS_EVENT_def r_def case_prod_beta)
qed


subsection \<open>Reports\<close>

abbreviation (input) no_keys :: "uint8 list" where "no_keys \<equiv> [0, 0, 0, 0, 0, 0]"

text \<open>Six-key mode; the modifiers \<open>m\<close> and the keys \<open>ks\<close> are down, and the host has been told.\<close>

definition reported :: "uint8 \<Rightarrow> uint8 list \<Rightarrow> 'z kbd_scheme \<Rightarrow> bool" where
  "reported m ks s \<longleftrightarrow> driver s \<and> \<not> use_nkro s \<and> keys s = ks \<and> last_6kro s = (m, ks) \<and> real_mods s = m \<and> weak_mods s = 0
     \<and> oneshot_mods s = 0 \<and> suppressed_mods s = 0 \<and> weak_override_mods s = 0"

lemma send_changed:
  assumes "\<not> use_nkro s" "driver s" "weak_mods s = 0" "oneshot_mods s = 0" "suppressed_mods s = 0" "weak_override_mods s = 0"
    "(real_mods s, keys s) \<noteq> last_6kro s"
  shows "send_keyboard_report cf s =
    s\<lparr>last_6kro := (real_mods s, keys s), out := out s @ [SendKeyboard (real_mods s) (keys s)]\<rparr>"
  using assms by (simp add: send_keyboard_report_def send_6kro_report_def get_mods_for_report_def host_keyboard_send_def emit_def)

lemma register_code_reported:
  assumes "reported 0 no_keys s" "IS_BASIC_KEYCODE k" "\<not> LOCKING_SUPPORT_ENABLE cf"
  shows "register_code cf k s =
    s\<lparr>keys := [k, 0, 0, 0, 0, 0], last_6kro := (0, [k, 0, 0, 0, 0, 0]), out := out s @ [SendKeyboard 0 [k, 0, 0, 0, 0, 0]]\<rparr>"
proof -
  have k: "k \<noteq> 0" by (rule basic_code [OF assms(2)])
  have "add_key k s = s\<lparr>keys := [k, 0, 0, 0, 0, 0]\<rparr>"
    using assms(1) k by (simp add: reported_def add_key_def add_key_to_report_def add_key_byte_def)
  moreover have "use_nkro (s\<lparr>keys := [k, 0, 0, 0, 0, 0]\<rparr>) = use_nkro s" by (simp add: use_nkro_def)
  moreover have "\<not> is_key_pressed k s"
    using assms(1) k by (auto simp: reported_def is_key_pressed_def KEYBOARD_REPORT_KEYS_def numeral_eq_Suc)
  ultimately show ?thesis
    using assms k by (simp add: register_code_def KC_NO_def reported_def send_changed)
qed

lemma unregister_code_reported:
  assumes "reported 0 [k, 0, 0, 0, 0, 0] s" "IS_BASIC_KEYCODE k" "\<not> LOCKING_SUPPORT_ENABLE cf"
  shows "unregister_code cf k s = s\<lparr>keys := no_keys, last_6kro := (0, no_keys), out := out s @ [SendKeyboard 0 no_keys]\<rparr>"
proof -
  have k: "k \<noteq> 0" by (rule basic_code [OF assms(2)])
  have "del_key k s = s\<lparr>keys := no_keys\<rparr>"
    using assms(1) k by (simp add: reported_def del_key_def del_key_from_report_def del_key_byte_map KEYBOARD_REPORT_KEYS_def)
  moreover have "use_nkro (s\<lparr>keys := no_keys\<rparr>) = use_nkro s" by (simp add: use_nkro_def)
  ultimately show ?thesis
    using assms k by (simp add: unregister_code_def KC_NO_def reported_def send_changed)
qed

lemma mods_reported:
  assumes "m \<noteq> 0"
  shows "reported 0 no_keys s \<Longrightarrow> register_mods cf m s =
      s\<lparr>real_mods := m, last_6kro := (m, no_keys), out := out s @ [SendKeyboard m no_keys]\<rparr>"
    "reported m no_keys s \<Longrightarrow> unregister_mods cf m s =
      s\<lparr>real_mods := 0, last_6kro := (0, no_keys), out := out s @ [SendKeyboard 0 no_keys]\<rparr>"
proof -
  have u: "use_nkro (s\<lparr>real_mods := x\<rparr>) = use_nkro s" for x by (simp add: use_nkro_def)
  show "reported 0 no_keys s \<Longrightarrow> register_mods cf m s =
      s\<lparr>real_mods := m, last_6kro := (m, no_keys), out := out s @ [SendKeyboard m no_keys]\<rparr>"
    "reported m no_keys s \<Longrightarrow> unregister_mods cf m s =
      s\<lparr>real_mods := 0, last_6kro := (0, no_keys), out := out s @ [SendKeyboard 0 no_keys]\<rparr>"
    using assms u by (simp_all add: register_mods_def unregister_mods_def add_mods_def del_mods_def reported_def send_changed)
qed

subsection \<open>The events\<close>

definition record_of :: "keyevent_t \<Rightarrow> keyrecord_t" where
  "record_of ev = \<lparr>event = ev, tap = \<lparr>interrupted = False, count = 0\<rparr>, keycode = 0\<rparr>"

definition key_event :: "keypos_t \<Rightarrow> uint16 \<Rightarrow> bool \<Rightarrow> keyevent_t" where
  "key_event k t down = \<lparr>key = k, time = t, event_type = KEY_EVENT, pressed = down\<rparr>"

definition tick_event :: "uint16 \<Rightarrow> keyevent_t" where
  "tick_event t = \<lparr>key = \<lparr>row = 0, col = 0\<rparr>, time = t, event_type = TICK_EVENT, pressed = False\<rparr>"

lemmas event_defs = record_of_def key_event_def tick_event_def IS_EVENT_def IS_NOEVENT_def IS_KEYEVENT_def

text \<open>Nothing waits in the buffer, no one-shot layer is active.\<close>

definition calm :: "'z kbd_scheme config \<Rightarrow> 'z kbd_scheme \<Rightarrow> bool" where
  "calm cf s \<longleftrightarrow> oneshot_layer_data s = 0 \<and> \<not> disable_action_cache s \<and> cache_ok cf (source_layers_cache s)
     \<and> ring_ok s \<and> waiting_buffer_head s = waiting_buffer_tail s"

definition held :: "'z kbd_scheme config \<Rightarrow> keypos_t \<Rightarrow> uint8 \<Rightarrow> action_t \<Rightarrow> uint16 \<Rightarrow> 'z kbd_scheme \<Rightarrow> bool" where
  "held cf k l a t s \<longleftrightarrow> calm cf s \<and> reported 0 no_keys s \<and> tapping_key s = record_of (key_event k t True)
     \<and> mod_tap_at cf s k l a \<and> layer_switch_get_layer cf s k = l \<and> read_source_layers_cache cf k s = l"

lemma action_exec_tick:
  "bare cf \<Longrightarrow> action_exec cf (tick_event t) s = action_tapping_process cf (s\<lparr>arg_record := record_of (tick_event t)\<rparr>)"
  by (simp add: action_exec_def oneshot_timeouts_def bare_def event_defs)

lemma record_keycode_noted:
  "\<not> disable_action_cache s \<Longrightarrow> keycode r = 0 \<Longrightarrow>
   get_record_keycode cf r True s = (keymap_key_to_keycode cf (acting_layer cf (event r) s) (key (event r)), noted cf (event r) s)"
  by (simp add: get_record_keycode_def get_event_keycode_def noted_def acting_layer_def Let_def)

lemma action_exec_key:
  assumes "bare cf" "\<not> disable_action_cache s"
  shows "action_exec cf (key_event k t down) s = action_tapping_process cf
    (noted cf (key_event k t down) ((if down then clear_weak_mods s else s)\<lparr>arg_record := record_of (key_event k t down)\<rparr>))"
  using assms
  by (simp add: action_exec_def oneshot_timeouts_def bare_def pre_process_record_quantum_def record_keycode_noted clear_weak_mods_def
      event_defs)


lemma idle_loop: "calm cf s \<Longrightarrow> process_waiting cf WAITING_BUFFER_SIZE s = s"
  by (simp add: calm_def WAITING_BUFFER_SIZE_def numeral_eq_Suc)

lemma empty_slots: "waiting_buffer_head s = waiting_buffer_tail s \<Longrightarrow> waiting_slots s = []"
  by (simp add: waiting_slots_def WAITING_BUFFER_SIZE_def numeral_eq_Suc)

lemma tap_action: "mod_tap_at cf s k l a \<Longrightarrow> is_tap_action a"
  using basic_tap_code [of a] by (auto simp: mod_tap_at_def is_tap_action_def)

lemma no_note: "bare cf \<Longrightarrow> note_tap_release cf p s = s"
  by (simp add: note_tap_release_def bare_def)

lemma no_expire: "bare cf \<Longrightarrow> flow_tap_expire cf s = s"
  by (simp add: flow_tap_expire_def bare_def)

text \<open>What the lookup of a key depends on.\<close>

lemma lookup_cong:
  assumes "layer_state s = layer_state s'" "default_layer_state s = default_layer_state s'" "keymap_config s = keymap_config s'"
  shows "layer_switch_get_layer cf s k = layer_switch_get_layer cf s' k" "mod_tap_at cf s k l a = mod_tap_at cf s' k l a"
proof -
  note c = action_for_key_cong [OF assms(3), of cf]
  have "top_layer cf s m k n = top_layer cf s' m k n" for m n by (induction n) (simp_all add: c)
  then show "layer_switch_get_layer cf s k = layer_switch_get_layer cf s' k" using assms by (simp add: layer_switch_get_layer_def)
  show "mod_tap_at cf s k l a = mod_tap_at cf s' k l a" by (simp add: mod_tap_at_def c)
qed

text \<open>A press stores its layer.\<close>

lemma noted_press:
  assumes "cache_ok cf (source_layers_cache s)" "in_matrix cf k"
  obtains X where "noted cf (key_event k t True) s = s\<lparr>source_layers_cache := X\<rparr>" "cache_ok cf X"
    "\<forall>s'. source_layers_cache s' = X \<longrightarrow> read_source_layers_cache cf k s' = layer_switch_get_layer cf s k"
proof
  let ?l = "layer_switch_get_layer cf s k"
  let ?X = "source_layers_cache (update_source_layers_cache cf k ?l s)"
  show "noted cf (key_event k t True) s = s\<lparr>source_layers_cache := ?X\<rparr>"
    using assms(2) by (simp add: noted_def key_event_def update_source_layers_cache_def)
  show "cache_ok cf ?X" by (rule update_cache(1) [OF assms])
  show "\<forall>s'. source_layers_cache s' = ?X \<longrightarrow> read_source_layers_cache cf k s' = ?l"
    using read_cache_cong [of _ "update_source_layers_cache cf k ?l s" cf k] update_cache(2) [OF assms assms(2)]
    by (simp add: get_layer_fits)
qed

lemma press_held:
  assumes b: "bare cf" and c: "calm cf s" "IS_NOEVENT (event (tapping_key s))" "reported 0 no_keys (s\<lparr>weak_mods := 0\<rparr>)"
    and m: "mod_tap_at cf s k (layer_switch_get_layer cf s k) a"
  shows "held cf k (layer_switch_get_layer cf s k) a t (action_exec cf (key_event k t True) s)"
    "out (action_exec cf (key_event k t True) s) = out s"
proof -
  let ?ev = "key_event k t True" and ?l = "layer_switch_get_layer cf s k"
  let ?s0 = "s\<lparr>weak_mods := 0, arg_record := record_of ?ev\<rparr>"
  have "cache_ok cf (source_layers_cache ?s0)" "in_matrix cf k" using c(1) m by (simp_all add: calm_def mod_tap_at_def)
  then obtain X where X: "noted cf ?ev ?s0 = ?s0\<lparr>source_layers_cache := X\<rparr>" "cache_ok cf X"
    "\<forall>s'. source_layers_cache s' = X \<longrightarrow> read_source_layers_cache cf k s' = layer_switch_get_layer cf ?s0 k"
    by (rule noted_press [where t = t])
  let ?s1 = "?s0\<lparr>source_layers_cache := X\<rparr>"
  let ?s2 = "?s1\<lparr>tapping_key := record_of ?ev\<rparr>"
  have e: "action_exec cf ?ev s = action_tapping_process cf ?s1"
    using action_exec_key [OF b, of s k t True] c(1) X(1) by (simp add: calm_def clear_weak_mods_def)
  have l: "layer_switch_get_layer cf ?s1 k = ?l" "mod_tap_at cf ?s1 k ?l a" "layer_switch_get_layer cf ?s2 k = ?l"
    "mod_tap_at cf ?s2 k ?l a" "layer_switch_get_layer cf ?s0 k = ?l"
    using lookup_cong [of ?s1 s] lookup_cong [of ?s2 s] lookup_cong [of ?s0 s] m by simp_all
  then have a: "layer_switch_get_action cf ?s1 k = a" by (simp add: layer_switch_get_action_def mod_tap_at_def)
  have tap: "is_tap_record cf (record_of ?ev) ?s1"
    using a tap_action [OF m] by (simp add: is_tap_record_def event_defs)
  have scan: "waiting_buffer_scan_tap cf ?s2 = ?s2"
    using c(1) empty_slots [of ?s2] by (simp add: waiting_buffer_scan_tap_def calm_def)
  have "process_tapping cf Arg ?s1 = (True, ?s2)"
    using b tap scan c(2)
    by (simp add: process_tapping_def tapping_idle_def no_note [OF b] bare_def process_record_tap_hint_def event_defs Let_def)
  moreover have "calm cf ?s2" using c(1) X(2) by (simp add: calm_def ring_ok_def)
  ultimately have r: "action_exec cf ?ev s = ?s2"
    using b by (simp add: e action_tapping_process_def idle_loop no_expire)
  show "held cf k ?l a t (action_exec cf ?ev s)"
    unfolding r held_def using \<open>calm cf ?s2\<close> c(3) l X(3) by (simp add: reported_def use_nkro_def)
  show "out (action_exec cf ?ev s) = out s" unfolding r by simp
qed


text \<open>The tapping term of the key, and whether a time lies in it.\<close>

definition in_term :: "'z kbd_scheme config \<Rightarrow> keypos_t \<Rightarrow> uint8 \<Rightarrow> uint16 \<Rightarrow> uint16 \<Rightarrow> bool" where
  "in_term cf k l t t' \<longleftrightarrow>
     TIMER_DIFF_16 t' t < get_tapping_term cf (keymap_key_to_keycode cf l k) (record_of (key_event k t True))"

lemma held_term:
  assumes "held cf k l a t s"
  shows "WITHIN_TAPPING_TERM cf ev (s\<lparr>arg_record := r\<rparr>) \<longleftrightarrow> in_term cf k l t (time ev)"
proof -
  have "read_source_layers_cache cf k (s\<lparr>arg_record := r\<rparr>) = l"
    using assms read_cache_cong [of "s\<lparr>arg_record := r\<rparr>" s cf k] by (simp add: held_def)
  then show ?thesis using assms
    by (simp add: WITHIN_TAPPING_TERM_def in_term_def held_def calm_def tapping_keycode_def get_record_keycode_def
        get_event_keycode_def Let_def record_of_def key_event_def)
qed

lemma held_frame: "held cf k l a t s \<Longrightarrow> held cf k l a t (s\<lparr>arg_record := r\<rparr>)"
  using lookup_cong [of "s\<lparr>arg_record := r\<rparr>" s] read_cache_cong [of "s\<lparr>arg_record := r\<rparr>" s cf k]
  by (simp add: held_def calm_def ring_ok_def reported_def use_nkro_def)

lemma tick_keeps_held:
  assumes b: "bare cf" and h: "held cf k l a t s" and t: "in_term cf k l t t'"
  shows "held cf k l a t (action_exec cf (tick_event t') s)" "out (action_exec cf (tick_event t') s) = out s"
proof -
  let ?s = "s\<lparr>arg_record := record_of (tick_event t')\<rparr>"
  have k: "tapping_key ?s = record_of (key_event k t True)" using h by (simp add: held_def)
  have "process_tapping cf Arg ?s = (True, ?s)"
    using b k held_term [OF h, of "tick_event t'" "record_of (tick_event t')"] t
    by (simp add: process_tapping_def no_note event_defs Let_def)
  moreover have "calm cf ?s" using held_frame [OF h] by (simp add: held_def)
  ultimately have "action_exec cf (tick_event t') s = ?s"
    using b by (simp add: action_exec_tick action_tapping_process_def idle_loop no_expire)
  then show "held cf k l a t (action_exec cf (tick_event t') s)" "out (action_exec cf (tick_event t') s) = out s"
    using held_frame [OF h] by simp_all
qed

text \<open>The term is over: the modifier goes down.\<close>

definition down :: "'z kbd_scheme config \<Rightarrow> keypos_t \<Rightarrow> uint8 \<Rightarrow> action_t \<Rightarrow> 'z kbd_scheme \<Rightarrow> bool" where
  "down cf k l a s \<longleftrightarrow> calm cf s \<and> reported (action_mods a) no_keys s \<and> tapping_key s = no_record
     \<and> mod_tap_at cf s k l a \<and> read_source_layers_cache cf k s = l"

lemma tick_settles_hold:
  assumes b: "bare cf" and h: "held cf k l a t s" and t: "\<not> in_term cf k l t t'" and m: "action_mods a \<noteq> 0"
  shows "down cf k l a (action_exec cf (tick_event t') s)"
    "out (action_exec cf (tick_event t') s) = out s @ [SendKeyboard (action_mods a) no_keys]"
proof -
  let ?s = "s\<lparr>arg_record := record_of (tick_event t')\<rparr>" and ?ev = "key_event k t True"
  have h': "held cf k l a t ?s" by (rule held_frame [OF h])
  then have k: "tapping_key ?s = record_of ?ev" and c: "calm cf ?s" and mt: "mod_tap_at cf ?s k l a"
    and l: "layer_switch_get_layer cf ?s k = l" and rep: "reported 0 no_keys ?s" by (simp_all add: held_def)
  have im: "in_matrix cf k" using mt by (simp add: mod_tap_at_def)
  obtain X where X: "noted cf ?ev ?s = ?s\<lparr>source_layers_cache := X\<rparr>" "cache_ok cf X"
    by (rule noted_press [where t = t, OF _ im, of ?s]) (use c in \<open>auto simp: calm_def\<close>)
  let ?s1 = "?s\<lparr>source_layers_cache := X\<rparr>"
  obtain Y where Y: "noted cf ?ev ?s1 = ?s1\<lparr>source_layers_cache := Y\<rparr>" "cache_ok cf Y"
      "\<forall>s'. source_layers_cache s' = Y \<longrightarrow> read_source_layers_cache cf k s' = layer_switch_get_layer cf ?s1 k"
    by (rule noted_press [where t = t, OF _ im, of ?s1]) (use X(2) in auto)
  let ?s2 = "?s\<lparr>source_layers_cache := Y\<rparr>"
  have y: "?s1\<lparr>source_layers_cache := Y\<rparr> = ?s2" by simp
  have l1: "layer_switch_get_layer cf ?s1 k = l" using lookup_cong(1) [of ?s1 ?s] l by simp
  have rep2: "reported 0 no_keys ?s2" using rep by (simp add: reported_def use_nkro_def)
  let ?s3 = "?s2\<lparr>real_mods := action_mods a, last_6kro := (action_mods a, no_keys),
      out := out ?s2 @ [SendKeyboard (action_mods a) no_keys]\<rparr>"
  have "process_record cf TappingKey ?s = mod_tap_effect cf a (record_of ?ev) (noted cf ?ev (noted cf ?ev ?s))"
    using process_record_mod_tap [OF b, of ?s TappingKey a] c k mt l
    by (simp add: calm_def event_defs acting_layer_def)
  also have "\<dots> = register_mods cf (action_mods a) ?s2"
    unfolding X(1) Y(1) y by (simp add: mod_tap_effect_def record_of_def key_event_def)
  also have "\<dots> = ?s3" by (rule mods_reported(1) [OF m rep2])
  finally have pr: "process_record cf TappingKey ?s = ?s3" .
  let ?s4 = "?s3\<lparr>tapping_key := no_record\<rparr>"
  have "process_tapping cf Arg ?s = (False, ?s4)"
    using b k held_term [OF h, of "tick_event t'" "record_of (tick_event t')"] t pr
    by (simp add: process_tapping_def no_note tapping_timeout_def event_defs Let_def)
  moreover have "waiting_buffer_enq (record_of (tick_event t')) ?s4 = (True, ?s4)" by (simp add: waiting_buffer_enq_def event_defs)
  moreover have c4: "calm cf ?s4" using c Y(2) by (simp add: calm_def ring_ok_def)
  ultimately have e: "action_exec cf (tick_event t') s = ?s4"
    using b by (simp add: action_exec_tick action_tapping_process_def idle_loop no_expire)
  have "mod_tap_at cf ?s4 k l a" using lookup_cong(2) [of ?s4 ?s] mt by simp
  then show "down cf k l a (action_exec cf (tick_event t') s)"
    unfolding e down_def using c4 Y(3) l1 rep2 by (simp add: reported_def use_nkro_def)
  show "out (action_exec cf (tick_event t') s) = out s @ [SendKeyboard (action_mods a) no_keys]" unfolding e by simp
qed


lemma down_frame: "down cf k l a s \<Longrightarrow> down cf k l a (s\<lparr>arg_record := r\<rparr>)"
  using lookup_cong [of "s\<lparr>arg_record := r\<rparr>" s] read_cache_cong [of "s\<lparr>arg_record := r\<rparr>" s cf k]
  by (simp add: down_def calm_def ring_ok_def reported_def use_nkro_def)

lemma tick_keeps_down:
  assumes b: "bare cf" and d: "down cf k l a s"
  shows "down cf k l a (action_exec cf (tick_event t') s)" "out (action_exec cf (tick_event t') s) = out s"
proof -
  let ?s = "s\<lparr>arg_record := record_of (tick_event t')\<rparr>"
  have k: "tapping_key ?s = no_record" and c: "calm cf ?s" using down_frame [OF d] by (simp_all add: down_def)
  have "process_tapping cf Arg ?s = (True, ?s)"
    using b k by (simp add: process_tapping_def no_note tapping_idle_def no_record_def event_defs)
  then have "action_exec cf (tick_event t') s = ?s"
    using b c by (simp add: action_exec_tick action_tapping_process_def idle_loop no_expire)
  then show "down cf k l a (action_exec cf (tick_event t') s)" "out (action_exec cf (tick_event t') s) = out s"
    using down_frame [OF d] by simp_all
qed

lemma release_after_hold:
  assumes b: "bare cf" and d: "down cf k l a s" and m: "action_mods a \<noteq> 0"
  shows "out (action_exec cf (key_event k t' False) s) = out s @ [SendKeyboard 0 no_keys]"
proof -
  let ?ev = "key_event k t' False"
  let ?s = "s\<lparr>arg_record := record_of ?ev\<rparr>"
  have k: "tapping_key ?s = no_record" and c: "calm cf ?s" and mt: "mod_tap_at cf ?s k l a"
    and rd: "read_source_layers_cache cf k ?s = l" and rep: "reported (action_mods a) no_keys ?s"
    using down_frame [OF d] by (simp_all add: down_def)
  let ?s1 = "?s\<lparr>real_mods := 0, last_6kro := (0, no_keys), out := out ?s @ [SendKeyboard 0 no_keys]\<rparr>"
  have "process_record cf Arg ?s = unregister_mods cf (action_mods a) ?s"
    using process_record_mod_tap [OF b, of ?s Arg a] c mt rd
    by (simp add: calm_def event_defs acting_layer_def noted_def mod_tap_effect_def)
  then have "process_tapping cf Arg ?s = (True, ?s1)"
    using b k mods_reported(2) [OF m rep]
    by (simp add: process_tapping_def no_note tapping_idle_def no_record_def event_defs Let_def)
  moreover have "calm cf ?s1" using c by (simp add: calm_def ring_ok_def)
  ultimately show ?thesis
    using b c action_exec_key [OF b, of s k t' False]
    by (simp add: calm_def noted_def key_event_def action_tapping_process_def idle_loop no_expire)
qed


text \<open>The release within the term: first the key is tapped down, and its record goes to the buffer.\<close>

definition tapped_record :: "keyevent_t \<Rightarrow> keyrecord_t" where
  "tapped_record ev = \<lparr>event = ev, tap = \<lparr>interrupted = False, count = 1\<rparr>, keycode = 0\<rparr>"

definition tapped :: "'z kbd_scheme config \<Rightarrow> keypos_t \<Rightarrow> uint8 \<Rightarrow> action_t \<Rightarrow> uint16 \<Rightarrow> uint16 \<Rightarrow> 'z kbd_scheme \<Rightarrow> bool" where
  "tapped cf k l a t t' s \<longleftrightarrow> calm cf s \<and> reported 0 [key_code a, 0, 0, 0, 0, 0] s
     \<and> tapping_key s = tapped_record (key_event k t True) \<and> arg_record s = tapped_record (key_event k t' False)
     \<and> mod_tap_at cf s k l a \<and> read_source_layers_cache cf k s = l"

lemma unsettled_release:
  "IS_TAPPING_RECORD (deref p s) s \<Longrightarrow> \<not> pressed (event (deref p s)) \<Longrightarrow> FLOW_TAP_TERM cf = 0 \<Longrightarrow>
   tapping_unsettled cf p s =
     (let s = process_record cf TappingKey (s\<lparr>tapping_key := set_count 1 (tapping_key s)\<rparr>)
      in (False, assign p ((deref p s)\<lparr>tap := tap (tapping_key s)\<rparr>) s))"
  by (simp add: tapping_unsettled_def Let_def)

lemma release_taps:
  assumes b: "bare cf" and h: "held cf k l a t s" and t: "in_term cf k l t t'"
  obtains s' where "process_tapping cf Arg (s\<lparr>arg_record := record_of (key_event k t' False)\<rparr>) = (False, s')"
    "tapped cf k l a t t' s'" "out s' = out s @ [SendKeyboard 0 [key_code a, 0, 0, 0, 0, 0]]"
proof -
  let ?ev = "key_event k t True" and ?rel = "key_event k t' False"
  let ?s = "s\<lparr>arg_record := record_of ?rel\<rparr>"
  let ?u = "?s\<lparr>tapping_key := tapped_record ?ev\<rparr>"
  have h': "held cf k l a t ?s" by (rule held_frame [OF h])
  then have k: "tapping_key ?s = record_of ?ev" and c: "calm cf ?s" and mt: "mod_tap_at cf ?s k l a"
    and l: "layer_switch_get_layer cf ?s k = l" and rep: "reported 0 no_keys ?s" by (simp_all add: held_def)
  have im: "in_matrix cf k" and bas: "IS_BASIC_KEYCODE (key_code a)" using mt by (simp_all add: mod_tap_at_def)
  obtain X where X: "noted cf ?ev ?u = ?u\<lparr>source_layers_cache := X\<rparr>" "cache_ok cf X"
    by (rule noted_press [where t = t, OF _ im, of ?u]) (use c in \<open>auto simp: calm_def\<close>)
  let ?s1 = "?u\<lparr>source_layers_cache := X\<rparr>"
  obtain Y where Y: "noted cf ?ev ?s1 = ?s1\<lparr>source_layers_cache := Y\<rparr>" "cache_ok cf Y"
      "\<forall>s'. source_layers_cache s' = Y \<longrightarrow> read_source_layers_cache cf k s' = layer_switch_get_layer cf ?s1 k"
    by (rule noted_press [where t = t, OF _ im, of ?s1]) (use X(2) in auto)
  let ?s2 = "?u\<lparr>source_layers_cache := Y\<rparr>"
  have y: "?s1\<lparr>source_layers_cache := Y\<rparr> = ?s2" by simp
  have l1: "layer_switch_get_layer cf ?s1 k = l" "layer_switch_get_layer cf ?u k = l" "mod_tap_at cf ?u k l a"
    using lookup_cong [of ?s1 ?s] lookup_cong [of ?u ?s] l mt by simp_all
  have rep2: "reported 0 no_keys ?s2" using rep by (simp add: reported_def use_nkro_def)
  let ?ks = "[key_code a, 0, 0, 0, 0, 0]"
  let ?s3 = "?s2\<lparr>keys := ?ks, last_6kro := (0, ?ks), out := out ?s2 @ [SendKeyboard 0 ?ks]\<rparr>"
  have "process_record cf TappingKey ?u = mod_tap_effect cf a (tapped_record ?ev) (noted cf ?ev (noted cf ?ev ?u))"
    using process_record_mod_tap [OF b, of ?u TappingKey a] c l1
    by (simp add: calm_def event_defs tapped_record_def acting_layer_def)
  also have "\<dots> = register_code cf (key_code a) ?s2"
    unfolding X(1) Y(1) y by (simp add: mod_tap_effect_def tapped_record_def key_event_def)
  also have "\<dots> = ?s3" using register_code_reported [OF rep2 bas] b by (simp add: bare_def)
  finally have pr: "process_record cf TappingKey ?u = ?s3" .
  let ?s4 = "?s3\<lparr>arg_record := tapped_record ?rel\<rparr>"
  have tk: "set_count 1 (record_of ?ev) = tapped_record ?ev" by (simp add: set_count_def record_of_def tapped_record_def)
  have "tapping_unsettled cf Arg ?s = (False, ?s4)"
    using b k pr tk unsettled_release [of Arg ?s cf]
    by (simp add: IS_TAPPING_RECORD_def bare_def Let_def) (simp add: record_of_def tapped_record_def key_event_def)
  then have "process_tapping cf Arg ?s = (False, ?s4)"
    using b k held_term [OF h, of ?rel "record_of ?rel"] t
    by (simp add: process_tapping_def no_note event_defs Let_def)
  moreover have "tapped cf k l a t t' ?s4"
  proof -
    have "mod_tap_at cf ?s4 k l a" using lookup_cong(2) [of ?s4 ?s] mt by simp
    moreover have "calm cf ?s4" using c Y(2) by (simp add: calm_def ring_ok_def)
    ultimately show ?thesis using Y(3) l1(1) rep2 by (simp add: tapped_def reported_def use_nkro_def)
  qed
  ultimately show thesis using that by simp
qed


text \<open>Then the record is taken from the buffer and the key goes up.\<close>

lemma settled_release:
  "IS_TAPPING_RECORD (deref p s) s \<Longrightarrow> \<not> pressed (event (deref p s)) \<Longrightarrow>
   tapping_settled cf keep p s =
     (let s = process_record cf p (assign p ((deref p s)\<lparr>tap := tap (tapping_key s)\<rparr>) s)
      in (True, s\<lparr>tapping_key := (if keep then deref p s else no_record)\<rparr>))"
  by (simp add: tapping_settled_def Let_def)

lemma tapping_key_tapped:
  assumes "bare cf" "pressed (event (tapping_key s))" "IS_EVENT (event (tapping_key s))" "count (tap (tapping_key s)) \<noteq> 0"
    "IS_EVENT (event (deref p s))"
  shows "process_tapping cf p s = tapping_settled cf (WITHIN_TAPPING_TERM cf (event (deref p s)) s) p s"
  using assms
  by (cases "WITHIN_TAPPING_TERM cf (event (deref p s)) s")
    (simp_all add: process_tapping_def no_note tapping_timeout_def IS_EVENT_def IS_NOEVENT_def)

lemma tapped_release:
  assumes b: "bare cf" and d: "tapped cf k l a t t' s"
  shows "fst (waiting_buffer_enq (arg_record s) s)"
    "out (process_waiting cf WAITING_BUFFER_SIZE (snd (waiting_buffer_enq (arg_record s) s))) = out s @ [SendKeyboard 0 no_keys]"
proof -
  let ?R = "tapped_record (key_event k t' False)" and ?h = "waiting_buffer_head s"
  let ?q = "s\<lparr>waiting_buffer := (waiting_buffer s)[?h := ?R], waiting_buffer_head := next_slot ?h\<rparr>"
  have c: "calm cf s" and rep: "reported 0 [key_code a, 0, 0, 0, 0, 0] s" and mt: "mod_tap_at cf s k l a"
    and tk: "tapping_key s = tapped_record (key_event k t True)" and ar: "arg_record s = ?R"
    and rd: "read_source_layers_cache cf k s = l" using d by (simp_all add: tapped_def)
  have h: "waiting_buffer_tail s = ?h" "?h < length (waiting_buffer s)" "next_slot ?h \<noteq> ?h"
    using c by (auto simp: calm_def ring_ok_def next_slot_def WAITING_BUFFER_SIZE_def mod_Suc)
  have enq: "waiting_buffer_enq (arg_record s) s = (True, ?q)"
    using h by (simp add: ar waiting_buffer_enq_def tapped_record_def event_defs)
  have dq: "deref (Slot ?h) ?q = ?R" using h by simp
  let ?w = "wait_ms (tap_delay cf (key_code a)) ?q"
  have mq: "mod_tap_at cf ?q k l a" using lookup_cong(2) [of ?q s] mt by simp
  have rq: "read_source_layers_cache cf k ?q = l" using read_cache_cong [of ?q s cf k] rd by simp
  have bas: "IS_BASIC_KEYCODE (key_code a)" using mt by (simp add: mod_tap_at_def)
  have repw: "reported 0 [key_code a, 0, 0, 0, 0, 0] ?w" using rep by (simp add: reported_def use_nkro_def wait_ms_def)
  let ?v = "?w\<lparr>keys := no_keys, last_6kro := (0, no_keys), out := out ?w @ [SendKeyboard 0 no_keys]\<rparr>"
  have "process_record cf (Slot ?h) ?q = unregister_code cf (key_code a) ?w"
    using process_record_mod_tap [OF b, of ?q "Slot ?h" a] c mq rq dq
    by (simp add: calm_def tapped_record_def event_defs acting_layer_def noted_def mod_tap_effect_def del: deref.simps)
  then have pr: "process_record cf (Slot ?h) ?q = ?v" using unregister_code_reported [OF repw bas] b by (simp add: bare_def)
  have as: "assign (Slot ?h) (?R\<lparr>tap := tap (tapping_key ?q)\<rparr>) ?q = ?q" by (simp add: tk) (simp add: tapped_record_def)
  have ir: "IS_TAPPING_RECORD (deref (Slot ?h) ?q) ?q" "\<not> pressed (event (deref (Slot ?h) ?q))"
    unfolding dq by (simp_all add: IS_TAPPING_RECORD_def tk) (simp_all add: tapped_record_def key_event_def)
  define keep where "keep = WITHIN_TAPPING_TERM cf (event (deref (Slot ?h) ?q)) ?q"
  have pt: "process_tapping cf (Slot ?h) ?q = tapping_settled cf keep (Slot ?h) ?q"
    unfolding keep_def
    by (rule tapping_key_tapped [OF b]; (simp only: dq)?; simp add: tk tapped_record_def key_event_def IS_EVENT_def)
  have pt2: "process_tapping cf (Slot ?h) ?q = (True, ?v\<lparr>tapping_key := (if keep then deref (Slot ?h) ?v else no_record)\<rparr>)"
    unfolding pt settled_release [OF ir] dq as pr Let_def ..
  have "process_waiting cf (Suc 7) ?q =
      process_waiting cf 7 (pop_tail (?v\<lparr>tapping_key := (if keep then deref (Slot ?h) ?v else no_record)\<rparr>))"
    unfolding process_waiting.simps using h by (simp add: pt2 del: deref.simps)
  also have "\<dots> = pop_tail (?v\<lparr>tapping_key := (if keep then deref (Slot ?h) ?v else no_record)\<rparr>)"
    using h by (simp add: numeral_eq_Suc pop_tail_def wait_ms_def)
  finally show "out (process_waiting cf WAITING_BUFFER_SIZE (snd (waiting_buffer_enq (arg_record s) s))) = out s @ [SendKeyboard 0 no_keys]"
    by (simp add: enq pop_tail_def wait_ms_def WAITING_BUFFER_SIZE_def)
  show "fst (waiting_buffer_enq (arg_record s) s)" by (simp add: enq)
qed

lemma release_in_term:
  assumes b: "bare cf" and h: "held cf k l a t s" and t: "in_term cf k l t t'"
  shows "out (action_exec cf (key_event k t' False) s) =
    out s @ [SendKeyboard 0 [key_code a, 0, 0, 0, 0, 0], SendKeyboard 0 no_keys]"
proof -
  obtain s' where s': "process_tapping cf Arg (s\<lparr>arg_record := record_of (key_event k t' False)\<rparr>) = (False, s')"
    "tapped cf k l a t t' s'" "out s' = out s @ [SendKeyboard 0 [key_code a, 0, 0, 0, 0, 0]]"
    by (rule release_taps [OF b h t])
  have "\<not> disable_action_cache s" using h by (simp add: held_def calm_def)
  then have "action_exec cf (key_event k t' False) s =
      process_waiting cf WAITING_BUFFER_SIZE (snd (waiting_buffer_enq (arg_record s') s'))"
    using s'(1) tapped_release(1) [OF b s'(2)] b
    by (simp add: action_exec_key noted_def action_tapping_process_def no_expire case_prod_beta) (simp add: key_event_def)
  then show ?thesis using tapped_release(2) [OF b s'(2)] s'(3) by simp
qed

subsection \<open>From the press to the release\<close>

lemma ticks_keep_held:
  "bare cf \<Longrightarrow> held cf k l a t s \<Longrightarrow> \<forall>t'\<in>set ts. in_term cf k l t t' \<Longrightarrow>
   held cf k l a t (fold (\<lambda>t. action_exec cf (tick_event t)) ts s) \<and> out (fold (\<lambda>t. action_exec cf (tick_event t)) ts s) = out s"
  by (induction ts arbitrary: s) (simp_all add: tick_keeps_held)

lemma ticks_keep_down:
  "bare cf \<Longrightarrow> down cf k l a s \<Longrightarrow>
   down cf k l a (fold (\<lambda>t. action_exec cf (tick_event t)) ts s) \<and> out (fold (\<lambda>t. action_exec cf (tick_event t)) ts s) = out s"
  by (induction ts arbitrary: s) (simp_all add: tick_keeps_down)

end
