(* ===== verification/Matrix_Task.thy ===== *)
theory Matrix_Task
  imports Bitwise Debounce_Timing Tap_Hold
begin

text \<open>
  From the debounced matrix to key events (\<^verbatim>\<open>quantum/keyboard.c\<close>): \<open>matrix_task\<close> compares the matrix with
  the one it processed last and passes every change to \<open>action_exec\<close>, unless the row may show a ghost
  key. \<open>exec\<close> stands for \<open>action_exec\<close> and \<open>clock\<close> for \<open>timer_read\<close>, so that the events can also be
  traced. \<open>ghost\<close> is \<open>MATRIX_HAS_GHOST\<close>, \<open>can_read\<close> and \<open>process\<close> are what \<open>matrix_can_read\<close> and
  \<open>should_process_keypress\<close> return. Lighting does not act on the events.
\<close>

subsection \<open>Ghosts\<close>

definition get_real_keys :: "'z kbd_scheme config \<Rightarrow> nat \<Rightarrow> 'r::len word \<Rightarrow> 'r word" where
  "get_real_keys cf r rowdata =
     fold (\<lambda>c out. if keycode_at_keymap_location cf 0 (of_nat r) (of_nat c) \<noteq> 0 \<and> test_mask rowdata c
                     then out OR shl1 c else out) [0..<unat (MATRIX_COLS cf)] 0"

definition popcount_more_than_one :: "'r::len word \<Rightarrow> bool" where
  "popcount_more_than_one rowdata \<longleftrightarrow> rowdata AND (rowdata - 1) \<noteq> 0"

definition has_ghost_in_row :: "bool \<Rightarrow> 'z kbd_scheme config \<Rightarrow> 'r::len matrix \<Rightarrow> nat \<Rightarrow> 'r word \<Rightarrow> bool" where
  "has_ghost_in_row ghost cf m r rowdata =
     (if \<not> ghost then False
      else let rowdata = get_real_keys cf r rowdata
           in if \<not> popcount_more_than_one rowdata then False
              else list_ex (\<lambda>i. i \<noteq> r \<and> popcount_more_than_one (get_real_keys cf i (m ! i) AND rowdata)) [0..<unat (MATRIX_ROWS cf)])"

subsection \<open>Events\<close>

definition MAKE_EVENT :: "uint8 \<Rightarrow> uint8 \<Rightarrow> bool \<Rightarrow> keyevent_type_t \<Rightarrow> uint16 \<Rightarrow> keyevent_t" where
  "MAKE_EVENT row_num col_num press ty t = \<lparr>key = \<lparr>row = row_num, col = col_num\<rparr>, time = t, event_type = ty, pressed = press\<rparr>"

record 'm matrix_task_state =
  matrix_previous :: 'm
  last_tick :: uint16

definition generate_tick_event ::
  "(keyevent_t \<Rightarrow> 's \<Rightarrow> 's) \<Rightarrow> ('s \<Rightarrow> uint16) \<Rightarrow> ('m matrix_task_state \<times> 's) \<Rightarrow> ('m matrix_task_state \<times> 's)" where
  "generate_tick_event exec clock = (\<lambda>(mt, s).
     let now = clock s
     in if TIMER_DIFF_16 now (last_tick mt) \<noteq> 0
        then (mt\<lparr>last_tick := now\<rparr>, exec (MAKE_EVENT 0 0 False TICK_EVENT now) s)
        else (mt, s))"

definition exec_key :: "(keyevent_t \<Rightarrow> 's \<Rightarrow> 's) \<Rightarrow> ('s \<Rightarrow> uint16) \<Rightarrow> nat \<Rightarrow> nat \<Rightarrow> bool \<Rightarrow> 's \<Rightarrow> 's" where
  "exec_key exec clock r c key_pressed s = exec (MAKE_EVENT (of_nat r) (of_nat c) key_pressed KEY_EVENT (clock s)) s"

definition column_loop ::
  "(keyevent_t \<Rightarrow> 's \<Rightarrow> 's) \<Rightarrow> ('s \<Rightarrow> uint16) \<Rightarrow> bool \<Rightarrow> nat \<Rightarrow> nat \<Rightarrow> 'r::len word \<Rightarrow> 'r word \<Rightarrow> 's \<Rightarrow> 's" where
  "column_loop exec clock process cols r current_row row_changes =
     fold (\<lambda>c s. if test_mask row_changes c \<and> process then exec_key exec clock r c (test_mask current_row c) s else s)
       [0..<cols]"

definition row_loop ::
  "(keyevent_t \<Rightarrow> 's \<Rightarrow> 's) \<Rightarrow> ('s \<Rightarrow> uint16) \<Rightarrow> bool \<Rightarrow> bool \<Rightarrow> 'z kbd_scheme config \<Rightarrow> 'r::len matrix \<Rightarrow> nat \<Rightarrow>
   'r matrix \<times> 's \<Rightarrow> 'r matrix \<times> 's" where
  "row_loop exec clock process ghost cf m r = (\<lambda>(prev, s).
     let current_row = m ! r; row_changes = current_row XOR prev ! r
     in if row_changes = 0 \<or> has_ghost_in_row ghost cf m r current_row then (prev, s)
        else (prev[r := current_row], column_loop exec clock process (unat (MATRIX_COLS cf)) r current_row row_changes s))"

text \<open>\<open>m\<close> is the matrix after \<open>matrix_scan\<close>, as \<open>matrix_get_row\<close> returns it.\<close>

definition matrix_task ::
  "(keyevent_t \<Rightarrow> 's \<Rightarrow> 's) \<Rightarrow> ('s \<Rightarrow> uint16) \<Rightarrow> bool \<Rightarrow> bool \<Rightarrow> bool \<Rightarrow> 'z kbd_scheme config \<Rightarrow> 'r::len matrix \<Rightarrow>
   'r matrix matrix_task_state \<times> 's \<Rightarrow> bool \<times> 'r matrix matrix_task_state \<times> 's" where
  "matrix_task exec clock can_read process ghost cf m = (\<lambda>(mt, s).
     if \<not> can_read then (False, generate_tick_event exec clock (mt, s))
     else if \<not> list_ex (\<lambda>r. matrix_previous mt ! r XOR m ! r \<noteq> 0) [0..<unat (MATRIX_ROWS cf)]
     then (False, generate_tick_event exec clock (mt, s))
     else let (prev, s) = fold (row_loop exec clock process ghost cf m) [0..<unat (MATRIX_ROWS cf)] (matrix_previous mt, s)
          in (True, mt\<lparr>matrix_previous := prev\<rparr>, s))"

subsection \<open>Which rows are ghosts\<close>

lemma popcount_more_than_one_iff: "popcount_more_than_one w \<longleftrightarrow> 2 \<le> card (bits_on w)"
proof (cases "w = 0")
  case True
  then show ?thesis by (simp add: popcount_more_than_one_def bits_on_def)
next
  case False
  have m: "Min (bits_on w) \<in> bits_on w" using False by (intro Min_in) simp_all
  have "card (bits_on (w AND (w - 1))) = card (bits_on w) - 1"
    unfolding bits_on_clear_lowest [OF False] using m by (rule card_Diff_singleton)
  moreover have "w AND (w - 1) \<noteq> 0 \<longleftrightarrow> card (bits_on (w AND (w - 1))) \<noteq> 0" by simp
  ultimately show ?thesis by (simp add: popcount_more_than_one_def) linarith
qed

lemma bit_get_real_keys:
  assumes "unat (MATRIX_COLS cf) \<le> LENGTH('r)"
  shows "bit (get_real_keys cf r (w :: 'r::len word)) c \<longleftrightarrow>
    c < unat (MATRIX_COLS cf) \<and> keycode_at_keymap_location cf 0 (of_nat r) (of_nat c) \<noteq> 0 \<and> bit w c"
proof -
  have "bit (fold (\<lambda>c out. if keycode_at_keymap_location cf 0 (of_nat r) (of_nat c) \<noteq> 0 \<and> test_mask w c
                     then out OR shl1 c else out) [0..<n] (0 :: 'r word)) c \<longleftrightarrow>
      c < n \<and> keycode_at_keymap_location cf 0 (of_nat r) (of_nat c) \<noteq> 0 \<and> bit w c" if "n \<le> LENGTH('r)" for n
    using that by (induction n) (auto simp: bit_or_iff bit_shl1 test_mask_iff less_Suc_eq)
  then show ?thesis using assms by (simp add: get_real_keys_def)
qed

text \<open>A row is held back when it shares at least two pressed real keys' columns with another row.\<close>

lemma ghost_iff:
  assumes "unat (MATRIX_COLS cf) \<le> LENGTH('r)"
  shows "has_ghost_in_row ghost cf (m :: 'r::len matrix) r (m ! r) \<longleftrightarrow>
    ghost \<and> (\<exists>i<unat (MATRIX_ROWS cf). i \<noteq> r
      \<and> 2 \<le> card (bits_on (get_real_keys cf i (m ! i)) \<inter> bits_on (get_real_keys cf r (m ! r))))"
proof -
  have c: "bits_on (a AND b) = bits_on a \<inter> bits_on b" for a b :: "'r word" by (auto simp: bits_on_def bit_and_iff)
  have "2 \<le> card (bits_on b)" if "2 \<le> card (bits_on a \<inter> bits_on b)" for a b :: "'r word"
    using that card_mono [of "bits_on b" "bits_on a \<inter> bits_on b"] by simp
  then show ?thesis by (auto simp: has_ghost_in_row_def popcount_more_than_one_iff Let_def list_ex_iff c)
qed

subsection \<open>The changes of one scan\<close>


text \<open>The keys that change: row, column and new value, in the order of the events.\<close>

definition held_back :: "bool \<Rightarrow> 'z kbd_scheme config \<Rightarrow> 'r::len matrix \<Rightarrow> nat \<Rightarrow> bool" where
  "held_back ghost cf m r = has_ghost_in_row ghost cf m r (m ! r)"

definition row_events :: "bool \<Rightarrow> 'z kbd_scheme config \<Rightarrow> 'r::len matrix \<Rightarrow> 'r matrix \<Rightarrow> nat \<Rightarrow> (nat \<times> nat \<times> bool) list" where
  "row_events ghost cf prev m r =
     (if held_back ghost cf m r then []
      else map (\<lambda>c. (r, c, bit (m ! r) c)) (filter (\<lambda>c. bit (m ! r) c \<noteq> bit (prev ! r) c) [0..<unat (MATRIX_COLS cf)]))"

definition next_previous :: "bool \<Rightarrow> 'z kbd_scheme config \<Rightarrow> 'r::len matrix \<Rightarrow> 'r matrix \<Rightarrow> nat \<Rightarrow> 'r word" where
  "next_previous ghost cf prev m r = (if held_back ghost cf m r then prev ! r else m ! r)"

abbreviation (input) exec_all :: "(keyevent_t \<Rightarrow> 's \<Rightarrow> 's) \<Rightarrow> ('s \<Rightarrow> uint16) \<Rightarrow> (nat \<times> nat \<times> bool) list \<Rightarrow> 's \<Rightarrow> 's" where
  "exec_all exec clock \<equiv> fold (\<lambda>(r, c, d). exec_key exec clock r c d)"

lemma column_loop_events:
  assumes "cols \<le> LENGTH('r)"
  shows "column_loop exec clock True cols r (a :: 'r::len word) (a XOR b) s =
    exec_all exec clock (map (\<lambda>c. (r, c, bit a c)) (filter (\<lambda>c. bit a c \<noteq> bit b c) [0..<cols])) s"
  using assms
proof (induction cols)
  case (Suc n)
  then show ?case by (simp add: column_loop_def test_mask_iff bit_xor_iff)
qed (simp add: column_loop_def)

lemma row_loop_events:
  assumes "unat (MATRIX_COLS cf) \<le> LENGTH('r)" "r < length prev" "prev ! r = p ! r"
  shows "row_loop exec clock True ghost cf (m :: 'r::len matrix) r (prev, s) =
    (prev[r := next_previous ghost cf p m r], exec_all exec clock (row_events ghost cf p m r) s)"
proof -
  have "row_events ghost cf p m r = []" if "m ! r = p ! r" using that by (simp add: row_events_def)
  moreover have "prev[r := p ! r] = prev" by (metis assms(3) list_update_id)
  ultimately show ?thesis
    using assms column_loop_events [OF assms(1), of exec clock r "m ! r" "p ! r" s]
    by (auto simp: row_loop_def next_previous_def row_events_def held_back_def xor_zero_iff Let_def)
qed

lemma rows_events:
  assumes "unat (MATRIX_COLS cf) \<le> LENGTH('r)" "n \<le> length p"
  shows "fold (row_loop exec clock True ghost cf (m :: 'r::len matrix)) [0..<n] (p, s) =
    (map (next_previous ghost cf p m) [0..<n] @ drop n p,
     exec_all exec clock (concat (map (row_events ghost cf p m) [0..<n])) s)"
  using assms(2)
proof (induction n)
  case (Suc n)
  let ?prev = "map (next_previous ghost cf p m) [0..<n] @ drop n p"
  have i: "n < length ?prev" "?prev ! n = p ! n" using Suc.prems by (simp_all add: nth_append)
  have "?prev[n := x] = map (next_previous ghost cf p m) [0..<n] @ x # drop (Suc n) p" for x
    using Suc.prems by (simp add: list_update_append Cons_nth_drop_Suc [symmetric])
  then show ?case using Suc row_loop_events [OF assms(1) i, of exec clock ghost m] by simp
qed simp

lemma matrix_task_events:
  assumes "unat (MATRIX_COLS cf) \<le> LENGTH('r)" "length (matrix_previous mt) = unat (MATRIX_ROWS cf)"
    "matrix_task exec clock True True ghost cf (m :: 'r::len matrix) (mt, s) = (True, mt', s')"
  shows "matrix_previous mt' = map (next_previous ghost cf (matrix_previous mt) m) [0..<unat (MATRIX_ROWS cf)]"
    "s' = exec_all exec clock (concat (map (row_events ghost cf (matrix_previous mt) m) [0..<unat (MATRIX_ROWS cf)])) s"
  using assms(3) rows_events [OF assms(1), of "unat (MATRIX_ROWS cf)" "matrix_previous mt" exec clock ghost m s] assms(2)
  by (auto simp: matrix_task_def split: if_splits)


subsection \<open>Presses and releases alternate\<close>

text \<open>Running \<open>exec\<close> and noting the events.\<close>

definition traced :: "(keyevent_t \<Rightarrow> 's \<Rightarrow> 's) \<Rightarrow> keyevent_t \<Rightarrow> keyevent_t list \<times> 's \<Rightarrow> keyevent_t list \<times> 's" where
  "traced exec ev = (\<lambda>(log, s). (log @ [ev], exec ev s))"

definition presses :: "keypos_t \<Rightarrow> keyevent_t list \<Rightarrow> bool list" where
  "presses k log = map pressed (filter (\<lambda>ev. event_type ev = KEY_EVENT \<and> key ev = k) log)"

fun alternates :: "bool \<Rightarrow> bool list \<Rightarrow> bool" where
  "alternates b [] = True"
| "alternates b (x # xs) = (x \<noteq> b \<and> alternates x xs)"

definition level :: "bool \<Rightarrow> bool list \<Rightarrow> bool" where
  "level b xs = (if xs = [] then b else last xs)"

lemma alternates_snoc: "alternates b (xs @ [x]) \<longleftrightarrow> alternates b xs \<and> x \<noteq> level b xs"
  by (induction xs arbitrary: b) (auto simp: level_def)

lemma presses_append: "presses k (xs @ ys) = presses k xs @ presses k ys"
  by (simp add: presses_def)

definition pos :: "nat \<Rightarrow> nat \<Rightarrow> keypos_t" where "pos r c = \<lparr>row = of_nat r, col = of_nat c\<rparr>"

lemma pos_inj: "r < 256 \<Longrightarrow> c < 256 \<Longrightarrow> r' < 256 \<Longrightarrow> c' < 256 \<Longrightarrow> pos r c = pos r' c' \<longleftrightarrow> r = r' \<and> c = c'"
  by (auto simp: pos_def word_unat_eq_iff unat_of_nat_small)

lemma traced_presses:
  "presses k (fst (exec_all (traced exec) clock xs (log, s))) =
   presses k log @ map (\<lambda>(r, c, d). d) (filter (\<lambda>(r, c, d). pos r c = k) xs)"
proof (induction xs arbitrary: log s)
  case (Cons x xs)
  obtain r c d where x: "x = (r, c, d)" by (cases x)
  let ?ev = "MAKE_EVENT (of_nat r) (of_nat c) d KEY_EVENT (clock (log, s))"
  have "exec_key (traced exec) clock r c d (log, s) = (log @ [?ev], exec ?ev s)" by (simp add: exec_key_def traced_def)
  moreover have "presses k [?ev] = (if pos r c = k then [d] else [])" by (simp add: presses_def MAKE_EVENT_def pos_def)
  ultimately show ?case using Cons.IH [of "log @ [?ev]" "exec ?ev s"] x by (simp add: presses_append)
qed (simp add: presses_def)

text \<open>What one scan does to one key.\<close>

lemma row_events_key:
  assumes "r < 256" "c < 256" "r' < 256" "unat (MATRIX_COLS cf) \<le> 256"
  shows "filter (\<lambda>(i, j, d). pos i j = pos r c) (row_events ghost cf p m r') =
    (if r' = r \<and> c < unat (MATRIX_COLS cf) \<and> \<not> held_back ghost cf m r \<and> bit (m ! r) c \<noteq> bit (p ! r) c
     then [(r, c, bit (m ! r) c)] else [])"
proof -
  have "filter (\<lambda>j. pos r' j = pos r c) (filter Q [0..<n]) = (if r' = r \<and> c < n \<and> Q c then [c] else [])" if "n \<le> 256" for n Q
    using that assms(1-3) by (induction n) (auto simp: pos_inj)
  from this [of "unat (MATRIX_COLS cf)" "\<lambda>c. bit (m ! r') c \<noteq> bit (p ! r') c"] show ?thesis
    using assms(4) by (auto simp: row_events_def filter_map comp_def)
qed

lemma scan_events_key:
  assumes "r < unat (MATRIX_ROWS cf)" "c < unat (MATRIX_COLS cf)"
  shows "map (\<lambda>(i, j, d). d) (filter (\<lambda>(i, j, d). pos i j = pos r c) (concat (map (row_events ghost cf p m) [0..<unat (MATRIX_ROWS cf)])))
    = (if \<not> held_back ghost cf m r \<and> bit (m ! r) c \<noteq> bit (p ! r) c then [bit (m ! r) c] else [])"
proof -
  have b: "unat (MATRIX_ROWS cf) < 256" "unat (MATRIX_COLS cf) < 256"
    using unsigned_less [of "MATRIX_ROWS cf"] unsigned_less [of "MATRIX_COLS cf"] by simp_all
  have "map (\<lambda>(i, j, d). d) (filter (\<lambda>(i, j, d). pos i j = pos r c) (concat (map (row_events ghost cf p m) [0..<n])))
    = (if r < n \<and> \<not> held_back ghost cf m r \<and> bit (m ! r) c \<noteq> bit (p ! r) c then [bit (m ! r) c] else [])" if "n \<le> 256" for n
    using that assms b by (induction n) (auto simp: row_events_key)
  then show ?thesis using assms(1) b by simp
qed

lemma tick_presses: "presses k (fst (snd (generate_tick_event (traced exec) clock (mt, log, s)))) = presses k log"
  "matrix_previous (fst (generate_tick_event (traced exec) clock (mt, log, s))) = matrix_previous mt"
  by (simp_all add: generate_tick_event_def traced_def presses_def MAKE_EVENT_def Let_def)

definition tracks :: "'z kbd_scheme config \<Rightarrow> nat \<Rightarrow> nat \<Rightarrow> 'r::len matrix matrix_task_state \<times> keyevent_t list \<times> 's \<Rightarrow> bool" where
  "tracks cf r c = (\<lambda>(mt, log, s). length (matrix_previous mt) = unat (MATRIX_ROWS cf)
     \<and> alternates False (presses (pos r c) log) \<and> level False (presses (pos r c) log) = bit (matrix_previous mt ! r) c)"

lemma matrix_task_tracks:
  assumes "unat (MATRIX_COLS cf) \<le> LENGTH('r)" "r < unat (MATRIX_ROWS cf)" "c < unat (MATRIX_COLS cf)"
    and t: "tracks cf r c (mt, log, s)"
  shows "tracks cf r c (snd (matrix_task (traced exec) clock can_read True ghost cf (m :: 'r::len matrix) (mt, log, s)))"
proof (cases "fst (matrix_task (traced exec) clock can_read True ghost cf m (mt, log, s))")
  case True
  then obtain mt' log' s' where e: "matrix_task (traced exec) clock True True ghost cf m (mt, log, s) = (True, mt', log', s')"
    and c: "can_read" by (cases "matrix_task (traced exec) clock True True ghost cf m (mt, log, s)")
      (auto simp: matrix_task_def split: if_splits)
  have len: "length (matrix_previous mt) = unat (MATRIX_ROWS cf)" using t by (simp add: tracks_def)
  note ev = matrix_task_events [OF assms(1) len e]
  from ev(2) have "log' = fst (exec_all (traced exec) clock
      (concat (map (row_events ghost cf (matrix_previous mt) m) [0..<unat (MATRIX_ROWS cf)])) (log, s))"
    by (metis fst_conv)
  then have "presses (pos r c) log' = presses (pos r c) log
      @ (if \<not> held_back ghost cf m r \<and> bit (m ! r) c \<noteq> bit (matrix_previous mt ! r) c then [bit (m ! r) c] else [])"
    unfolding scan_events_key [OF assms(2,3), symmetric] by (simp only: traced_presses)
  moreover have "matrix_previous mt' ! r = next_previous ghost cf (matrix_previous mt) m r" "length (matrix_previous mt') = unat (MATRIX_ROWS cf)"
    using ev(1) t assms(2) by (simp_all add: tracks_def)
  ultimately show ?thesis using t c e
    by (auto simp: tracks_def next_previous_def alternates_snoc) (auto simp: level_def)
next
  case False
  then have "snd (matrix_task (traced exec) clock can_read True ghost cf m (mt, log, s)) = generate_tick_event (traced exec) clock (mt, log, s)"
    by (auto simp: matrix_task_def Let_def split: if_splits prod.splits)
  then show ?thesis using t tick_presses(1) [where exec = exec and clock = clock and mt = mt and log = log and s = s and k = "pos r c"]
      tick_presses(2) [where exec = exec and clock = clock and mt = mt and log = log and s = s]
    by (cases "generate_tick_event (traced exec) clock (mt, log, s)") (auto simp: tracks_def)
qed

subsection \<open>Many scans\<close>

text \<open>Noting the events does not change what happens.\<close>

abbreviation (input) untraced :: "'m \<times> keyevent_t list \<times> 's \<Rightarrow> 'm \<times> 's" where
  "untraced \<equiv> \<lambda>(m, log, s). (m, s)"

lemma traced_column_loop:
  "snd (column_loop (traced exec) (clock \<circ> snd) process cols r a b (log, s)) = column_loop exec clock process cols r a b s"
  unfolding column_loop_def by (subst fold_transfer [where g = snd]) (simp_all add: exec_key_def traced_def case_prod_beta)

lemma traced_row_loop:
  "untraced (row_loop (traced exec) (clock \<circ> snd) process ghost cf m r (p, log, s)) = row_loop exec clock process ghost cf m r (p, s)"
  by (simp add: row_loop_def Let_def traced_column_loop case_prod_beta)

lemma traced_rows:
  "untraced (fold (row_loop (traced exec) (clock \<circ> snd) process ghost cf m) rs x) =
   fold (row_loop exec clock process ghost cf m) rs (untraced x)"
proof (rule fold_transfer)
  fix r and x :: "'a word list \<times> keyevent_t list \<times> 'b"
  show "untraced (row_loop (traced exec) (clock \<circ> snd) process ghost cf m r x) = row_loop exec clock process ghost cf m r (untraced x)"
    by (cases x) (simp only: traced_row_loop prod.case)
qed

lemma traced_matrix_task:
  "untraced (snd (matrix_task (traced exec) (clock \<circ> snd) can_read process ghost cf m (mt, log, s))) =
   snd (matrix_task exec clock can_read process ghost cf m (mt, s))"
  using traced_rows [of exec clock process ghost cf m "[0..<unat (MATRIX_ROWS cf)]" "(matrix_previous mt, log, s)"]
  by (auto simp: matrix_task_def generate_tick_event_def traced_def Let_def split: prod.splits)

text \<open>One scan at time \<open>t\<close>, and the same with its events noted.\<close>

definition scan_step ::
  "(keyevent_t \<Rightarrow> 'z kbd_scheme \<Rightarrow> 'z kbd_scheme) \<Rightarrow> bool \<Rightarrow> 'z kbd_scheme config \<Rightarrow> uint16 \<times> bool \<times> 'r::len matrix \<Rightarrow>
   'r matrix matrix_task_state \<times> 'z kbd_scheme \<Rightarrow> 'r matrix matrix_task_state \<times> 'z kbd_scheme" where
  "scan_step exec ghost cf = (\<lambda>(t, can_read, m) (mt, s).
     snd (matrix_task exec now can_read True ghost cf m (mt, s\<lparr>now := t\<rparr>)))"

definition traced_scan ::
  "(keyevent_t \<Rightarrow> 'z kbd_scheme \<Rightarrow> 'z kbd_scheme) \<Rightarrow> bool \<Rightarrow> 'z kbd_scheme config \<Rightarrow> uint16 \<times> bool \<times> 'r::len matrix \<Rightarrow>
   'r matrix matrix_task_state \<times> keyevent_t list \<times> 'z kbd_scheme \<Rightarrow>
   'r matrix matrix_task_state \<times> keyevent_t list \<times> 'z kbd_scheme" where
  "traced_scan exec ghost cf = (\<lambda>(t, can_read, m) (mt, log, s).
     snd (matrix_task (traced exec) (now \<circ> snd) can_read True ghost cf m (mt, log, s\<lparr>now := t\<rparr>)))"

lemma traced_scans:
  fixes scans :: "(uint16 \<times> bool \<times> 'r::len matrix) list" and x :: "_ \<times> _ \<times> 'z kbd_scheme"
  shows "untraced (fold (traced_scan exec ghost cf) scans x) = fold (scan_step exec ghost cf) scans (untraced x)"
proof (rule fold_transfer)
  fix z :: "uint16 \<times> bool \<times> 'r matrix" and x :: "'r matrix matrix_task_state \<times> keyevent_t list \<times> 'z kbd_scheme"
  show "untraced (traced_scan exec ghost cf z x) = scan_step exec ghost cf z (untraced x)"
    by (cases x; cases z) (simp only: traced_scan_def scan_step_def traced_matrix_task prod.case)
qed

lemma scans_track:
  assumes "unat (MATRIX_COLS cf) \<le> LENGTH('r)" "r < unat (MATRIX_ROWS cf)" "c < unat (MATRIX_COLS cf)"
  shows "tracks cf r c x \<Longrightarrow> tracks cf r c (fold (traced_scan exec ghost cf) (scans :: (uint16 \<times> bool \<times> 'r::len matrix) list) x)"
proof (erule fold_kept [rotated])
  fix z :: "uint16 \<times> bool \<times> 'r matrix" and x :: "'r matrix matrix_task_state \<times> keyevent_t list \<times> 'a kbd_scheme"
  assume t: "tracks cf r c x"
  obtain mt log s where x: "x = (mt, log, s)" by (cases x)
  have "tracks cf r c (mt, log, s\<lparr>now := fst z\<rparr>)" using t by (simp add: x tracks_def)
  from matrix_task_tracks [OF assms this] show "tracks cf r c (traced_scan exec ghost cf z x)"
    by (simp add: traced_scan_def x case_prod_beta comp_def)
qed

text \<open>Whatever \<open>exec\<close> keeps, the scans keep.\<close>

lemma column_loop_kept: "(\<And>ev s. P s \<Longrightarrow> P (exec ev s)) \<Longrightarrow> P s \<Longrightarrow> P (column_loop exec clock process cols r a b s)"
  unfolding column_loop_def by (rule fold_kept) (simp_all add: exec_key_def)

lemma rows_kept:
  fixes p :: "'r::len matrix" and s :: 's
  assumes "\<And>ev s. P s \<Longrightarrow> P (exec ev s)" "P s"
  shows "P (snd (fold (row_loop exec clock process ghost cf m) rs (p, s)))"
proof -
  have "(P \<circ> snd) (fold (row_loop exec clock process ghost cf m) rs (p, s))"
  proof (rule fold_kept)
    fix r and x :: "'r matrix \<times> 's" assume "(P \<circ> snd) x"
    then show "(P \<circ> snd) (row_loop exec clock process ghost cf m r x)"
      using column_loop_kept [of P exec, OF assms(1), of "snd x" clock process _ r "m ! r" "m ! r XOR fst x ! r"]
      by (simp add: row_loop_def case_prod_beta Let_def)
  qed (simp add: assms(2))
  then show ?thesis by simp
qed

lemma matrix_task_kept:
  assumes "\<And>ev s. P s \<Longrightarrow> P (exec ev s)" "P s"
  shows "P (snd (snd (matrix_task exec clock can_read process ghost cf m (mt, s))))"
  using assms(2) rows_kept [of P exec s, OF assms, of clock process ghost cf m "[0..<unat (MATRIX_ROWS cf)]" "matrix_previous mt"]
    assms(1) [OF assms(2)]
  by (simp add: matrix_task_def generate_tick_event_def case_prod_beta Let_def)

lemma scans_kept:
  fixes scans :: "(uint16 \<times> bool \<times> 'r::len matrix) list" and s :: "'z kbd_scheme"
  assumes "\<And>ev s. P s \<Longrightarrow> P (exec ev s)" "\<And>s t. P s \<Longrightarrow> P (s\<lparr>now := t\<rparr>)" "P s"
  shows "P (snd (fold (scan_step exec ghost cf) scans (mt, s)))"
proof -
  have "(P \<circ> snd) (fold (scan_step exec ghost cf) scans (mt, s))"
  proof (rule fold_kept)
    fix z :: "uint16 \<times> bool \<times> 'r matrix" and x :: "'r matrix matrix_task_state \<times> 'z kbd_scheme"
    assume "(P \<circ> snd) x"
    then show "(P \<circ> snd) (scan_step exec ghost cf z x)"
      using matrix_task_kept [of P exec, OF assms(1) assms(2) [of "snd x" "fst z"]] by (simp add: scan_step_def case_prod_beta)
  qed (simp add: assms(3))
  then show ?thesis by simp
qed

text \<open>
  What ghost detection is meant to find: the row shares two columns with another row, where both rows show a pressed key that exists. These are
  the corners of a rectangle, of which the matrix cannot tell whether all four keys or only three are down.
\<close>

definition real_down :: "'z kbd_scheme config \<Rightarrow> 'r::len matrix \<Rightarrow> nat \<Rightarrow> nat \<Rightarrow> bool" where
  "real_down cf m r c \<longleftrightarrow> c < unat (MATRIX_COLS cf) \<and> keycode_at_keymap_location cf 0 (of_nat r) (of_nat c) \<noteq> 0 \<and> bit (m ! r) c"

definition ambiguous_row :: "'z kbd_scheme config \<Rightarrow> 'r::len matrix \<Rightarrow> nat \<Rightarrow> bool" where
  "ambiguous_row cf m r \<longleftrightarrow>
     (\<exists>i<unat (MATRIX_ROWS cf). i \<noteq> r \<and> (\<exists>c d. c \<noteq> d \<and> real_down cf m r c \<and> real_down cf m r d \<and> real_down cf m i c \<and> real_down cf m i d))"

lemma two_le_card: "finite A \<Longrightarrow> 2 \<le> card A \<longleftrightarrow> (\<exists>x y. x \<noteq> y \<and> x \<in> A \<and> y \<in> A)"
  using card_le_Suc0_iff_eq [of A] by (auto simp: not_less_eq_eq [symmetric] numeral_2_eq_2)

lemma held_back_iff:
  assumes "unat (MATRIX_COLS cf) \<le> LENGTH('r)"
  shows "held_back ghost cf (m :: 'r::len matrix) r \<longleftrightarrow> ghost \<and> ambiguous_row cf m r"
  unfolding held_back_def ghost_iff [OF assms] ambiguous_row_def
  by (auto simp: two_le_card bits_on_def bit_get_real_keys [OF assms] real_down_def)

text \<open>A scan that may be read is processed except for the rows that are held back.\<close>

lemma scan_processed:
  assumes "unat (MATRIX_COLS cf) \<le> LENGTH('r)" "length (matrix_previous mt) = unat (MATRIX_ROWS cf)" "r < unat (MATRIX_ROWS cf)"
  shows "matrix_previous (fst (snd (matrix_task exec clock True True ghost cf (m :: 'r::len matrix) (mt, s)))) ! r =
    (if ghost \<and> ambiguous_row cf m r then matrix_previous mt ! r else m ! r)"
proof (cases "fst (matrix_task exec clock True True ghost cf m (mt, s))")
  case True
  then obtain mt' s' where e: "matrix_task exec clock True True ghost cf m (mt, s) = (True, mt', s')"
    by (cases "matrix_task exec clock True True ghost cf m (mt, s)") simp
  then show ?thesis using matrix_task_events(1) [OF assms(1,2) e] assms(3) by (simp add: next_previous_def held_back_iff [OF assms(1)])
next
  case False
  have "\<forall>r<unat (MATRIX_ROWS cf). matrix_previous mt ! r = m ! r" using False
    by (auto simp: matrix_task_def Let_def list_ex_iff xor_zero_iff split: if_splits prod.splits)
  moreover have "matrix_previous (fst (snd (matrix_task exec clock True True ghost cf m (mt, s)))) = matrix_previous mt" using False
    by (auto simp: matrix_task_def generate_tick_event_def Let_def split: if_splits prod.splits)
  ultimately show ?thesis using assms(3) by simp
qed

end
