(* ===== verification/Features.thy ===== *)
theory Features
  imports Bitwise Action_Inv
begin

text \<open>
  The keycode features of \<^verbatim>\<open>quantum/process_keycode\<close>. The record \<open>features\<close> extends the state of the
  action code by the static variables of the features, \<open>feature_config\<close> holds their compile-time options
  and the functions a keymap may provide. A handler has the type of \<open>record_handlers\<close>: it returns whether
  the record is to be processed further. Here are grave-escape, the tri-layer keys, key lock, layer lock,
  the leader key, caps word and the space cadet keys; an idle timeout of layer lock is not compiled in.
\<close>

subsection \<open>State and options\<close>

text \<open>The state of one tap dance (\<^verbatim>\<open>process_tap_dance.h\<close>).\<close>

record tap_dance_state_t =
  interrupting_keycode :: uint16
  td_count :: uint8
  td_weak_mods :: uint8
  td_oneshot_mods :: uint8
  td_pressed :: bool
  td_finished :: bool
  td_interrupted :: bool

definition no_tap_dance :: tap_dance_state_t where
  "no_tap_dance = \<lparr>interrupting_keycode = 0, td_count = 0, td_weak_mods = 0, td_oneshot_mods = 0, td_pressed = False,
     td_finished = False, td_interrupted = False\<rparr>"

text \<open>
  In the order of the handlers: tap dances, key lock, dynamic macros, repeat key, caps word, leader key,
  space cadet, grave-escape, tri-layer and layer lock. Pointers into the buffer of the dynamic macros are indices, and
  may be one off its ends.
\<close>

record features = kbd +
  tap_dances :: "tap_dance_state_t list"
  active_td :: uint16
  last_tap_time :: uint16
  key_state :: "uint64 list"
  watching :: bool
  macro_buffer :: "keyrecord_t list"
  macro_end :: int
  r_macro_end :: int
  macro_pointer :: int
  macro_id :: nat
  last_record :: keyrecord_t
  last_mods :: uint8
  last_repeat_count :: int
  processing_repeat_count :: int
  registered_record :: keyrecord_t
  registered_repeat_count :: int
  alt_registered_record :: keyrecord_t
  alt_registered_repeat_count :: int
  caps_word_active :: bool
  idle_timer :: uint16
  held_mods :: uint8
  shift_tapped :: bool
  shift_timer :: uint16
  leading :: bool
  leader_time :: uint16
  leader_sequence :: "uint16 list"
  leader_sequence_size :: nat
  sc_last :: uint8
  sc_timer :: uint16
  sc_mods :: uint8
  grave_esc_was_shifted :: bool
  tri_layer_lower_layer :: uint8
  tri_layer_upper_layer :: uint8
  tri_layer_adjust_layer :: uint8
  locked_layers :: uint16

type_synonym 's handler = "uint16 \<Rightarrow> keyrecord_t \<Rightarrow> 's \<Rightarrow> bool \<times> 's"

text \<open>What a tap dance does, with its \<open>user_data\<close> filled in; a function that is \<open>NULL\<close> is \<open>None\<close>.\<close>

type_synonym 's tap_dance_fn = "tap_dance_state_t \<Rightarrow> 's \<Rightarrow> tap_dance_state_t \<times> 's"

record 's tap_dance_action_t =
  on_each_tap :: "'s tap_dance_fn option"
  on_dance_finished :: "'s tap_dance_fn option"
  on_reset :: "'s tap_dance_fn option"
  on_each_release :: "'s tap_dance_fn option"

text \<open>\<open>CAPS_WORD_IDLE_TIMEOUT\<close> is 0 for no timeout; a space cadet key is the modifier when held, the modifier when tapped, and the key.\<close>

record 's feature_config =
  tap_dance_actions :: "'s tap_dance_action_t list"
  DYNAMIC_MACRO_SIZE :: nat
  DYNAMIC_MACRO_NO_NESTING :: bool
  DYNAMIC_MACRO_DELAY :: uint16
  dynamic_macro_valid_key_user :: "uint16 \<Rightarrow> keyrecord_t \<Rightarrow> bool"
  remember_last_key_user :: "uint16 \<Rightarrow> keyrecord_t \<Rightarrow> uint8 \<Rightarrow> bool \<times> uint8"
  get_alt_repeat_key_keycode_user :: "uint16 \<Rightarrow> uint8 \<Rightarrow> uint16"
  CAPS_WORD_IDLE_TIMEOUT :: uint16
  CAPS_WORD_INVERT_ON_SHIFT :: bool
  BOTH_SHIFTS_TURNS_ON_CAPS_WORD :: bool
  DOUBLE_TAP_SHIFT_TURNS_ON_CAPS_WORD :: bool
  caps_word_press_user :: "uint16 \<Rightarrow> 's \<Rightarrow> bool \<times> 's"
  caps_word_set_user :: "bool \<Rightarrow> 's \<Rightarrow> 's"
  LEADER_TIMEOUT :: uint16
  LEADER_NO_TIMEOUT :: bool
  LEADER_PER_KEY_TIMING :: bool
  LEADER_KEY_STRICT_KEY_PROCESSING :: bool
  leader_start_user :: "'s \<Rightarrow> 's"
  leader_end_user :: "'s \<Rightarrow> 's"
  SPACE_CADET_MODIFIER_CARRYOVER :: bool
  space_cadet_keys :: "uint16 \<Rightarrow> (uint8 \<times> uint8 \<times> uint8) option"
  GRAVE_ESC_ALT_OVERRIDE :: bool
  GRAVE_ESC_CTRL_OVERRIDE :: bool
  GRAVE_ESC_GUI_OVERRIDE :: bool
  GRAVE_ESC_SHIFT_OVERRIDE :: bool
  layer_lock_set_kb :: "uint16 \<Rightarrow> 's \<Rightarrow> 's"
  layer_lock_set_user :: "uint16 \<Rightarrow> 's \<Rightarrow> 's"

subsection \<open>Keycodes and masks\<close>

abbreviation (input) KC_MINUS :: "'a::len word" where "KC_MINUS \<equiv> 0x2D"
abbreviation (input) KC_DELETE :: "'a::len word" where "KC_DELETE \<equiv> 0x4C"
abbreviation (input) KC_1 :: "'a::len word" where "KC_1 \<equiv> 0x1E"
abbreviation (input) KC_9 :: "'a::len word" where "KC_9 \<equiv> 0x26"
abbreviation (input) KC_0 :: "'a::len word" where "KC_0 \<equiv> 0x27"
abbreviation (input) KC_ENTER :: "'a::len word" where "KC_ENTER \<equiv> 0x28"
abbreviation (input) KC_UNDS :: uint16 where "KC_UNDS \<equiv> 0x022D"
abbreviation (input) QK_TAP_DANCE :: uint16 where "QK_TAP_DANCE \<equiv> 0x5700"
abbreviation (input) QK_TAP_DANCE_MAX :: uint16 where "QK_TAP_DANCE_MAX \<equiv> 0x57FF"
abbreviation (input) QK_GRAVE_ESCAPE :: uint16 where "QK_GRAVE_ESCAPE \<equiv> 0x7C16"
abbreviation (input) QK_SPACE_CADET_LEFT_CTRL_PARENTHESIS_OPEN :: uint16 where "QK_SPACE_CADET_LEFT_CTRL_PARENTHESIS_OPEN \<equiv> 0x7C18"
abbreviation (input) QK_SPACE_CADET_RIGHT_CTRL_PARENTHESIS_CLOSE :: uint16 where "QK_SPACE_CADET_RIGHT_CTRL_PARENTHESIS_CLOSE \<equiv> 0x7C19"
abbreviation (input) QK_SPACE_CADET_LEFT_SHIFT_PARENTHESIS_OPEN :: uint16 where "QK_SPACE_CADET_LEFT_SHIFT_PARENTHESIS_OPEN \<equiv> 0x7C1A"
abbreviation (input) QK_SPACE_CADET_RIGHT_SHIFT_PARENTHESIS_CLOSE :: uint16 where "QK_SPACE_CADET_RIGHT_SHIFT_PARENTHESIS_CLOSE \<equiv> 0x7C1B"
abbreviation (input) QK_SPACE_CADET_LEFT_ALT_PARENTHESIS_OPEN :: uint16 where "QK_SPACE_CADET_LEFT_ALT_PARENTHESIS_OPEN \<equiv> 0x7C1C"
abbreviation (input) QK_SPACE_CADET_RIGHT_ALT_PARENTHESIS_CLOSE :: uint16 where "QK_SPACE_CADET_RIGHT_ALT_PARENTHESIS_CLOSE \<equiv> 0x7C1D"
abbreviation (input) QK_SPACE_CADET_RIGHT_SHIFT_ENTER :: uint16 where "QK_SPACE_CADET_RIGHT_SHIFT_ENTER \<equiv> 0x7C1E"
abbreviation (input) QK_DYNAMIC_MACRO_RECORD_START_1 :: uint16 where "QK_DYNAMIC_MACRO_RECORD_START_1 \<equiv> 0x7C53"
abbreviation (input) QK_DYNAMIC_MACRO_RECORD_START_2 :: uint16 where "QK_DYNAMIC_MACRO_RECORD_START_2 \<equiv> 0x7C54"
abbreviation (input) QK_DYNAMIC_MACRO_RECORD_STOP :: uint16 where "QK_DYNAMIC_MACRO_RECORD_STOP \<equiv> 0x7C55"
abbreviation (input) QK_DYNAMIC_MACRO_PLAY_1 :: uint16 where "QK_DYNAMIC_MACRO_PLAY_1 \<equiv> 0x7C56"
abbreviation (input) QK_DYNAMIC_MACRO_PLAY_2 :: uint16 where "QK_DYNAMIC_MACRO_PLAY_2 \<equiv> 0x7C57"
abbreviation (input) QK_LEADER :: uint16 where "QK_LEADER \<equiv> 0x7C58"
abbreviation (input) QK_LOCK :: uint16 where "QK_LOCK \<equiv> 0x7C59"
abbreviation (input) QK_CAPS_WORD_TOGGLE :: uint16 where "QK_CAPS_WORD_TOGGLE \<equiv> 0x7C73"
abbreviation (input) QK_REPEAT_KEY :: uint16 where "QK_REPEAT_KEY \<equiv> 0x7C79"
abbreviation (input) QK_ALT_REPEAT_KEY :: uint16 where "QK_ALT_REPEAT_KEY \<equiv> 0x7C7A"
abbreviation (input) QK_LAYER_LOCK :: uint16 where "QK_LAYER_LOCK \<equiv> 0x7C7B"
abbreviation (input) MOD_LSFT :: uint8 where "MOD_LSFT \<equiv> 0x02"
abbreviation (input) MOD_RSFT :: uint8 where "MOD_RSFT \<equiv> 0x12"
abbreviation (input) MOD_MASK_CTRL :: uint8 where "MOD_MASK_CTRL \<equiv> 0x11"
abbreviation (input) MOD_MASK_SHIFT :: uint8 where "MOD_MASK_SHIFT \<equiv> 0x22"
abbreviation (input) MOD_MASK_ALT :: uint8 where "MOD_MASK_ALT \<equiv> 0x44"
abbreviation (input) MOD_MASK_GUI :: uint8 where "MOD_MASK_GUI \<equiv> 0x88"
abbreviation (input) MOD_MASK_SG :: uint8 where "MOD_MASK_SG \<equiv> 0xAA"

text \<open>The layer switch keys \<open>MO\<close>, \<open>TO\<close>, \<open>TG\<close> and \<open>TT\<close>.\<close>

definition is_layer_switch :: "uint16 \<Rightarrow> bool" where
  "is_layer_switch kc \<longleftrightarrow> QK_MOMENTARY \<le> kc \<and> kc \<le> QK_MOMENTARY_MAX \<or> QK_TO \<le> kc \<and> kc \<le> QK_TO_MAX
     \<or> QK_TOGGLE_LAYER \<le> kc \<and> kc \<le> QK_TOGGLE_LAYER_MAX \<or> QK_LAYER_TAP_TOGGLE \<le> kc \<and> kc \<le> QK_LAYER_TAP_TOGGLE_MAX"

text \<open>\<open>timer_expired\<close> and \<open>timer_elapsed\<close> of \<^verbatim>\<open>platforms/timer.h\<close>.\<close>

definition timer_expired :: "uint16 \<Rightarrow> uint16 \<Rightarrow> bool" where "timer_expired current future \<longleftrightarrow> current - future < 32767"
definition timer_elapsed :: "uint16 \<Rightarrow> 'z kbd_scheme \<Rightarrow> uint16" where "timer_elapsed t s = TIMER_DIFF_16 (now s) t"

subsection \<open>Grave-escape\<close>

definition process_grave_esc :: "'z features_scheme config \<Rightarrow> 'z features_scheme feature_config \<Rightarrow> 'z features_scheme handler" where
  "process_grave_esc cf fc kc r s =
     (if kc = QK_GRAVE_ESCAPE
      then let mods = real_mods s; shifted = mods AND MOD_MASK_SG;
               shifted = (if GRAVE_ESC_ALT_OVERRIDE fc \<and> mods AND MOD_MASK_ALT \<noteq> 0 then 0 else shifted);
               shifted = (if GRAVE_ESC_CTRL_OVERRIDE fc \<and> mods AND MOD_MASK_CTRL \<noteq> 0 then 0 else shifted);
               shifted = (if GRAVE_ESC_GUI_OVERRIDE fc \<and> mods AND MOD_MASK_GUI \<noteq> 0 then 0 else shifted);
               shifted = (if GRAVE_ESC_SHIFT_OVERRIDE fc \<and> mods AND MOD_MASK_SHIFT \<noteq> 0 then 0 else shifted);
               s = (if pressed (event r)
                    then add_key (if shifted \<noteq> 0 then KC_GRAVE else KC_ESCAPE) (s\<lparr>grave_esc_was_shifted := shifted \<noteq> 0\<rparr>)
                    else del_key (if grave_esc_was_shifted s then KC_GRAVE else KC_ESCAPE) s)
           in (False, send_keyboard_report cf s)
      else (True, s))"

subsection \<open>Tri-layer keys\<close>

definition set_tri_layer_layers :: "uint8 \<Rightarrow> uint8 \<Rightarrow> uint8 \<Rightarrow> 'z features_scheme \<Rightarrow> 'z features_scheme" where
  "set_tri_layer_layers lower raise adjust s =
     s\<lparr>tri_layer_lower_layer := lower, tri_layer_upper_layer := raise, tri_layer_adjust_layer := adjust\<rparr>"

definition update_tri :: "'z features_scheme config \<Rightarrow> 'z features_scheme \<Rightarrow> 'z features_scheme" where
  "update_tri cf s = update_tri_layer cf (tri_layer_lower_layer s) (tri_layer_upper_layer s) (tri_layer_adjust_layer s) s"

definition process_tri_layer :: "'z features_scheme config \<Rightarrow> 'z features_scheme handler" where
  "process_tri_layer cf kc r s =
     (if kc = QK_TRI_LAYER_LOWER
      then (False, update_tri cf (if pressed (event r) then layer_on cf (tri_layer_lower_layer s) s
                                  else layer_off cf (tri_layer_lower_layer s) s))
      else if kc = QK_TRI_LAYER_UPPER
      then (False, update_tri cf (if pressed (event r) then layer_on cf (tri_layer_upper_layer s) s
                                  else layer_off cf (tri_layer_upper_layer s) s))
      else (True, s))"

subsection \<open>Key lock\<close>

text \<open>One bit for each basic keycode, in four words.\<close>

definition BV_64 :: "nat \<Rightarrow> uint64" where "BV_64 shift = shl1 shift"

definition key_array :: "uint16 \<Rightarrow> nat" where
  "key_array code = (if code < 0x40 then 0 else if code < 0x80 then 1 else if code < 0xC0 then 2 else 3)"
definition GET_CODE_INDEX :: "uint16 \<Rightarrow> nat" where
  "GET_CODE_INDEX code =
     unat (if code < 0x40 then code else if code < 0x80 then code - 0x40 else if code < 0xC0 then code - 0x80 else code - 0xC0)"
definition GET_KEY_ARRAY :: "uint16 \<Rightarrow> 'z features_scheme \<Rightarrow> uint64" where
  "GET_KEY_ARRAY code s = key_state s ! key_array code"
definition KEY_STATE :: "uint16 \<Rightarrow> 'z features_scheme \<Rightarrow> bool" where
  "KEY_STATE code s \<longleftrightarrow> GET_KEY_ARRAY code s AND BV_64 (GET_CODE_INDEX code) = BV_64 (GET_CODE_INDEX code)"
definition SET_KEY_ARRAY_STATE :: "uint16 \<Rightarrow> uint64 \<Rightarrow> 'z features_scheme \<Rightarrow> 'z features_scheme" where
  "SET_KEY_ARRAY_STATE code val s = (if code \<le> 0xFF then s\<lparr>key_state := (key_state s)[key_array code := val]\<rparr> else s)"
definition SET_KEY_STATE :: "uint16 \<Rightarrow> 'z features_scheme \<Rightarrow> 'z features_scheme" where
  "SET_KEY_STATE code s = SET_KEY_ARRAY_STATE code (GET_KEY_ARRAY code s OR BV_64 (GET_CODE_INDEX code)) s"
definition UNSET_KEY_STATE :: "uint16 \<Rightarrow> 'z features_scheme \<Rightarrow> 'z features_scheme" where
  "UNSET_KEY_STATE code s = SET_KEY_ARRAY_STATE code (GET_KEY_ARRAY code s AND NOT (BV_64 (GET_CODE_INDEX code))) s"
definition IS_STANDARD_KEYCODE :: "uint16 \<Rightarrow> bool" where "IS_STANDARD_KEYCODE code \<longleftrightarrow> code \<le> 0xFF"

definition translate_keycode :: "uint16 \<Rightarrow> uint16" where
  "translate_keycode kc = (if QK_ONE_SHOT_MOD < kc \<and> kc \<le> QK_ONE_SHOT_MOD_MAX then kc XOR QK_ONE_SHOT_MOD else kc)"

definition cancel_key_lock :: "'z features_scheme \<Rightarrow> 'z features_scheme" where
  "cancel_key_lock s = UNSET_KEY_STATE 0 (s\<lparr>watching := False\<rparr>)"

definition process_key_lock :: "uint16 \<Rightarrow> keyrecord_t \<Rightarrow> 'z features_scheme \<Rightarrow> bool \<times> uint16 \<times> 'z features_scheme" where
  "process_key_lock kc r s =
     (let translated = translate_keycode kc
      in if pressed (event r)
         then if \<not> (IS_STANDARD_KEYCODE translated \<or> translated = QK_LOCK) then (True, kc, s\<lparr>watching := False\<rparr>)
              else if translated = QK_LOCK then (False, kc, s\<lparr>watching := \<not> watching s\<rparr>)
              else if IS_STANDARD_KEYCODE translated
              then if watching s then (True, translated, SET_KEY_STATE translated (s\<lparr>watching := False\<rparr>))
                   else if KEY_STATE translated s then (False, kc, UNSET_KEY_STATE translated s)
                   else (True, kc, s)
              else (True, kc, s)
         else (\<not> (IS_STANDARD_KEYCODE translated \<and> KEY_STATE translated s), kc, s))"

subsection \<open>Layer lock\<close>

definition is_layer_locked :: "uint8 \<Rightarrow> 'z features_scheme \<Rightarrow> bool" where
  "is_layer_locked layer s \<longleftrightarrow> locked_layers s AND layer_mask layer \<noteq> 0"

definition layer_lock_invert ::
  "'z features_scheme config \<Rightarrow> 'z features_scheme feature_config \<Rightarrow> uint8 \<Rightarrow> 'z features_scheme \<Rightarrow> 'z features_scheme" where
  "layer_lock_invert cf fc layer s =
     (let mask = layer_mask layer;
          s = (if locked_layers s AND mask = 0
               then let s = (if layer = get_oneshot_layer s then reset_oneshot_layer cf s else s) in layer_on cf layer s
               else layer_off cf layer s);
          s = s\<lparr>locked_layers := locked_layers s XOR mask\<rparr>
      in layer_lock_set_user fc (locked_layers s) s)"

definition layer_lock_on ::
  "'z features_scheme config \<Rightarrow> 'z features_scheme feature_config \<Rightarrow> uint8 \<Rightarrow> 'z features_scheme \<Rightarrow> 'z features_scheme" where
  "layer_lock_on cf fc layer s = (if \<not> is_layer_locked layer s then layer_lock_invert cf fc layer s else s)"
definition layer_lock_off ::
  "'z features_scheme config \<Rightarrow> 'z features_scheme feature_config \<Rightarrow> uint8 \<Rightarrow> 'z features_scheme \<Rightarrow> 'z features_scheme" where
  "layer_lock_off cf fc layer s = (if is_layer_locked layer s then layer_lock_invert cf fc layer s else s)"
definition layer_lock_all_off ::
  "'z features_scheme config \<Rightarrow> 'z features_scheme feature_config \<Rightarrow> 'z features_scheme \<Rightarrow> 'z features_scheme" where
  "layer_lock_all_off cf fc s =
     (let s = layer_and cf (NOT (locked_layers s)) s; s = s\<lparr>locked_layers := 0\<rparr> in layer_lock_set_user fc (locked_layers s) s)"

definition handle_mo_or_tt ::
  "'z features_scheme config \<Rightarrow> 'z features_scheme feature_config \<Rightarrow> uint8 \<Rightarrow> keyrecord_t \<Rightarrow> 'z features_scheme \<Rightarrow> bool \<times> 'z features_scheme" where
  "handle_mo_or_tt cf fc layer r s =
     (if is_layer_locked layer s then (False, if pressed (event r) then layer_lock_invert cf fc layer s else s) else (True, s))"

text \<open>Layers that something else turned off are unlocked.\<close>

definition unlock_stale_layers :: "'z features_scheme feature_config \<Rightarrow> 'z features_scheme \<Rightarrow> 'z features_scheme" where
  "unlock_stale_layers fc s =
     (if locked_layers s AND NOT (layer_state s) \<noteq> 0
      then let s = s\<lparr>locked_layers := locked_layers s AND layer_state s\<rparr> in layer_lock_set_kb fc (locked_layers s) s
      else s)"

definition process_layer_lock :: "'z features_scheme config \<Rightarrow> 'z features_scheme feature_config \<Rightarrow> 'z features_scheme handler" where
  "process_layer_lock cf fc kc r s =
     (let s = unlock_stale_layers fc s
      in if kc = QK_LAYER_LOCK
         then (False, if pressed (event r) then layer_lock_invert cf fc (biton16 (layer_state s)) s else s)
         else if QK_MOMENTARY \<le> kc \<and> kc \<le> QK_MOMENTARY_MAX then handle_mo_or_tt cf fc (low5 kc) r s
         else if QK_LAYER_TAP_TOGGLE \<le> kc \<and> kc \<le> QK_LAYER_TAP_TOGGLE_MAX then handle_mo_or_tt cf fc (low5 kc) r s
         else if QK_LAYER_MOD \<le> kc \<and> kc \<le> QK_LAYER_MOD_MAX
         then let layer = QK_LAYER_MOD_GET_LAYER kc
              in if is_layer_locked layer s
                 then (False, if pressed (event r) then layer_lock_invert cf fc layer s
                              else send_keyboard_report cf (clear_mods s))
                 else (True, s)
         else if IS_QK_LAYER_TAP kc
         then (\<not> (count (tap r) = 0 \<and> \<not> pressed (event r) \<and> is_layer_locked (QK_LAYER_TAP_GET_LAYER kc) s), s)
         else (True, s))"

subsection \<open>Leader key\<close>

definition leader_start :: "'z features_scheme feature_config \<Rightarrow> 'z features_scheme \<Rightarrow> 'z features_scheme" where
  "leader_start fc s =
     (if leading s then s
      else let s = leader_start_user fc s
           in s\<lparr>leading := True, leader_time := now s, leader_sequence_size := 0, leader_sequence := replicate 5 0\<rparr>)"
definition leader_end :: "'z features_scheme feature_config \<Rightarrow> 'z features_scheme \<Rightarrow> 'z features_scheme" where
  "leader_end fc s = leader_end_user fc (s\<lparr>leading := False\<rparr>)"
definition leader_reset_timer :: "'z features_scheme \<Rightarrow> 'z features_scheme" where
  "leader_reset_timer s = s\<lparr>leader_time := now s\<rparr>"
definition leader_sequence_timed_out :: "'z features_scheme feature_config \<Rightarrow> 'z features_scheme \<Rightarrow> bool" where
  "leader_sequence_timed_out fc s \<longleftrightarrow>
     (LEADER_NO_TIMEOUT fc \<longrightarrow> 0 < leader_sequence_size s) \<and> LEADER_TIMEOUT fc < timer_elapsed (leader_time s) s"
definition leader_task :: "'z features_scheme feature_config \<Rightarrow> 'z features_scheme \<Rightarrow> 'z features_scheme" where
  "leader_task fc s = (if leading s \<and> leader_sequence_timed_out fc s then leader_end fc s else s)"
definition leader_sequence_add :: "'z features_scheme feature_config \<Rightarrow> uint16 \<Rightarrow> 'z features_scheme \<Rightarrow> bool \<times> 'z features_scheme" where
  "leader_sequence_add fc kc s =
     (if length (leader_sequence s) \<le> leader_sequence_size s then (False, s)
      else let s = (if LEADER_NO_TIMEOUT fc \<and> leader_sequence_size s = 0 then leader_reset_timer s else s)
           in (True, s\<lparr>leader_sequence := (leader_sequence s)[leader_sequence_size s := kc],
                       leader_sequence_size := Suc (leader_sequence_size s)\<rparr>))"
definition leader_sequence_is :: "uint16 \<Rightarrow> uint16 \<Rightarrow> uint16 \<Rightarrow> uint16 \<Rightarrow> uint16 \<Rightarrow> 'z features_scheme \<Rightarrow> bool" where
  "leader_sequence_is kc1 kc2 kc3 kc4 kc5 s \<longleftrightarrow>
     leader_sequence s ! 0 = kc1 \<and> leader_sequence s ! 1 = kc2 \<and> leader_sequence s ! 2 = kc3
     \<and> leader_sequence s ! 3 = kc4 \<and> leader_sequence s ! 4 = kc5"
definition leader_sequence_one_key :: "uint16 \<Rightarrow> 'z features_scheme \<Rightarrow> bool" where
  "leader_sequence_one_key kc1 s = leader_sequence_is kc1 0 0 0 0 s"
definition leader_sequence_two_keys :: "uint16 \<Rightarrow> uint16 \<Rightarrow> 'z features_scheme \<Rightarrow> bool" where
  "leader_sequence_two_keys kc1 kc2 s = leader_sequence_is kc1 kc2 0 0 0 s"
definition leader_sequence_three_keys :: "uint16 \<Rightarrow> uint16 \<Rightarrow> uint16 \<Rightarrow> 'z features_scheme \<Rightarrow> bool" where
  "leader_sequence_three_keys kc1 kc2 kc3 s = leader_sequence_is kc1 kc2 kc3 0 0 s"
definition leader_sequence_four_keys :: "uint16 \<Rightarrow> uint16 \<Rightarrow> uint16 \<Rightarrow> uint16 \<Rightarrow> 'z features_scheme \<Rightarrow> bool" where
  "leader_sequence_four_keys kc1 kc2 kc3 kc4 s = leader_sequence_is kc1 kc2 kc3 kc4 0 s"
definition leader_sequence_five_keys :: "uint16 \<Rightarrow> uint16 \<Rightarrow> uint16 \<Rightarrow> uint16 \<Rightarrow> uint16 \<Rightarrow> 'z features_scheme \<Rightarrow> bool" where
  "leader_sequence_five_keys kc1 kc2 kc3 kc4 kc5 s = leader_sequence_is kc1 kc2 kc3 kc4 kc5 s"

definition process_leader :: "'z features_scheme feature_config \<Rightarrow> 'z features_scheme handler" where
  "process_leader fc kc r s =
     (if pressed (event r)
      then if leading s \<and> \<not> leader_sequence_timed_out fc s
           then let kc = (if LEADER_KEY_STRICT_KEY_PROCESSING fc then kc else get_tap_keycode kc);
                    (added, s) = leader_sequence_add fc kc s
                in if \<not> added then (True, leader_end fc s)
                   else (False, if LEADER_PER_KEY_TIMING fc then leader_reset_timer s else s)
           else (True, if kc = QK_LEADER then leader_start fc s else s)
      else (True, s))"

subsection \<open>Space cadet\<close>

text \<open>The keys in the default configuration.\<close>

definition default_space_cadet :: "uint16 \<Rightarrow> (uint8 \<times> uint8 \<times> uint8) option" where
  "default_space_cadet kc =
     (if kc = QK_SPACE_CADET_LEFT_SHIFT_PARENTHESIS_OPEN then Some (KC_LEFT_SHIFT, KC_LEFT_SHIFT, KC_9)
      else if kc = QK_SPACE_CADET_RIGHT_SHIFT_PARENTHESIS_CLOSE then Some (KC_RIGHT_SHIFT, KC_RIGHT_SHIFT, KC_0)
      else if kc = QK_SPACE_CADET_LEFT_CTRL_PARENTHESIS_OPEN then Some (KC_LEFT_CTRL, KC_LEFT_SHIFT, KC_9)
      else if kc = QK_SPACE_CADET_RIGHT_CTRL_PARENTHESIS_CLOSE then Some (KC_RIGHT_CTRL, KC_RIGHT_SHIFT, KC_0)
      else if kc = QK_SPACE_CADET_LEFT_ALT_PARENTHESIS_OPEN then Some (KC_LEFT_ALT, KC_LEFT_SHIFT, KC_9)
      else if kc = QK_SPACE_CADET_RIGHT_ALT_PARENTHESIS_CLOSE then Some (KC_RIGHT_ALT, KC_RIGHT_SHIFT, KC_0)
      else if kc = QK_SPACE_CADET_RIGHT_SHIFT_ENTER then Some (KC_RIGHT_SHIFT, KC_TRANSPARENT, KC_ENTER)
      else None)"

definition reset_space_cadet :: "'z features_scheme \<Rightarrow> 'z features_scheme" where "reset_space_cadet s = s\<lparr>sc_last := 0\<rparr>"

definition register_if_mod :: "'z features_scheme config \<Rightarrow> uint8 \<Rightarrow> 'z features_scheme \<Rightarrow> 'z features_scheme" where
  "register_if_mod cf k s = (if IS_MODIFIER_KEYCODE k then register_mods cf (MOD_BIT k) s else s)"
definition unregister_if_mod :: "'z features_scheme config \<Rightarrow> uint8 \<Rightarrow> 'z features_scheme \<Rightarrow> 'z features_scheme" where
  "unregister_if_mod cf k s = (if IS_MODIFIER_KEYCODE k then unregister_mods cf (MOD_BIT k) s else s)"

definition perform_space_cadet ::
  "'z features_scheme config \<Rightarrow> 'z features_scheme feature_config \<Rightarrow> keyrecord_t \<Rightarrow> uint16 \<Rightarrow> uint8 \<times> uint8 \<times> uint8 \<Rightarrow>
   'z features_scheme \<Rightarrow> 'z features_scheme" where
  "perform_space_cadet cf fc r sc_keycode = (\<lambda>(hold_mod, tap_mod, kc) s.
     if pressed (event r)
     then let s = s\<lparr>sc_last := hold_mod, sc_timer := now s\<rparr>;
              s = (if SPACE_CADET_MODIFIER_CARRYOVER fc then s\<lparr>sc_mods := real_mods s\<rparr> else s)
          in register_if_mod cf hold_mod s
     else if sc_last s = hold_mod \<and> timer_elapsed (sc_timer s) s < get_tapping_term cf sc_keycode r
     then let s = (if hold_mod \<noteq> tap_mod then register_if_mod cf tap_mod (unregister_if_mod cf hold_mod s) else s);
              s = (if SPACE_CADET_MODIFIER_CARRYOVER fc then set_weak_mods (sc_mods s) s else s);
              s = tap_code cf kc s;
              s = (if SPACE_CADET_MODIFIER_CARRYOVER fc then clear_weak_mods s else s)
          in unregister_if_mod cf tap_mod s
     else unregister_if_mod cf hold_mod s)"

definition process_space_cadet :: "'z features_scheme config \<Rightarrow> 'z features_scheme feature_config \<Rightarrow> 'z features_scheme handler" where
  "process_space_cadet cf fc kc r s =
     (case space_cadet_keys fc kc of
        Some ks \<Rightarrow> (False, perform_space_cadet cf fc r kc ks s)
      | None \<Rightarrow> (True, if pressed (event r) then reset_space_cadet s else s))"

subsection \<open>Caps word\<close>

definition caps_word_reset_idle_timer :: "'z features_scheme feature_config \<Rightarrow> 'z features_scheme \<Rightarrow> 'z features_scheme" where
  "caps_word_reset_idle_timer fc s =
     (if 0 < CAPS_WORD_IDLE_TIMEOUT fc then s\<lparr>idle_timer := now s + CAPS_WORD_IDLE_TIMEOUT fc\<rparr> else s)"

definition caps_word_on :: "'z features_scheme config \<Rightarrow> 'z features_scheme feature_config \<Rightarrow> 'z features_scheme \<Rightarrow> 'z features_scheme" where
  "caps_word_on cf fc s =
     (if caps_word_active s then s
      else let s = clear_mods s; s = clear_oneshot_mods cf s; s = caps_word_reset_idle_timer fc s
           in caps_word_set_user fc True (s\<lparr>caps_word_active := True\<rparr>))"
definition caps_word_off :: "'z features_scheme config \<Rightarrow> 'z features_scheme feature_config \<Rightarrow> 'z features_scheme \<Rightarrow> 'z features_scheme" where
  "caps_word_off cf fc s =
     (if \<not> caps_word_active s then s
      else let s = unregister_weak_mods cf MOD_MASK_SHIFT s in caps_word_set_user fc False (s\<lparr>caps_word_active := False\<rparr>))"
definition caps_word_toggle :: "'z features_scheme config \<Rightarrow> 'z features_scheme feature_config \<Rightarrow> 'z features_scheme \<Rightarrow> 'z features_scheme" where
  "caps_word_toggle cf fc s = (if caps_word_active s then caps_word_off cf fc s else caps_word_on cf fc s)"
definition caps_word_task :: "'z features_scheme config \<Rightarrow> 'z features_scheme feature_config \<Rightarrow> 'z features_scheme \<Rightarrow> 'z features_scheme" where
  "caps_word_task cf fc s =
     (if 0 < CAPS_WORD_IDLE_TIMEOUT fc \<and> caps_word_active s \<and> timer_expired (now s) (idle_timer s) then caps_word_off cf fc s else s)"

text \<open>The default of \<open>caps_word_press_user\<close>.\<close>

definition default_caps_word_press :: "uint16 \<Rightarrow> 'z kbd_scheme \<Rightarrow> bool \<times> 'z kbd_scheme" where
  "default_caps_word_press kc s =
     (if KC_A \<le> kc \<and> kc \<le> KC_Z \<or> kc = KC_MINUS then (True, add_weak_mods (MOD_BIT KC_LEFT_SHIFT) s)
      else (KC_1 \<le> kc \<and> kc \<le> KC_0 \<or> kc = KC_BACKSPACE \<or> kc = KC_DELETE \<or> kc = KC_UNDS, s))"

text \<open>With \<open>CAPS_WORD_INVERT_ON_SHIFT\<close> caps word keeps track of the shift keys itself.\<close>

definition shift_keycode :: "uint16 \<Rightarrow> keyrecord_t \<Rightarrow> uint16" where
  "shift_keycode kc r =
     (if kc = OSM MOD_LSFT then KC_LEFT_SHIFT else if kc = OSM MOD_RSFT then KC_RIGHT_SHIFT
      else if IS_QK_MOD_TAP kc \<and> count (tap r) = 0
      then if mods5 kc = MOD_LSFT then KC_LEFT_SHIFT else if mods5 kc = MOD_RSFT then KC_RIGHT_SHIFT else kc
      else kc)"

definition handle_shift :: "'z features_scheme handler" where
  "handle_shift kc r s =
     (let kc = shift_keycode kc r
      in if kc = KC_LEFT_SHIFT \<or> kc = KC_RIGHT_SHIFT
         then let m = MOD_BIT (ucast kc)
              in if caps_word_active s
                 then (False, s\<lparr>held_mods := (if pressed (event r) then held_mods s OR m else held_mods s AND NOT m)\<rparr>)
                 else if held_mods s AND m \<noteq> 0
                 then (pressed (event r), del_mods m (s\<lparr>held_mods := held_mods s AND NOT m\<rparr>))
                 else (True, s)
         else (True, s))"

text \<open>What a key press does while caps word is on: nothing, it ends caps word, or it counts as a keycode.\<close>

datatype caps_word_step = Ignored | Stops | Counts_as uint16

definition caps_word_keycode :: "'z features_scheme config \<Rightarrow> 'z features_scheme feature_config \<Rightarrow> uint16 \<Rightarrow> keyrecord_t \<Rightarrow> caps_word_step" where
  "caps_word_keycode cf fc kc r =
     (if is_layer_switch kc \<or> QK_ONE_SHOT_LAYER \<le> kc \<and> kc \<le> QK_ONE_SHOT_LAYER_MAX
         \<or> QK_TRI_LAYER_LOWER \<le> kc \<and> kc \<le> QK_TRI_LAYER_UPPER \<or> kc = KC_RIGHT_ALT \<or> kc = OSM MOD_RALT then Ignored
      else if IS_QK_MOD_TAP kc
      then if count (tap r) = 0
           then if \<not> CAPS_WORD_INVERT_ON_SHIFT fc \<and> mods5 kc = MOD_LSFT then Counts_as KC_LEFT_SHIFT
                else if \<not> CAPS_WORD_INVERT_ON_SHIFT fc \<and> mods5 kc = MOD_RSFT then Counts_as KC_RIGHT_SHIFT
                else if mods5 kc = MOD_RSFT OR MOD_RALT then Counts_as 0x12E6
                else if mods5 kc = MOD_RALT then Ignored else Stops
           else Counts_as (kc AND 0xFF)
      else if IS_QK_LAYER_TAP kc then if count (tap r) = 0 then Ignored else Counts_as (kc AND 0xFF)
      else if SWAP_HANDS_ENABLE cf \<and> QK_SWAP_HANDS \<le> kc \<and> kc \<le> QK_SWAP_HANDS_MAX
      then if IS_SWAP_HANDS_KEYCODE kc \<or> count (tap r) = 0 then Ignored else Counts_as (kc AND 0xFF)
      else Counts_as kc)"

definition caps_word_stop :: "'z features_scheme config \<Rightarrow> 'z features_scheme feature_config \<Rightarrow> 'z features_scheme \<Rightarrow> 'z features_scheme" where
  "caps_word_stop cf fc s =
     (let s = caps_word_off cf fc s in if CAPS_WORD_INVERT_ON_SHIFT fc then add_mods (held_mods s) s else s)"

definition caps_word_press ::
  "'z features_scheme config \<Rightarrow> 'z features_scheme feature_config \<Rightarrow> caps_word_step \<Rightarrow> 'z features_scheme \<Rightarrow> 'z features_scheme" where
  "caps_word_press cf fc st s =
     (case st of Ignored \<Rightarrow> s | Stops \<Rightarrow> caps_word_stop cf fc s
      | Counts_as kc \<Rightarrow>
          let (ok, s) = caps_word_press_user fc kc (clear_weak_mods s)
          in if ok
             then send_keyboard_report cf
                    (if CAPS_WORD_INVERT_ON_SHIFT fc \<and> held_mods s \<noteq> 0
                     then set_weak_mods (weak_mods s XOR MOD_BIT KC_LEFT_SHIFT) s else s)
             else caps_word_stop cf fc s)"

text \<open>Two ways to turn caps word on without a key of its own.\<close>

definition caps_word_activation ::
  "'z features_scheme config \<Rightarrow> 'z features_scheme feature_config \<Rightarrow> uint16 \<Rightarrow> keyrecord_t \<Rightarrow> 'z features_scheme \<Rightarrow> 'z features_scheme" where
  "caps_word_activation cf fc kc r s =
     (let mods = real_mods s OR oneshot_mods s;
          s = (if BOTH_SHIFTS_TURNS_ON_CAPS_WORD fc \<and> mods = MOD_MASK_SHIFT
               then reset_space_cadet (caps_word_on cf fc s) else s)
      in if DOUBLE_TAP_SHIFT_TURNS_ON_CAPS_WORD fc \<and> pressed (event r)
         then if kc = KC_LEFT_SHIFT \<or> kc = OSM MOD_LSFT
              then let s = (if shift_tapped s \<and> \<not> timer_expired (time (event r)) (shift_timer s) then caps_word_on cf fc s else s)
                   in s\<lparr>shift_tapped := True, shift_timer := time (event r) + get_tapping_term cf kc r\<rparr>
              else s\<lparr>shift_tapped := False\<rparr>
         else s)"

definition process_caps_word :: "'z features_scheme config \<Rightarrow> 'z features_scheme feature_config \<Rightarrow> 'z features_scheme handler" where
  "process_caps_word cf fc kc r s =
     (if kc = QK_CAPS_WORD_TOGGLE then (False, if pressed (event r) then caps_word_toggle cf fc s else s)
      else let (ok, s) = (if CAPS_WORD_INVERT_ON_SHIFT fc then handle_shift kc r s else (True, s))
           in if \<not> ok then (False, s)
              else if \<not> caps_word_active s then (True, caps_word_activation cf fc kc r s)
              else let mods = real_mods s OR oneshot_mods s; s = caps_word_reset_idle_timer fc s
                   in (True, if \<not> pressed (event r) then s
                             else caps_word_press cf fc
                               (if mods AND NOT (MOD_MASK_SHIFT OR MOD_BIT KC_RIGHT_ALT) = 0
                                then caps_word_keycode cf fc kc r else Stops) s))"

end
