(* ===== verification/Tap_Dance.thy ===== *)
theory Tap_Dance
  imports Features
begin

text \<open>
  Tap dances (\<^verbatim>\<open>quantum/process_keycode/process_tap_dance.c\<close>): keys whose action depends on how often they
  are tapped. A dance is in progress from its first tap until the tapping term has passed since its last
  tap or another key is pressed; then it is finished, and it is reset when its key is released.
\<close>

subsection \<open>The functions of a dance\<close>

definition TD_INDEX :: "uint16 \<Rightarrow> nat" where "TD_INDEX kc = unat (kc AND 0xFF)"

definition is_tap_dance :: "uint16 \<Rightarrow> bool" where "is_tap_dance kc \<longleftrightarrow> QK_TAP_DANCE \<le> kc \<and> kc \<le> QK_TAP_DANCE_MAX"

definition dance :: "nat \<Rightarrow> 'z features_scheme \<Rightarrow> tap_dance_state_t" where "dance i s = tap_dances s ! i"

definition set_dance :: "nat \<Rightarrow> tap_dance_state_t \<Rightarrow> 'z features_scheme \<Rightarrow> 'z features_scheme" where
  "set_dance i st s = s\<lparr>tap_dances := (tap_dances s)[i := st]\<rparr>"

definition process_tap_dance_action_fn :: "'z features_scheme tap_dance_fn option \<Rightarrow> nat \<Rightarrow> 'z features_scheme \<Rightarrow> 'z features_scheme" where
  "process_tap_dance_action_fn fn i s =
     (case fn of None \<Rightarrow> s | Some f \<Rightarrow> let (st, s) = f (dance i s) s in set_dance i st s)"

definition process_tap_dance_action_on_each_tap ::
  "'z features_scheme feature_config \<Rightarrow> nat \<Rightarrow> 'z features_scheme \<Rightarrow> 'z features_scheme" where
  "process_tap_dance_action_on_each_tap fc i s =
     process_tap_dance_action_fn (on_each_tap (tap_dance_actions fc ! i)) i
       (set_dance i ((dance i s)\<lparr>td_count := td_count (dance i s) + 1, td_weak_mods := real_mods s OR weak_mods s,
                                 td_oneshot_mods := oneshot_mods s\<rparr>) s)"

definition process_tap_dance_action_on_each_release ::
  "'z features_scheme feature_config \<Rightarrow> nat \<Rightarrow> 'z features_scheme \<Rightarrow> 'z features_scheme" where
  "process_tap_dance_action_on_each_release fc i s =
     process_tap_dance_action_fn (on_each_release (tap_dance_actions fc ! i)) i s"

definition process_tap_dance_action_on_reset ::
  "'z features_scheme config \<Rightarrow> 'z features_scheme feature_config \<Rightarrow> nat \<Rightarrow> 'z features_scheme \<Rightarrow> 'z features_scheme" where
  "process_tap_dance_action_on_reset cf fc i s =
     (let s = process_tap_dance_action_fn (on_reset (tap_dance_actions fc ! i)) i s;
          s = del_weak_mods (td_weak_mods (dance i s)) s;
          s = del_mods (td_oneshot_mods (dance i s)) s;
          s = send_keyboard_report cf s
      in set_dance i no_tap_dance s)"

definition process_tap_dance_action_on_dance_finished ::
  "'z features_scheme config \<Rightarrow> 'z features_scheme feature_config \<Rightarrow> nat \<Rightarrow> 'z features_scheme \<Rightarrow> 'z features_scheme" where
  "process_tap_dance_action_on_dance_finished cf fc i s =
     (let s = (if td_finished (dance i s) then s
               else let s = set_dance i ((dance i s)\<lparr>td_finished := True\<rparr>) s;
                        s = add_weak_mods (td_weak_mods (dance i s)) s;
                        s = add_mods (td_oneshot_mods (dance i s)) s;
                        s = send_keyboard_report cf s
                    in process_tap_dance_action_fn (on_dance_finished (tap_dance_actions fc ! i)) i s);
          s = s\<lparr>active_td := 0\<rparr>
      in if \<not> td_pressed (dance i s) then process_tap_dance_action_on_reset cf fc i s else s)"

subsection \<open>Events\<close>

definition preprocess_tap_dance ::
  "'z features_scheme config \<Rightarrow> 'z features_scheme feature_config \<Rightarrow> uint16 \<Rightarrow> keyrecord_t \<Rightarrow> 'z features_scheme \<Rightarrow> bool \<times> 'z features_scheme" where
  "preprocess_tap_dance cf fc kc r s =
     (if \<not> pressed (event r) then (False, s)
      else if active_td s = 0 \<or> kc = active_td s then (False, s)
      else let i = TD_INDEX (active_td s);
               s = set_dance i ((dance i s)\<lparr>td_interrupted := True, interrupting_keycode := kc\<rparr>) s;
               s = process_tap_dance_action_on_dance_finished cf fc i s
           in (True, clear_weak_mods s))"

definition process_tap_dance :: "'z features_scheme config \<Rightarrow> 'z features_scheme feature_config \<Rightarrow> 'z features_scheme handler" where
  "process_tap_dance cf fc kc r s =
     (True,
      if \<not> is_tap_dance kc then s
      else let i = TD_INDEX kc; s = set_dance i ((dance i s)\<lparr>td_pressed := pressed (event r)\<rparr>) s
           in if pressed (event r)
              then let s = s\<lparr>last_tap_time := now s\<rparr>; s = process_tap_dance_action_on_each_tap fc i s
                   in s\<lparr>active_td := (if td_finished (dance i s) then 0 else kc)\<rparr>
              else let s = process_tap_dance_action_on_each_release fc i s
                   in if td_finished (dance i s)
                      then let s = process_tap_dance_action_on_reset cf fc i s
                           in if active_td s = kc then s\<lparr>active_td := 0\<rparr> else s
                      else s)"

definition tap_dance_task ::
  "'z features_scheme config \<Rightarrow> 'z features_scheme feature_config \<Rightarrow> 'z features_scheme \<Rightarrow> 'z features_scheme" where
  "tap_dance_task cf fc s =
     (if active_td s = 0 \<or> timer_elapsed (last_tap_time s) s \<le> get_tapping_term cf (active_td s) no_record then s
      else let i = TD_INDEX (active_td s)
           in if \<not> td_interrupted (dance i s) then process_tap_dance_action_on_dance_finished cf fc i s else s)"

definition reset_tap_dance ::
  "'z features_scheme config \<Rightarrow> 'z features_scheme feature_config \<Rightarrow> nat \<Rightarrow> 'z features_scheme \<Rightarrow> 'z features_scheme" where
  "reset_tap_dance cf fc i s = process_tap_dance_action_on_reset cf fc i (s\<lparr>active_td := 0\<rparr>)"

subsection \<open>The dances that come with the firmware\<close>

definition tap_dance_pair_on_each_tap :: "'z features_scheme config \<Rightarrow> uint16 \<Rightarrow> 'z features_scheme tap_dance_fn" where
  "tap_dance_pair_on_each_tap cf kc2 st s =
     (if td_count st = 2 then (st\<lparr>td_finished := True\<rparr>, register_code16 cf kc2 s) else (st, s))"
definition tap_dance_pair_finished :: "'z features_scheme config \<Rightarrow> uint16 \<Rightarrow> 'z features_scheme tap_dance_fn" where
  "tap_dance_pair_finished cf kc1 st s = (st, register_code16 cf kc1 s)"
definition tap_dance_pair_reset :: "'z features_scheme config \<Rightarrow> uint16 \<Rightarrow> uint16 \<Rightarrow> 'z features_scheme tap_dance_fn" where
  "tap_dance_pair_reset cf kc1 kc2 st s =
     (st, if td_count st = 1 then unregister_code16 cf kc1 (wait_ms (TAP_CODE_DELAY cf) s)
          else if td_count st = 2 then unregister_code16 cf kc2 s else s)"

definition tap_dance_dual_role_on_each_tap :: "'z features_scheme config \<Rightarrow> uint8 \<Rightarrow> 'z features_scheme tap_dance_fn" where
  "tap_dance_dual_role_on_each_tap cf layer st s =
     (if td_count st = 2 then (st\<lparr>td_finished := True\<rparr>, layer_move cf layer s) else (st, s))"
definition tap_dance_dual_role_finished ::
  "'z features_scheme config \<Rightarrow> uint16 \<Rightarrow> uint8 \<Rightarrow> (uint8 \<Rightarrow> 'z features_scheme \<Rightarrow> 'z features_scheme) \<Rightarrow> 'z features_scheme tap_dance_fn" where
  "tap_dance_dual_role_finished cf kc layer layer_function st s =
     (st, if td_count st = 1 then register_code16 cf kc s
          else if td_count st = 2 then layer_function layer s else s)"
definition tap_dance_dual_role_reset :: "'z features_scheme config \<Rightarrow> uint16 \<Rightarrow> 'z features_scheme tap_dance_fn" where
  "tap_dance_dual_role_reset cf kc st s =
     (st, if td_count st = 1 then unregister_code16 cf kc (wait_ms (TAP_CODE_DELAY cf) s) else s)"

definition ACTION_TAP_DANCE_DOUBLE :: "'z features_scheme config \<Rightarrow> uint16 \<Rightarrow> uint16 \<Rightarrow> 'z features_scheme tap_dance_action_t" where
  "ACTION_TAP_DANCE_DOUBLE cf kc1 kc2 =
     \<lparr>on_each_tap = Some (tap_dance_pair_on_each_tap cf kc2), on_dance_finished = Some (tap_dance_pair_finished cf kc1),
      on_reset = Some (tap_dance_pair_reset cf kc1 kc2), on_each_release = None\<rparr>"
definition ACTION_TAP_DANCE_LAYER_MOVE :: "'z features_scheme config \<Rightarrow> uint16 \<Rightarrow> uint8 \<Rightarrow> 'z features_scheme tap_dance_action_t" where
  "ACTION_TAP_DANCE_LAYER_MOVE cf kc layer =
     \<lparr>on_each_tap = Some (tap_dance_dual_role_on_each_tap cf layer),
      on_dance_finished = Some (tap_dance_dual_role_finished cf kc layer (layer_move cf)),
      on_reset = Some (tap_dance_dual_role_reset cf kc), on_each_release = None\<rparr>"
definition ACTION_TAP_DANCE_LAYER_TOGGLE :: "'z features_scheme config \<Rightarrow> uint16 \<Rightarrow> uint8 \<Rightarrow> 'z features_scheme tap_dance_action_t" where
  "ACTION_TAP_DANCE_LAYER_TOGGLE cf kc layer =
     \<lparr>on_each_tap = None, on_dance_finished = Some (tap_dance_dual_role_finished cf kc layer (layer_invert cf)),
      on_reset = Some (tap_dance_dual_role_reset cf kc), on_each_release = None\<rparr>"

end
