(* ===== verification/Replay.thy ===== *)
theory Replay
  imports Features
begin

text \<open>
  Features that execute stored records: dynamic macros
  (\<^verbatim>\<open>quantum/process_keycode/process_dynamic_macro.c\<close>) and the repeat key (\<^verbatim>\<open>quantum/repeat_key.c\<close>,
  \<^verbatim>\<open>quantum/process_keycode/process_repeat_key.c\<close>). They call \<open>process_record\<close> on a record of their own,
  and \<open>process_record\<close> may write to it. The call is the argument \<open>again\<close>; the record is passed as the
  temporary record, whose former contents come back afterwards, and the record as it was left is returned.
\<close>

definition run_record ::
  "(recptr \<Rightarrow> 'z features_scheme \<Rightarrow> 'z features_scheme) \<Rightarrow> keyrecord_t \<Rightarrow> 'z features_scheme \<Rightarrow> keyrecord_t \<times> 'z features_scheme" where
  "run_record again r s =
     (let s' = again Tmp (s\<lparr>tmp_record := r\<rparr>) in (tmp_record s', s'\<lparr>tmp_record := tmp_record s\<rparr>))"

subsection \<open>Dynamic macros\<close>

text \<open>
  Both macros share a buffer: the first grows up from its start (direction 1), the second down from its
  end (direction -1). An end pointer is one past the last record of its macro.
\<close>

definition dynamic_macro_record_start ::
  "'z features_scheme config \<Rightarrow> int \<Rightarrow> 'z features_scheme \<Rightarrow> 'z features_scheme" where
  "dynamic_macro_record_start cf start s = (layer_clear cf (clear_keyboard cf s))\<lparr>macro_pointer := start\<rparr>"

text \<open>The loop over the records of a macro, from \<open>i\<close> to \<open>stop\<close>; \<open>n\<close> is the number of records.\<close>

fun play_records ::
  "(recptr \<Rightarrow> 'z features_scheme \<Rightarrow> 'z features_scheme) \<Rightarrow> 'z features_scheme feature_config \<Rightarrow> nat \<Rightarrow> int \<Rightarrow> int \<Rightarrow>
   'z features_scheme \<Rightarrow> 'z features_scheme" where
  "play_records again fc 0 i direction s = s"
| "play_records again fc (Suc n) i direction s =
     (let (r, s) = run_record again (macro_buffer s ! nat i) s;
          s = s\<lparr>macro_buffer := (macro_buffer s)[nat i := r]\<rparr>
      in play_records again fc n (i + direction) direction (wait_ms (DYNAMIC_MACRO_DELAY fc) s))"

definition dynamic_macro_play ::
  "(recptr \<Rightarrow> 'z features_scheme \<Rightarrow> 'z features_scheme) \<Rightarrow> 'z features_scheme config \<Rightarrow> 'z features_scheme feature_config \<Rightarrow>
   int \<Rightarrow> int \<Rightarrow> int \<Rightarrow> 'z features_scheme \<Rightarrow> 'z features_scheme" where
  "dynamic_macro_play again cf fc start stop direction s =
     (let saved_layer_state = layer_state s;
          s = layer_clear cf (clear_keyboard cf s);
          s = play_records again fc (nat (direction * (stop - start))) start direction s;
          s = clear_keyboard cf s
      in layer_state_set cf saved_layer_state s)"

definition dynamic_macro_record_key ::
  "int \<Rightarrow> int \<Rightarrow> int \<Rightarrow> keyrecord_t \<Rightarrow> 'z features_scheme \<Rightarrow> 'z features_scheme" where
  "dynamic_macro_record_key start macro2_end direction r s =
     (if \<not> pressed (event r) \<and> macro_pointer s = start then s
      else if macro_pointer s - direction \<noteq> macro2_end
      then s\<lparr>macro_buffer := (macro_buffer s)[nat (macro_pointer s) := r], macro_pointer := macro_pointer s + direction\<rparr>
      else s)"

text \<open>\<open>n\<close> is the distance from the start, which bounds the loop.\<close>

fun trim_presses :: "keyrecord_t list \<Rightarrow> int \<Rightarrow> nat \<Rightarrow> int \<Rightarrow> int" where
  "trim_presses buf direction 0 pointer = pointer"
| "trim_presses buf direction (Suc n) pointer =
     (if pressed (event (buf ! nat (pointer - direction))) then trim_presses buf direction n (pointer - direction) else pointer)"

definition dynamic_macro_record_end :: "int \<Rightarrow> int \<Rightarrow> 'z features_scheme \<Rightarrow> int" where
  "dynamic_macro_record_end start direction s =
     trim_presses (macro_buffer s) direction (nat (direction * (macro_pointer s - start))) (macro_pointer s)"

definition r_macro_begin :: "'z features_scheme feature_config \<Rightarrow> int" where
  "r_macro_begin fc = int (DYNAMIC_MACRO_SIZE fc) - 1"

definition dynamic_macro_stop_recording :: "'z features_scheme feature_config \<Rightarrow> 'z features_scheme \<Rightarrow> 'z features_scheme" where
  "dynamic_macro_stop_recording fc s =
     (let s = (if macro_id s = 1 then s\<lparr>macro_end := dynamic_macro_record_end 0 1 s\<rparr>
               else if macro_id s = 2 then s\<lparr>r_macro_end := dynamic_macro_record_end (r_macro_begin fc) (- 1) s\<rparr>
               else s)
      in s\<lparr>macro_id := 0\<rparr>)"

definition process_dynamic_macro ::
  "(recptr \<Rightarrow> 'z features_scheme \<Rightarrow> 'z features_scheme) \<Rightarrow> 'z features_scheme config \<Rightarrow> 'z features_scheme feature_config \<Rightarrow> 'z features_scheme handler" where
  "process_dynamic_macro again cf fc kc r s =
     (if macro_id s = 0
      then if pressed (event r) then (True, s)
           else if kc = QK_DYNAMIC_MACRO_RECORD_START_1 then (False, (dynamic_macro_record_start cf 0 s)\<lparr>macro_id := 1\<rparr>)
           else if kc = QK_DYNAMIC_MACRO_RECORD_START_2
           then (False, (dynamic_macro_record_start cf (r_macro_begin fc) s)\<lparr>macro_id := 2\<rparr>)
           else if kc = QK_DYNAMIC_MACRO_PLAY_1 then (False, dynamic_macro_play again cf fc 0 (macro_end s) 1 s)
           else if kc = QK_DYNAMIC_MACRO_PLAY_2
           then (False, dynamic_macro_play again cf fc (r_macro_begin fc) (r_macro_end s) (- 1) s)
           else (True, s)
      else if kc = QK_DYNAMIC_MACRO_RECORD_START_1 \<or> kc = QK_DYNAMIC_MACRO_RECORD_START_2 \<or> kc = QK_DYNAMIC_MACRO_RECORD_STOP
      then (False, if pressed (event r) \<noteq> (kc \<noteq> QK_DYNAMIC_MACRO_RECORD_STOP) then dynamic_macro_stop_recording fc s else s)
      else if DYNAMIC_MACRO_NO_NESTING fc \<and> (kc = QK_DYNAMIC_MACRO_PLAY_1 \<or> kc = QK_DYNAMIC_MACRO_PLAY_2) then (False, s)
      else (True,
            if dynamic_macro_valid_key_user fc kc r
            then if macro_id s = 1 then dynamic_macro_record_key 0 (r_macro_end s) 1 r s
                 else if macro_id s = 2 then dynamic_macro_record_key (r_macro_begin fc) (macro_end s) (- 1) r s
                 else s
            else s))"

subsection \<open>Repeat key\<close>

definition set_last_record :: "uint16 \<Rightarrow> keyrecord_t \<Rightarrow> 'z features_scheme \<Rightarrow> 'z features_scheme" where
  "set_last_record kc r s = s\<lparr>last_record := r\<lparr>keycode := kc\<rparr>, last_repeat_count := 0\<rparr>"
definition set_last_keycode :: "uint16 \<Rightarrow> 'z features_scheme \<Rightarrow> 'z features_scheme" where
  "set_last_keycode kc s = set_last_record kc (set_count 1 no_record) s"

definition update_last_repeat_count :: "int \<Rightarrow> 'z features_scheme \<Rightarrow> 'z features_scheme" where
  "update_last_repeat_count dir s =
     (if dir * last_repeat_count s < 0 then s\<lparr>last_repeat_count := dir\<rparr>
      else if dir * last_repeat_count s < 127 then s\<lparr>last_repeat_count := last_repeat_count s + dir\<rparr> else s)"

definition repeat_key_invoke ::
  "(recptr \<Rightarrow> 'z features_scheme \<Rightarrow> 'z features_scheme) \<Rightarrow> 'z features_scheme config \<Rightarrow> keyevent_t \<Rightarrow> 'z features_scheme \<Rightarrow> 'z features_scheme" where
  "repeat_key_invoke again cf ev s =
     (if processing_repeat_count s \<noteq> 0 \<or> keycode (last_record s) = 0 then s
      else let s = (if pressed ev
                    then let s = update_last_repeat_count 1 s; s = register_weak_mods cf (last_mods s) s
                         in s\<lparr>registered_record := last_record s, registered_repeat_count := last_repeat_count s\<rparr>
                    else s);
               s = s\<lparr>registered_record := (registered_record s)\<lparr>event := ev\<rparr>, processing_repeat_count := registered_repeat_count s\<rparr>;
               (r, s) = run_record again (registered_record s) s;
               s = s\<lparr>registered_record := r, processing_repeat_count := 0\<rparr>
           in if \<not> pressed ev then unregister_weak_mods cf (last_mods s) s else s)"

fun find_alt_keycode :: "(uint8 \<times> uint8) list \<Rightarrow> uint8 \<Rightarrow> uint8" where
  "find_alt_keycode [] target = KC_NO"
| "find_alt_keycode ((a, b) # table) target =
     (if target = a then b else if target = b then a else find_alt_keycode table target)"

text \<open>Letters with a modifier other than shift, letters without, and other keys, extra keys included.\<close>

definition alt_mod_pairs :: "(uint8 \<times> uint8) list" where
  "alt_mod_pairs = [(0x09, 0x05), (0x07, 0x18), (0x11, 0x13), (0x04, 0x08), (0x12, 0x0C)]"
definition alt_plain_pairs :: "(uint8 \<times> uint8) list" where
  "alt_plain_pairs = [(0x0D, 0x0E), (0x0B, 0x0F), (0x1A, 0x05), (0x08, 0x05)]"
definition alt_any_pairs :: "(uint8 \<times> uint8) list" where
  "alt_any_pairs = [(0x50, 0x4F), (0x52, 0x51), (0x4A, 0x4D), (0x4B, 0x4E), (KC_BACKSPACE, KC_DELETE), (0x2F, 0x30),
     (KC_WWW_BACK, KC_WWW_FORWARD), (KC_MEDIA_NEXT_TRACK, KC_MEDIA_PREV_TRACK), (KC_MEDIA_FAST_FORWARD, KC_MEDIA_REWIND),
     (KC_AUDIO_VOL_UP, KC_AUDIO_VOL_DOWN), (KC_BRIGHTNESS_UP, KC_BRIGHTNESS_DOWN)]"

definition pack_mods :: "uint8 \<Rightarrow> uint8" where
  "pack_mods mods = (if mods AND 0xF0 \<noteq> 0 then 0x10 else 0) OR ((drop_bit 4 mods OR mods) AND 0xF)"

definition get_alt_repeat_key_keycode :: "'z features_scheme config \<Rightarrow> 'z features_scheme feature_config \<Rightarrow> 'z features_scheme \<Rightarrow> uint16" where
  "get_alt_repeat_key_keycode cf fc s =
     (let kc = keycode (last_record s); alt = get_alt_repeat_key_keycode_user fc kc (last_mods s)
      in if alt \<noteq> KC_TRANSPARENT then alt
         else if SWAP_HANDS_ENABLE cf \<and> QK_SWAP_HANDS \<le> kc \<and> kc \<le> QK_SWAP_HANDS_MAX \<and> IS_SWAP_HANDS_KEYCODE kc then KC_NO
         else let mods = pack_mods (last_mods s);
                  unpack = QK_MODS \<le> kc \<and> kc \<le> QK_MODS_MAX;
                  mods = (if unpack then mods OR mods5 kc else mods);
                  kc = (if unpack \<or> IS_QK_MOD_TAP kc \<or> IS_QK_LAYER_TAP kc
                           \<or> SWAP_HANDS_ENABLE cf \<and> QK_SWAP_HANDS \<le> kc \<and> kc \<le> QK_SWAP_HANDS_MAX
                        then kc AND 0xFF else kc)
              in if kc \<le> 0xFF
                 then let alt = find_alt_keycode (if mods AND (MOD_LCTL OR MOD_LALT OR MOD_LGUI) \<noteq> 0
                                                  then alt_mod_pairs else alt_plain_pairs) (ucast kc);
                          alt = (if alt = 0 then find_alt_keycode alt_any_pairs (ucast kc) else alt)
                      in if alt \<noteq> 0 then push_bit 8 (ucast mods) OR ucast alt else KC_NO
                 else KC_NO)"

definition alt_repeat_key_invoke ::
  "(recptr \<Rightarrow> 'z features_scheme \<Rightarrow> 'z features_scheme) \<Rightarrow> 'z features_scheme config \<Rightarrow> 'z features_scheme feature_config \<Rightarrow>
   keyevent_t \<Rightarrow> 'z features_scheme \<Rightarrow> 'z features_scheme" where
  "alt_repeat_key_invoke again cf fc ev s =
     (if processing_repeat_count s \<noteq> 0 then s
      else let s = (if pressed ev
                    then s\<lparr>alt_registered_record := no_record\<lparr>keycode := get_alt_repeat_key_keycode cf fc s\<rparr>\<rparr> else s)
           in if keycode (alt_registered_record s) = 0 then s
              else let s = (if pressed ev
                            then let s = update_last_repeat_count (- 1) s in s\<lparr>alt_registered_repeat_count := last_repeat_count s\<rparr>
                            else s);
                       s = s\<lparr>alt_registered_record := (alt_registered_record s)\<lparr>event := ev\<rparr>,
                             processing_repeat_count := alt_registered_repeat_count s\<rparr>;
                       (r, s) = run_record again (alt_registered_record s) s
                   in s\<lparr>alt_registered_record := r, processing_repeat_count := 0\<rparr>)"

definition remember_last_key ::
  "'z features_scheme config \<Rightarrow> 'z features_scheme feature_config \<Rightarrow> uint16 \<Rightarrow> keyrecord_t \<Rightarrow> uint8 \<Rightarrow> bool \<times> uint8" where
  "remember_last_key cf fc kc r remembered_mods =
     (if is_layer_switch kc \<or> KC_LEFT_CTRL \<le> kc \<and> kc \<le> KC_RIGHT_GUI \<or> kc = 0x0F00 \<or> kc = 0x0700
         \<or> QK_ONE_SHOT_LAYER \<le> kc \<and> kc \<le> QK_ONE_SHOT_LAYER_MAX \<or> QK_ONE_SHOT_MOD \<le> kc \<and> kc \<le> QK_ONE_SHOT_MOD_MAX
         \<or> kc = QK_TRI_LAYER_LOWER \<or> kc = QK_TRI_LAYER_UPPER
         \<or> (IS_QK_MOD_TAP kc \<or> IS_QK_LAYER_TAP kc) \<and> count (tap r) = 0
         \<or> SWAP_HANDS_ENABLE cf \<and> QK_SWAP_HANDS \<le> kc \<and> kc \<le> QK_SWAP_HANDS_MAX \<and> (IS_SWAP_HANDS_KEYCODE kc \<or> count (tap r) = 0)
         \<or> kc = QK_REPEAT_KEY \<or> kc = QK_ALT_REPEAT_KEY
      then (False, remembered_mods)
      else remember_last_key_user fc kc r remembered_mods)"

definition process_last_key :: "'z features_scheme config \<Rightarrow> 'z features_scheme feature_config \<Rightarrow> 'z features_scheme handler" where
  "process_last_key cf fc kc r s =
     (True,
      if processing_repeat_count s \<noteq> 0 \<or> \<not> pressed (event r) then s
      else let (ok, remembered) = remember_last_key cf fc kc r (real_mods s OR weak_mods s OR oneshot_mods s)
           in if ok then (set_last_record kc r s)\<lparr>last_mods := remembered\<rparr> else s)"

definition process_repeat_key ::
  "(recptr \<Rightarrow> 'z features_scheme \<Rightarrow> 'z features_scheme) \<Rightarrow> 'z features_scheme config \<Rightarrow> 'z features_scheme feature_config \<Rightarrow> 'z features_scheme handler" where
  "process_repeat_key again cf fc kc r s =
     (if processing_repeat_count s \<noteq> 0 then (True, s)
      else if kc = QK_REPEAT_KEY then (False, repeat_key_invoke again cf (event r) s)
      else if kc = QK_ALT_REPEAT_KEY then (False, alt_repeat_key_invoke again cf fc (event r) s)
      else (True, s))"

end
