(* ===== verification/Feature_Chain.thy ===== *)
theory Feature_Chain
  imports Tap_Dance Replay
begin

text \<open>
  The features in the order of \<open>process_record_quantum\<close> (\<^verbatim>\<open>quantum/quantum.c\<close>), as a configuration of the action code,
  and the proof that they keep its invariants. The features that execute stored records call \<open>process_record\<close>,
  which calls the features again; \<open>firmware bottom n\<close> allows \<open>n\<close> such calls inside each other, and
  \<open>bottom\<close> stands for the next one.
\<close>

subsection \<open>The chain of handlers\<close>

definition feature_preprocess ::
  "'z features_scheme config \<Rightarrow> 'z features_scheme feature_config \<Rightarrow> uint16 \<Rightarrow> keyrecord_t \<Rightarrow> 'z features_scheme \<Rightarrow>
   bool \<times> uint16 \<times> 'z features_scheme" where
  "feature_preprocess cf fc kc r s =
     (let (again, s) = preprocess_tap_dance cf fc kc r s;
          (kc, s) = (if again then get_record_keycode cf r True s else (kc, s))
      in process_key_lock kc r s)"

text \<open>The handlers of \<open>cf\<close> are the keyboard's own.\<close>

definition feature_handlers ::
  "(recptr \<Rightarrow> 'z features_scheme \<Rightarrow> 'z features_scheme) \<Rightarrow> 'z features_scheme config \<Rightarrow> 'z features_scheme feature_config \<Rightarrow>
   'z features_scheme handler list" where
  "feature_handlers again cf fc =
     [process_dynamic_macro again cf fc, process_last_key cf fc, process_repeat_key again cf fc] @ record_handlers cf
     @ [process_caps_word cf fc, process_tap_dance cf fc, process_leader fc, process_space_cadet cf fc,
        process_grave_esc cf fc, process_tri_layer cf, process_layer_lock cf fc]"

definition with_features ::
  "(recptr \<Rightarrow> 'z features_scheme \<Rightarrow> 'z features_scheme) \<Rightarrow> 'z features_scheme config \<Rightarrow> 'z features_scheme feature_config \<Rightarrow>
   'z features_scheme config" where
  "with_features again cf fc =
     cf\<lparr>preprocess_record := feature_preprocess cf fc, record_handlers := feature_handlers again cf fc\<rparr>"

fun firmware ::
  "(recptr \<Rightarrow> 'z features_scheme \<Rightarrow> 'z features_scheme) \<Rightarrow> nat \<Rightarrow> 'z features_scheme config \<Rightarrow> 'z features_scheme feature_config \<Rightarrow>
   'z features_scheme config" where
  "firmware bottom 0 cf fc = with_features bottom cf fc"
| "firmware bottom (Suc n) cf fc = with_features (process_record (firmware bottom n cf fc)) cf fc"

text \<open>What the main loop calls for the features, besides \<open>matrix_task\<close> (\<open>quantum_task\<close> of \<^verbatim>\<open>quantum/keyboard.c\<close>).\<close>

definition feature_tasks :: "'z features_scheme config \<Rightarrow> 'z features_scheme feature_config \<Rightarrow> 'z features_scheme \<Rightarrow> 'z features_scheme" where
  "feature_tasks cf fc s = caps_word_task cf fc (leader_task fc (tap_dance_task cf fc s))"

subsection \<open>Invariants\<close>

text \<open>The functions of the keymap keep \<open>P\<close>.\<close>

definition user_keep :: "'z features_scheme feature_config \<Rightarrow> ('z features_scheme \<Rightarrow> bool) \<Rightarrow> bool" where
  "user_keep fc P \<longleftrightarrow>
     (\<forall>i<256. let a = tap_dance_actions fc ! i
        in \<forall>f\<in>set_option (on_each_tap a) \<union> set_option (on_dance_finished a) \<union> set_option (on_reset a) \<union> set_option (on_each_release a).
             \<forall>st s. P s \<longrightarrow> P (snd (f st s)))
     \<and> (\<forall>kc s. P s \<longrightarrow> P (snd (caps_word_press_user fc kc s)))
     \<and> (\<forall>b s. P s \<longrightarrow> P (caps_word_set_user fc b s))
     \<and> (\<forall>s. P s \<longrightarrow> P (leader_start_user fc s)) \<and> (\<forall>s. P s \<longrightarrow> P (leader_end_user fc s))
     \<and> (\<forall>x s. P s \<longrightarrow> P (layer_lock_set_kb fc x s)) \<and> (\<forall>x s. P s \<longrightarrow> P (layer_lock_set_user fc x s))"

text \<open>\<open>P\<close> says nothing about the state of the features.\<close>

locale feature_invariant = action_invariant cf P Q for cf :: "'z features_scheme config" and P Q +
  assumes base_only: "P s \<Longrightarrow> kbd.truncate s' = kbd.truncate s \<Longrightarrow> P s'"
begin

lemma user_kept [simp]:
  "user_keep fc P \<Longrightarrow> P s \<Longrightarrow> P (snd (caps_word_press_user fc kc s))" "user_keep fc P \<Longrightarrow> P s \<Longrightarrow> P (caps_word_set_user fc b s)"
  "user_keep fc P \<Longrightarrow> P s \<Longrightarrow> P (leader_start_user fc s)" "user_keep fc P \<Longrightarrow> P s \<Longrightarrow> P (leader_end_user fc s)"
  "user_keep fc P \<Longrightarrow> P s \<Longrightarrow> P (layer_lock_set_kb fc x s)" "user_keep fc P \<Longrightarrow> P s \<Longrightarrow> P (layer_lock_set_user fc x s)"
  by (simp_all add: user_keep_def)

lemma set_dance_kept [simp]: "P s \<Longrightarrow> P (set_dance i st s)"
  by (erule base_only) (simp add: set_dance_def kbd.defs)

lemma fn_kept: "(\<And>f st s. fn = Some f \<Longrightarrow> P s \<Longrightarrow> P (snd (f st s))) \<Longrightarrow> P s \<Longrightarrow> P (process_tap_dance_action_fn fn i s)"
  by (simp add: process_tap_dance_action_fn_def case_prod_beta Let_def split: option.split)

lemma tap_dance_fn_kept:
  assumes "i < 256" "P s" "user_keep fc P"
  defines "a \<equiv> tap_dance_actions fc ! i"
  shows "P (process_tap_dance_action_fn (on_each_tap a) i s)" "P (process_tap_dance_action_fn (on_dance_finished a) i s)"
    "P (process_tap_dance_action_fn (on_reset a) i s)" "P (process_tap_dance_action_fn (on_each_release a) i s)"
proof -
  have u: "\<forall>f\<in>set_option (on_each_tap a) \<union> set_option (on_dance_finished a) \<union> set_option (on_reset a) \<union> set_option (on_each_release a).
      \<forall>st s. P s \<longrightarrow> P (snd (f st s))"
    using conjunct1 [OF assms(3) [unfolded user_keep_def], rule_format, OF assms(1)] unfolding Let_def a_def by blast
  show "P (process_tap_dance_action_fn (on_each_tap a) i s)" "P (process_tap_dance_action_fn (on_dance_finished a) i s)"
    "P (process_tap_dance_action_fn (on_reset a) i s)" "P (process_tap_dance_action_fn (on_each_release a) i s)"
    by (rule fn_kept [OF _ assms(2)]; use u in simp)+
qed

lemma fields_kept [simp]:
  "P s \<Longrightarrow> P (s\<lparr>active_td := a1\<rparr>)" "P s \<Longrightarrow> P (s\<lparr>last_tap_time := a1\<rparr>)" "P s \<Longrightarrow> P (s\<lparr>key_state := ks\<rparr>)"
  "P s \<Longrightarrow> P (s\<lparr>watching := b\<rparr>)" "P s \<Longrightarrow> P (s\<lparr>macro_buffer := mb\<rparr>)" "P s \<Longrightarrow> P (s\<lparr>macro_end := i\<rparr>)"
  "P s \<Longrightarrow> P (s\<lparr>r_macro_end := i\<rparr>)" "P s \<Longrightarrow> P (s\<lparr>macro_pointer := i\<rparr>)" "P s \<Longrightarrow> P (s\<lparr>macro_id := n\<rparr>)"
  "P s \<Longrightarrow> P (s\<lparr>last_record := r\<rparr>)" "P s \<Longrightarrow> P (s\<lparr>last_mods := m\<rparr>)" "P s \<Longrightarrow> P (s\<lparr>last_repeat_count := i\<rparr>)"
  "P s \<Longrightarrow> P (s\<lparr>processing_repeat_count := i\<rparr>)" "P s \<Longrightarrow> P (s\<lparr>registered_record := r\<rparr>)"
  "P s \<Longrightarrow> P (s\<lparr>registered_repeat_count := i\<rparr>)" "P s \<Longrightarrow> P (s\<lparr>alt_registered_record := r\<rparr>)"
  "P s \<Longrightarrow> P (s\<lparr>alt_registered_repeat_count := i\<rparr>)" "P s \<Longrightarrow> P (s\<lparr>caps_word_active := b\<rparr>)"
  "P s \<Longrightarrow> P (s\<lparr>idle_timer := a1\<rparr>)" "P s \<Longrightarrow> P (s\<lparr>held_mods := m\<rparr>)" "P s \<Longrightarrow> P (s\<lparr>shift_tapped := b\<rparr>)"
  "P s \<Longrightarrow> P (s\<lparr>shift_timer := a1\<rparr>)" "P s \<Longrightarrow> P (s\<lparr>leading := b\<rparr>)" "P s \<Longrightarrow> P (s\<lparr>leader_time := a1\<rparr>)"
  "P s \<Longrightarrow> P (s\<lparr>leader_sequence := ls\<rparr>)" "P s \<Longrightarrow> P (s\<lparr>leader_sequence_size := n\<rparr>)" "P s \<Longrightarrow> P (s\<lparr>sc_last := m\<rparr>)"
  "P s \<Longrightarrow> P (s\<lparr>sc_timer := a1\<rparr>)" "P s \<Longrightarrow> P (s\<lparr>sc_mods := m\<rparr>)" "P s \<Longrightarrow> P (s\<lparr>grave_esc_was_shifted := b\<rparr>)"
  "P s \<Longrightarrow> P (s\<lparr>locked_layers := a1\<rparr>)"
  by (erule base_only, simp add: kbd.defs)+

subsubsection \<open>Handlers\<close>

lemma grave_esc_kept: "P s \<Longrightarrow> P (snd (process_grave_esc cf fc kc r s))"
  by (simp add: process_grave_esc_def Let_def)

lemma tri_layer_kept: "P s \<Longrightarrow> P (snd (process_tri_layer cf kc r s))"
  by (simp add: process_tri_layer_def update_tri_def update_tri_layer_def)

lemma key_lock_kept: "P s \<Longrightarrow> P (snd (snd (process_key_lock kc r s)))"
  by (simp add: process_key_lock_def Let_def SET_KEY_STATE_def UNSET_KEY_STATE_def SET_KEY_ARRAY_STATE_def)

lemma lock_invert_kept [simp]: "user_keep fc P \<Longrightarrow> P s \<Longrightarrow> P (layer_lock_invert cf fc l s)"
  by (simp add: layer_lock_invert_def Let_def)

lemma layer_lock_kept: "user_keep fc P \<Longrightarrow> P s \<Longrightarrow> P (snd (process_layer_lock cf fc kc r s))"
  by (simp add: process_layer_lock_def unlock_stale_layers_def handle_mo_or_tt_def Let_def)

lemma leader_kept: "user_keep fc P \<Longrightarrow> P s \<Longrightarrow> P (snd (process_leader fc kc r s))" "user_keep fc P \<Longrightarrow> P s \<Longrightarrow> P (leader_task fc s)"
  by (simp_all add: process_leader_def leader_task_def leader_start_def leader_end_def leader_sequence_add_def
      leader_reset_timer_def Let_def case_prod_beta)

lemma weak_mods_set_kept [simp]: "P s \<Longrightarrow> P (set_weak_mods m s)"
  by (simp add: set_weak_mods_def)

lemma space_cadet_kept: "P s \<Longrightarrow> P (snd (process_space_cadet cf fc kc r s))"
  by (simp add: process_space_cadet_def perform_space_cadet_def reset_space_cadet_def register_if_mod_def
      unregister_if_mod_def Let_def split: option.splits)

lemma caps_word_switch_kept [simp]:
  "user_keep fc P \<Longrightarrow> P s \<Longrightarrow> P (caps_word_reset_idle_timer fc s)" "user_keep fc P \<Longrightarrow> P s \<Longrightarrow> P (caps_word_on cf fc s)" "user_keep fc P \<Longrightarrow> P s \<Longrightarrow> P (caps_word_off cf fc s)"
  by (simp_all add: caps_word_reset_idle_timer_def caps_word_on_def caps_word_off_def Let_def)

lemma caps_word_step_kept [simp]:
  "user_keep fc P \<Longrightarrow> P s \<Longrightarrow> P (caps_word_stop cf fc s)" "user_keep fc P \<Longrightarrow> P s \<Longrightarrow> P (caps_word_activation cf fc kc r s)" "user_keep fc P \<Longrightarrow> P s \<Longrightarrow> P (snd (handle_shift kc r s))"
  by (simp_all add: caps_word_stop_def caps_word_activation_def reset_space_cadet_def handle_shift_def Let_def)

lemma caps_word_press_kept [simp]: "user_keep fc P \<Longrightarrow> P s \<Longrightarrow> P (caps_word_press cf fc st s)"
  by (cases st) (simp_all add: caps_word_press_def Let_def case_prod_beta)

lemma caps_word_kept: "user_keep fc P \<Longrightarrow> P s \<Longrightarrow> P (snd (process_caps_word cf fc kc r s))" "user_keep fc P \<Longrightarrow> P s \<Longrightarrow> P (caps_word_task cf fc s)"
  by (simp_all add: process_caps_word_def caps_word_toggle_def caps_word_task_def Let_def case_prod_beta)

lemma td_index_less [simp]: "TD_INDEX kc < 256"
proof -
  have "kc AND 0xFF \<le> 0xFF" by (rule word_and_le1)
  then show ?thesis by (simp add: TD_INDEX_def word_le_nat_alt)
qed

lemma dance_steps_kept:
  assumes "i < 256" "P s" "user_keep fc P"
  shows "P (process_tap_dance_action_on_each_tap fc i s)" "P (process_tap_dance_action_on_each_release fc i s)"
    "P (process_tap_dance_action_on_reset cf fc i s)" "P (process_tap_dance_action_on_dance_finished cf fc i s)"
  using tap_dance_fn_kept [OF assms(1) _ assms(3)] assms(2,3)
  by (simp_all add: process_tap_dance_action_on_each_tap_def process_tap_dance_action_on_each_release_def
      process_tap_dance_action_on_reset_def process_tap_dance_action_on_dance_finished_def Let_def)

lemma tap_dance_kept:
  "user_keep fc P \<Longrightarrow> P s \<Longrightarrow> P (snd (preprocess_tap_dance cf fc kc r s))" "user_keep fc P \<Longrightarrow> P s \<Longrightarrow> P (snd (process_tap_dance cf fc kc r s))"
  "user_keep fc P \<Longrightarrow> P s \<Longrightarrow> P (tap_dance_task cf fc s)"
  by (simp_all add: preprocess_tap_dance_def process_tap_dance_def tap_dance_task_def Let_def dance_steps_kept)

subsubsection \<open>Stored records\<close>

lemma tmp_record_kept [simp]: "P s \<Longrightarrow> P (s\<lparr>tmp_record := r\<rparr>)"
  using assigned [of s Tmp r] by simp

lemma run_record_kept: "(\<And>p s. P s \<Longrightarrow> P (again p s)) \<Longrightarrow> P s \<Longrightarrow> P (snd (run_record again r s))"
  by (simp add: run_record_def Let_def)

lemma play_records_kept: "(\<And>p s. P s \<Longrightarrow> P (again p s)) \<Longrightarrow> P s \<Longrightarrow> P (play_records again fc n i d s)"
proof (induction n arbitrary: i s)
  case (Suc n)
  then show ?case by (simp add: case_prod_beta Let_def run_record_kept)
qed simp

lemma dynamic_macro_kept:
  "(\<And>p s. P s \<Longrightarrow> P (again p s)) \<Longrightarrow> P s \<Longrightarrow> P (snd (process_dynamic_macro again cf fc kc r s))"
  by (simp add: process_dynamic_macro_def dynamic_macro_record_start_def dynamic_macro_play_def dynamic_macro_record_key_def
      dynamic_macro_stop_recording_def play_records_kept Let_def)

lemma last_key_kept: "P s \<Longrightarrow> P (snd (process_last_key cf fc kc r s))"
  by (simp add: process_last_key_def set_last_record_def case_prod_beta Let_def)

lemma repeat_key_kept:
  "(\<And>p s. P s \<Longrightarrow> P (again p s)) \<Longrightarrow> P s \<Longrightarrow> P (snd (process_repeat_key again cf fc kc r s))"
  by (simp add: process_repeat_key_def repeat_key_invoke_def alt_repeat_key_invoke_def update_last_repeat_count_def
      case_prod_beta Let_def run_record_kept)

subsubsection \<open>The whole chain\<close>

lemma preprocess_kept: "user_keep fc P \<Longrightarrow> P s \<Longrightarrow> P (snd (snd (feature_preprocess cf fc kc r s)))"
  by (simp add: feature_preprocess_def case_prod_beta Let_def key_lock_kept tap_dance_kept)

lemma with_features_keeps:
  assumes "user_keep fc P" "hooks_keep cf P" "\<And>p s. P s \<Longrightarrow> P (again p s)"
  shows "hooks_keep (with_features again cf fc) P"
  using assms
  by (auto simp: hooks_keep_def with_features_def feature_handlers_def preprocess_kept dynamic_macro_kept last_key_kept
      repeat_key_kept caps_word_kept tap_dance_kept leader_kept space_cadet_kept grave_esc_kept tri_layer_kept layer_lock_kept)

lemma tasks_kept: "user_keep fc P \<Longrightarrow> P s \<Longrightarrow> P (feature_tasks cf fc s)"
  by (simp add: feature_tasks_def tap_dance_kept leader_kept caps_word_kept)

end

text \<open>The invariant of the action code with all features, however deep macros and repeated keys are nested.\<close>

interpretation featured: feature_invariant cf "kbd_inv cf" "partial_inv cf" for cf :: "'z features_scheme config"
proof unfold_locales
  fix s s' :: "'z features_scheme" assume "kbd_inv cf s" "kbd.truncate s' = kbd.truncate s"
  then show "kbd_inv cf s'" by (simp add: kbd.defs inv_defs)
qed

lemma kbd_inv_firmware [simp]: "kbd_inv (firmware bottom n cf fc) = kbd_inv cf"
  by (cases n) (simp_all add: with_features_def fun_eq_iff inv_defs cache_ok_def)

lemma firmware_keeps:
  assumes "hooks_keep cf (kbd_inv cf)" "user_keep fc (kbd_inv cf)" "\<And>p s. kbd_inv cf s \<Longrightarrow> kbd_inv cf (bottom p s)"
  shows "hooks_keep (firmware bottom n cf fc) (kbd_inv cf)"
proof (induction n)
  case 0
  then show ?case using featured.with_features_keeps [OF assms(2,1)] assms(3) by simp
next
  case (Suc n)
  have "kbd_inv cf s \<Longrightarrow> kbd_inv cf (process_record (firmware bottom n cf fc) p s)" for p s
    using inv_record.process_record_kept [of "firmware bottom n cf fc"] Suc by simp
  then show ?case using featured.with_features_keeps [OF assms(2,1)] by simp
qed

end
