(* ===== verification/Demo.thy ===== *)
theory Demo
  imports Feature_Chain
begin

text \<open>
  Small sample keyboards, on which the theorems are applied.
\<close>

subsection \<open>Without features\<close>

text \<open>
  A keyboard for examples: two rows, two columns, two layers, no code of its own. The keys are a mod-tap
  (left Shift when held, A when tapped), B, a momentary and a one-shot switch to layer 1.
\<close>

definition base_config :: "uint16 list list list \<Rightarrow> 's config" where
  "base_config km =
     \<lparr>MATRIX_ROWS = 2, MATRIX_COLS = 2, keymaps = km,
      layer_state_set_kb = (\<lambda>x. x), default_layer_state_set_kb = (\<lambda>x. x), ONESHOT_TIMEOUT = 0, ONESHOT_TAP_TOGGLE = 0,
      TAPPING_TOGGLE = 5, TAP_CODE_DELAY = 0, TAP_HOLD_CAPS_DELAY = 80, LOCKING_SUPPORT_ENABLE = False,
      LOCKING_RESYNC_ENABLE = False, SWAP_HANDS_ENABLE = False, hand_swap_config = (\<lambda>k. k),
      DUMMY_MOD_NEUTRALIZER_KEYCODE = None, MODS_TO_NEUTRALIZE = [], HOLD_ON_OTHER_KEY_PRESS = False, RETRO_TAPPING = False,
      get_retro_tapping = (\<lambda>_ _. False), get_tapping_term = (\<lambda>_ _. 200), get_quick_tap_term = (\<lambda>_ _. 200),
      get_permissive_hold = (\<lambda>_ _. False), get_hold_on_other_key_press = (\<lambda>_ _. False), CHORDAL_HOLD = False,
      chordal_hold_layout = (\<lambda>_. CHR ''*''), get_chordal_hold_kb = None, FLOW_TAP_TERM = 0, TRI_LAYER_ENABLE = False, pre_process_record_kb = (\<lambda>_ _ s. (True, s)),
      preprocess_record = (\<lambda>kc _ s. (True, kc, s)), record_handlers = [], process_action_kb = (\<lambda>_ s. (True, s)), post_process_record_kb = (\<lambda>_ _ s. s)\<rparr>"

definition demo_config :: "kbd config" where "demo_config = base_config [[[MT 2 4, 5], [MO 1, OSL 1]], [[6, 7], [1, 1]]]"

definition demo_state :: kbd where
  "demo_state =
     \<lparr>keys = [0, 0, 0, 0, 0, 0], bits = replicate 30 0, keyboard_protocol = True, keymap_config = plain_config, out = [], now = 0,
      driver = True, leds = 0, last_system_usage = 0, last_consumer_usage = 0, layer_state = 0, default_layer_state = 1,
      source_layers_cache = [[0, 0, 0, 0]], real_mods = 0, weak_mods = 0, weak_override_mods = 0, suppressed_mods = 0,
      oneshot_mods = 0, oneshot_locked_mods = 0, oneshot_time = 0, oneshot_layer_data = 0, oneshot_layer_time = 0,
      swap_hands_oneshot = SHO_OFF, oneshot_swaphands_time = 0, last_6kro = (0, [0, 0, 0, 0, 0, 0]), nkro_report_id = 0,
      last_nkro = (0, 0, replicate 30 0), retro_tapping_counter = 0, swap_hands = False, swap_held = False,
      matrix_swap_state = [0], disable_action_cache = False, debug_enable = False,
      registered_taps = replicate 8 \<lparr>row = 0, col = 0\<rparr>, num_registered_taps = 0, flow_tap_prev_keycode = 0,
      flow_tap_prev_time = 0, flow_tap_expired = True, tapping_key = no_record, waiting_buffer = replicate 8 no_record,
      waiting_buffer_head = 0, waiting_buffer_tail = 0, arg_record = no_record, tmp_record = no_record\<rparr>"

lemma demo_hooks: "hooks_keep demo_config P"
  by (simp add: hooks_keep_def demo_config_def base_config_def)

lemma demo_inv: "kbd_inv demo_config demo_state"
  by code_simp

subsection \<open>With features\<close>

text \<open>
  Keys A and repeat, a tap dance (A when tapped, B when double-tapped) and a one-shot switch to layer 1, where the keys are C and D.
\<close>

definition feature_cf :: "features config" where
  "feature_cf = base_config [[[4, QK_REPEAT_KEY], [QK_TAP_DANCE, OSL 1]], [[6, 7], [1, 1]]]"

definition dances_fc :: "features tap_dance_action_t list \<Rightarrow> features feature_config" where
  "dances_fc actions =
     \<lparr>tap_dance_actions = actions, DYNAMIC_MACRO_SIZE = 8, DYNAMIC_MACRO_NO_NESTING = False,
      DYNAMIC_MACRO_DELAY = 0, dynamic_macro_valid_key_user = (\<lambda>_ _. True), remember_last_key_user = (\<lambda>_ _ m. (True, m)),
      get_alt_repeat_key_keycode_user = (\<lambda>_ _. 1), CAPS_WORD_IDLE_TIMEOUT = 5000, CAPS_WORD_INVERT_ON_SHIFT = False,
      BOTH_SHIFTS_TURNS_ON_CAPS_WORD = True, DOUBLE_TAP_SHIFT_TURNS_ON_CAPS_WORD = False,
      caps_word_press_user = default_caps_word_press, caps_word_set_user = (\<lambda>_ s. s), LEADER_TIMEOUT = 300, LEADER_NO_TIMEOUT = False,
      LEADER_PER_KEY_TIMING = False, LEADER_KEY_STRICT_KEY_PROCESSING = False, leader_start_user = (\<lambda>s. s), leader_end_user = (\<lambda>s. s),
      SPACE_CADET_MODIFIER_CARRYOVER = False, space_cadet_keys = default_space_cadet, GRAVE_ESC_ALT_OVERRIDE = False,
      GRAVE_ESC_CTRL_OVERRIDE = False, GRAVE_ESC_GUI_OVERRIDE = False, GRAVE_ESC_SHIFT_OVERRIDE = False,
      layer_lock_set_kb = (\<lambda>_ s. s), layer_lock_set_user = (\<lambda>_ s. s)\<rparr>"

definition feature_fc :: "features feature_config" where
  "feature_fc = dances_fc (replicate 256 (ACTION_TAP_DANCE_DOUBLE feature_cf 4 5))"

definition dances_state :: "tap_dance_state_t list \<Rightarrow> features" where
  "dances_state dances = kbd.extend demo_state (features.fields
     dances 0 0 [0, 0, 0, 0] False (replicate 8 no_record) 0 7 0 0 no_record 0 0 0 no_record 0 no_record 0
     False 0 0 False 0 False 0 [0, 0, 0, 0, 0] 0 0 0 0 False 1 2 3 0)"

definition feature_state :: features where
  "feature_state = dances_state (replicate 256 no_tap_dance)"

text \<open>The same keyboard without tap dances.\<close>

definition plain_fc :: "features feature_config" where "plain_fc = dances_fc []"
definition plain_state :: features where "plain_state = dances_state []"

lemmas demo_features = feature_fc_def dances_fc_def feature_state_def dances_state_def plain_fc_def plain_state_def

lemma feature_hooks: "hooks_keep feature_cf P"
  by (simp add: hooks_keep_def feature_cf_def base_config_def)

lemma code16_kept:
  fixes cf :: "'z kbd_scheme config"
  assumes "kbd_inv cf s"
  shows "kbd_inv cf (register_code16 cf k s)" "kbd_inv cf (unregister_code16 cf k s)"
  using assms by (simp_all add: register_code16_def unregister_code16_def Let_def inv_record.register_code_kept inv_record.register_kept)

lemma feature_users: "user_keep feature_fc (kbd_inv feature_cf)"
  by (simp add: user_keep_def demo_features ACTION_TAP_DANCE_DOUBLE_def tap_dance_pair_on_each_tap_def tap_dance_pair_finished_def
      tap_dance_pair_reset_def default_caps_word_press_def code16_kept inv_record.wait_kept inv_record.mods_kept Let_def)

lemma feature_inv: "kbd_inv feature_cf feature_state"
  by code_simp

end
