(* ===== verification/Feature_Props.thy ===== *)
theory Feature_Props
  imports Features
begin

text \<open>
  What the single features do: key lock implements a set of locked keys, layer lock keeps the locked layers
  on, the leader key collects a sequence, caps word shifts letters.
\<close>

subsection \<open>The action code leaves the features alone\<close>

interpretation features_frame: state_invariant cf "\<lambda>s. kbd.more s = m" "\<lambda>s. kbd.more s = m"
  for cf :: "'z kbd_scheme config" and m
  by unfold_locales
    (simp_all add: send_keyboard_report_def send_6kro_report_def send_nkro_report_def host_keyboard_send_def host_nkro_send_def
      get_mods_for_report_def clear_oneshot_mods_def stamp_mods_def add_key_def del_key_def emit_def
      add_key_to_report_def del_key_from_report_def clear_keys_from_report_def
      host_system_send_def host_consumer_send_def update_source_layers_cache_def Let_def case_prod_beta)

declare features_frame.weaken [simp del]

lemma send_frame [simp]:
  "layer_state (send_keyboard_report cf s) = layer_state s" "weak_mods (send_keyboard_report cf s) = weak_mods s"
  "real_mods (send_keyboard_report cf s) = real_mods s" "now (send_keyboard_report cf s) = now s"
  by (simp_all add: send_keyboard_report_def send_6kro_report_def send_nkro_report_def host_keyboard_send_def host_nkro_send_def
      get_mods_for_report_def clear_oneshot_mods_def stamp_mods_def emit_def Let_def case_prod_beta)

lemma more_eqD:
  assumes "kbd.more s = kbd.more t"
  shows "locked_layers s = locked_layers t" "caps_word_active s = caps_word_active t"
    "tap_dances s = tap_dances t" "active_td s = active_td t" "last_tap_time s = last_tap_time t"
    "macro_buffer s = macro_buffer t" "macro_end s = macro_end t" "r_macro_end s = r_macro_end t" "macro_id s = macro_id t"
    "macro_pointer s = macro_pointer t"
  using assms by (cases s; cases t; simp)+

subsection \<open>Key lock\<close>

lemma BV_64_bit: "n < 64 \<Longrightarrow> w AND BV_64 n = BV_64 n \<longleftrightarrow> bit w n"
  by (auto simp: BV_64_def word_bits_eq_iff bit_and_iff bit_shl1)

text \<open>The slot of a basic keycode: the word and the bit in it.\<close>

lemma key_slot:
  assumes "code \<le> 0xFF"
  shows "key_array code = unat code div 64" "GET_CODE_INDEX code = unat code mod 64" "key_array code < 4"
proof -
  have u: "unat code \<le> 255" using assms by (simp add: word_le_nat_alt)
  have c: "(code < 0x40) = (unat code < 64)" "(code < 0x80) = (unat code < 128)" "(code < 0xC0) = (unat code < 192)"
    by (simp_all add: word_less_nat_alt)
  have d: "unat (code - 0x40) = unat code - 64" if "\<not> unat code < 64" using that by (simp add: unat_sub word_le_nat_alt)
  have e: "unat (code - 0x80) = unat code - 128" if "\<not> unat code < 128" using that by (simp add: unat_sub word_le_nat_alt)
  have f: "unat (code - 0xC0) = unat code - 192" if "\<not> unat code < 192" using that by (simp add: unat_sub word_le_nat_alt)
  show "key_array code = unat code div 64" "key_array code < 4" unfolding key_array_def c using u by (auto simp: div_nat_eqI)
  show "GET_CODE_INDEX code = unat code mod 64" unfolding GET_CODE_INDEX_def c
    using u d e f mod_nat_eqI [of "unat code - 64" 64 "unat code"] mod_nat_eqI [of "unat code - 128" 64 "unat code"]
      mod_nat_eqI [of "unat code - 192" 64 "unat code"] by (auto simp: le_mod_geq)
qed

lemma KEY_STATE_bit: "code \<le> 0xFF \<Longrightarrow> KEY_STATE code s \<longleftrightarrow> bit (key_state s ! (unat code div 64)) (unat code mod 64)"
  by (simp add: KEY_STATE_def GET_KEY_ARRAY_def BV_64_bit key_slot)

lemma key_state_set:
  assumes "code \<le> 0xFF" "d \<le> 0xFF" "length (key_state s) = 4"
  shows "KEY_STATE d (SET_KEY_STATE code s) \<longleftrightarrow> d = code \<or> KEY_STATE d s"
    and "KEY_STATE d (UNSET_KEY_STATE code s) \<longleftrightarrow> d \<noteq> code \<and> KEY_STATE d s"
proof -
  have i: "unat code div 64 < 4" "unat d div 64 < 4" using key_slot [OF assms(1)] key_slot [OF assms(2)] by simp_all
  have e: "d = code \<longleftrightarrow> unat d div 64 = unat code div 64 \<and> unat d mod 64 = unat code mod 64"
    by (metis div_mult_mod_eq word_unat_eq_iff)
  have b: "bit (BV_64 n) k \<longleftrightarrow> n = k \<and> n < 64" for n k by (auto simp: BV_64_def bit_shl1)
  show "KEY_STATE d (SET_KEY_STATE code s) \<longleftrightarrow> d = code \<or> KEY_STATE d s"
    unfolding KEY_STATE_bit [OF assms(2)] using assms i
    by (auto simp: SET_KEY_STATE_def SET_KEY_ARRAY_STATE_def GET_KEY_ARRAY_def key_slot nth_list_update bit_or_iff b e)
  show "KEY_STATE d (UNSET_KEY_STATE code s) \<longleftrightarrow> d \<noteq> code \<and> KEY_STATE d s"
    unfolding KEY_STATE_bit [OF assms(2)] using assms i
    by (auto simp: UNSET_KEY_STATE_def SET_KEY_ARRAY_STATE_def GET_KEY_ARRAY_def key_slot nth_list_update bit_and_iff bit_not_iff b e)
qed

text \<open>What key lock is: whether the next key is to be locked, and the set of locked keycodes.\<close>

definition locked_keys :: "'z features_scheme \<Rightarrow> uint16 set" where "locked_keys s = {k. k \<le> 0xFF \<and> KEY_STATE k s}"

definition key_lock_spec :: "bool \<Rightarrow> uint16 \<Rightarrow> bool \<times> uint16 set \<Rightarrow> bool \<times> bool \<times> uint16 set" where
  "key_lock_spec press kc = (\<lambda>(watch, L).
     if \<not> press then (kc \<notin> L, watch, L)
     else if kc = QK_LOCK then (False, \<not> watch, L)
     else if kc > 0xFF then (True, False, L)
     else if watch then (True, False, insert kc L)
     else (kc \<notin> L, False, L - {kc}))"

lemma key_lock_refines:
  assumes "length (key_state s) = 4" "translate_keycode kc = kc" "process_key_lock kc r s = (ok, kc', s')"
  shows "key_lock_spec (pressed (event r)) kc (watching s, locked_keys s) = (ok, watching s', locked_keys s')"
    "kc' = kc" "length (key_state s') = 4"
proof -
  have k: "kc \<noteq> QK_LOCK" if "kc \<le> 0xFF" using that by auto
  have g: "KEY_STATE k (s\<lparr>watching := b\<rparr>) = KEY_STATE k s" for k b by (simp add: KEY_STATE_def GET_KEY_ARRAY_def)
  have set: "locked_keys (SET_KEY_STATE kc (s\<lparr>watching := False\<rparr>)) = insert kc (locked_keys s)"
    "locked_keys (UNSET_KEY_STATE kc s) = locked_keys s - {kc}" if "kc \<le> 0xFF"
    using key_state_set [OF that, of _ "s\<lparr>watching := False\<rparr>"] key_state_set [OF that, of _ s] assms(1) that
    by (auto simp: locked_keys_def g)
  have w: "locked_keys (s\<lparr>watching := b\<rparr>) = locked_keys s" for b by (simp add: locked_keys_def g)
  have m: "kc \<in> locked_keys s \<longleftrightarrow> kc \<le> 0xFF \<and> KEY_STATE kc s" by (simp add: locked_keys_def)
  have f: "watching (SET_KEY_STATE kc x) = watching x" "watching (UNSET_KEY_STATE kc x) = watching x"
    "length (key_state (SET_KEY_STATE kc x)) = length (key_state x)" "length (key_state (UNSET_KEY_STATE kc x)) = length (key_state x)" for x :: "'a features_scheme"
    by (simp_all add: SET_KEY_STATE_def UNSET_KEY_STATE_def SET_KEY_ARRAY_STATE_def)
  show "key_lock_spec (pressed (event r)) kc (watching s, locked_keys s) = (ok, watching s', locked_keys s')"
    "kc' = kc" "length (key_state s') = 4"
    using assms set w m f k
    by (auto simp: process_key_lock_def key_lock_spec_def IS_STANDARD_KEYCODE_def split: if_splits)
qed

text \<open>A one-shot modifier key is translated to the number of its modifiers, not to a keycode of the modifier.\<close>

lemma translate_oneshot:
  assumes "m AND 0x1F \<noteq> 0"
  shows "translate_keycode (OSM m) = ucast m AND 0x1F"
proof -
  have x: "OSM m XOR QK_ONE_SHOT_MOD = ucast m AND 0x1F"
    by (rule half_eqI, elim disjE; simp add: OSM_def bit_simps)
  have "OSM m \<noteq> QK_ONE_SHOT_MOD"
  proof
    assume "OSM m = QK_ONE_SHOT_MOD"
    then have "low5 (OSM m) = 0" by (simp add: low5_def)
    then show False using assms by (simp add: macro_fields)
  qed
  moreover have "unat (0x52A0 :: uint16) \<le> unat (OSM m)" "unat (OSM m) \<le> unat (0x52BF :: uint16)"
    using prefix_range [OF macro_prefix(6), of m] by simp_all
  ultimately have "QK_ONE_SHOT_MOD < OSM m \<and> OSM m \<le> QK_ONE_SHOT_MOD_MAX"
    by (simp only: word_le_nat_alt [symmetric]) (auto simp: order_less_le)
  then show ?thesis by (simp add: translate_keycode_def x)
qed

subsection \<open>Layer lock\<close>

text \<open>Locked layers are on.\<close>

definition locks_on :: "'z features_scheme \<Rightarrow> bool" where "locks_on s \<longleftrightarrow> locked_layers s AND NOT (layer_state s) = 0"

lemma locks_on_iff: "locks_on s \<longleftrightarrow> (\<forall>i<16. bit (locked_layers s) i \<longrightarrow> bit (layer_state s) i)"
  by (auto simp: locks_on_def word_bits_eq_iff bit_and_iff bit_not_iff)

lemma reset_oneshot_frame:
  "layer_state (reset_oneshot_layer cf s) = layer_state s" "locked_layers (reset_oneshot_layer cf s) = locked_layers s"
  by (simp_all add: reset_oneshot_layer_def stamp_layer_def emit_def Let_def)

lemma layer_lock_invert_on:
  assumes "layer_state_set_kb cf = (\<lambda>x. x)" "layer_lock_set_user fc = (\<lambda>_ s. s)" "locks_on s"
  shows "locks_on (layer_lock_invert cf fc l s)"
    "locked_layers (layer_lock_invert cf fc l s) = locked_layers s XOR layer_mask l"
proof -
  let ?s = "if l = get_oneshot_layer s then reset_oneshot_layer cf s else s"
  have "layer_state ?s = layer_state s" "locked_layers ?s = locked_layers s" by (simp_all add: reset_oneshot_frame)
  then have "layer_state (layer_lock_invert cf fc l s) =
      (if locked_layers s AND layer_mask l = 0 then layer_state s OR layer_mask l else layer_state s AND NOT (layer_mask l))"
    and l: "locked_layers (layer_lock_invert cf fc l s) = locked_layers s XOR layer_mask l"
    using assms(1,2) by (simp_all add: layer_lock_invert_def Let_def layer_on_def layer_off_def layer_state_set_def)
  moreover have "locked_layers s AND layer_mask l = 0 \<longleftrightarrow> \<not> bit (locked_layers s) (unat l)"
    using test_mask_iff [of "locked_layers s" "unat l"] by (auto simp: layer_mask_def test_mask_def)
  ultimately show "locks_on (layer_lock_invert cf fc l s)" using assms(3)
    by (auto simp: locks_on_iff bit_xor_iff bit_or_iff bit_and_iff bit_not_iff bit_layer_mask)
  show "locked_layers (layer_lock_invert cf fc l s) = locked_layers s XOR layer_mask l" by (rule l)
qed

text \<open>The keys that layer lock acts on beyond dropping the locks of layers that are off.\<close>

definition layer_lock_key :: "uint16 \<Rightarrow> bool" where
  "layer_lock_key kc \<longleftrightarrow> kc = QK_LAYER_LOCK \<or> (QK_MOMENTARY \<le> kc \<and> kc \<le> QK_MOMENTARY_MAX)
     \<or> (QK_LAYER_TAP_TOGGLE \<le> kc \<and> kc \<le> QK_LAYER_TAP_TOGGLE_MAX) \<or> (QK_LAYER_MOD \<le> kc \<and> kc \<le> QK_LAYER_MOD_MAX)"

lemma layer_lock_invert_state:
  assumes "layer_state_set_kb cf = (\<lambda>x. x)" "layer_lock_set_user fc = (\<lambda>_ s. s)"
  shows "layer_state (layer_lock_invert cf fc l s) =
    (if locked_layers s AND layer_mask l = 0 then layer_state s OR layer_mask l else layer_state s AND NOT (layer_mask l))"
  using assms by (simp add: layer_lock_invert_def Let_def layer_on_def layer_off_def layer_state_set_def reset_oneshot_frame)

lemma unlock_stale:
  assumes "layer_lock_set_kb fc = (\<lambda>_ s. s)"
  shows "locked_layers (unlock_stale_layers fc s) = locked_layers s AND layer_state s" "layer_state (unlock_stale_layers fc s) = layer_state s"
    "locks_on (unlock_stale_layers fc s)"
proof -
  have "a AND b = a" if "a AND NOT b = 0" for a b :: uint16
  proof (rule bit_word_eqI)
    fix n assume "n < LENGTH(16)"
    have "\<not> bit (a AND NOT b) n" unfolding that by simp
    then show "bit (a AND b) n = bit a n" using \<open>n < LENGTH(16)\<close> by (auto simp: bit_and_iff bit_not_iff)
  qed
  then show "locked_layers (unlock_stale_layers fc s) = locked_layers s AND layer_state s" "layer_state (unlock_stale_layers fc s) = layer_state s"
    using assms by (simp_all add: unlock_stale_layers_def)
  then show "locks_on (unlock_stale_layers fc s)" by (simp add: locks_on_iff bit_and_iff)
qed

lemma layer_lock_keeps_on:
  assumes "layer_state_set_kb cf = (\<lambda>x. x)" "layer_lock_set_user fc = (\<lambda>_ s. s)" "layer_lock_set_kb fc = (\<lambda>_ s. s)"
  shows "locks_on (snd (process_layer_lock cf fc kc r s))"
proof -
  define u where "u = unlock_stale_layers fc s"
  have c: "locks_on u"
    by (auto simp: u_def unlock_stale_layers_def assms(3) locks_on_def word_bits_eq_iff bit_and_iff bit_not_iff)
  have "kbd.more (send_keyboard_report cf (clear_mods u)) = kbd.more u" by (intro features_frame.send) (simp add: clear_mods_def)
  from more_eqD(1) [OF this] have "locks_on (send_keyboard_report cf (clear_mods u))"
    using c by (simp add: locks_on_def clear_mods_def)
  then show ?thesis unfolding process_layer_lock_def handle_mo_or_tt_def Let_def u_def [symmetric]
    using c layer_lock_invert_on(1) [OF assms(1,2) c] by simp
qed

subsection \<open>Leader key\<close>

text \<open>The sequence so far, and what it is after more key presses.\<close>

definition leader_keys :: "'z features_scheme \<Rightarrow> uint16 list" where
  "leader_keys s = take (leader_sequence_size s) (leader_sequence s)"

definition leader_ok :: "'z features_scheme \<Rightarrow> bool" where
  "leader_ok s \<longleftrightarrow> length (leader_sequence s) = 5 \<and> leader_sequence_size s \<le> 5
     \<and> drop (leader_sequence_size s) (leader_sequence s) = replicate (5 - leader_sequence_size s) 0"

lemma leader_start_ok:
  assumes "leader_start_user fc = (\<lambda>s. s)" "\<not> leading s"
  shows "leader_ok (leader_start fc s)" "leading (leader_start fc s)" "leader_keys (leader_start fc s) = []"
    "leader_time (leader_start fc s) = now s"
  using assms by (simp_all add: leader_start_def leader_ok_def leader_keys_def)

lemma leader_add:
  assumes "leader_ok s" "leader_sequence_add fc kc s = (added, s')"
  shows "added \<longleftrightarrow> length (leader_keys s) < 5" "leader_ok s'"
    "leader_keys s' = (if added then leader_keys s @ [kc] else leader_keys s)"
proof -
  let ?n = "leader_sequence_size s"
  have l: "length (leader_sequence s) = 5" "?n \<le> 5" "drop ?n (leader_sequence s) = replicate (5 - ?n) 0"
    using assms(1) by (simp_all add: leader_ok_def)
  have k: "length (leader_keys s) = ?n" using l by (simp add: leader_keys_def)
  have "drop (Suc ?n) (leader_sequence s) = replicate (4 - ?n) 0" if "?n < 5"
    using l(3) that by (metis drop_Suc tl_drop tl_replicate diff_diff_left Suc_eq_plus1 numeral_eq_Suc pred_numeral_simps(3) diff_Suc_1 diff_commute)
  then show "added \<longleftrightarrow> length (leader_keys s) < 5" "leader_ok s'"
      "leader_keys s' = (if added then leader_keys s @ [kc] else leader_keys s)"
    using assms(2) l k
    by (auto simp: leader_sequence_add_def leader_ok_def leader_keys_def leader_reset_timer_def Let_def take_Suc_conv_app_nth split: if_splits)
qed

lemma leader_sequence_is_iff:
  assumes "leader_ok s"
  shows "leader_sequence_is k1 k2 k3 k4 k5 s \<longleftrightarrow> leader_sequence s = [k1, k2, k3, k4, k5]"
    "leader_sequence s = leader_keys s @ replicate (5 - length (leader_keys s)) 0"
proof -
  have l: "length (leader_sequence s) = 5" using assms by (simp add: leader_ok_def)
  then obtain a b c d e where "leader_sequence s = [a, b, c, d, e]"
    by (auto simp: numeral_eq_Suc length_Suc_conv)
  then show "leader_sequence_is k1 k2 k3 k4 k5 s \<longleftrightarrow> leader_sequence s = [k1, k2, k3, k4, k5]"
    by (simp add: leader_sequence_is_def)
  show "leader_sequence s = leader_keys s @ replicate (5 - length (leader_keys s)) 0"
    using append_take_drop_id [of "leader_sequence_size s" "leader_sequence s", symmetric] assms
    unfolding leader_ok_def leader_keys_def by simp
qed

text \<open>Key presses at given times.\<close>

definition press_of :: "uint16 \<Rightarrow> keyrecord_t" where
  "press_of t = no_record\<lparr>event := \<lparr>key = \<lparr>row = 0, col = 0\<rparr>, time = t, event_type = KEY_EVENT, pressed = True\<rparr>\<rparr>"

definition leader_press :: "'z features_scheme feature_config \<Rightarrow> uint16 \<times> uint16 \<Rightarrow> 'z features_scheme \<Rightarrow> bool \<times> 'z features_scheme" where
  "leader_press fc = (\<lambda>(t, kc) s. process_leader fc kc (press_of t) (s\<lparr>now := t\<rparr>))"

definition leader_timed :: "'z features_scheme feature_config \<Rightarrow> bool" where
  "leader_timed fc \<longleftrightarrow> \<not> LEADER_NO_TIMEOUT fc \<and> \<not> LEADER_PER_KEY_TIMING fc \<and> \<not> LEADER_KEY_STRICT_KEY_PROCESSING fc
     \<and> leader_start_user fc = (\<lambda>s. s) \<and> leader_end_user fc = (\<lambda>s. s)"

lemma leader_press_collects:
  assumes "leader_timed fc" "leader_ok s" "leading s" "t - leader_time s \<le> LEADER_TIMEOUT fc" "length (leader_keys s) < 5"
  shows "\<not> fst (leader_press fc (t, kc) s)" "leader_ok (snd (leader_press fc (t, kc) s))" "leading (snd (leader_press fc (t, kc) s))"
    "leader_time (snd (leader_press fc (t, kc) s)) = leader_time s"
    "leader_keys (snd (leader_press fc (t, kc) s)) = leader_keys s @ [get_tap_keycode kc]"
proof -
  have n: "leader_ok (s\<lparr>now := t\<rparr>)" "leader_keys (s\<lparr>now := t\<rparr>) = leader_keys s" using assms(2) by (simp_all add: leader_ok_def leader_keys_def)
  obtain added s' where a: "leader_sequence_add fc (get_tap_keycode kc) (s\<lparr>now := t\<rparr>) = (added, s')" by fastforce
  have f: "leading s'" "leader_time s' = leader_time s" using a assms(1,3)
    by (auto simp: leader_sequence_add_def leader_timed_def Let_def split: if_splits)
  have "leader_press fc (t, kc) s = (False, s')"
    using a assms leader_add(1) [OF n(1) a] n(2)
    by (simp add: leader_press_def process_leader_def press_of_def leader_sequence_timed_out_def timer_elapsed_def TIMER_DIFF_16_def
        leader_timed_def not_less)
  then show "\<not> fst (leader_press fc (t, kc) s)" "leader_ok (snd (leader_press fc (t, kc) s))" "leading (snd (leader_press fc (t, kc) s))"
    "leader_time (snd (leader_press fc (t, kc) s)) = leader_time s"
    "leader_keys (snd (leader_press fc (t, kc) s)) = leader_keys s @ [get_tap_keycode kc]"
    using leader_add [OF n(1) a] n(2) f assms(5) by simp_all
qed

lemma leader_presses_collect:
  assumes "leader_timed fc"
  shows "leader_ok s \<Longrightarrow> leading s \<Longrightarrow> \<forall>(t, kc)\<in>set ks. t - leader_time s \<le> LEADER_TIMEOUT fc \<Longrightarrow> length (leader_keys s) + length ks \<le> 5 \<Longrightarrow>
    let s' = fold (\<lambda>k s. snd (leader_press fc k s)) ks s
    in leader_ok s' \<and> leading s' \<and> leader_time s' = leader_time s \<and> leader_keys s' = leader_keys s @ map (get_tap_keycode \<circ> snd) ks"
proof (induction ks arbitrary: s)
  case (Cons k ks)
  obtain t kc where k: "k = (t, kc)" by (cases k)
  note p = leader_press_collects [OF assms Cons.prems(1,2), of t kc]
  have "t - leader_time s \<le> LEADER_TIMEOUT fc" "length (leader_keys s) < 5" using Cons.prems by (simp_all add: k)
  note p = p [OF this]
  show ?case using Cons.IH [OF p(2,3)] Cons.prems(3,4) p(4,5) by (simp add: k Let_def)
qed simp

lemma leader_full_ends:
  assumes "leader_timed fc" "leader_ok s" "leading s" "length (leader_keys s) = 5" "t - leader_time s \<le> LEADER_TIMEOUT fc"
  shows "fst (leader_press fc (t, kc) s)" "\<not> leading (snd (leader_press fc (t, kc) s))"
proof -
  have n: "leader_ok (s\<lparr>now := t\<rparr>)" "leader_keys (s\<lparr>now := t\<rparr>) = leader_keys s" using assms(2) by (simp_all add: leader_ok_def leader_keys_def)
  obtain added s' where a: "leader_sequence_add fc (get_tap_keycode kc) (s\<lparr>now := t\<rparr>) = (added, s')" by fastforce
  have "\<not> added" using leader_add(1) [OF n(1) a] n(2) assms(4) by simp
  then show "fst (leader_press fc (t, kc) s)" "\<not> leading (snd (leader_press fc (t, kc) s))"
    using a assms by (simp_all add: leader_press_def process_leader_def press_of_def leader_sequence_timed_out_def timer_elapsed_def
        TIMER_DIFF_16_def leader_timed_def leader_end_def not_less)
qed

subsection \<open>Caps word\<close>

definition is_letter :: "uint16 \<Rightarrow> bool" where "is_letter kc \<longleftrightarrow> KC_A \<le> kc \<and> kc \<le> KC_Z"

text \<open>What a plain basic key does while caps word is on, with the default \<open>caps_word_press_user\<close>.\<close>

definition caps_word_plain :: "'z features_scheme feature_config \<Rightarrow> bool" where
  "caps_word_plain fc \<longleftrightarrow> \<not> CAPS_WORD_INVERT_ON_SHIFT fc \<and> caps_word_press_user fc = default_caps_word_press
     \<and> caps_word_set_user fc = (\<lambda>_ s. s)"

lemma caps_word_basic:
  assumes "kc \<le> 0xFF" "kc \<noteq> KC_RIGHT_ALT"
  shows "caps_word_keycode cf fc kc r = Counts_as kc" "kc \<noteq> QK_CAPS_WORD_TOGGLE"
proof -
  have b: "\<not> a \<le> kc" if "0xFF < a" for a using assms(1) that by (meson order.trans not_less)
  have o: "kc \<noteq> a" if "0xFF < a" for a using assms(1) that by auto
  have "0xFF < OSM MOD_RALT" by code_simp
  then show "caps_word_keycode cf fc kc r = Counts_as kc" "kc \<noteq> QK_CAPS_WORD_TOGGLE"
    using assms(2) o [of "OSM MOD_RALT"] o [of QK_CAPS_WORD_TOGGLE]
    by (simp_all add: caps_word_keycode_def is_layer_switch_def IS_QK_MOD_TAP_def IS_QK_LAYER_TAP_def b)
qed

definition caps_word_continues :: "uint16 \<Rightarrow> bool" where
  "caps_word_continues kc \<longleftrightarrow> is_letter kc \<or> KC_1 \<le> kc \<and> kc \<le> KC_0 \<or> kc = KC_MINUS \<or> kc = KC_BACKSPACE \<or> kc = KC_DELETE"

lemma caps_word_sent:
  "caps_word_active (send_keyboard_report cf s) = caps_word_active s"
  by (rule more_eqD(2), rule features_frame.send) simp

lemma caps_word_key_press:
  assumes "caps_word_plain fc" "kc \<le> 0xFF" "kc \<noteq> KC_RIGHT_ALT" "caps_word_active s" "pressed (event r)"
    "(real_mods s OR oneshot_mods s) AND NOT (MOD_MASK_SHIFT OR MOD_BIT KC_RIGHT_ALT) = 0"
  shows "fst (process_caps_word cf fc kc r s)"
    "caps_word_active (snd (process_caps_word cf fc kc r s)) \<longleftrightarrow> caps_word_continues kc"
    "weak_mods (snd (process_caps_word cf fc kc r s)) = (if is_letter kc \<or> kc = KC_MINUS then MOD_BIT KC_LEFT_SHIFT else 0)"
proof -
  define u where "u = caps_word_reset_idle_timer fc s"
  have u: "caps_word_active u" using assms(4) by (simp add: u_def caps_word_reset_idle_timer_def)
  have e: "process_caps_word cf fc kc r s = (True, caps_word_press cf fc (Counts_as kc) u)"
    using assms caps_word_basic(1) [OF assms(2,3), of cf fc r] caps_word_basic(2) [OF assms(2,3)]
    by (simp add: process_caps_word_def caps_word_plain_def Let_def u_def)
  have "kc \<noteq> KC_UNDS" using assms(2) by auto
  then have p: "caps_word_press_user fc kc v =
      (caps_word_continues kc, if is_letter kc \<or> kc = KC_MINUS then add_weak_mods (MOD_BIT KC_LEFT_SHIFT) v else v)" for v
    using assms(1) by (auto simp: caps_word_plain_def default_caps_word_press_def caps_word_continues_def is_letter_def)
  have m: "caps_word_continues kc" if "is_letter kc \<or> kc = KC_MINUS" using that by (auto simp: caps_word_continues_def)
  have i: "\<not> CAPS_WORD_INVERT_ON_SHIFT fc" "caps_word_set_user fc = (\<lambda>_ s. s)" using assms(1) by (simp_all add: caps_word_plain_def)
  show "fst (process_caps_word cf fc kc r s)" by (simp add: e)
  show "caps_word_active (snd (process_caps_word cf fc kc r s)) \<longleftrightarrow> caps_word_continues kc"
    using i u by (auto simp: e caps_word_press_def p caps_word_stop_def caps_word_off_def
        unregister_weak_mods_def caps_word_sent mods_defs Let_def)
  show "weak_mods (snd (process_caps_word cf fc kc r s)) = (if is_letter kc \<or> kc = KC_MINUS then MOD_BIT KC_LEFT_SHIFT else 0)"
    using i u m by (auto simp: e caps_word_press_def p caps_word_stop_def caps_word_off_def
        unregister_weak_mods_def mods_defs Let_def)
qed

end
