(* ===== verification/Feature_Theorems.thy ===== *)
theory Feature_Theorems
  imports Host_View Demo Feature_Props
begin

text \<open>
  The properties of the keycode features: the invariant of the whole chain of handlers, key lock, layer lock,
  caps word and the leader key.
\<close>

section \<open>Keycode features\<close>

text \<open>What happens to the keyboard: a key event, or the main loop comes around at a time.\<close>

datatype input = Key keyevent_t | Loop uint16

fun firmware_step ::
  "(recptr \<Rightarrow> 'z features_scheme \<Rightarrow> 'z features_scheme) \<Rightarrow> nat \<Rightarrow> 'z features_scheme config \<Rightarrow> 'z features_scheme feature_config \<Rightarrow>
   input \<Rightarrow> 'z features_scheme \<Rightarrow> 'z features_scheme" where
  "firmware_step bottom n cf fc (Key ev) s = action_exec (firmware bottom n cf fc) ev s"
| "firmware_step bottom n cf fc (Loop t) s = feature_tasks cf fc (s\<lparr>now := t\<rparr>)"

text \<open>
  C28. The invariant with all features in the chain of handlers: tap dances, key lock, dynamic macros,
  repeat key, caps word, leader key, space cadet, grave-escape, tri-layer and layer lock. For every
  sequence of key events and rounds of the main loop, and however deep macros and repeated keys are nested,
  the arrays keep their sizes and the host has exactly the keys of the report.
\<close>

theorem features_keep_invariant:
  assumes "hooks_keep cf (kbd_inv cf)" "user_keep fc (kbd_inv cf)" "\<forall>p s. kbd_inv cf s \<longrightarrow> kbd_inv cf (bottom p s)" "kbd_inv cf s"
  shows "kbd_inv cf (fold (firmware_step bottom n cf fc) xs s)
    \<and> (driver (fold (firmware_step bottom n cf fc) xs s) \<longrightarrow>
        host_pressed k (fold (firmware_step bottom n cf fc) xs s) = is_key_pressed k (fold (firmware_step bottom n cf fc) xs s))"
proof -
  have h: "hooks_keep (firmware bottom n cf fc) (kbd_inv (firmware bottom n cf fc))"
    using firmware_keeps [OF assms(1,2)] assms(3) by simp
  have "kbd_inv cf (firmware_step bottom n cf fc x s)" if "kbd_inv cf s" for x s
    using that inv.action_exec_kept [OF h, of s] featured.tasks_kept [OF assms(2)] inv_record.kept(1) [of cf s] by (cases x) simp_all
  then have "kbd_inv cf (fold (firmware_step bottom n cf fc) xs s)" using assms(4) by (rule fold_kept)
  then show ?thesis using host_pressed_iff by blast
qed

theorem features_keep_invariant_witness:
  "kbd_inv feature_cf (fold (firmware_step (\<lambda>p s. s) 2 feature_cf feature_fc)
     [Key \<lparr>key = \<lparr>row = 0, col = 1\<rparr>, time = 5, event_type = KEY_EVENT, pressed = True\<rparr>, Loop 9] feature_state)"
  using features_keep_invariant [OF feature_hooks feature_users _ feature_inv, of "\<lambda>p s. s" 2] by blast

text \<open>
  C29. Key lock implements a set of locked keys: the keycode that is pressed after the lock key joins the set, the
  releases of its members are held back, and the next press of a member takes it out.
\<close>

theorem key_lock_set:
  assumes "length (key_state s) = 4" "kc \<le> QK_ONE_SHOT_MOD \<or> QK_ONE_SHOT_MOD_MAX < kc"
  shows "case process_key_lock kc r s of (ok, kc', s') \<Rightarrow>
    key_lock_spec (pressed (event r)) kc (watching s, locked_keys s) = (ok, watching s', locked_keys s') \<and> kc' = kc"
proof -
  have "translate_keycode kc = kc" using assms(2) by (auto simp: translate_keycode_def)
  then show ?thesis using key_lock_refines [OF assms(1)] by (auto split: prod.split)
qed

theorem key_lock_set_witness:
  "case process_key_lock 4 (press_of 0) (feature_state\<lparr>watching := True\<rparr>) of (ok, kc', s') \<Rightarrow> ok \<and> 4 \<in> locked_keys s'"
proof -
  have "length (key_state (feature_state\<lparr>watching := True\<rparr>)) = 4" by code_simp
  from key_lock_set [OF this, of 4 "press_of 0"] show ?thesis
    by (auto simp: key_lock_spec_def press_of_def split: prod.splits)
qed

text \<open>
  C30. Key lock confuses one-shot modifiers with letters: locking the one-shot key of the modifiers \<open>m\<close>
  locks the keycode with the number \<open>m\<close>. Control and Alt are modifiers 5, and 5 is the keycode of B: the next press of B
  is swallowed.
\<close>

theorem key_lock_oneshot_confusion:
  assumes "length (key_state s) = 4" "watching s" "m AND 0x1F \<noteq> 0" "pressed (event r)" "pressed (event r')"
    "process_key_lock (OSM m) r s = (ok, kc, s')"
  shows "ok \<and> kc = ucast m AND 0x1F \<and> locked_keys s' = insert (ucast m AND 0x1F) (locked_keys s)
    \<and> \<not> fst (process_key_lock (ucast m AND 0x1F) r' s')"
proof -
  let ?k = "ucast m AND 0x1F :: uint16"
  have "?k \<le> 0x1F" by (rule word_and_le1)
  then have le: "?k \<le> 0xFF" by (rule order.trans) simp
  have "?k \<le> QK_ONE_SHOT_MOD" using \<open>?k \<le> 0x1F\<close> by (rule order.trans) simp
  then have k: "?k \<noteq> QK_LOCK" "translate_keycode ?k = ?k" by (auto simp: translate_keycode_def not_less [symmetric])
  have s': "ok \<and> kc = ?k \<and> s' = SET_KEY_STATE ?k (s\<lparr>watching := False\<rparr>)"
    using assms le k(1) by (auto simp: process_key_lock_def translate_oneshot IS_STANDARD_KEYCODE_def Let_def)
  have g: "KEY_STATE j (s\<lparr>watching := False\<rparr>) = KEY_STATE j s" for j by (simp add: KEY_STATE_def GET_KEY_ARRAY_def)
  have l: "KEY_STATE j s' \<longleftrightarrow> j = ?k \<or> KEY_STATE j s" if "j \<le> 0xFF" for j
    using key_state_set(1) [OF le that, of "s\<lparr>watching := False\<rparr>"] s' assms(1) g by simp
  then have "locked_keys s' = insert ?k (locked_keys s)" using le by (auto simp: locked_keys_def)
  moreover have "\<not> watching s'" using s' by (simp add: SET_KEY_STATE_def SET_KEY_ARRAY_STATE_def)
  ultimately show ?thesis using s' l [OF le] le k assms(5) by (simp add: process_key_lock_def IS_STANDARD_KEYCODE_def Let_def)
qed

theorem key_lock_oneshot_confusion_witness:
  "\<not> fst (process_key_lock 5 (press_of 9) (snd (snd (process_key_lock (OSM (MOD_LCTL OR MOD_LALT)) (press_of 0) (feature_state\<lparr>watching := True\<rparr>)))))"
proof -
  let ?s = "feature_state\<lparr>watching := True\<rparr>" and ?m = "MOD_LCTL OR MOD_LALT"
  have "length (key_state ?s) = 4" "watching ?s" "?m AND 0x1F \<noteq> 0" "pressed (event (press_of t))" for t
    by (code_simp, simp, simp, simp add: press_of_def)
  moreover obtain ok kc s' where e: "process_key_lock (OSM ?m) (press_of 0) ?s = (ok, kc, s')" by (cases "process_key_lock (OSM ?m) (press_of 0) ?s")
  ultimately have "\<not> fst (process_key_lock (ucast ?m AND 0x1F) (press_of 9) s')" using key_lock_oneshot_confusion by blast
  then show ?thesis using e by simp
qed

text \<open>
  C31. Layer lock: when \<open>process_layer_lock\<close> returns, every locked layer is on, whatever was done to the layers before. A locked layer that
  something else has turned off is unlocked, and keys other than the lock key and momentary, tap-toggle and layer-mod keys change nothing more.
  The lock key locks the highest layer, or unlocks and turns it off if it is locked; a momentary or tap-toggle key of a locked layer unlocks it,
  turns it off and is not executed. (The action of the key, which comes later, may turn a locked layer off; the lock is then dropped at the next key.)
\<close>

theorem layer_lock_layers_on:
  assumes "layer_state_set_kb cf = (\<lambda>x. x)" "layer_lock_set_user fc = (\<lambda>_ s. s)" "layer_lock_set_kb fc = (\<lambda>_ s. s)"
  defines "lock \<equiv> process_layer_lock cf fc"
  shows "locks_on (snd (lock kc r s))
    \<and> (\<not> layer_lock_key kc \<longrightarrow>
        locked_layers (snd (lock kc r s)) = locked_layers s AND layer_state s \<and> layer_state (snd (lock kc r s)) = layer_state s)
    \<and> (pressed (event r) \<longrightarrow>
        (let top = layer_mask (biton16 (layer_state s)); valid = locked_layers s AND layer_state s; s' = snd (lock QK_LAYER_LOCK r s)
         in locked_layers s' = valid XOR top \<and> layer_state s' = (if valid AND top = 0 then layer_state s OR top else layer_state s AND NOT top)))
    \<and> (pressed (event r) \<and> (QK_MOMENTARY \<le> kc \<and> kc \<le> QK_MOMENTARY_MAX \<or> QK_LAYER_TAP_TOGGLE \<le> kc \<and> kc \<le> QK_LAYER_TAP_TOGGLE_MAX) \<longrightarrow>
        (let layer = layer_mask (low5 kc); valid = locked_layers s AND layer_state s
         in if valid AND layer = 0 then fst (lock kc r s) \<and> locked_layers (snd (lock kc r s)) = valid \<and> layer_state (snd (lock kc r s)) = layer_state s
            else \<not> fst (lock kc r s) \<and> locked_layers (snd (lock kc r s)) = valid XOR layer
              \<and> layer_state (snd (lock kc r s)) = layer_state s AND NOT layer))"
proof -
  let ?u = "unlock_stale_layers fc s"
  have u: "locked_layers ?u = locked_layers s AND layer_state s" "layer_state ?u = layer_state s" "locks_on ?u"
    using unlock_stale [OF assms(3)] by simp_all
  note inv = layer_lock_invert_on(2) [OF assms(1,2) u(3)] layer_lock_invert_state [OF assms(1,2), of _ ?u]
  have "locks_on (snd (lock kc r s))" using layer_lock_keeps_on [OF assms(1-3)] by (simp add: lock_def)
  moreover have "locked_layers (snd (lock kc r s)) = locked_layers ?u \<and> layer_state (snd (lock kc r s)) = layer_state ?u" if "\<not> layer_lock_key kc"
    using that by (auto simp: lock_def process_layer_lock_def layer_lock_key_def Let_def)
  moreover have "snd (lock QK_LAYER_LOCK r s) = layer_lock_invert cf fc (biton16 (layer_state s)) ?u" if "pressed (event r)"
    using that u(2) by (simp add: lock_def process_layer_lock_def Let_def)
  moreover have "lock kc r s = (if valid AND layer_mask (low5 kc) = 0 then (True, ?u) else (False, layer_lock_invert cf fc (low5 kc) ?u))"
    if "pressed (event r)" "QK_MOMENTARY \<le> kc \<and> kc \<le> QK_MOMENTARY_MAX \<or> QK_LAYER_TAP_TOGGLE \<le> kc \<and> kc \<le> QK_LAYER_TAP_TOGGLE_MAX"
      "valid = locked_layers s AND layer_state s" for valid
    using that u(1) by (auto simp: lock_def process_layer_lock_def handle_mo_or_tt_def is_layer_locked_def Let_def)
  ultimately show ?thesis using u inv by (simp add: Let_def)
qed

text \<open>Layer 1 is locked and on: its momentary key unlocks it. Layer 1 is locked but off: any key unlocks it.\<close>

theorem layer_lock_layers_on_witness:
  "let s = feature_state\<lparr>locked_layers := 2, layer_state := 2\<rparr>; s' = snd (process_layer_lock feature_cf feature_fc (MO 1) (press_of 0) s);
       t = feature_state\<lparr>locked_layers := 2\<rparr>; t' = snd (process_layer_lock feature_cf feature_fc 4 (press_of 0) t)
   in locks_on s' \<and> locked_layers s' = 0 \<and> layer_state s' = 0 \<and> locks_on t' \<and> locked_layers t' = 0"
proof -
  have h: "layer_state_set_kb feature_cf = (\<lambda>x. x)" "layer_lock_set_user feature_fc = (\<lambda>_ s. s)" "layer_lock_set_kb feature_fc = (\<lambda>_ s. s)"
    by (simp_all add: feature_cf_def base_config_def demo_features)
  note r = layer_lock_layers_on [OF h]
  have k: "\<not> layer_lock_key 4" "0x5220 \<le> MO 1 \<and> MO 1 \<le> 0x523F" "layer_mask (low5 (MO 1)) = 2" "pressed (event (press_of 0))"
    "layer_state feature_state = 0" by code_simp+
  show ?thesis
    using r [of "MO 1" "press_of 0" "feature_state\<lparr>locked_layers := 2, layer_state := 2\<rparr>"] r [of 4 "press_of 0" "feature_state\<lparr>locked_layers := 2\<rparr>"] k
    by (simp add: Let_def)
qed

text \<open>
  C32. Caps word: while it is on, letters and the hyphen are typed with Shift and digits, Backspace and Delete without, and
  any other basic key ends it and takes the Shift back.
\<close>

theorem caps_word_types_capitals:
  assumes "caps_word_plain fc" "kc \<le> 0xFF" "kc \<noteq> KC_RIGHT_ALT" "caps_word_active s" "pressed (event r)"
    "(real_mods s OR oneshot_mods s) AND NOT (MOD_MASK_SHIFT OR MOD_BIT KC_RIGHT_ALT) = 0"
  shows "case process_caps_word cf fc kc r s of (ok, s') \<Rightarrow>
    ok \<and> (caps_word_active s' \<longleftrightarrow> caps_word_continues kc)
    \<and> weak_mods s' = (if is_letter kc \<or> kc = KC_MINUS then MOD_BIT KC_LEFT_SHIFT else 0)"
  using caps_word_key_press [OF assms, of cf] by (simp add: case_prod_beta)

theorem caps_word_types_capitals_witness:
  "weak_mods (snd (process_caps_word feature_cf feature_fc 4 (press_of 0) (feature_state\<lparr>caps_word_active := True\<rparr>))) = 2"
proof -
  let ?s = "feature_state\<lparr>caps_word_active := True\<rparr>"
  have "caps_word_plain feature_fc" by (simp add: caps_word_plain_def demo_features)
  moreover have "(real_mods ?s OR oneshot_mods ?s) AND NOT (MOD_MASK_SHIFT OR MOD_BIT KC_RIGHT_ALT) = 0" by code_simp
  moreover have "is_letter 4" "MOD_BIT KC_LEFT_SHIFT = 2" by code_simp+
  ultimately show ?thesis
    using caps_word_types_capitals [of feature_fc 4 ?s "press_of 0" feature_cf]
    by (simp add: press_of_def case_prod_beta)
qed

text \<open>
  C33. The leader key: the keys that are pressed after it within the timeout, five at most, are collected in order and not typed, tap-hold keys as
  what they are when tapped, and \<open>leader_sequence_is\<close> recognises exactly this sequence; the sixth key ends the sequence and is typed.
\<close>

theorem leader_collects_sequence:
  assumes "leader_timed fc" "\<not> leading s" "length ks \<le> 5"
    "\<forall>(t, kc)\<in>set ks. t - t0 \<le> LEADER_TIMEOUT fc"
  defines "s' \<equiv> fold (\<lambda>k s. snd (leader_press fc k s)) ks (snd (leader_press fc (t0, QK_LEADER) s))"
  shows "leader_keys s' = map (get_tap_keycode \<circ> snd) ks \<and> leading s'
    \<and> (leader_sequence_is k1 k2 k3 k4 k5 s' \<longleftrightarrow> map (get_tap_keycode \<circ> snd) ks @ replicate (5 - length ks) 0 = [k1, k2, k3, k4, k5])
    \<and> (t - t0 \<le> LEADER_TIMEOUT fc \<longrightarrow>
        (if length ks < 5 then \<not> fst (leader_press fc (t, kc) s')
         else fst (leader_press fc (t, kc) s') \<and> \<not> leading (snd (leader_press fc (t, kc) s'))))"
proof -
  let ?s = "snd (leader_press fc (t0, QK_LEADER) s)"
  have "?s = leader_start fc (s\<lparr>now := t0\<rparr>)" using assms(2) by (simp add: leader_press_def process_leader_def press_of_def)
  then have start: "leader_ok ?s" "leading ?s" "leader_keys ?s = []" "leader_time ?s = t0"
    using leader_start_ok [of fc "s\<lparr>now := t0\<rparr>"] assms(1,2) by (simp_all add: leader_timed_def)
  have "\<forall>(t, kc)\<in>set ks. t - leader_time ?s \<le> LEADER_TIMEOUT fc" using assms(4) start(4) by auto
  from leader_presses_collect [OF assms(1) start(1,2) this] have c: "leader_ok s'" "leading s'" "leader_time s' = t0"
      "leader_keys s' = map (get_tap_keycode \<circ> snd) ks"
    using assms(3) start by (simp_all add: s'_def Let_def)
  then show ?thesis
    using leader_sequence_is_iff [OF c(1)] leader_press_collects(1) [OF assms(1) c(1,2), of t kc] leader_full_ends [OF assms(1) c(1,2), of t kc] assms(3)
    by auto
qed

theorem leader_collects_sequence_witness:
  "leader_keys (fold (\<lambda>k s. snd (leader_press feature_fc k s)) [(20, 4), (90, 5)] (snd (leader_press feature_fc (10, QK_LEADER) feature_state))) = [4, 5]"
proof -
  have "leader_timed feature_fc" "\<not> leading feature_state" by (simp add: leader_timed_def demo_features) code_simp
  moreover have "\<forall>(t, kc)\<in>set [(20, 4), (90, 5)]. t - 10 \<le> LEADER_TIMEOUT feature_fc"
    "get_tap_keycode 4 = 4" "get_tap_keycode 5 = 5" by code_simp+
  ultimately show ?thesis using leader_collects_sequence [of feature_fc feature_state "[(20, 4), (90, 5)]" 10] by simp
qed

end
