(* ===== verification/Replay_Props.thy ===== *)
theory Replay_Props
  imports Feature_Chain Feature_Props
begin

text \<open>
  Dynamic macros: both recording directions are one generic procedure on a region of the buffer, which
  implements a bounded list; recording never touches the other macro, and playing executes the records in
  order. The repeat key: while it processes a record it does not start again.
\<close>

subsection \<open>A macro as a list\<close>

text \<open>The record number \<open>i\<close> of a macro is at \<open>start + direction * i\<close>.\<close>

definition slot :: "int \<Rightarrow> int \<Rightarrow> nat \<Rightarrow> nat" where "slot start d i = nat (start + d * int i)"

definition content :: "keyrecord_t list \<Rightarrow> int \<Rightarrow> int \<Rightarrow> nat \<Rightarrow> keyrecord_t list" where
  "content buf start d n = map (\<lambda>i. buf ! slot start d i) [0..<n]"

text \<open>A region of \<open>c\<close> slots, and the recording of at most \<open>c\<close> records in it.\<close>

definition region :: "keyrecord_t list \<Rightarrow> int \<Rightarrow> int \<Rightarrow> nat \<Rightarrow> bool" where
  "region buf start d c \<longleftrightarrow> (d = 1 \<or> d = - 1) \<and> (\<forall>i<c. 0 \<le> start + d * int i \<and> start + d * int i < int (length buf))"

definition add_record :: "nat \<Rightarrow> keyrecord_t list \<Rightarrow> keyrecord_t \<Rightarrow> keyrecord_t list" where
  "add_record c xs r = (if \<not> pressed (event r) \<and> xs = [] then xs else if length xs < c then xs @ [r] else xs)"

lemma slot_inj: "region buf start d c \<Longrightarrow> i < c \<Longrightarrow> j < c \<Longrightarrow> slot start d i = slot start d j \<longleftrightarrow> i = j"
  by (auto simp: region_def slot_def nat_eq_iff)

lemma content_update:
  assumes "region buf start d c" "n < c"
  shows "content (buf[slot start d n := r]) start d n = content buf start d n"
    "buf[slot start d n := r] ! slot start d n = r"
proof -
  show "content (buf[slot start d n := r]) start d n = content buf start d n"
    unfolding content_def using assms by (auto simp: nth_list_update_neq slot_inj [OF assms(1)])
  have "slot start d n < length buf" using assms by (auto simp: region_def slot_def nat_less_iff)
  then show "buf[slot start d n := r] ! slot start d n = r" by simp
qed

definition recording :: "int \<Rightarrow> int \<Rightarrow> nat \<Rightarrow> keyrecord_t list \<Rightarrow> 'z features_scheme \<Rightarrow> bool" where
  "recording start d c xs s \<longleftrightarrow> region (macro_buffer s) start d c \<and> length xs \<le> c
     \<and> macro_pointer s = start + d * int (length xs) \<and> content (macro_buffer s) start d (length xs) = xs"

lemma record_key_adds:
  assumes "recording start d c xs s" "stop = start + d * (int c - 1)"
  shows "recording start d c (add_record c xs r) (dynamic_macro_record_key start stop d r s)"
    "j \<notin> slot start d ` {..<c} \<Longrightarrow> macro_buffer (dynamic_macro_record_key start stop d r s) ! j = macro_buffer s ! j"
    "length (macro_buffer (dynamic_macro_record_key start stop d r s)) = length (macro_buffer s)"
proof -
  let ?n = "length xs"
  have a: "region (macro_buffer s) start d c" "?n \<le> c" "macro_pointer s = start + d * int ?n"
    "content (macro_buffer s) start d ?n = xs" using assms(1) by (simp_all add: recording_def)
  have d: "d = 1 \<or> d = - 1" using a(1) by (simp add: region_def)
  have p: "macro_pointer s = start \<longleftrightarrow> xs = []" using a(3) d by auto
  have q: "macro_pointer s - d \<noteq> stop \<longleftrightarrow> ?n < c" using a(2,3) d assms(2) by auto
  have sl: "nat (macro_pointer s) = slot start d ?n" by (simp add: slot_def a(3))
  have r: "region (buf[i := x]) start d c = region buf start d c" for buf i x by (simp add: region_def)
  note u = content_update [OF a(1), of ?n r]
  have "recording start d c (xs @ [r]) (s\<lparr>macro_buffer := (macro_buffer s)[slot start d ?n := r], macro_pointer := macro_pointer s + d\<rparr>)"
    if "?n < c"
    using that a u by (simp add: recording_def r algebra_simps) (simp add: content_def)
  then show "recording start d c (add_record c xs r) (dynamic_macro_record_key start stop d r s)"
    using assms(1) p q sl by (auto simp: add_record_def dynamic_macro_record_key_def)
  show "macro_buffer (dynamic_macro_record_key start stop d r s) ! j = macro_buffer s ! j" if "j \<notin> slot start d ` {..<c}"
  proof -
    have "j \<noteq> slot start d ?n" if "?n < c" using that \<open>j \<notin> slot start d ` {..<c}\<close> by auto
    then show ?thesis using q by (auto simp: dynamic_macro_record_key_def sl)
  qed
  show "length (macro_buffer (dynamic_macro_record_key start stop d r s)) = length (macro_buffer s)"
    by (simp add: dynamic_macro_record_key_def)
qed

text \<open>What a recording stores: no leading releases, and as much as fits.\<close>

lemma add_records: "foldl (add_record c) [] rs = take c (dropWhile (\<lambda>r. \<not> pressed (event r)) rs)"
proof -
  have a: "foldl (add_record c) xs rs = take c (xs @ rs)" if "length xs \<le> c" "xs \<noteq> []" for xs rs
    using that by (induction rs arbitrary: xs) (auto simp: add_record_def take_Cons')
  show ?thesis
  proof (cases "c = 0")
    case True
    have "foldl (add_record 0) [] rs = []" by (induction rs) (simp_all add: add_record_def)
    then show ?thesis using True by simp
  next
    case False
    then show ?thesis by (induction rs) (simp_all add: add_record_def a Suc_le_eq)
  qed
qed

text \<open>At the end the keys that are still held are dropped.\<close>

definition trimmed :: "keyrecord_t list \<Rightarrow> keyrecord_t list" where
  "trimmed xs = rev (dropWhile (\<lambda>r. pressed (event r)) (rev xs))"

lemma trimmed_snoc: "trimmed (xs @ [x]) = (if pressed (event x) then trimmed xs else xs @ [x])"
  by (simp add: trimmed_def)

lemma trimmed_take: "trimmed xs = take (length (trimmed xs)) xs"
proof (induction xs rule: rev_induct)
  case (snoc x xs)
  have "length (trimmed xs) \<le> length xs" using length_dropWhile_le [of _ "rev xs"] by (simp add: trimmed_def)
  then show ?case using snoc by (simp add: trimmed_snoc)
qed (simp add: trimmed_def)

lemma trim_presses_trims:
  "content buf start d n = xs \<Longrightarrow> trim_presses buf d n (start + d * int n) = start + d * int (length (trimmed xs))"
proof (induction n arbitrary: xs)
  case (Suc n)
  have x: "xs = content buf start d n @ [buf ! slot start d n]" using Suc.prems by (simp add: content_def)
  have p: "start + d * int (Suc n) - d = start + d * int n" by (simp add: algebra_simps)
  show ?case using Suc.IH [of "content buf start d n"]
    by (simp only: trim_presses.simps p x trimmed_snoc) (simp add: slot_def content_def)
qed (simp add: content_def trimmed_def)

lemma record_end_trims:
  assumes "recording start d c xs s"
  shows "dynamic_macro_record_end start d s = start + d * int (length (trimmed xs))"
proof -
  have a: "macro_pointer s = start + d * int (length xs)" "content (macro_buffer s) start d (length xs) = xs" "d = 1 \<or> d = - 1"
    using assms by (simp_all add: recording_def region_def)
  have "nat (d * (macro_pointer s - start)) = length xs" using a(1,3) by auto
  then show ?thesis using trim_presses_trims [OF a(2)] by (simp add: dynamic_macro_record_end_def a(1))
qed

subsection \<open>Playing\<close>

text \<open>The records are executed one after the other and none of them, and nothing in the buffer, is changed on the way.\<close>

fun run_records ::
  "(recptr \<Rightarrow> 'z features_scheme \<Rightarrow> 'z features_scheme) \<Rightarrow> uint16 \<Rightarrow> keyrecord_t list \<Rightarrow> 'z features_scheme \<Rightarrow> 'z features_scheme" where
  "run_records again d [] s = s"
| "run_records again d (r # rs) s = run_records again d rs (wait_ms d (snd (run_record again r s)))"

fun undisturbed ::
  "(recptr \<Rightarrow> 'z features_scheme \<Rightarrow> 'z features_scheme) \<Rightarrow> uint16 \<Rightarrow> keyrecord_t list \<Rightarrow> 'z features_scheme \<Rightarrow> bool" where
  "undisturbed again d [] s = True"
| "undisturbed again d (r # rs) s \<longleftrightarrow>
     fst (run_record again r s) = r \<and> macro_buffer (snd (run_record again r s)) = macro_buffer s
     \<and> undisturbed again d rs (wait_ms d (snd (run_record again r s)))"

lemma content_Suc: "content buf start d (Suc n) = buf ! nat start # content buf (start + d) d n"
  by (simp add: content_def slot_def upt_conv_Cons del: upt_Suc)
    (simp add: map_Suc_upt [symmetric] comp_def algebra_simps del: upt_Suc)

lemma play_runs:
  "undisturbed again (DYNAMIC_MACRO_DELAY fc) (content (macro_buffer s) start d n) s \<Longrightarrow>
   play_records again fc n start d s = run_records again (DYNAMIC_MACRO_DELAY fc) (content (macro_buffer s) start d n) s"
proof (induction n arbitrary: start s)
  case (Suc n)
  let ?r = "macro_buffer s ! nat start" and ?w = "wait_ms (DYNAMIC_MACRO_DELAY fc)"
  obtain r' s' where e: "run_record again ?r s = (r', s')" by fastforce
  have u: "r' = ?r" "macro_buffer s' = macro_buffer s"
    "undisturbed again (DYNAMIC_MACRO_DELAY fc) (content (macro_buffer s) (start + d) d n) (?w s')"
    using Suc.prems by (simp_all add: content_Suc e)
  have "s'\<lparr>macro_buffer := (macro_buffer s')[nat start := r']\<rparr> = s'" using u(1,2) by simp
  moreover have "macro_buffer (?w s') = macro_buffer s" using u(2) by (simp add: wait_ms_def)
  ultimately show ?case using Suc.IH [of "?w s'" "start + d"] u(3) by (simp add: content_Suc e)
qed (simp add: content_def)

subsection \<open>The two macros\<close>

text \<open>Macro 1 or 2: where it starts, its direction, its end, its records, and the room it has.\<close>

definition macro_start :: "'z features_scheme feature_config \<Rightarrow> nat \<Rightarrow> int" where
  "macro_start fc n = (if n = 1 then 0 else r_macro_begin fc)"
definition macro_dir :: "nat \<Rightarrow> int" where "macro_dir n = (if n = 1 then 1 else - 1)"
definition macro_stop :: "nat \<Rightarrow> 'z features_scheme \<Rightarrow> int" where
  "macro_stop n s = (if n = 1 then macro_end s else r_macro_end s)"
definition macro_length :: "'z features_scheme feature_config \<Rightarrow> nat \<Rightarrow> 'z features_scheme \<Rightarrow> nat" where
  "macro_length fc n s = nat (macro_dir n * (macro_stop n s - macro_start fc n))"
definition macro :: "'z features_scheme feature_config \<Rightarrow> nat \<Rightarrow> 'z features_scheme \<Rightarrow> keyrecord_t list" where
  "macro fc n s = content (macro_buffer s) (macro_start fc n) (macro_dir n) (macro_length fc n s)"
definition macro_room :: "'z features_scheme feature_config \<Rightarrow> nat \<Rightarrow> 'z features_scheme \<Rightarrow> nat" where
  "macro_room fc n s = DYNAMIC_MACRO_SIZE fc - macro_length fc (3 - n) s"

definition macros_ok :: "'z features_scheme feature_config \<Rightarrow> 'z features_scheme \<Rightarrow> bool" where
  "macros_ok fc s \<longleftrightarrow> length (macro_buffer s) = DYNAMIC_MACRO_SIZE fc \<and> 0 \<le> macro_end s \<and> macro_end s \<le> r_macro_end s + 1
     \<and> r_macro_end s \<le> r_macro_begin fc"

lemmas macro_defs = macro_start_def macro_dir_def macro_stop_def macro_length_def macro_room_def r_macro_begin_def

definition macro_keycode :: "uint16 \<Rightarrow> bool" where
  "macro_keycode kc \<longleftrightarrow> QK_DYNAMIC_MACRO_RECORD_START_1 \<le> kc \<and> kc \<le> QK_DYNAMIC_MACRO_PLAY_2"

definition start_key :: "nat \<Rightarrow> uint16" where
  "start_key n = (if n = 1 then QK_DYNAMIC_MACRO_RECORD_START_1 else QK_DYNAMIC_MACRO_RECORD_START_2)"
definition play_key :: "nat \<Rightarrow> uint16" where
  "play_key n = (if n = 1 then QK_DYNAMIC_MACRO_PLAY_1 else QK_DYNAMIC_MACRO_PLAY_2)"

lemma room_region:
  assumes "macros_ok fc s" "n = 1 \<or> n = 2"
  shows "region (macro_buffer s) (macro_start fc n) (macro_dir n) (macro_room fc n s)"
    "macro_stop (3 - n) s = macro_start fc n + macro_dir n * (int (macro_room fc n s) - 1)"
  using assms by (auto simp: macros_ok_def region_def macro_defs)

text \<open>What is recorded leaves the other macro alone.\<close>

lemma other_macro_kept:
  assumes "macros_ok fc s" "n = 1 \<or> n = 2" "macro_length fc (3 - n) s' = macro_length fc (3 - n) s"
    "\<And>j. j \<notin> slot (macro_start fc n) (macro_dir n) ` {..<macro_room fc n s} \<Longrightarrow> macro_buffer s' ! j = macro_buffer s ! j"
  shows "macro fc (3 - n) s' = macro fc (3 - n) s"
proof -
  have "slot (macro_start fc (3 - n)) (macro_dir (3 - n)) i \<notin> slot (macro_start fc n) (macro_dir n) ` {..<macro_room fc n s}"
    if "i < macro_length fc (3 - n) s" for i
    using assms(1,2) that by (auto simp: macros_ok_def slot_def macro_defs nat_eq_iff split: if_splits)
  then show ?thesis unfolding macro_def assms(3) content_def using assms(4) by simp
qed

text \<open>Recording: a session with the number of the macro, what has been recorded so far, and the state before it.\<close>

definition session :: "'z features_scheme feature_config \<Rightarrow> nat \<Rightarrow> 'z features_scheme \<Rightarrow> keyrecord_t list \<Rightarrow> 'z features_scheme \<Rightarrow> bool" where
  "session fc n s0 xs s \<longleftrightarrow> macro_id s = n \<and> macro_end s = macro_end s0 \<and> r_macro_end s = r_macro_end s0
     \<and> length (macro_buffer s) = length (macro_buffer s0)
     \<and> recording (macro_start fc n) (macro_dir n) (macro_room fc n s0) xs s
     \<and> (\<forall>j. j \<notin> slot (macro_start fc n) (macro_dir n) ` {..<macro_room fc n s0} \<longrightarrow> macro_buffer s ! j = macro_buffer s0 ! j)"

lemma session_start:
  assumes "macros_ok fc s" "macro_id s = 0" "n = 1 \<or> n = 2" "\<not> pressed (event r)"
  shows "session fc n s [] (snd (process_dynamic_macro again cf fc (start_key n) r s))"
proof -
  have "kbd.more (layer_clear cf (clear_keyboard cf s)) = kbd.more s" by (simp add: features_frame.layers_kept)
  from more_eqD(6-9) [OF this] show ?thesis
    using assms room_region(1) [OF assms(1,3)]
    by (auto simp: session_def recording_def process_dynamic_macro_def dynamic_macro_record_start_def start_key_def macro_start_def content_def)
qed

lemma session_key:
  assumes "macros_ok fc s0" "n = 1 \<or> n = 2" "session fc n s0 xs s" "\<not> macro_keycode kc" "dynamic_macro_valid_key_user fc kc r"
  shows "session fc n s0 (add_record (macro_room fc n s0) xs r) (snd (process_dynamic_macro again cf fc kc r s))"
proof -
  let ?s = "dynamic_macro_record_key (macro_start fc n) (macro_stop (3 - n) s) (macro_dir n) r s"
  have k: "kc \<noteq> QK_DYNAMIC_MACRO_RECORD_START_1" "kc \<noteq> QK_DYNAMIC_MACRO_RECORD_START_2" "kc \<noteq> QK_DYNAMIC_MACRO_RECORD_STOP"
    "kc \<noteq> QK_DYNAMIC_MACRO_PLAY_1" "kc \<noteq> QK_DYNAMIC_MACRO_PLAY_2"
    using assms(4) by (auto simp: macro_keycode_def)
  have e: "snd (process_dynamic_macro again cf fc kc r s) = ?s"
    using assms(2,3,5) k by (auto simp: process_dynamic_macro_def session_def macro_defs)
  have st: "macro_stop (3 - n) s = macro_start fc n + macro_dir n * (int (macro_room fc n s0) - 1)"
    using room_region(2) [OF assms(1,2)] assms(3) by (auto simp: session_def macro_stop_def split: if_splits)
  have r: "recording (macro_start fc n) (macro_dir n) (macro_room fc n s0) xs s" using assms(3) by (simp add: session_def)
  have f: "macro_id ?s = macro_id s" "macro_end ?s = macro_end s" "r_macro_end ?s = r_macro_end s"
    by (simp_all add: dynamic_macro_record_key_def)
  show ?thesis unfolding e using assms(3) record_key_adds [OF r st] f by (simp add: session_def)
qed

lemma session_stop:
  fixes cf again
  assumes "macros_ok fc s0" "n = 1 \<or> n = 2" "session fc n s0 xs s" "pressed (event r)"
  defines "s' \<equiv> snd (process_dynamic_macro again cf fc QK_DYNAMIC_MACRO_RECORD_STOP r s)"
  shows "macros_ok fc s'" "macro_id s' = 0" "macro fc n s' = trimmed xs" "macro fc (3 - n) s' = macro fc (3 - n) s0"
proof -
  have r: "recording (macro_start fc n) (macro_dir n) (macro_room fc n s0) xs s" using assms(3) by (simp add: session_def)
  have l: "length (trimmed xs) \<le> length xs" using length_dropWhile_le [of _ "rev xs"] by (simp add: trimmed_def)
  have e: "macro_stop n s' = macro_start fc n + macro_dir n * int (length (trimmed xs))"
    using record_end_trims [OF r] assms(2,3,4)
    by (auto simp: s'_def process_dynamic_macro_def dynamic_macro_stop_recording_def session_def macro_defs Let_def)
  have f: "macro_id s' = 0" "macro_stop (3 - n) s' = macro_stop (3 - n) s0" "macro_buffer s' = macro_buffer s"
    using assms(2,3,4) by (auto simp: s'_def process_dynamic_macro_def dynamic_macro_stop_recording_def session_def macro_stop_def Let_def)
  show "macro_id s' = 0" by (rule f)
  have m: "macro_length fc n s' = length (trimmed xs)" using assms(2) by (auto simp: macro_length_def e macro_dir_def)
  have "content (macro_buffer s) (macro_start fc n) (macro_dir n) (length xs) = xs" using r by (simp add: recording_def)
  then have "take (length (trimmed xs)) xs = content (macro_buffer s) (macro_start fc n) (macro_dir n) (length (trimmed xs))"
    using l by (metis (no_types, lifting) content_def take_map take_upt add_0 min.absorb1 diff_zero le_add_diff_inverse plus_nat.add_0)
  then show "macro fc n s' = trimmed xs" using trimmed_take [of xs] by (simp add: macro_def m f(3))
  have "length xs \<le> macro_room fc n s0" using r by (simp add: recording_def)
  then show "macros_ok fc s'" using assms(1,2,3) l e f(2,3)
    by (auto simp: macros_ok_def session_def macro_defs split: if_splits)
  show "macro fc (3 - n) s' = macro fc (3 - n) s0"
    using assms(3) by (intro other_macro_kept [OF assms(1,2)]) (simp_all add: macro_length_def f session_def)
qed

lemma session_keys:
  assumes "macros_ok fc s0" "n = 1 \<or> n = 2" "\<forall>(kc, r)\<in>set rs. \<not> macro_keycode kc \<and> dynamic_macro_valid_key_user fc kc r"
  shows "session fc n s0 xs s \<Longrightarrow>
    session fc n s0 (foldl (add_record (macro_room fc n s0)) xs (map snd rs)) (fold (\<lambda>(kc, r) s. snd (process_dynamic_macro again cf fc kc r s)) rs s)"
  using assms(3)
proof (induction rs arbitrary: xs s)
  case (Cons k rs)
  obtain kc r where k: "k = (kc, r)" by (cases k)
  have "session fc n s0 (add_record (macro_room fc n s0) xs r) (snd (process_dynamic_macro again cf fc kc r s))"
    using Cons.prems k by (intro session_key [OF assms(1,2)]) auto
  from Cons.IH [OF this] show ?case using Cons.prems(2) by (simp add: k)
qed simp

text \<open>Playing a macro executes its records between two resets, and restores the layers.\<close>

lemma play_macro:
  assumes "macro_id s = 0" "n = 1 \<or> n = 2" "\<not> pressed (event r)"
    and "undisturbed again (DYNAMIC_MACRO_DELAY fc) (macro fc n s) (layer_clear cf (clear_keyboard cf s))"
  shows "process_dynamic_macro again cf fc (play_key n) r s =
    (False, layer_state_set cf (layer_state s)
      (clear_keyboard cf (run_records again (DYNAMIC_MACRO_DELAY fc) (macro fc n s) (layer_clear cf (clear_keyboard cf s)))))"
proof -
  let ?u = "layer_clear cf (clear_keyboard cf s)"
  have "kbd.more ?u = kbd.more s" by (simp add: features_frame.layers_kept)
  from more_eqD(6) [OF this] have "macro fc n s = content (macro_buffer ?u) (macro_start fc n) (macro_dir n) (macro_length fc n s)"
    by (simp add: macro_def)
  with play_runs [of again fc ?u "macro_start fc n" "macro_dir n" "macro_length fc n s"] assms
  show ?thesis by (auto simp: process_dynamic_macro_def dynamic_macro_play_def play_key_def macro_defs Let_def)
qed

subsection \<open>The repeat key\<close>

text \<open>Whatever has happened stays in the log.\<close>

interpretation log: state_invariant cf "\<lambda>s. e \<in> set (out s)" "\<lambda>s. e \<in> set (out s)" for cf :: "'z kbd_scheme config" and e
  by unfold_locales
    (simp_all add: send_keyboard_report_def send_6kro_report_def send_nkro_report_def host_keyboard_send_def host_nkro_send_def
      get_mods_for_report_def clear_oneshot_mods_def stamp_mods_def add_key_def del_key_def emit_def
      add_key_to_report_def del_key_from_report_def clear_keys_from_report_def
      host_system_send_def host_consumer_send_def update_source_layers_cache_def Let_def case_prod_beta)

declare log.weaken [simp del]

text \<open>
  A release of the repeat key, while a last key is known but no repeated record has been registered. This
  comes about when the repeat key is pressed before any other key, and another key is pressed before it is released.
\<close>

definition unregistered_release :: "'z features_scheme config \<Rightarrow> keyrecord_t \<Rightarrow> 'z features_scheme \<Rightarrow> bool" where
  "unregistered_release cf r s \<longleftrightarrow> event_type (event r) \<noteq> TICK_EVENT \<and> \<not> pressed (event r) \<and> keycode r = 0 \<and> \<not> disable_action_cache s
     \<and> keymap_key_to_keycode cf (read_source_layers_cache cf (key (event r)) s) (key (event r)) = QK_REPEAT_KEY
     \<and> macro_id s = 0 \<and> processing_repeat_count s = 0 \<and> keycode (last_record s) \<noteq> 0
     \<and> registered_repeat_count s = 0 \<and> keycode (registered_record s) = 0"

lemma release_keycode:
  assumes "unregistered_release cf r s"
  shows "get_record_keycode (with_features again cf fc) r True s = (QK_REPEAT_KEY, s)"
proof -
  have "keymap_key_to_keycode (with_features again cf fc) l k = keymap_key_to_keycode cf l k"
    "read_source_layers_cache (with_features again cf fc) k s = read_source_layers_cache cf k s" for l k
    by (simp_all add: with_features_def keymap_key_to_keycode_def keycode_at_keymap_location_def read_source_layers_cache_def
        in_matrix_def entry_number_def)
  then show ?thesis using assms by (simp add: get_record_keycode_def get_event_keycode_def unregistered_release_def)
qed

lemma release_handled:
  assumes "unregistered_release cf r s"
  shows "process_record_quantum (with_features again cf fc) r s = (False, repeat_key_invoke again cf (event r) s)"
proof -
  let ?c = "with_features again cf fc"
  have r: "\<not> pressed (event r)" "macro_id s = 0" "processing_repeat_count s = 0" using assms by (simp_all add: unregistered_release_def)
  have "preprocess_record ?c QK_REPEAT_KEY r s = (True, QK_REPEAT_KEY, s)"
    using r by (simp add: with_features_def feature_preprocess_def preprocess_tap_dance_def process_key_lock_def
        translate_keycode_def IS_STANDARD_KEYCODE_def)
  moreover have "run_handlers (record_handlers ?c) QK_REPEAT_KEY r s = (False, repeat_key_invoke again cf (event r) s)"
    using r by (simp add: with_features_def feature_handlers_def process_dynamic_macro_def process_last_key_def process_repeat_key_def)
  ultimately show ?thesis by (simp add: process_record_quantum_def release_keycode [OF assms])
qed

text \<open>The record that is executed is the same release again.\<close>

lemma release_again:
  assumes "unregistered_release cf r s" and calls: "\<And>s. unregistered_release cf (tmp_record s) s \<Longrightarrow> e \<in> set (out (again Tmp s))"
  shows "e \<in> set (out (repeat_key_invoke again cf (event r) s))"
proof -
  let ?r = "(registered_record s)\<lparr>event := event r\<rparr>"
  let ?u = "s\<lparr>registered_record := ?r, processing_repeat_count := registered_repeat_count s\<rparr>"
  have "unregistered_release cf ?r (?u\<lparr>tmp_record := ?r\<rparr>)"
    using assms(1) by (auto simp: unregistered_release_def read_source_layers_cache_def)
  then have "e \<in> set (out (again Tmp (?u\<lparr>tmp_record := ?r\<rparr>)))" by (intro calls) simp
  then show ?thesis using assms(1)
    by (simp add: repeat_key_invoke_def unregistered_release_def run_record_def Let_def log.register_kept)
qed

lemma release_never_returns:
  assumes flow: "FLOW_TAP_TERM cf = 0" and bottom: "\<And>p s. e \<in> set (out (bottom p s))"
  shows "unregistered_release cf (deref p s) s \<Longrightarrow> e \<in> set (out (process_record (firmware bottom n cf fc) p s))"
proof (induction n arbitrary: p s)
  have step: "e \<in> set (out (process_record (with_features again cf fc) p s))"
    if r: "unregistered_release cf (deref p s) s"
      and calls: "\<And>s. unregistered_release cf (tmp_record s) s \<Longrightarrow> e \<in> set (out (again Tmp s))" for again p s
  proof -
    have "FLOW_TAP_TERM (with_features again cf fc) = 0" "\<not> IS_NOEVENT (event (deref p s))"
      using flow r by (simp_all add: with_features_def unregistered_release_def IS_NOEVENT_def)
    then show ?thesis using release_again [of cf "deref p s" s e again, OF r calls]
      by (simp add: process_record_def process_record_level_def release_handled [OF r] log.oneshot_layer_kept)
  qed
  case 0
  then show ?case using bottom by (simp add: step)
  case (Suc n)
  have "e \<in> set (out (process_record (firmware bottom n cf fc) Tmp s))" if "unregistered_release cf (tmp_record s) s" for s
    using Suc.IH [of Tmp s] that by simp
  then show ?case using Suc.prems by (simp add: step)
qed

end
