(* ===== verification/Tap_Dance_Props.thy ===== *)
theory Tap_Dance_Props
  imports Tap_Dance Feature_Props
begin

text \<open>
  Tap dances: at most one dance is in progress, and what a dance of two keycodes does for a tap, a double
  tap and a hold.
\<close>

subsection \<open>One dance at a time\<close>

text \<open>A dance in progress has been tapped and is not finished; it is the active one.\<close>

definition in_progress :: "nat \<Rightarrow> 'z features_scheme \<Rightarrow> bool" where
  "in_progress i s \<longleftrightarrow> td_count (dance i s) \<noteq> 0 \<and> \<not> td_finished (dance i s)"

definition one_dance :: "'z features_scheme \<Rightarrow> bool" where
  "one_dance s \<longleftrightarrow> (\<forall>i<length (tap_dances s). in_progress i s \<longrightarrow> active_td s \<noteq> 0 \<and> TD_INDEX (active_td s) = i)
     \<and> (active_td s \<noteq> 0 \<longrightarrow> TD_INDEX (active_td s) < length (tap_dances s))"

text \<open>The functions of a dance may finish it and may do anything else, except to other dances.\<close>

definition own_dance :: "'z features_scheme tap_dance_fn \<Rightarrow> bool" where
  "own_dance f \<longleftrightarrow> (\<forall>st s. (td_finished st \<longrightarrow> td_finished (fst (f st s)))
     \<and> td_count (fst (f st s)) = td_count st \<and> tap_dances (snd (f st s)) = tap_dances s \<and> active_td (snd (f st s)) = active_td s)"

definition own_dances :: "'z features_scheme feature_config \<Rightarrow> bool" where
  "own_dances fc \<longleftrightarrow> (\<forall>i<length (tap_dance_actions fc). let a = tap_dance_actions fc ! i
     in \<forall>f\<in>set_option (on_each_tap a) \<union> set_option (on_dance_finished a) \<union> set_option (on_reset a) \<union> set_option (on_each_release a).
          own_dance f)"

text \<open>Only dance \<open>i\<close> has changed.\<close>

definition only_dance :: "nat \<Rightarrow> 'z features_scheme \<Rightarrow> 'z features_scheme \<Rightarrow> bool" where
  "only_dance i s s' \<longleftrightarrow> active_td s' = active_td s \<and> length (tap_dances s') = length (tap_dances s)
     \<and> (\<forall>j. j \<noteq> i \<longrightarrow> dance j s' = dance j s)"

lemma only_dance_trans: "only_dance i s s' \<Longrightarrow> only_dance i s' s'' \<Longrightarrow> only_dance i s s''"
  by (auto simp: only_dance_def)

lemma dance_set [simp]:
  "i < length (tap_dances s) \<Longrightarrow> dance i (set_dance i st s) = st" "j \<noteq> i \<Longrightarrow> dance j (set_dance i st s) = dance j s"
  "length (tap_dances (set_dance i st s)) = length (tap_dances s)" "active_td (set_dance i st s) = active_td s"
  by (simp_all add: dance_def set_dance_def)

lemma only_dance_set: "only_dance i s s' \<Longrightarrow> only_dance i s (set_dance i st s')"
  by (simp add: only_dance_def)

lemma only_dance_same: "tap_dances s' = tap_dances s \<Longrightarrow> active_td s' = active_td s \<Longrightarrow> only_dance i s s'"
  by (simp add: only_dance_def dance_def)

lemma sent_dances [simp]:
  "tap_dances (send_keyboard_report cf s) = tap_dances s" "active_td (send_keyboard_report cf s) = active_td s"
proof -
  have "kbd.more (send_keyboard_report cf s) = kbd.more s" by (rule features_frame.send) simp
  from more_eqD(3,4) [OF this] show "tap_dances (send_keyboard_report cf s) = tap_dances s" "active_td (send_keyboard_report cf s) = active_td s" .
qed

lemma fn_only:
  assumes "\<And>f. fn = Some f \<Longrightarrow> own_dance f" "i < length (tap_dances s)"
  shows "only_dance i s (process_tap_dance_action_fn fn i s)"
    "td_finished (dance i s) \<Longrightarrow> td_finished (dance i (process_tap_dance_action_fn fn i s))"
    "td_count (dance i (process_tap_dance_action_fn fn i s)) = td_count (dance i s)"
proof (atomize (full), cases fn)
  case (Some f)
  obtain st u where f: "f (dance i s) s = (st, u)" by fastforce
  have "own_dance f" using assms(1) Some by blast
  then have o: "td_finished (dance i s) \<longrightarrow> td_finished st" "td_count st = td_count (dance i s)" "tap_dances u = tap_dances s" "active_td u = active_td s"
    by (auto simp: own_dance_def f dest!: spec [of _ "dance i s"] spec [of _ s])
  then have "only_dance i s u" by (simp add: only_dance_same)
  then show "only_dance i s (process_tap_dance_action_fn fn i s)
      \<and> (td_finished (dance i s) \<longrightarrow> td_finished (dance i (process_tap_dance_action_fn fn i s)))
      \<and> td_count (dance i (process_tap_dance_action_fn fn i s)) = td_count (dance i s)"
    using o assms(2) by (simp add: Some process_tap_dance_action_fn_def f only_dance_set)
qed (simp add: process_tap_dance_action_fn_def only_dance_def)

lemma action_fns:
  assumes "own_dances fc" "i < length (tap_dance_actions fc)"
  defines "a \<equiv> tap_dance_actions fc ! i"
  shows "on_each_tap a = Some f \<Longrightarrow> own_dance f" "on_dance_finished a = Some f \<Longrightarrow> own_dance f"
    "on_reset a = Some f \<Longrightarrow> own_dance f" "on_each_release a = Some f \<Longrightarrow> own_dance f"
  using assms by (auto simp: own_dances_def Let_def)

lemma mods_dances [simp]:
  "tap_dances (add_mods m s) = tap_dances s" "tap_dances (add_weak_mods m s) = tap_dances s"
  "tap_dances (del_mods m s) = tap_dances s" "tap_dances (del_weak_mods m s) = tap_dances s" "tap_dances (clear_weak_mods s) = tap_dances s"
  "active_td (add_mods m s) = active_td s" "active_td (add_weak_mods m s) = active_td s"
  "active_td (del_mods m s) = active_td s" "active_td (del_weak_mods m s) = active_td s" "active_td (clear_weak_mods s) = active_td s"
  by (simp_all add: mods_defs)

lemma reset_only:
  assumes "own_dances fc" "i < length (tap_dance_actions fc)" "length (tap_dances s) = length (tap_dance_actions fc)"
  shows "only_dance i s (process_tap_dance_action_on_reset cf fc i s)"
    "dance i (process_tap_dance_action_on_reset cf fc i s) = no_tap_dance"
proof -
  let ?u = "process_tap_dance_action_fn (on_reset (tap_dance_actions fc ! i)) i s"
  have u: "only_dance i s ?u" using fn_only(1) [of "on_reset (tap_dance_actions fc ! i)" i s] action_fns(3) [OF assms(1,2)] assms(2,3) by simp
  then show "only_dance i s (process_tap_dance_action_on_reset cf fc i s)"
    by (simp add: process_tap_dance_action_on_reset_def Let_def only_dance_def) (simp add: dance_def)
  show "dance i (process_tap_dance_action_on_reset cf fc i s) = no_tap_dance"
    using u assms(2,3) by (simp add: process_tap_dance_action_on_reset_def Let_def only_dance_def)
qed

lemma finished_only:
  fixes cf
  assumes "own_dances fc" "i < length (tap_dance_actions fc)" "length (tap_dances s) = length (tap_dance_actions fc)"
  defines "s' \<equiv> process_tap_dance_action_on_dance_finished cf fc i s"
  shows "active_td s' = 0" "length (tap_dances s') = length (tap_dances s)" "\<And>j. j \<noteq> i \<Longrightarrow> dance j s' = dance j s" "\<not> in_progress i s'"
proof -
  let ?fin = "on_dance_finished (tap_dance_actions fc ! i)"
  define u where "u = (let s = set_dance i ((dance i s)\<lparr>td_finished := True\<rparr>) s; s = add_weak_mods (td_weak_mods (dance i s)) s
    in send_keyboard_report cf (add_mods (td_oneshot_mods (dance i s)) s))"
  have u: "only_dance i s u" "td_finished (dance i u)" "length (tap_dances u) = length (tap_dances s)"
    using assms(2,3) by (simp_all add: u_def Let_def only_dance_def) (simp_all add: dance_def set_dance_def)
  define v where "v = (if td_finished (dance i s) then s else process_tap_dance_action_fn ?fin i u)"
  have "i < length (tap_dances u)" using u(3) assms(2,3) by simp
  note f = fn_only [of ?fin i u, OF action_fns(2) [OF assms(1,2)] this]
  have v: "only_dance i s v" "td_finished (dance i v)"
    using f u only_dance_trans [OF u(1) f(1)] by (simp_all add: v_def only_dance_def)
  define w where "w = v\<lparr>active_td := 0\<rparr>"
  have w: "active_td w = 0" "length (tap_dances w) = length (tap_dances s)" "\<And>j. j \<noteq> i \<Longrightarrow> dance j w = dance j s" "td_finished (dance i w)"
    using v by (simp_all add: w_def only_dance_def) (simp_all add: dance_def)
  have s': "s' = (if td_pressed (dance i w) then w else process_tap_dance_action_on_reset cf fc i w)"
    by (simp add: s'_def process_tap_dance_action_on_dance_finished_def u_def v_def w_def Let_def)
  note r = reset_only [OF assms(1,2), of w cf]
  show "active_td s' = 0" "length (tap_dances s') = length (tap_dances s)" "\<And>j. j \<noteq> i \<Longrightarrow> dance j s' = dance j s" "\<not> in_progress i s'"
    using w r assms(3) by (simp_all add: s' only_dance_def in_progress_def no_tap_dance_def)
qed

lemma in_progress_frame: "dance i s' = dance i s \<Longrightarrow> in_progress i s' = in_progress i s"
  by (simp add: in_progress_def)

text \<open>Finishing the active dance leaves none.\<close>

lemma finish_active:
  assumes "own_dances fc" "length (tap_dances s) = length (tap_dance_actions fc)" "one_dance s" "active_td s \<noteq> 0"
  defines "i \<equiv> TD_INDEX (active_td s)"
  assumes "only_dance i s t" "length (tap_dances t) = length (tap_dances s)"
  shows "one_dance (process_tap_dance_action_on_dance_finished cf fc i t)"
    "active_td (process_tap_dance_action_on_dance_finished cf fc i t) = 0"
    "length (tap_dances (process_tap_dance_action_on_dance_finished cf fc i t)) = length (tap_dances s)"
proof -
  have "i < length (tap_dance_actions fc)" using assms by (simp add: one_dance_def)
  note f = finished_only [OF assms(1) this, where s = t and cf = cf]
  have l: "length (tap_dances t) = length (tap_dance_actions fc)" using assms by simp
  show "active_td (process_tap_dance_action_on_dance_finished cf fc i t) = 0"
    "length (tap_dances (process_tap_dance_action_on_dance_finished cf fc i t)) = length (tap_dances s)"
    using f [OF l] assms by simp_all
  have "\<not> in_progress j (process_tap_dance_action_on_dance_finished cf fc i t)" if "j < length (tap_dances s)" for j
  proof (cases "j = i")
    case False
    then have "in_progress j (process_tap_dance_action_on_dance_finished cf fc i t) = in_progress j s"
      using f(3) [OF l, of j] assms(6) by (simp add: only_dance_def in_progress_def)
    then show ?thesis using assms(3) that False by (auto simp: one_dance_def i_def)
  qed (use f(4) [OF l] in simp)
  then show "one_dance (process_tap_dance_action_on_dance_finished cf fc i t)" using f(1,2) [OF l] assms by (simp add: one_dance_def)
qed

lemma preprocess_one_dance:
  fixes cf and kc and r
  assumes "own_dances fc" "length (tap_dances s) = length (tap_dance_actions fc)" "one_dance s"
  defines "s' \<equiv> snd (preprocess_tap_dance cf fc kc r s)"
  shows "one_dance s'" "length (tap_dances s') = length (tap_dances s)" "pressed (event r) \<Longrightarrow> active_td s' = 0 \<or> active_td s' = kc"
    "fst (preprocess_tap_dance cf fc kc r s) \<Longrightarrow> active_td s' = 0"
proof -
  let ?i = "TD_INDEX (active_td s)"
  let ?t = "set_dance ?i ((dance ?i s)\<lparr>td_interrupted := True, interrupting_keycode := kc\<rparr>) s"
  have t: "only_dance ?i s ?t" "length (tap_dances ?t) = length (tap_dances s)" by (simp_all add: only_dance_def)
  have c: "one_dance (clear_weak_mods x) = one_dance x" for x :: "'a features_scheme"
    by (simp add: one_dance_def in_progress_def dance_def)
  show "one_dance s'" "length (tap_dances s') = length (tap_dances s)" "pressed (event r) \<Longrightarrow> active_td s' = 0 \<or> active_td s' = kc"
    using assms(3) finish_active [OF assms(1-3) _ t, where cf = cf] by (auto simp: s'_def preprocess_tap_dance_def Let_def c)
  show "fst (preprocess_tap_dance cf fc kc r s) \<Longrightarrow> active_td s' = 0"
    using finish_active [OF assms(1-3) _ t, where cf = cf] by (simp add: s'_def preprocess_tap_dance_def Let_def split: if_splits)
qed

lemma task_one_dance:
  assumes "own_dances fc" "length (tap_dances s) = length (tap_dance_actions fc)" "one_dance s"
  shows "one_dance (tap_dance_task cf fc s)" "length (tap_dances (tap_dance_task cf fc s)) = length (tap_dances s)"
  using assms(3) finish_active [OF assms, where t = s and cf = cf] by (auto simp: tap_dance_task_def Let_def only_dance_def)

lemma one_dance_only:
  assumes "one_dance s" "only_dance i s v" "in_progress i v \<longrightarrow> in_progress i s"
  shows "one_dance v" "\<not> in_progress i v \<Longrightarrow> TD_INDEX (active_td v) = i \<Longrightarrow> one_dance (v\<lparr>active_td := 0\<rparr>)"
proof -
  have p: "in_progress j v \<longrightarrow> in_progress j s" for j
    using assms(2,3) by (cases "j = i") (simp_all add: only_dance_def in_progress_def)
  then show "one_dance v" using assms(1,2) by (simp add: one_dance_def only_dance_def)
  assume n: "\<not> in_progress i v" "TD_INDEX (active_td v) = i"
  have "\<not> in_progress j v" if "j < length (tap_dances v)" for j
    using p [of j] n that assms(1,2) by (cases "j = i") (auto simp: one_dance_def only_dance_def)
  then show "one_dance (v\<lparr>active_td := 0\<rparr>)" by (simp add: one_dance_def in_progress_def dance_def)
qed

lemma process_one_dance:
  fixes cf
  assumes "own_dances fc" "length (tap_dances s) = length (tap_dance_actions fc)" "one_dance s"
    "is_tap_dance kc \<longrightarrow> TD_INDEX kc < length (tap_dance_actions fc)"
    "pressed (event r) \<Longrightarrow> active_td s = 0 \<or> active_td s = kc"
  defines "s' \<equiv> snd (process_tap_dance cf fc kc r s)"
  shows "one_dance s'" "length (tap_dances s') = length (tap_dances s)"
proof (atomize (full), cases "is_tap_dance kc")
  case True
  let ?i = "TD_INDEX kc"
  have i: "?i < length (tap_dance_actions fc)" "?i < length (tap_dances s)" using assms True by simp_all
  define t where "t = set_dance ?i ((dance ?i s)\<lparr>td_pressed := pressed (event r)\<rparr>) s"
  have t: "only_dance ?i s t" by (simp add: t_def only_dance_def)
  have nz: "kc \<noteq> 0" using True by (auto simp: is_tap_dance_def)
  show "one_dance s' \<and> length (tap_dances s') = length (tap_dances s)"
  proof (cases "pressed (event r)")
    case p: True
    define u where "u = set_dance ?i ((dance ?i t)\<lparr>td_count := td_count (dance ?i t) + 1,
        td_weak_mods := real_mods t OR weak_mods t, td_oneshot_mods := oneshot_mods t\<rparr>) (t\<lparr>last_tap_time := now t\<rparr>)"
    have u: "only_dance ?i s u" using t by (simp add: u_def only_dance_def dance_def set_dance_def)
    then have l: "?i < length (tap_dances u)" using i by (simp add: only_dance_def)
    define v where "v = process_tap_dance_action_fn (on_each_tap (tap_dance_actions fc ! ?i)) ?i u"
    have v: "only_dance ?i s v"
      using only_dance_trans [OF u] fn_only(1) [OF action_fns(1) [OF assms(1) i(1)] l] by (simp add: v_def)
    have s': "s' = v\<lparr>active_td := (if td_finished (dance ?i v) then 0 else kc)\<rparr>"
      using True p by (simp add: s'_def process_tap_dance_def process_tap_dance_action_on_each_tap_def t_def u_def v_def Let_def)
        (simp add: dance_def)
    have a: "in_progress j s' = in_progress j v" for j by (simp add: s' in_progress_def dance_def)
    have b: "j = ?i" if "j < length (tap_dances s)" "in_progress j v" for j
    proof (rule ccontr)
      assume n: "j \<noteq> ?i"
      then have "dance j v = dance j s" using v by (simp add: only_dance_def)
      then have "in_progress j s" using that(2) by (simp add: in_progress_def)
      then have "active_td s \<noteq> 0" "TD_INDEX (active_td s) = j" using assms(3) that(1) by (simp_all add: one_dance_def)
      then show False using assms(5) [OF p] n by auto
    qed
    have c: "active_td s' = kc" if "in_progress ?i v" using that by (simp add: s' in_progress_def)
    have d: "length (tap_dances s') = length (tap_dances s)" "active_td s' = 0 \<or> active_td s' = kc" using v by (simp_all add: s' only_dance_def)
    have "active_td s' \<noteq> 0 \<and> TD_INDEX (active_td s') = j" if "j < length (tap_dances s)" "in_progress j s'" for j
      using b [OF that(1)] c that(2) nz by (simp add: a)
    then show ?thesis using i d by (auto simp: one_dance_def)
  next
    case p: False
    define u where "u = process_tap_dance_action_fn (on_each_release (tap_dance_actions fc ! ?i)) ?i t"
    have "?i < length (tap_dances t)" using i t by (simp add: only_dance_def)
    note f = fn_only [of "on_each_release (tap_dance_actions fc ! ?i)", OF action_fns(4) [OF assms(1) i(1)] this, folded u_def]
    have u: "only_dance ?i s u" using only_dance_trans [OF t f(1)] .
    have c: "in_progress ?i u \<longrightarrow> in_progress ?i s" using f(2,3) i by (auto simp: in_progress_def t_def)
    from u have l: "length (tap_dances u) = length (tap_dance_actions fc)" using assms(2) by (simp add: only_dance_def)
    define v where "v = process_tap_dance_action_on_reset cf fc ?i u"
    note r = reset_only [OF assms(1) i(1) l, of cf, folded v_def]
    have v: "only_dance ?i s v" using only_dance_trans [OF u r(1)] .
    have z: "\<not> in_progress ?i v" using r(2) by (simp add: in_progress_def no_tap_dance_def)
    have s': "s' = (if td_finished (dance ?i u) then if active_td v = kc then v\<lparr>active_td := 0\<rparr> else v else u)"
      using True p by (simp add: s'_def process_tap_dance_def process_tap_dance_action_on_each_release_def t_def u_def v_def Let_def)
    show ?thesis using one_dance_only [OF assms(3) v] one_dance_only(1) [OF assms(3) u] z c u v by (simp add: s' only_dance_def)
  qed
qed (use assms(3) in \<open>simp add: s'_def process_tap_dance_def\<close>)

subsection \<open>A dance of two keycodes\<close>

lemma code16_more [simp]:
  "kbd.more (register_code16 cf k s) = kbd.more s" "kbd.more (unregister_code16 cf k s) = kbd.more s"
  by (simp_all add: register_code16_def unregister_code16_def Let_def features_frame.register_code_kept features_frame.register_kept)

lemma code16_dances [simp]:
  "tap_dances (register_code16 cf k s) = tap_dances s" "tap_dances (unregister_code16 cf k s) = tap_dances s"
  "active_td (register_code16 cf k s) = active_td s" "active_td (unregister_code16 cf k s) = active_td s"
  using more_eqD(3,4) [OF code16_more(1)] more_eqD(3,4) [OF code16_more(2)] by blast+

lemma dance_base [simp]:
  "dance i (register_code16 cf k s) = dance i s" "dance i (unregister_code16 cf k s) = dance i s" "dance i (send_keyboard_report cf s) = dance i s"
  "dance i (add_mods m s) = dance i s" "dance i (add_weak_mods m s) = dance i s" "dance i (del_mods m s) = dance i s"
  "dance i (del_weak_mods m s) = dance i s" "dance i (wait_ms d s) = dance i s" "dance i (s\<lparr>active_td := a\<rparr>) = dance i s"
  "dance i (s\<lparr>now := t\<rparr>) = dance i s" "dance i (s\<lparr>last_tap_time := t\<rparr>) = dance i s"
  by (simp_all add: dance_def wait_ms_def)

lemma set_dance_id [simp]: "set_dance i (dance i s) s = s"
  by (simp add: set_dance_def dance_def)

definition release_of :: "uint16 \<Rightarrow> keyrecord_t" where
  "release_of t = no_record\<lparr>event := \<lparr>key = \<lparr>row = 0, col = 0\<rparr>, time = t, event_type = KEY_EVENT, pressed = False\<rparr>\<rparr>"

text \<open>Key events and the main loop's call at given times.\<close>

definition td_press where "td_press cf fc kc t s = snd (process_tap_dance cf fc kc (press_of t) (s\<lparr>now := t\<rparr>))"
definition td_release where "td_release cf fc kc t s = snd (process_tap_dance cf fc kc (release_of t) (s\<lparr>now := t\<rparr>))"
definition td_pause where "td_pause cf fc t s = tap_dance_task cf fc (s\<lparr>now := t\<rparr>)"

text \<open>The state during a dance: only the clock and the variables of the dance differ.\<close>

definition dancing :: "nat \<Rightarrow> uint8 \<Rightarrow> bool \<Rightarrow> bool \<Rightarrow> uint16 \<Rightarrow> uint16 \<Rightarrow> uint16 \<Rightarrow> 'z features_scheme \<Rightarrow> 'z features_scheme" where
  "dancing i n press fin kc t0 t s =
     s\<lparr>tap_dances := (tap_dances s)[i := no_tap_dance\<lparr>td_count := n, td_weak_mods := real_mods s OR weak_mods s,
          td_oneshot_mods := oneshot_mods s, td_pressed := press, td_finished := fin\<rparr>],
       last_tap_time := t0, active_td := kc, now := t\<rparr>"

text \<open>Pressing and releasing the keycode of a dance, with the modifiers of the taps.\<close>

definition dance_hold :: "'z features_scheme config \<Rightarrow> uint16 \<Rightarrow> uint8 \<Rightarrow> uint8 \<Rightarrow> 'z features_scheme \<Rightarrow> 'z features_scheme" where
  "dance_hold cf kc m os s = register_code16 cf kc (send_keyboard_report cf (add_mods os (add_weak_mods m s)))"
definition dance_drop :: "'z features_scheme config \<Rightarrow> uint16 \<Rightarrow> uint8 \<Rightarrow> uint8 \<Rightarrow> 'z features_scheme \<Rightarrow> 'z features_scheme" where
  "dance_drop cf kc m os s = send_keyboard_report cf (del_mods os (del_weak_mods m (unregister_code16 cf kc s)))"

text \<open>The dance of key \<open>kc\<close> is a dance of two keycodes, and no dance is in progress.\<close>

definition double_at :: "'z features_scheme config \<Rightarrow> 'z features_scheme feature_config \<Rightarrow> uint16 \<Rightarrow> uint16 \<Rightarrow> uint16 \<Rightarrow> 'z features_scheme \<Rightarrow> bool" where
  "double_at cf fc kc kc1 kc2 s \<longleftrightarrow> is_tap_dance kc \<and> TD_INDEX kc < length (tap_dances s)
     \<and> tap_dance_actions fc ! TD_INDEX kc = ACTION_TAP_DANCE_DOUBLE cf kc1 kc2 \<and> dance (TD_INDEX kc) s = no_tap_dance \<and> active_td s = 0"

lemma double_fns:
  assumes "double_at cf fc kc kc1 kc2 s"
  shows "on_each_tap (tap_dance_actions fc ! TD_INDEX kc) = Some (tap_dance_pair_on_each_tap cf kc2)"
    "on_dance_finished (tap_dance_actions fc ! TD_INDEX kc) = Some (tap_dance_pair_finished cf kc1)"
    "on_reset (tap_dance_actions fc ! TD_INDEX kc) = Some (tap_dance_pair_reset cf kc1 kc2)"
    "on_each_release (tap_dance_actions fc ! TD_INDEX kc) = None"
  using assms by (simp_all add: double_at_def ACTION_TAP_DANCE_DOUBLE_def)

lemma first_press:
  assumes "double_at cf fc kc kc1 kc2 s"
  shows "td_press cf fc kc t0 s = dancing (TD_INDEX kc) 1 True False kc t0 t0 s"
  using assms double_fns [OF assms]
  by (simp add: double_at_def td_press_def process_tap_dance_def process_tap_dance_action_on_each_tap_def process_tap_dance_action_fn_def press_of_def
      tap_dance_pair_on_each_tap_def dancing_def set_dance_def dance_def Let_def no_tap_dance_def)

lemma first_release:
  assumes "double_at cf fc kc kc1 kc2 s"
  shows "td_release cf fc kc t1 (dancing (TD_INDEX kc) 1 True False kc t0 t s) = dancing (TD_INDEX kc) 1 False False kc t0 t1 s"
  using assms double_fns [OF assms]
  by (simp add: double_at_def td_release_def process_tap_dance_def process_tap_dance_action_on_each_release_def process_tap_dance_action_fn_def
      release_of_def dancing_def set_dance_def dance_def Let_def no_tap_dance_def)

lemma second_press:
  assumes "double_at cf fc kc kc1 kc2 s"
  shows "td_press cf fc kc t2 (dancing (TD_INDEX kc) 1 False False kc t0 t1 s) =
    (let u = dancing (TD_INDEX kc) 2 True False kc t2 t2 s
     in (set_dance (TD_INDEX kc) ((dance (TD_INDEX kc) u)\<lparr>td_finished := True\<rparr>) (register_code16 cf kc2 u))\<lparr>active_td := 0\<rparr>)"
proof -
  let ?i = "TD_INDEX kc" and ?u = "dancing (TD_INDEX kc) 2 True False kc t2 t2 s"
  have i: "?i < length (tap_dances s)" "is_tap_dance kc" using assms by (simp_all add: double_at_def)
  define v where "v = set_dance ?i ((dance ?i (dancing ?i 1 False False kc t0 t1 s))\<lparr>td_pressed := True\<rparr>) (dancing ?i 1 False False kc t0 t1 s\<lparr>now := t2\<rparr>)"
  have u: "set_dance ?i ((dance ?i v)\<lparr>td_count := td_count (dance ?i v) + 1, td_weak_mods := real_mods v OR weak_mods v,
      td_oneshot_mods := oneshot_mods v\<rparr>) (v\<lparr>last_tap_time := now v\<rparr>) = ?u"
    using i(1) by (cases s) (simp add: v_def dancing_def set_dance_def dance_def no_tap_dance_def)
  have c: "td_count (dance ?i ?u) = 2" using i(1) by (simp add: dancing_def dance_def)
  have "process_tap_dance_action_on_each_tap fc ?i (v\<lparr>last_tap_time := now v\<rparr>)
      = set_dance ?i ((dance ?i ?u)\<lparr>td_finished := True\<rparr>) (register_code16 cf kc2 ?u)"
    using u c double_fns(1) [OF assms]
    by (simp add: process_tap_dance_action_on_each_tap_def process_tap_dance_action_fn_def tap_dance_pair_on_each_tap_def)
  moreover have "?i < length (tap_dances (register_code16 cf kc2 ?u))" using i(1) by (simp add: dancing_def)
  ultimately show ?thesis using i(2) by (simp add: td_press_def process_tap_dance_def press_of_def v_def Let_def)
qed

text \<open>The dance is reset: its keycode, the first after one tap and the second after two, is released.\<close>

lemma dance_reset:
  assumes "double_at cf fc kc kc1 kc2 s" "TD_INDEX kc < length (tap_dances u)" "td_count (dance (TD_INDEX kc) u) = (if two then 2 else 1)"
  shows "process_tap_dance_action_on_reset cf fc (TD_INDEX kc) u =
    set_dance (TD_INDEX kc) no_tap_dance (dance_drop cf (if two then kc2 else kc1) (td_weak_mods (dance (TD_INDEX kc) u))
      (td_oneshot_mods (dance (TD_INDEX kc) u)) (if two then u else wait_ms (TAP_CODE_DELAY cf) u))"
proof -
  let ?k = "if two then unregister_code16 cf kc2 u else unregister_code16 cf kc1 (wait_ms (TAP_CODE_DELAY cf) u)"
  have "process_tap_dance_action_fn (on_reset (tap_dance_actions fc ! TD_INDEX kc)) (TD_INDEX kc) u = ?k"
    using double_fns(3) [OF assms(1)] assms(3) set_dance_id [of "TD_INDEX kc" "unregister_code16 cf kc2 u"]
      set_dance_id [of "TD_INDEX kc" "unregister_code16 cf kc1 (wait_ms (TAP_CODE_DELAY cf) u)"]
    by (auto simp: process_tap_dance_action_fn_def tap_dance_pair_reset_def)
  then show ?thesis by (simp add: process_tap_dance_action_on_reset_def dance_drop_def Let_def)
qed

lemma second_release:
  assumes "double_at cf fc kc kc1 kc2 s" "TD_INDEX kc < length (tap_dances u)" "td_count (dance (TD_INDEX kc) u) = 2"
    "td_finished (dance (TD_INDEX kc) u)" "active_td u = 0"
  shows "td_release cf fc kc t3 u = set_dance (TD_INDEX kc) no_tap_dance
    (dance_drop cf kc2 (td_weak_mods (dance (TD_INDEX kc) u)) (td_oneshot_mods (dance (TD_INDEX kc) u))
      (set_dance (TD_INDEX kc) ((dance (TD_INDEX kc) u)\<lparr>td_pressed := False\<rparr>) (u\<lparr>now := t3\<rparr>)))"
proof -
  let ?u = "set_dance (TD_INDEX kc) ((dance (TD_INDEX kc) u)\<lparr>td_pressed := False\<rparr>) (u\<lparr>now := t3\<rparr>)"
  have "kc \<noteq> 0" "is_tap_dance kc" using assms(1) by (auto simp: double_at_def is_tap_dance_def)
  moreover have "dance (TD_INDEX kc) ?u = (dance (TD_INDEX kc) u)\<lparr>td_pressed := False\<rparr>" using assms(2) by simp
  moreover note dance_reset [OF assms(1), of ?u True]
  ultimately show ?thesis using assms double_fns(4) [OF assms(1)]
    by (simp add: td_release_def process_tap_dance_def process_tap_dance_action_on_each_release_def process_tap_dance_action_fn_def
        release_of_def Let_def dance_drop_def)
qed

text \<open>The tapping term passes after one tap.\<close>

lemma pause_after_tap:
  assumes "double_at cf fc kc kc1 kc2 s" "get_tapping_term cf kc no_record < t2 - t0"
  defines "i \<equiv> TD_INDEX kc" and "m \<equiv> real_mods s OR weak_mods s" and "os \<equiv> oneshot_mods s"
  shows "td_pause cf fc t2 (dancing i 1 press False kc t0 t1 s) =
    (let u = (dance_hold cf kc1 m os (dancing i 1 press True kc t0 t2 s))\<lparr>active_td := 0\<rparr>
     in if press then u else set_dance i no_tap_dance (dance_drop cf kc1 m os (wait_ms (TAP_CODE_DELAY cf) u)))"
proof -
  have nz: "kc \<noteq> 0" "i < length (tap_dances s)" using assms(1) by (auto simp: double_at_def is_tap_dance_def i_def)
  let ?v = "dance_hold cf kc1 m os (dancing i 1 press True kc t0 t2 s)"
  have d: "dance i (dancing i 1 press b kc t0 t s) = no_tap_dance\<lparr>td_count := 1, td_weak_mods := m, td_oneshot_mods := os,
      td_pressed := press, td_finished := b\<rparr>" for b t
    using nz(2) by (simp add: dancing_def dance_def m_def os_def)
  have s: "set_dance i (no_tap_dance\<lparr>td_count := 1, td_weak_mods := m, td_oneshot_mods := os, td_pressed := press, td_finished := True\<rparr>)
      (dancing i 1 press False kc t0 t2 s) = dancing i 1 press True kc t0 t2 s"
    by (simp add: dancing_def set_dance_def m_def os_def)
  have dv: "dance i ?v = no_tap_dance\<lparr>td_count := 1, td_weak_mods := m, td_oneshot_mods := os, td_pressed := press, td_finished := True\<rparr>"
    by (simp add: dance_hold_def d)
  have f: "process_tap_dance_action_fn (on_dance_finished (tap_dance_actions fc ! i)) i
      (send_keyboard_report cf (add_mods os (add_weak_mods m (dancing i 1 press True kc t0 t2 s)))) = ?v"
    using double_fns(2) [OF assms(1)] set_dance_id [of i ?v] dv
    by (simp add: process_tap_dance_action_fn_def tap_dance_pair_finished_def i_def [symmetric] dance_hold_def)
  have fin: "process_tap_dance_action_on_dance_finished cf fc i (dancing i 1 press False kc t0 t2 s) =
      (let u = ?v\<lparr>active_td := 0\<rparr> in if press then u else process_tap_dance_action_on_reset cf fc i u)"
    using f dv by (simp add: process_tap_dance_action_on_dance_finished_def Let_def s d)
  have e: "td_pause cf fc t2 (dancing i 1 press False kc t0 t1 s) = process_tap_dance_action_on_dance_finished cf fc i (dancing i 1 press False kc t0 t2 s)"
    using assms(2) nz d [of False t2]
    by (simp add: td_pause_def tap_dance_task_def timer_elapsed_def TIMER_DIFF_16_def dancing_def no_tap_dance_def i_def [symmetric] not_le)
  have l: "i < length (tap_dances (?v\<lparr>active_td := 0\<rparr>))" using nz(2) by (simp add: dance_hold_def dancing_def)
  have "process_tap_dance_action_on_reset cf fc i (?v\<lparr>active_td := 0\<rparr>) =
      set_dance i no_tap_dance (dance_drop cf kc1 m os (wait_ms (TAP_CODE_DELAY cf) (?v\<lparr>active_td := 0\<rparr>)))" if "\<not> press"
    using dance_reset [OF assms(1), of "?v\<lparr>active_td := 0\<rparr>" False, folded i_def] l dv by (simp add: no_tap_dance_def)
  then show ?thesis unfolding e fin by (simp add: Let_def)
qed

end
