(* ===== verification/Replay_Theorems.thy ===== *)
theory Replay_Theorems
  imports Demo Replay_Props Tap_Dance_Props
begin

text \<open>
  The properties of dynamic macros, of the repeat key and of tap dances.
\<close>

section \<open>Stored records\<close>

text \<open>A recording: the start key is released, keys are pressed and released, the stop key is pressed.\<close>

definition record_macro ::
  "(recptr \<Rightarrow> 'z features_scheme \<Rightarrow> 'z features_scheme) \<Rightarrow> 'z features_scheme config \<Rightarrow> 'z features_scheme feature_config \<Rightarrow>
   nat \<Rightarrow> (uint16 \<times> keyrecord_t) list \<Rightarrow> 'z features_scheme \<Rightarrow> 'z features_scheme" where
  "record_macro again cf fc n rs s =
     (let s = snd (process_dynamic_macro again cf fc (start_key n) (release_of 0) s);
          s = fold (\<lambda>(kc, r) s. snd (process_dynamic_macro again cf fc kc r s)) rs s
      in snd (process_dynamic_macro again cf fc QK_DYNAMIC_MACRO_RECORD_STOP (press_of 0) s))"

text \<open>
  C34. Dynamic macros: a recorded macro holds the records from the first press on, as many as fit beside the other macro and without the
  keys that are still held at the end; the other macro is not touched; and playing the macro executes its
  records in order, if none of them is changed on the way.
\<close>

theorem dynamic_macro_roundtrip:
  fixes cf again
  assumes "macros_ok fc s" "macro_id s = 0" "n = 1 \<or> n = 2"
    and "\<forall>(kc, r)\<in>set rs. \<not> macro_keycode kc \<and> dynamic_macro_valid_key_user fc kc r"
  defines "s' \<equiv> record_macro again cf fc n rs s"
    and "ms \<equiv> trimmed (take (macro_room fc n s) (dropWhile (\<lambda>r. \<not> pressed (event r)) (map snd rs)))"
  shows "macros_ok fc s' \<and> macro fc n s' = ms \<and> macro fc (3 - n) s' = macro fc (3 - n) s
    \<and> (undisturbed again (DYNAMIC_MACRO_DELAY fc) ms (layer_clear cf (clear_keyboard cf s')) \<longrightarrow>
        process_dynamic_macro again cf fc (play_key n) (release_of t) s' =
          (False, layer_state_set cf (layer_state s')
            (clear_keyboard cf (run_records again (DYNAMIC_MACRO_DELAY fc) ms (layer_clear cf (clear_keyboard cf s'))))))"
proof -
  let ?s1 = "snd (process_dynamic_macro again cf fc (start_key n) (release_of 0) s)"
  let ?s2 = "fold (\<lambda>(kc, r) s. snd (process_dynamic_macro again cf fc kc r s)) rs ?s1"
  have p: "\<not> pressed (event (release_of x))" "pressed (event (press_of x))" for x by (simp_all add: release_of_def press_of_def)
  have "session fc n s [] ?s1" by (rule session_start [OF assms(1-3) p(1)])
  from session_keys [OF assms(1,3,4) this] have "session fc n s (foldl (add_record (macro_room fc n s)) [] (map snd rs)) ?s2" .
  note e = session_stop [OF assms(1,3) this p(2) [of 0], where again = again and cf = cf]
  have s': "s' = snd (process_dynamic_macro again cf fc QK_DYNAMIC_MACRO_RECORD_STOP (press_of 0) ?s2)"
    by (simp add: s'_def record_macro_def)
  have m: "macro fc n s' = ms" using e(3) by (simp add: s' ms_def add_records)
  show ?thesis using e m play_macro [of s' n "release_of t" again fc cf] assms(3) p(1) by (simp add: s' [symmetric])
qed

definition a_tap :: "(uint16 \<times> keyrecord_t) list" where "a_tap = [(4, press_of 10), (4, release_of 20)]"

theorem dynamic_macro_roundtrip_witness:
  "macro plain_fc 1 (record_macro (process_record feature_cf) feature_cf plain_fc 1 a_tap plain_state) = [press_of 10, release_of 20]"
proof -
  have "macros_ok plain_fc plain_state" "macro_id plain_state = 0"
    "\<forall>(kc, r)\<in>set a_tap. \<not> macro_keycode kc \<and> dynamic_macro_valid_key_user plain_fc kc r"
    "trimmed (take (macro_room plain_fc 1 plain_state) (dropWhile (\<lambda>r. \<not> pressed (event r)) (map snd a_tap))) = [press_of 10, release_of 20]"
    by code_simp+
  then show ?thesis using dynamic_macro_roundtrip [of plain_fc plain_state 1 a_tap "process_record feature_cf" feature_cf] by simp
qed

text \<open>A macro of a one-shot layer key and a key, and playing it.\<close>

definition osl_record :: "bool \<Rightarrow> keyrecord_t" where
  "osl_record press = set_count 1 (no_record\<lparr>event := \<lparr>key = \<lparr>row = 1, col = 1\<rparr>, time = 5, event_type = KEY_EVENT, pressed = press\<rparr>\<rparr>)"
definition a_record :: "bool \<Rightarrow> keyrecord_t" where
  "a_record press = no_record\<lparr>event := \<lparr>key = \<lparr>row = 0, col = 0\<rparr>, time = 5, event_type = KEY_EVENT, pressed = press\<rparr>\<rparr>"

definition osl_state :: "bool \<Rightarrow> host_event list \<Rightarrow> uint16 \<Rightarrow> uint8 \<Rightarrow> uint8 \<Rightarrow> features" where
  "osl_state press evs layers layer data = plain_state
     \<lparr>macro_buffer := [osl_record True, osl_record False, a_record press, a_record False] @ replicate 4 no_record, macro_end := 4,
      out := evs, layer_state := layers, source_layers_cache := [[layer, 0, 0, 0]], oneshot_layer_data := data\<rparr>"

definition play_osl_macro :: "features \<Rightarrow> features" where
  "play_osl_macro s = snd (process_dynamic_macro (process_record feature_cf) feature_cf plain_fc
     QK_DYNAMIC_MACRO_PLAY_1 (release_of 5) s)"

definition osl_events :: "host_event list" where "osl_events = [OneshotLayerChanged 1, LedSet 0, LedSet 0]"
definition typed_events :: "host_event list" where
  "typed_events = osl_events @ [OneshotLayerChanged 0, SendKeyboard 0 [6, 0, 0, 0, 0, 0], SendKeyboard 0 [0, 0, 0, 0, 0, 0]]"

lemma first_play_steps:
  "run_record (process_record feature_cf) (osl_record True) (osl_state True [] 0 0 0) = (osl_record True, osl_state True (take 2 osl_events) 2 0 11)"
  "run_record (process_record feature_cf) (osl_record False) (osl_state True (take 2 osl_events) 2 0 11) = (osl_record False, osl_state True osl_events 2 0 10)"
  "run_record (process_record feature_cf) (a_record True) (osl_state True osl_events 2 0 10) = (a_record False, osl_state True typed_events 0 1 0)"
  "run_record (process_record feature_cf) (a_record False) (osl_state False typed_events 0 1 0) = (a_record False, osl_state False typed_events 0 1 0)"
  by code_simp+

lemma second_play_steps:
  "run_record (process_record feature_cf) (osl_record True) (osl_state False typed_events 0 1 0) =
     (osl_record True, osl_state False (typed_events @ take 2 osl_events) 2 1 11)"
  "run_record (process_record feature_cf) (osl_record False) (osl_state False (typed_events @ take 2 osl_events) 2 1 11) =
     (osl_record False, osl_state False (typed_events @ osl_events) 2 1 10)"
  "run_record (process_record feature_cf) (a_record False) (osl_state False (typed_events @ osl_events) 2 1 10) =
     (a_record False, osl_state False (typed_events @ osl_events) 2 1 10)"
  by code_simp+

lemma osl_clear:
  "layer_clear feature_cf (clear_keyboard feature_cf (osl_state True [] 0 0 0)) = osl_state True [] 0 0 0"
  "layer_clear feature_cf (clear_keyboard feature_cf (osl_state False typed_events 0 1 0)) = osl_state False typed_events 0 1 0"
  "layer_state_set feature_cf 0 (clear_keyboard feature_cf (osl_state False typed_events 0 1 0)) = osl_state False typed_events 0 1 0"
  "layer_state_set feature_cf 0 (clear_keyboard feature_cf (osl_state False (typed_events @ osl_events) 2 1 10)) = osl_state False (typed_events @ osl_events) 0 1 10"
  by code_simp+

text \<open>The buffer of the macro while it is played: only the press of the key can change.\<close>

definition osl_records :: "bool \<Rightarrow> keyrecord_t list" where
  "osl_records press = [osl_record True, osl_record False, a_record press, a_record False] @ replicate 4 no_record"

lemma osl_state_simps [simp]:
  "macro_buffer (osl_state b evs l c d) = osl_records b"
  "(osl_state b evs l c d)\<lparr>macro_buffer := osl_records b'\<rparr> = osl_state b' evs l c d"
  "layer_state (osl_state b evs l c d) = l" "macro_end (osl_state b evs l c d) = 4" "macro_id (osl_state b evs l c d) = 0"
  "DYNAMIC_MACRO_DELAY plain_fc = 0" "wait_ms 0 s = s"
  by (simp_all add: osl_state_def osl_records_def plain_state_def dances_state_def kbd.defs features.defs demo_features wait_ms_def)

lemma osl_records_simps [simp]:
  "osl_records b ! 0 = osl_record True" "osl_records b ! Suc 0 = osl_record False" "osl_records b ! 2 = a_record b" "osl_records b ! 3 = a_record False"
  "(osl_records b)[0 := osl_record True] = osl_records b" "(osl_records b)[Suc 0 := osl_record False] = osl_records b"
  "(osl_records b)[2 := a_record b'] = osl_records b'" "(osl_records b)[3 := a_record False] = osl_records b"
  by (simp_all add: osl_records_def eval_nat_numeral)

lemma play_four_records:
  "play_records again fc 4 0 1 s =
     fold (\<lambda>i s. let (r, s) = run_record again (macro_buffer s ! i) s
       in wait_ms (DYNAMIC_MACRO_DELAY fc) (s\<lparr>macro_buffer := (macro_buffer s)[i := r]\<rparr>)) [0, 1, 2, 3] s"
proof -
  have "play_records again fc 4 0 1 s = play_records again fc (Suc (Suc (Suc (Suc 0)))) 0 1 s" by (simp add: eval_nat_numeral)
  then show ?thesis by (simp add: Let_def case_prod_beta)
qed

lemma play_osl:
  "play_osl_macro (osl_state True [] 0 0 0) = osl_state False typed_events 0 1 0"
  "play_osl_macro (osl_state False typed_events 0 1 0) = osl_state False (typed_events @ osl_events) 0 1 10"
  by (simp_all add: play_osl_macro_def process_dynamic_macro_def dynamic_macro_play_def play_four_records first_play_steps second_play_steps
      osl_clear release_of_def Let_def)

text \<open>
  A dynamic macro can destroy itself, shown on a sample keyboard. The record of a key that uses a one-shot layer is turned into a release while it is
  played, in the buffer of the macro itself: the first time the macro types the key, the second time nothing is typed and the one-shot layer stays on.
\<close>

theorem dynamic_macro_plays_once:
  defines "s \<equiv> osl_state True [] 0 0 0"
  shows "map (pressed \<circ> event) (macro plain_fc 1 s) = [True, False, True, False]
    \<and> map (pressed \<circ> event) (macro plain_fc 1 (play_osl_macro s)) = [True, False, False, False]
    \<and> filter report_event (out (play_osl_macro s)) = [SendKeyboard 0 [6, 0, 0, 0, 0, 0], SendKeyboard 0 [0, 0, 0, 0, 0, 0]]
    \<and> filter report_event (out (play_osl_macro (play_osl_macro s))) = filter report_event (out (play_osl_macro s))
    \<and> is_oneshot_layer_active (play_osl_macro (play_osl_macro s))"
  unfolding s_def play_osl by (intro conjI; code_simp)

text \<open>
  C36. The repeat key can call itself without end. If it was pressed before any other key and is released after another key was pressed,
  its release executes a record that is the same release again, so that the innermost call is reached however many nested calls there are room
  for: whatever that call logs is in the log.
\<close>

theorem repeat_key_recursion:
  assumes "unregistered_release cf (deref p s) s" "FLOW_TAP_TERM cf = 0" "\<forall>p s. e \<in> set (out (bottom p s))"
  shows "e \<in> set (out (process_record (firmware bottom n cf fc) p s))"
  using release_never_returns [OF assms(2) _ assms(1)] assms(3) by blast

text \<open>The repeat key is pressed, A is pressed, and then the repeat key is released.\<close>

definition repeat_state :: features where
  "repeat_state =
     (let repeat = \<lparr>row = 0, col = 1\<rparr>; r = (\<lambda>k press. no_record\<lparr>event := \<lparr>key = k, time = 5, event_type = KEY_EVENT, pressed = press\<rparr>\<rparr>);
          s = snd (process_repeat_key (process_record feature_cf) feature_cf plain_fc QK_REPEAT_KEY (r repeat True) plain_state);
          s = snd (process_last_key feature_cf plain_fc 4 (r \<lparr>row = 0, col = 0\<rparr> True) s)
      in s\<lparr>arg_record := r repeat False\<rparr>)"

theorem repeat_key_recursion_witness:
  "McuReset \<in> set (out (process_record (firmware (\<lambda>p. emit McuReset) 1000 feature_cf plain_fc) Arg repeat_state)) \<and> McuReset \<notin> set (out repeat_state)"
proof -
  have "unregistered_release feature_cf (deref Arg repeat_state) repeat_state" "McuReset \<notin> set (out repeat_state)" by code_simp+
  moreover have "FLOW_TAP_TERM feature_cf = 0" "\<forall>p s. McuReset \<in> set (out ((\<lambda>p. emit McuReset) p s :: features))"
    by (simp_all add: feature_cf_def base_config_def emit_def)
  ultimately show ?thesis using repeat_key_recursion [of feature_cf Arg repeat_state McuReset "\<lambda>p. emit McuReset" 1000 plain_fc] by blast
qed

section \<open>Tap dances\<close>

text \<open>
  The events of tap dances: a key, whose keycode \<open>process_record_quantum\<close> looks up again after \<open>preprocess_tap_dance\<close> has finished a dance, or the
  main loop comes around.
\<close>

datatype dance_input = Tap uint16 uint16 keyrecord_t | Pause uint16

fun dance_step :: "'z features_scheme config \<Rightarrow> 'z features_scheme feature_config \<Rightarrow> dance_input \<Rightarrow> 'z features_scheme \<Rightarrow> 'z features_scheme" where
  "dance_step cf fc (Tap kc kc' r) s =
     (let (again, s) = preprocess_tap_dance cf fc kc r s in snd (process_tap_dance cf fc (if again then kc' else kc) r s))"
| "dance_step cf fc (Pause t) s = tap_dance_task cf fc (s\<lparr>now := t\<rparr>)"

text \<open>
  C37. At most one tap dance is in progress, and it is the active one, for every sequence of keys and pauses and
  all dances whose functions leave the other dances alone.
\<close>

theorem one_tap_dance_at_a_time:
  assumes "own_dances fc" "length (tap_dances s) = length (tap_dance_actions fc)" "one_dance s"
    and "\<forall>kc kc' r. Tap kc kc' r \<in> set xs \<longrightarrow> (\<forall>k\<in>{kc, kc'}. is_tap_dance k \<longrightarrow> TD_INDEX k < length (tap_dance_actions fc))"
  shows "one_dance (fold (dance_step cf fc) xs s)"
  using assms(2-4)
proof (induction xs arbitrary: s)
  case (Cons x xs)
  have "one_dance (dance_step cf fc x s) \<and> length (tap_dances (dance_step cf fc x s)) = length (tap_dance_actions fc)"
  proof (cases x)
    case (Tap kc kc' r)
    note p = preprocess_one_dance [OF assms(1) Cons.prems(1,2), where cf = cf and kc = kc and r = r]
    let ?k = "if fst (preprocess_tap_dance cf fc kc r s) then kc' else kc"
    have k: "is_tap_dance ?k \<longrightarrow> TD_INDEX ?k < length (tap_dance_actions fc)" using Cons.prems(3) Tap by auto
    have "active_td (snd (preprocess_tap_dance cf fc kc r s)) = 0 \<or> active_td (snd (preprocess_tap_dance cf fc kc r s)) = ?k" if "pressed (event r)"
      using p(3) [OF that] p(4) by auto
    then show ?thesis using process_one_dance [OF assms(1) _ p(1) k, of r cf] p(2) Cons.prems(1) by (simp add: Tap case_prod_beta)
  next
    case (Pause t)
    have "one_dance (s\<lparr>now := t\<rparr>)" using Cons.prems(2) by (simp add: one_dance_def in_progress_def)
    from task_one_dance [OF assms(1) _ this, of cf] show ?thesis using Cons.prems(1) by (simp add: Pause)
  qed
  moreover have "\<forall>kc kc' r. Tap kc kc' r \<in> set xs \<longrightarrow> (\<forall>k\<in>{kc, kc'}. is_tap_dance k \<longrightarrow> TD_INDEX k < length (tap_dance_actions fc))" using Cons.prems(3) by auto
  ultimately show ?case using Cons.IH [of "dance_step cf fc x s"] by simp
qed simp

lemma feature_dances:
  "own_dances feature_fc" "length (tap_dances feature_state) = 256" "length (tap_dance_actions feature_fc) = 256" "one_dance feature_state"
  by (simp add: own_dances_def demo_features ACTION_TAP_DANCE_DOUBLE_def own_dance_def tap_dance_pair_on_each_tap_def
      tap_dance_pair_finished_def tap_dance_pair_reset_def Let_def, simp add: wait_ms_def)
    (simp_all add: demo_features kbd.defs features.defs one_dance_def in_progress_def dance_def no_tap_dance_def)

theorem one_tap_dance_at_a_time_witness:
  "one_dance (fold (dance_step feature_cf feature_fc) [Tap 0x5700 0x5700 (press_of 5), Tap 0x5701 0x5701 (press_of 9), Pause 400] feature_state)"
proof -
  have "TD_INDEX kc < length (tap_dance_actions feature_fc)" for kc by (simp add: feature_dances featured.td_index_less)
  then have "one_dance (fold (dance_step feature_cf feature_fc) xs feature_state)" for xs
    using one_tap_dance_at_a_time [OF feature_dances(1), of feature_state] feature_dances(2-4) by simp
  then show ?thesis .
qed

text \<open>
  C38. A dance of two keycodes, with the times of its events: one tap and a pause press and release the first keycode; if the key
  is held through the pause, the first keycode is pressed then; and a second tap in time presses the second keycode, which is released with the key.
  In all cases the dance is over afterwards.
\<close>

theorem tap_dance_double:
  assumes d: "double_at cf fc kc kc1 kc2 s" and late: "get_tapping_term cf kc no_record < t2 - t0"
  defines "i \<equiv> TD_INDEX kc" and "m \<equiv> real_mods s OR weak_mods s" and "os \<equiv> oneshot_mods s"
  shows "td_pause cf fc t2 (td_release cf fc kc t1 (td_press cf fc kc t0 s)) =
      set_dance i no_tap_dance (dance_drop cf kc1 m os (wait_ms (TAP_CODE_DELAY cf)
        ((dance_hold cf kc1 m os (dancing i 1 False True kc t0 t2 s))\<lparr>active_td := 0\<rparr>)))
    \<and> td_pause cf fc t2 (td_press cf fc kc t0 s) = (dance_hold cf kc1 m os (dancing i 1 True True kc t0 t2 s))\<lparr>active_td := 0\<rparr>
    \<and> (let u = td_press cf fc kc t3 (td_release cf fc kc t1 (td_press cf fc kc t0 s))
       in u = (set_dance i (dance i u) (register_code16 cf kc2 (dancing i 2 True False kc t3 t3 s)))\<lparr>active_td := 0\<rparr>
          \<and> td_release cf fc kc t4 u = set_dance i no_tap_dance
              (dance_drop cf kc2 m os (set_dance i ((dance i u)\<lparr>td_pressed := False\<rparr>) (u\<lparr>now := t4\<rparr>))))"
proof -
  let ?d = "dancing i 2 True False kc t3 t3 s"
  define u where "u = (set_dance i ((dance i ?d)\<lparr>td_finished := True\<rparr>) (register_code16 cf kc2 ?d))\<lparr>active_td := 0\<rparr>"
  have r: "td_release cf fc kc t1 (td_press cf fc kc t0 s) = dancing i 1 False False kc t0 t1 s"
    by (simp add: first_press [OF d] first_release [OF d] i_def)
  have l: "i < length (tap_dances s)" using d by (simp add: double_at_def i_def)
  then have du: "dance i u = no_tap_dance\<lparr>td_count := 2, td_weak_mods := m, td_oneshot_mods := os, td_pressed := True, td_finished := True\<rparr>"
    by (simp add: u_def dancing_def m_def os_def) (simp add: dance_def set_dance_def)
  have u: "td_press cf fc kc t3 (td_release cf fc kc t1 (td_press cf fc kc t0 s)) = u"
    unfolding r using second_press [OF d, of t3 t0 t1] by (simp add: u_def i_def Let_def)
  have active: "active_td u = 0" by (simp add: u_def)
  have "i < length (tap_dances u)" using l by (simp add: u_def dancing_def set_dance_def)
  then have w: "td_release cf fc kc t4 u = set_dance i no_tap_dance (dance_drop cf kc2 m os (set_dance i ((dance i u)\<lparr>td_pressed := False\<rparr>) (u\<lparr>now := t4\<rparr>)))"
    using second_release [OF d, of u t4, folded i_def] du active by simp
  have v: "u = (set_dance i (dance i u) (register_code16 cf kc2 ?d))\<lparr>active_td := 0\<rparr>"
    unfolding du using l by (simp add: u_def dancing_def m_def os_def dance_def)
  show ?thesis using pause_after_tap [OF d late, folded i_def m_def os_def] u v w
    unfolding r Let_def by (simp add: first_press [OF d, folded i_def])
qed

theorem tap_dance_double_witness:
  "td_pause feature_cf feature_fc 400 (td_press feature_cf feature_fc 0x5700 100 feature_state) =
     (dance_hold feature_cf 4 0 0 (dancing 0 1 True True 0x5700 100 400 feature_state))\<lparr>active_td := 0\<rparr>"
proof -
  have "double_at feature_cf feature_fc 0x5700 4 5 feature_state" "real_mods feature_state OR weak_mods feature_state = 0" "oneshot_mods feature_state = 0"
    "TD_INDEX 0x5700 = 0" "get_tapping_term feature_cf 0x5700 no_record < 400 - 100"
    by (simp_all add: double_at_def demo_features demo_state_def feature_cf_def base_config_def kbd.defs features.defs dance_def is_tap_dance_def TD_INDEX_def)
  then show ?thesis using tap_dance_double [of feature_cf feature_fc "0x5700" 4 5 feature_state 400 100] by simp
qed

end
