(* ===== verification/Typing.thy ===== *)
theory Typing
  imports Host_View Demo
begin

text \<open>
  What a host reads from the reports: the strokes, each a key that was not down in the report before, with the modifiers of the report
  that brings it. The theory shows what tapping a key and holding a modifier add to the strokes when no other key is down.
\<close>

subsection \<open>Strokes\<close>

definition new_keys :: "(uint8 \<Rightarrow> bool) \<Rightarrow> (uint8 \<Rightarrow> bool) \<Rightarrow> uint8 \<Rightarrow> (uint8 \<times> uint8) list" where
  "new_keys now_down before_down mods = map (Pair mods) (filter (\<lambda>k. now_down k \<and> \<not> before_down k) (map of_nat [1..<256]))"

definition key_listed :: "uint8 list \<Rightarrow> uint8 \<Rightarrow> bool" where
  "key_listed ks k \<longleftrightarrow> k \<in> set (take KEYBOARD_REPORT_KEYS ks)"

text \<open>The strokes an event brings after a six-key report with the keys \<open>k6\<close> and an N-key report with the bits \<open>bn\<close>.\<close>

fun event_strokes :: "host_event \<Rightarrow> uint8 list \<Rightarrow> uint8 list \<Rightarrow> (uint8 \<times> uint8) list" where
  "event_strokes (SendKeyboard m ks) k6 bn = new_keys (key_listed ks) (key_listed k6) m"
| "event_strokes (SendNkro m bs) k6 bn = new_keys (bit_pressed bs) (bit_pressed bn) m"
| "event_strokes _ k6 bn = []"

fun strokes_from :: "uint8 \<times> uint8 list \<Rightarrow> uint8 \<times> uint8 list \<Rightarrow> host_event list \<Rightarrow> (uint8 \<times> uint8) list" where
  "strokes_from v6 vn [] = []"
| "strokes_from v6 vn (e # es) = event_strokes e (snd v6) (snd vn) @ strokes_from (view6 e v6) (viewn e vn) es"

definition host_strokes :: "'z kbd_scheme \<Rightarrow> (uint8 \<times> uint8) list" where
  "host_strokes s = strokes_from (0, replicate KEYBOARD_REPORT_KEYS 0) (0, replicate NKRO_REPORT_BITS 0) (out s)"

lemma strokes_snoc:
  "strokes_from v6 vn (es @ [e]) = strokes_from v6 vn es @ event_strokes e (snd (fold view6 es v6)) (snd (fold viewn es vn))"
  by (induction es arbitrary: v6 vn) simp_all

lemma host_strokes_emit:
  "host_strokes (emit e s) = host_strokes s @ event_strokes e (snd (host_keyboard s)) (snd (host_nkro s))"
  by (simp add: host_strokes_def emit_def strokes_snoc host_keyboard_def host_nkro_def)

lemma host_strokes_frame [simp]:
  "host_strokes (s\<lparr>keys := x\<rparr>) = host_strokes s" "host_strokes (s\<lparr>bits := x\<rparr>) = host_strokes s"
  "host_strokes (s\<lparr>real_mods := m\<rparr>) = host_strokes s" "host_strokes (s\<lparr>weak_mods := m\<rparr>) = host_strokes s"
  "host_strokes (s\<lparr>now := t\<rparr>) = host_strokes s" "host_strokes (s\<lparr>last_6kro := y\<rparr>) = host_strokes s"
  "host_strokes (s\<lparr>last_nkro := z\<rparr>) = host_strokes s" "host_strokes (s\<lparr>nkro_report_id := i\<rparr>) = host_strokes s"
  by (simp_all add: host_strokes_def)

lemma host_strokes_report_ops [simp]:
  "host_strokes (add_key k s) = host_strokes s" "host_strokes (del_key k s) = host_strokes s"
  by (simp_all add: add_key_def del_key_def add_key_to_report_def del_key_from_report_def)

lemma new_keys_cong: "(\<And>k. k \<noteq> 0 \<Longrightarrow> f k = f' k \<and> g k = g' k) \<Longrightarrow> new_keys f g m = new_keys f' g' m"
proof -
  assume a: "\<And>k. k \<noteq> 0 \<Longrightarrow> f k = f' k \<and> g k = g' k"
  have "(of_nat n :: uint8) \<noteq> 0" if "n \<in> set [1..<256]" for n
    using that unat_of_nat_small [of n, where 'a = 8] by auto
  then have "filter (\<lambda>k. f k \<and> \<not> g k) (map of_nat [1..<256]) = filter (\<lambda>k. f' k \<and> \<not> g' k) (map of_nat [1..<256])"
    using a by (intro filter_cong) auto
  then show ?thesis by (simp add: new_keys_def)
qed

lemma new_keys_none [simp]: "new_keys f f m = []"
  by (simp add: new_keys_def)

lemma new_keys_one: "k \<noteq> 0 \<Longrightarrow> new_keys (\<lambda>j. j = k) (\<lambda>_. False) m = [(m, k)]"
proof -
  assume "k \<noteq> 0"
  then have u: "1 \<le> unat k" "unat k < 256" using unsigned_less [of k, where 'a = nat] by (auto simp: unat_gt_0 Suc_le_eq)
  have "of_nat n = k \<longleftrightarrow> n = unat k" if "n < 256" for n
    using that unat_of_nat_small [of n, where 'a = 8] by auto
  then have "filter (\<lambda>j. j = k) (map of_nat [1..<256]) = map of_nat (filter (\<lambda>n. n = unat k) [1..<256])"
    unfolding filter_map comp_def by (intro arg_cong [where f = "map of_nat"] filter_cong) auto
  also have "[1..<256] = [1..<unat k] @ unat k # [Suc (unat k)..<256]"
    using u upt_add_eq_append [of 1 "unat k" "256 - unat k"] by (simp add: upt_conv_Cons)
  then have "filter (\<lambda>n. n = unat k) [1..<256] = [unat k]" by simp
  finally show ?thesis by (simp add: new_keys_def)
qed

subsection \<open>Sending a report\<close>

lemma send_plain:
  assumes "oneshot_mods s = 0" "suppressed_mods s = 0" "weak_override_mods s = 0"
  shows "get_mods_for_report cf s = (real_mods s OR weak_mods s, s)"
  using assms by (simp add: get_mods_for_report_def)

lemma send_strokes:
  assumes "partial_inv cf s" "driver s" "oneshot_mods s = 0" "suppressed_mods s = 0" "weak_override_mods s = 0"
  shows "host_strokes (send_keyboard_report cf s) =
    host_strokes s @ new_keys (\<lambda>k. is_key_pressed k s) (\<lambda>k. host_pressed k s) (real_mods s OR weak_mods s)"
proof -
  have v: "host_keyboard s = last_6kro s" "host_nkro s = snd (last_nkro s)"
    using assms(1,2) by (simp_all add: partial_inv_def views_def)
  have p: "is_key_pressed k t \<longleftrightarrow> (if use_nkro t then bit_pressed (bits t) k else key_listed (keys t) k)" if "k \<noteq> 0" for k and t :: "'a kbd_scheme"
    using that by (auto simp: is_key_pressed_def bit_pressed_def key_listed_def KC_NO_def test_mask_iff list_ex_iff)
  have u: "use_nkro (s\<lparr>keys := x, bits := y\<rparr>) = use_nkro s" for x y by (simp add: use_nkro_def)
  have n: "new_keys (\<lambda>k. is_key_pressed k s) (\<lambda>k. host_pressed k s) m =
      (if use_nkro s then new_keys (bit_pressed (bits s)) (bit_pressed (snd (snd (last_nkro s)))) m
       else new_keys (key_listed (keys s)) (key_listed (snd (last_6kro s))) m)" for m
    by (auto intro!: new_keys_cong simp: p u v host_pressed_def)
  have f: "host_keyboard (s\<lparr>last_6kro := x\<rparr>) = host_keyboard s" "host_nkro (s\<lparr>last_nkro := y, nkro_report_id := i\<rparr>) = host_nkro s" for x y i
    by (simp_all add: host_keyboard_def host_nkro_def)
  show ?thesis
    unfolding n send_keyboard_report_def send_6kro_report_def send_nkro_report_def host_nkro_send_def host_keyboard_send_def
      send_plain [OF assms(3-)]
    using assms(2) by (auto simp: host_strokes_emit f v prod_eq_iff)
qed

subsection \<open>Typing with no other key down\<close>

definition quiet :: "'z kbd_scheme config \<Rightarrow> uint8 \<Rightarrow> uint8 \<Rightarrow> 'z kbd_scheme \<Rightarrow> bool" where
  "quiet cf m w s \<longleftrightarrow> kbd_inv cf s \<and> driver s \<and> (\<forall>k. \<not> is_key_pressed k s) \<and> real_mods s = m \<and> weak_mods s = w
     \<and> oneshot_mods s = 0 \<and> suppressed_mods s = 0 \<and> weak_override_mods s = 0"

lemma send_keeps:
  assumes "oneshot_mods s = 0" "suppressed_mods s = 0" "weak_override_mods s = 0"
  shows "oneshot_mods (send_keyboard_report cf s) = 0" "suppressed_mods (send_keyboard_report cf s) = 0"
    "weak_override_mods (send_keyboard_report cf s) = 0"
  unfolding send_keyboard_report_def send_6kro_report_def send_nkro_report_def host_nkro_send_def host_keyboard_send_def
    send_plain [OF assms]
  using assms by (simp_all add: emit_def)

lemma report_op_keeps [simp]:
  "oneshot_mods (add_key k s) = oneshot_mods s" "suppressed_mods (add_key k s) = suppressed_mods s"
  "weak_override_mods (add_key k s) = weak_override_mods s" "real_mods (add_key k s) = real_mods s" "weak_mods (add_key k s) = weak_mods s"
  "oneshot_mods (del_key k s) = oneshot_mods s" "suppressed_mods (del_key k s) = suppressed_mods s"
  "weak_override_mods (del_key k s) = weak_override_mods s" "real_mods (del_key k s) = real_mods s" "weak_mods (del_key k s) = weak_mods s"
  by (simp_all add: add_key_def del_key_def add_key_to_report_def del_key_from_report_def)

lemma host_pressed_report_ops [simp]:
  "host_pressed j (add_key k s) = host_pressed j s" "host_pressed j (del_key k s) = host_pressed j s"
  by (simp_all add: add_key_def del_key_def add_key_to_report_def del_key_from_report_def host_pressed_def host_keyboard_def
      host_nkro_def is_key_pressed_def use_nkro_def)

lemma wait_keeps [simp]:
  "oneshot_mods (wait_ms d s) = oneshot_mods s" "suppressed_mods (wait_ms d s) = suppressed_mods s"
  "weak_override_mods (wait_ms d s) = weak_override_mods s" "real_mods (wait_ms d s) = real_mods s" "weak_mods (wait_ms d s) = weak_mods s"
  "driver (wait_ms d s) = driver s" "is_key_pressed k (wait_ms d s) = is_key_pressed k s" "host_pressed k (wait_ms d s) = host_pressed k s"
  "host_strokes (wait_ms d s) = host_strokes s" "leds (wait_ms d s) = leds s"
  by (simp_all add: wait_ms_def is_key_pressed_def use_nkro_def host_pressed_def host_keyboard_def host_nkro_def)

lemma quiet_wait [simp]: "quiet cf m w s \<Longrightarrow> quiet cf m w (wait_ms d s)"
  by (simp add: quiet_def inv_record.wait_kept)

lemma quiet_room: "quiet cf m w s \<Longrightarrow> IS_BASIC_KEYCODE k \<Longrightarrow> has_room s k"
proof (cases "use_nkro s")
  case True
  assume "IS_BASIC_KEYCODE k"
  then have "k \<noteq> 0" "unat k \<le> 164" by (auto simp: IS_BASIC_KEYCODE_def word_le_nat_alt)
  then show ?thesis using True by (simp add: has_room_def NKRO_REPORT_BITS_def drop_bit_eq_div unat_div)
next
  case False
  assume q: "quiet cf m w s"
  then have "length (keys s) = KEYBOARD_REPORT_KEYS" using inv_report_ok by (auto simp: quiet_def report_ok_def)
  then have n: "keys s ! 0 \<in> set (take KEYBOARD_REPORT_KEYS (keys s))" by (simp add: KEYBOARD_REPORT_KEYS_def)
  have "\<not> is_key_pressed (keys s ! 0) s" using q by (simp add: quiet_def)
  then have "keys s ! 0 = 0" using False n by (auto simp: is_key_pressed_def KC_NO_def list_ex_iff split: if_splits)
  then show ?thesis using False n by (auto simp: has_room_def dest: in_set_takeD)
qed

lemma quiet_tap:
  assumes q: "quiet cf m w s" and k: "IS_BASIC_KEYCODE k" and "\<not> LOCKING_SUPPORT_ENABLE cf"
  shows "quiet cf m w (tap_code_delay cf k d s)" "host_strokes (tap_code_delay cf k d s) = host_strokes s @ [(m OR w, k)]"
proof -
  note i = q [unfolded quiet_def] and k0 = basic_code [OF k] and room = quiet_room [OF q k]
  have ok: "report_ok s" using i inv_report_ok by auto
  let ?a = "send_keyboard_report cf (add_key k s)"
  let ?b = "wait_ms d ?a"
  let ?c = "send_keyboard_report cf (del_key k ?b)"
  have t: "tap_code_delay cf k d s = ?c"
    using assms(3) k0 k i by (simp add: tap_code_delay_def register_code_def unregister_code_def KC_NO_def)
  have pa: "partial_inv cf (add_key k s)" using i by (intro report_op_partial) (simp add: kbd_inv_def)
  have ib: "kbd_inv cf ?b" using send_inv [OF pa] by (rule inv_record.wait_kept)
  have pb: "is_key_pressed j ?b \<longleftrightarrow> j = k" for j
    using pressed_report_ops(1) [OF ok k0, of j] i room by simp
  have pc: "partial_inv cf (del_key k ?b)" using ib by (intro report_op_partial) (simp add: kbd_inv_def)
  have nc: "\<not> is_key_pressed j (del_key k ?b)" for j
    using pressed_report_ops(2) [OF inv_report_ok [OF ib] k0, of j] pb by simp
  have ka: "oneshot_mods ?a = 0" "suppressed_mods ?a = 0" "weak_override_mods ?a = 0" using i by (simp_all add: send_keeps)
  show "quiet cf m w (tap_code_delay cf k d s)"
    using i ka send_inv [OF pc] nc unfolding t quiet_def by (simp add: send_keeps send_mods send_report)
  have "host_strokes ?a = host_strokes s @ new_keys (\<lambda>j. j = k) (\<lambda>_. False) (m OR w)"
    using send_strokes [OF pa] i pb host_pressed_iff [of cf s] by simp
  moreover have "host_strokes ?c = host_strokes ?a"
    using send_strokes [OF pc] i ka nc by (simp add: send_report new_keys_def)
  ultimately show "host_strokes (tap_code_delay cf k d s) = host_strokes s @ [(m OR w, k)]"
    unfolding t by (simp add: new_keys_one k0)
qed

lemma quiet_send:
  assumes "quiet cf m w s"
  shows "quiet cf m' w' (send_keyboard_report cf (s\<lparr>real_mods := m', weak_mods := w'\<rparr>))"
    "host_strokes (send_keyboard_report cf (s\<lparr>real_mods := m', weak_mods := w'\<rparr>)) = host_strokes s"
proof -
  note i = assms [unfolded quiet_def]
  let ?s = "s\<lparr>real_mods := m', weak_mods := w'\<rparr>"
  have p: "partial_inv cf ?s" using i by (simp add: inv_defs)
  have n: "\<not> is_key_pressed k ?s" for k using i pressed_cong(1) [of ?s s k] by (simp add: use_nkro_def)
  show "quiet cf m' w' (send_keyboard_report cf ?s)"
    using i send_inv [OF p] n unfolding quiet_def by (simp add: send_keeps send_mods send_report)
  show "host_strokes (send_keyboard_report cf ?s) = host_strokes s"
    using send_strokes [OF p] i n by (simp add: new_keys_def)
qed

text \<open>Modifiers held while no key is down bring no stroke.\<close>

lemma quiet_mods:
  assumes "quiet cf m w s" "IS_MODIFIER_KEYCODE k" "\<not> LOCKING_SUPPORT_ENABLE cf"
  shows "quiet cf (m OR MOD_BIT k) w (register_code cf k s)" "host_strokes (register_code cf k s) = host_strokes s"
    "quiet cf (m AND NOT (MOD_BIT k)) w (unregister_code cf k s)" "host_strokes (unregister_code cf k s) = host_strokes s"
proof -
  have k: "k \<noteq> 0" "\<not> IS_BASIC_KEYCODE k" using assms(2) by (auto simp: keycode_ranges word_le_nat_alt)
  have u: "s\<lparr>real_mods := x, weak_mods := w\<rparr> = s\<lparr>real_mods := x\<rparr>" for x using assms(1) by (cases s) (simp add: quiet_def)
  have r: "register_code cf k s = send_keyboard_report cf (s\<lparr>real_mods := m OR MOD_BIT k, weak_mods := w\<rparr>)"
    "unregister_code cf k s = send_keyboard_report cf (s\<lparr>real_mods := m AND NOT (MOD_BIT k), weak_mods := w\<rparr>)"
    unfolding u using assms k by (simp_all add: register_code_def unregister_code_def KC_NO_def add_mods_def del_mods_def quiet_def)
  show "quiet cf (m OR MOD_BIT k) w (register_code cf k s)" "host_strokes (register_code cf k s) = host_strokes s"
    "quiet cf (m AND NOT (MOD_BIT k)) w (unregister_code cf k s)" "host_strokes (unregister_code cf k s) = host_strokes s"
    unfolding r using quiet_send [OF assms(1)] by auto
qed

end
