(* ===== verification/Send_String.thy ===== *)
theory Send_String
  imports Typing
begin

text \<open>
  Typing a string (\<^verbatim>\<open>quantum/send_string/send_string.c\<close>). A C string is the list of the bytes from its first one on, up to the end of the
  memory it lies in; a read past that end, a read past the end of a look-up table and an overflow of the \<open>int\<close> of a delay give \<open>None\<close>.
  An \<open>int\<close> has 32 bits here; on AVR it has 16, and delays overflow beyond 32767 already.
  The look-up tables are weak symbols, so they are arguments. The bell sound is not modelled.
\<close>

subsection \<open>Look-up tables\<close>

record ascii_luts =
  ascii_to_shift_lut :: "uint8 list"
  ascii_to_altgr_lut :: "uint8 list"
  ascii_to_dead_lut :: "uint8 list"
  ascii_to_keycode_lut :: "uint8 list"

definition KCLUT_ENTRY :: "bool \<Rightarrow> bool \<Rightarrow> bool \<Rightarrow> bool \<Rightarrow> bool \<Rightarrow> bool \<Rightarrow> bool \<Rightarrow> bool \<Rightarrow> uint8" where
  "KCLUT_ENTRY a b c d e f g h =
     push_bit 0 (of_bool a) OR push_bit 1 (of_bool b) OR push_bit 2 (of_bool c) OR push_bit 3 (of_bool d)
     OR push_bit 4 (of_bool e) OR push_bit 5 (of_bool f) OR push_bit 6 (of_bool g) OR push_bit 7 (of_bool h)"

definition no_entry :: uint8 where "no_entry = KCLUT_ENTRY False False False False False False False False"
definition all_entry :: uint8 where "all_entry = KCLUT_ENTRY True True True True True True True True"

text \<open>The tables for the US layout\<close>

definition default_shift_lut :: "uint8 list" where
  "default_shift_lut =
     [no_entry, no_entry, no_entry, no_entry,
      KCLUT_ENTRY False True True True True True True False,
      KCLUT_ENTRY True True True True False False False False,
      no_entry,
      KCLUT_ENTRY False False True False True False True True,
      all_entry, all_entry, all_entry,
      KCLUT_ENTRY True True True False False False True True,
      no_entry, no_entry, no_entry,
      KCLUT_ENTRY False False False True True True True False]"
definition default_altgr_lut :: "uint8 list" where "default_altgr_lut = replicate 16 no_entry"
definition default_dead_lut :: "uint8 list" where "default_dead_lut = replicate 16 no_entry"

definition default_keycode_lut :: "uint8 list" where
  "default_keycode_lut =
     [0, 0, 0, 0, 0, 0, 0, 0,
      0x2A, 0x2B, 0x28, 0, 0, 0, 0, 0,
      0, 0, 0, 0, 0, 0, 0, 0,
      0, 0, 0, 0x29, 0, 0, 0, 0,
      0x2C, 0x1E, 0x34, 0x20, 0x21, 0x22, 0x24, 0x34,
      0x26, 0x27, 0x25, 0x2E, 0x36, 0x2D, 0x37, 0x38,
      0x27, 0x1E, 0x1F, 0x20, 0x21, 0x22, 0x23, 0x24,
      0x25, 0x26, 0x33, 0x33, 0x36, 0x2E, 0x37, 0x38,
      0x1F, 0x04, 0x05, 0x06, 0x07, 0x08, 0x09, 0x0A,
      0x0B, 0x0C, 0x0D, 0x0E, 0x0F, 0x10, 0x11, 0x12,
      0x13, 0x14, 0x15, 0x16, 0x17, 0x18, 0x19, 0x1A,
      0x1B, 0x1C, 0x1D, 0x2F, 0x31, 0x30, 0x23, 0x2D,
      0x35, 0x04, 0x05, 0x06, 0x07, 0x08, 0x09, 0x0A,
      0x0B, 0x0C, 0x0D, 0x0E, 0x0F, 0x10, 0x11, 0x12,
      0x13, 0x14, 0x15, 0x16, 0x17, 0x18, 0x19, 0x1A,
      0x1B, 0x1C, 0x1D, 0x2F, 0x31, 0x30, 0x35, 0x4C]"

definition default_luts :: ascii_luts where
  "default_luts = \<lparr>ascii_to_shift_lut = default_shift_lut, ascii_to_altgr_lut = default_altgr_lut,
     ascii_to_dead_lut = default_dead_lut, ascii_to_keycode_lut = default_keycode_lut\<rparr>"

definition lut_entry :: "uint8 list \<Rightarrow> nat \<Rightarrow> uint8 option" where
  "lut_entry mem pos = (if pos < length mem then Some (mem ! pos) else None)"

definition PGM_LOADBIT :: "uint8 list \<Rightarrow> nat \<Rightarrow> bool option" where
  "PGM_LOADBIT mem pos = map_option (\<lambda>b. bit b (pos mod 8)) (lut_entry mem (pos div 8))"

subsection \<open>Characters\<close>

definition type_key :: "'z kbd_scheme config \<Rightarrow> uint8 \<Rightarrow> bool \<Rightarrow> bool \<Rightarrow> bool \<Rightarrow> uint8 \<Rightarrow> 'z kbd_scheme \<Rightarrow> 'z kbd_scheme" where
  "type_key cf code is_shifted is_altgred is_dead interval s =
     (let pause = wait_ms (ucast interval);
          s = (if is_shifted then pause (register_code cf KC_LEFT_SHIFT s) else s);
          s = (if is_altgred then pause (register_code cf KC_RIGHT_ALT s) else s);
          s = pause (tap_code_delay cf code (ucast interval) s);
          s = (if is_altgred then pause (unregister_code cf KC_RIGHT_ALT s) else s);
          s = (if is_shifted then pause (unregister_code cf KC_LEFT_SHIFT s) else s)
      in if is_dead then pause (tap_code cf KC_SPACE s) else s)"

definition send_char_with_delay :: "'z kbd_scheme config \<Rightarrow> ascii_luts \<Rightarrow> uint8 \<Rightarrow> uint8 \<Rightarrow> 'z kbd_scheme \<Rightarrow> 'z kbd_scheme option" where
  "send_char_with_delay cf luts ascii_code interval s =
     (case (lut_entry (ascii_to_keycode_lut luts) (unat ascii_code), PGM_LOADBIT (ascii_to_shift_lut luts) (unat ascii_code),
            PGM_LOADBIT (ascii_to_altgr_lut luts) (unat ascii_code), PGM_LOADBIT (ascii_to_dead_lut luts) (unat ascii_code))
      of (Some code, Some is_shifted, Some is_altgred, Some is_dead) \<Rightarrow> Some (type_key cf code is_shifted is_altgred is_dead interval s)
       | _ \<Rightarrow> None)"

definition send_char :: "'z kbd_scheme config \<Rightarrow> ascii_luts \<Rightarrow> uint8 \<Rightarrow> 'z kbd_scheme \<Rightarrow> 'z kbd_scheme option" where
  "send_char cf luts ascii_code s = send_char_with_delay cf luts ascii_code (ucast (TAP_CODE_DELAY cf)) s"

subsection \<open>Strings\<close>

definition isdigit :: "uint8 \<Rightarrow> bool" where "isdigit c \<longleftrightarrow> 48 \<le> c \<and> c \<le> 57"

text \<open>
  The digits of a delay, from the byte \<open>string\<close> points to: the number and the string from the first byte on that is not a digit.
\<close>

fun delay_digits :: "nat \<Rightarrow> uint8 list \<Rightarrow> (nat \<times> uint8 list) option" where
  "delay_digits ms [] = None"
| "delay_digits ms (c # string) =
     (if isdigit c
      then let ms = ms * 10 + unat (c - 48) in if ms < 2 ^ 31 then delay_digits ms string else None
      else Some (ms, c # string))"

lemma delay_digits_shorter:
  "delay_digits ms string = Some (ms', string') \<Longrightarrow> string' \<noteq> [] \<and> length string' \<le> length string"
  by (induction ms string rule: delay_digits.induct) (auto simp: Let_def split: if_splits)

text \<open>
  One round of the loop after \<open>SS_QMK_PREFIX\<close>, up to and without the last \<open>++string\<close>: the string is given from the byte after the prefix on.
  \<open>SS_QMK_PREFIX\<close> and \<open>SS_TAP_CODE\<close> are 1, \<open>SS_DOWN_CODE\<close>, \<open>SS_UP_CODE\<close> and \<open>SS_DELAY_CODE\<close> are 2, 3 and 4.
\<close>

definition escape :: "'z kbd_scheme config \<Rightarrow> uint8 list \<Rightarrow> 'z kbd_scheme \<Rightarrow> (uint8 list \<times> 'z kbd_scheme) option" where
  "escape cf string s =
     (case string of
        [] \<Rightarrow> None
      | ascii_code # args \<Rightarrow>
          if ascii_code = 1 \<or> ascii_code = 2 \<or> ascii_code = 3
          then (case args of
                  [] \<Rightarrow> None
                | kc # _ \<Rightarrow> Some (args, if ascii_code = 1 then tap_code cf kc s else if ascii_code = 2 then register_code cf kc s
                                   else unregister_code cf kc s))
          else if ascii_code = 4
          then (case delay_digits 0 args of None \<Rightarrow> None | Some (ms, string') \<Rightarrow> Some (string', wait_ms (of_nat ms) s))
          else Some (string, s))"

lemma escape_shorter: "escape cf string s = Some (string', s') \<Longrightarrow> string' \<noteq> [] \<and> length string' \<le> length string"
  by (cases string)
    (auto simp: escape_def le_Suc_eq simp del: delay_digits.simps split: list.split_asm if_split_asm option.split_asm prod.split_asm dest!: delay_digits_shorter)

text \<open>\<open>paused\<close> is whether the loop waits after a key of an escape sequence.\<close>

function send_loop :: "bool \<Rightarrow> 'z kbd_scheme config \<Rightarrow> ascii_luts \<Rightarrow> uint8 \<Rightarrow> uint8 list \<Rightarrow> 'z kbd_scheme \<Rightarrow> 'z kbd_scheme option" where
  "send_loop paused cf luts interval string s =
     (case string of
        [] \<Rightarrow> None
      | ascii_code # rest \<Rightarrow>
          if ascii_code = 0 then Some s
          else if ascii_code = 1
          then (case escape cf rest s of
                  None \<Rightarrow> None
                | Some (string', s) \<Rightarrow>
                    send_loop paused cf luts interval (tl string') (if paused then wait_ms (ucast interval) s else s))
          else (case send_char_with_delay cf luts ascii_code interval s of
                  None \<Rightarrow> None
                | Some s \<Rightarrow> send_loop paused cf luts interval rest s))"
  by pat_completeness auto
termination
  by (relation "measure (\<lambda>(_, _, _, _, string, _). length string)") (auto dest: escape_shorter)

declare send_loop.simps [simp del]

definition send_string_with_delay :: "'z kbd_scheme config \<Rightarrow> ascii_luts \<Rightarrow> uint8 list \<Rightarrow> uint8 \<Rightarrow> 'z kbd_scheme \<Rightarrow> 'z kbd_scheme option" where
  "send_string_with_delay cf luts string interval s = send_loop True cf luts interval string s"
definition send_string :: "'z kbd_scheme config \<Rightarrow> ascii_luts \<Rightarrow> uint8 list \<Rightarrow> 'z kbd_scheme \<Rightarrow> 'z kbd_scheme option" where
  "send_string cf luts string s = send_string_with_delay cf luts string (ucast (TAP_CODE_DELAY cf)) s"

text \<open>On AVR a string in program memory has a loop of its own, which does not wait after a key of an escape sequence.\<close>

definition send_string_with_delay_P :: "'z kbd_scheme config \<Rightarrow> ascii_luts \<Rightarrow> uint8 list \<Rightarrow> uint8 \<Rightarrow> 'z kbd_scheme \<Rightarrow> 'z kbd_scheme option" where
  "send_string_with_delay_P cf luts string interval s = send_loop False cf luts interval string s"
definition send_string_P :: "'z kbd_scheme config \<Rightarrow> ascii_luts \<Rightarrow> uint8 list \<Rightarrow> 'z kbd_scheme \<Rightarrow> 'z kbd_scheme option" where
  "send_string_P cf luts string s = send_string_with_delay_P cf luts string (ucast (TAP_CODE_DELAY cf)) s"

subsection \<open>Numbers\<close>

definition send_nibble :: "'z kbd_scheme config \<Rightarrow> ascii_luts \<Rightarrow> uint8 \<Rightarrow> 'z kbd_scheme \<Rightarrow> 'z kbd_scheme option" where
  "send_nibble cf luts number s =
     (if number AND 0xF \<le> 9 then send_char cf luts (number + 48) s else send_char cf luts (number - 10 + 97) s)"
definition send_byte :: "'z kbd_scheme config \<Rightarrow> ascii_luts \<Rightarrow> uint8 \<Rightarrow> 'z kbd_scheme \<Rightarrow> 'z kbd_scheme option" where
  "send_byte cf luts number s = Option.bind (send_nibble cf luts (drop_bit 4 number) s) (send_nibble cf luts (number AND 0xF))"
definition send_word :: "'z kbd_scheme config \<Rightarrow> ascii_luts \<Rightarrow> uint16 \<Rightarrow> 'z kbd_scheme \<Rightarrow> 'z kbd_scheme option" where
  "send_word cf luts number s =
     Option.bind (send_byte cf luts (ucast (drop_bit 8 number)) s) (send_byte cf luts (ucast (number AND 0xFF)))"
definition send_dword :: "'z kbd_scheme config \<Rightarrow> ascii_luts \<Rightarrow> uint32 \<Rightarrow> 'z kbd_scheme \<Rightarrow> 'z kbd_scheme option" where
  "send_dword cf luts number s =
     Option.bind (send_word cf luts (ucast (drop_bit 16 number)) s) (send_word cf luts (ucast (number AND 0xFFFF)))"

text \<open>\<open>random\<close> is what \<open>rand\<close> or, on AVR, the sum of the timer counters returns.\<close>

definition tap_random_base64 :: "'z kbd_scheme config \<Rightarrow> ascii_luts \<Rightarrow> nat \<Rightarrow> 'z kbd_scheme \<Rightarrow> 'z kbd_scheme option" where
  "tap_random_base64 cf luts random s =
     (let key = of_nat (random mod 64) :: uint8
      in send_char cf luts
           (if key \<le> 25 then key + 65 else if key \<le> 51 then key - 26 + 97 else if key = 52 then 48
            else if key \<le> 61 then key - 53 + 49 else if key = 62 then 43 else 47) s)"

subsection \<open>What a string means\<close>

text \<open>
  The parts of a string, as \<^verbatim>\<open>SEND_STRING\<close> takes them: characters, \<open>SS_TAP\<close>, \<open>SS_DOWN\<close>, \<open>SS_UP\<close> and \<open>SS_DELAY\<close>, how they are encoded and
  what each of them does.
\<close>

datatype ss_item = Typed uint8 | Tap uint8 | Down uint8 | Up uint8 | Delay "uint8 list"

fun ss_encode :: "ss_item \<Rightarrow> uint8 list" where
  "ss_encode (Typed c) = [c]"
| "ss_encode (Tap k) = [1, 1, k]"
| "ss_encode (Down k) = [1, 2, k]"
| "ss_encode (Up k) = [1, 3, k]"
| "ss_encode (Delay ds) = [1, 4] @ ds @ [124]"

definition decimal :: "nat \<Rightarrow> uint8 list \<Rightarrow> nat" where "decimal n ds = foldl (\<lambda>n c. n * 10 + unat (c - 48)) n ds"

fun ss_valid :: "ss_item \<Rightarrow> bool" where
  "ss_valid (Typed c) \<longleftrightarrow> c \<noteq> 0 \<and> c \<noteq> 1 \<and> c < 128"
| "ss_valid (Delay ds) \<longleftrightarrow> list_all isdigit ds \<and> decimal 0 ds < 2 ^ 31"
| "ss_valid _ \<longleftrightarrow> True"

fun ss_run :: "'z kbd_scheme config \<Rightarrow> ascii_luts \<Rightarrow> uint8 \<Rightarrow> ss_item \<Rightarrow> 'z kbd_scheme \<Rightarrow> 'z kbd_scheme" where
  "ss_run cf luts interval (Typed c) s = the (send_char_with_delay cf luts c interval s)"
| "ss_run cf luts interval (Tap k) s = wait_ms (ucast interval) (tap_code cf k s)"
| "ss_run cf luts interval (Down k) s = wait_ms (ucast interval) (register_code cf k s)"
| "ss_run cf luts interval (Up k) s = wait_ms (ucast interval) (unregister_code cf k s)"
| "ss_run cf luts interval (Delay ds) s = wait_ms (ucast interval) (wait_ms (of_nat (decimal 0 ds)) s)"

definition luts_ok :: "ascii_luts \<Rightarrow> bool" where
  "luts_ok luts \<longleftrightarrow> length (ascii_to_keycode_lut luts) = 128 \<and> length (ascii_to_shift_lut luts) = 16
     \<and> length (ascii_to_altgr_lut luts) = 16 \<and> length (ascii_to_dead_lut luts) = 16"

text \<open>A character can be sent if and only if it is in the tables.\<close>

lemma send_char_defined:
  assumes "luts_ok luts"
  shows "send_char_with_delay cf luts c interval s = None \<longleftrightarrow> \<not> c < 128"
    "c < 128 \<Longrightarrow> send_char_with_delay cf luts c interval s =
       Some (type_key cf (ascii_to_keycode_lut luts ! unat c) (bit (ascii_to_shift_lut luts ! (unat c div 8)) (unat c mod 8))
         (bit (ascii_to_altgr_lut luts ! (unat c div 8)) (unat c mod 8)) (bit (ascii_to_dead_lut luts ! (unat c div 8)) (unat c mod 8))
         interval s)"
proof -
  have "c < 128 \<longleftrightarrow> unat c < 128" "unat c div 8 < 16 \<longleftrightarrow> unat c < 128" by (auto simp: word_less_nat_alt)
  then show "send_char_with_delay cf luts c interval s = None \<longleftrightarrow> \<not> c < 128"
    "c < 128 \<Longrightarrow> send_char_with_delay cf luts c interval s =
       Some (type_key cf (ascii_to_keycode_lut luts ! unat c) (bit (ascii_to_shift_lut luts ! (unat c div 8)) (unat c mod 8))
         (bit (ascii_to_altgr_lut luts ! (unat c div 8)) (unat c mod 8)) (bit (ascii_to_dead_lut luts ! (unat c div 8)) (unat c mod 8))
         interval s)"
    using assms by (simp_all add: send_char_with_delay_def lut_entry_def PGM_LOADBIT_def luts_ok_def)
qed

lemma decimal_mono: "n \<le> decimal n ds"
proof (induction ds arbitrary: n)
  case (Cons d ds)
  have "n \<le> n * 10 + unat (d - 48)" by simp
  also have "\<dots> \<le> decimal (n * 10 + unat (d - 48)) ds" by (rule Cons.IH)
  finally show ?case by (simp add: decimal_def)
qed (simp add: decimal_def)

lemma delay_digits_decimal:
  assumes "list_all isdigit ds" "decimal n ds < 2 ^ 31" "\<not> isdigit c"
  shows "delay_digits n (ds @ c # rest) = Some (decimal n ds, c # rest)"
  using assms
proof (induction ds arbitrary: n)
  case (Cons d ds)
  let ?n = "n * 10 + unat (d - 48)"
  have "decimal n (d # ds) = decimal ?n ds" by (simp add: decimal_def)
  then show ?case using Cons.prems Cons.IH [of ?n] decimal_mono [of ?n ds] by simp
qed (simp add: decimal_def)

lemma send_item:
  assumes "luts_ok luts" "ss_valid x"
  shows "send_loop True cf luts interval (ss_encode x @ rest) s = send_loop True cf luts interval rest (ss_run cf luts interval x s)"
  using assms
  by (cases x; subst send_loop.simps)
    (simp_all add: escape_def send_char_defined delay_digits_decimal isdigit_def)

lemma send_items:
  assumes "luts_ok luts" "list_all ss_valid xs"
  shows "send_loop True cf luts interval (concat (map ss_encode xs) @ rest) s =
    send_loop True cf luts interval rest (fold (ss_run cf luts interval) xs s)"
  using assms(2) by (induction xs arbitrary: s) (simp_all add: send_item [OF assms(1)])

subsection \<open>The US layout\<close>

text \<open>The character a host with the US layout reads from a stroke, as the HID usage tables list the keys.\<close>

definition us_keys :: "uint8 list" where
  "us_keys = map of_char (''abcdefghijklmnopqrstuvwxyz1234567890'' @ [CHR 0x0A, CHR 0x1B, CHR 0x08, CHR 0x09] @ '' -=[]'' @
     [CHR 0x5C] @ ''#;'' @ [CHR 0x27, CHR 0x60] @ '',./'')"
definition us_shifted_keys :: "uint8 list" where
  "us_shifted_keys = map of_char (''ABCDEFGHIJKLMNOPQRSTUVWXYZ!@#$%^&*()'' @ [CHR 0x0A, CHR 0x1B, CHR 0x08, CHR 0x09] @ '' _+{}|~:'' @
     [CHR 0x22] @ ''~<>?'')"

definition us_char :: "uint8 \<times> uint8 \<Rightarrow> uint8 option" where
  "us_char stroke =
     (case stroke of (m, k) \<Rightarrow>
        if KC_A \<le> k \<and> k \<le> KC_SLASH
        then (if m = 0 then Some (us_keys ! unat (k - KC_A)) else if m = 2 then Some (us_shifted_keys ! unat (k - KC_A)) else None)
        else if k = 0x4C \<and> m = 0 then Some 127 else None)"

definition us_typable :: "uint8 \<Rightarrow> bool" where
  "us_typable c \<longleftrightarrow> (32 \<le> c \<and> c \<le> 127) \<or> c = 8 \<or> c = 9 \<or> c = 10 \<or> c = 27"

definition us_checked :: "nat \<Rightarrow> bool" where
  "us_checked n \<longleftrightarrow>
     (us_typable (of_nat n) \<longrightarrow>
       (let k = default_keycode_lut ! n; shifted = bit (default_shift_lut ! (n div 8)) (n mod 8)
        in IS_BASIC_KEYCODE k \<and> us_char (if shifted then 2 else 0, k) = Some (of_nat n)))"

lemma us_keys_eval [code]:
  "us_keys = [97, 98, 99, 100, 101, 102, 103, 104, 105, 106, 107, 108, 109, 110, 111, 112, 113, 114, 115, 116, 117, 118, 119, 120,
    121, 122, 49, 50, 51, 52, 53, 54, 55, 56, 57, 48, 10, 27, 8, 9, 32, 45, 61, 91, 93, 92, 35, 59, 39, 96, 44, 46, 47]"
  by code_simp
lemma us_shifted_keys_eval [code]:
  "us_shifted_keys = [65, 66, 67, 68, 69, 70, 71, 72, 73, 74, 75, 76, 77, 78, 79, 80, 81, 82, 83, 84, 85, 86, 87, 88, 89, 90, 33, 64,
    35, 36, 37, 94, 38, 42, 40, 41, 10, 27, 8, 9, 32, 95, 43, 123, 125, 124, 126, 58, 34, 126, 60, 62, 63]"
  by code_simp
lemma default_shift_lut_eval [code]: "default_shift_lut = [0, 0, 0, 0, 0x7E, 0x0F, 0, 0xD4, 255, 255, 255, 0xC7, 0, 0, 0, 0x78]"
  by code_simp

lemma us_tables: "list_all us_checked [0..<128]"
  by code_simp

lemma us_typed:
  assumes "us_typable c"
  shows "c < 128" "c \<noteq> 0" "c \<noteq> 1" "IS_BASIC_KEYCODE (default_keycode_lut ! unat c)"
    "us_char (if bit (default_shift_lut ! (unat c div 8)) (unat c mod 8) then 2 else 0, default_keycode_lut ! unat c) = Some c"
proof -
  show c: "c < 128" "c \<noteq> 0" "c \<noteq> 1" using assms by (auto simp: us_typable_def word_le_nat_alt word_less_nat_alt)
  then have "us_checked (unat c)" using us_tables by (auto simp: list_all_iff word_less_nat_alt)
  then show "IS_BASIC_KEYCODE (default_keycode_lut ! unat c)"
    "us_char (if bit (default_shift_lut ! (unat c div 8)) (unat c mod 8) then 2 else 0, default_keycode_lut ! unat c) = Some c"
    using assms by (simp_all add: us_checked_def Let_def)
qed

lemma default_luts_ok: "luts_ok default_luts"
  by (simp add: luts_ok_def default_luts_def default_shift_lut_def default_altgr_lut_def default_dead_lut_def default_keycode_lut_def)

text \<open>A typable character that is sent is typed: it adds one stroke, and no key or modifier stays down.\<close>

lemma send_char_types:
  assumes q: "quiet cf 0 0 s" and c: "us_typable c" and l: "\<not> LOCKING_SUPPORT_ENABLE cf"
  obtains s' stroke where "send_char_with_delay cf default_luts c interval s = Some s'" "quiet cf 0 0 s'"
    "host_strokes s' = host_strokes s @ [stroke]" "us_char stroke = Some c"
proof -
  define k where "k = default_keycode_lut ! unat c"
  define sh where "sh = bit (default_shift_lut ! (unat c div 8)) (unat c mod 8)"
  note t = us_typed [OF c, folded k_def sh_def]
  have n: "unat c div 8 < 16" using t(1) by (auto simp: word_less_nat_alt)
  have z: "no_entry = 0" by (simp add: no_entry_def KCLUT_ENTRY_def)
  define s' where "s' = type_key cf k sh False False interval s"
  have s': "send_char_with_delay cf default_luts c interval s = Some s'"
    using send_char_defined(2) [OF default_luts_ok t(1)] n z
    by (simp add: s'_def k_def sh_def default_luts_def default_altgr_lut_def default_dead_lut_def)
  let ?m = "if sh then 2 else 0 :: uint8"
  have sft: "IS_MODIFIER_KEYCODE (0xE1 :: uint8)" "MOD_BIT 0xE1 = 2" by (simp_all add: IS_MODIFIER_KEYCODE_def MOD_BIT_def shl1_def)
  define a where "a = (if sh then wait_ms (ucast interval) (register_code cf 0xE1 s) else s)"
  have a: "quiet cf ?m 0 a" "host_strokes a = host_strokes s"
    using quiet_mods(1,2) [OF q sft(1) l] q sft(2) by (simp_all add: a_def)
  define b where "b = wait_ms (ucast interval) (tap_code_delay cf k (ucast interval) a)"
  have b: "quiet cf ?m 0 b" "host_strokes b = host_strokes s @ [(?m, k)]"
    using quiet_tap [OF a(1) t(4) l] a(2) by (simp_all add: b_def)
  have "s' = (if sh then wait_ms (ucast interval) (unregister_code cf 0xE1 b) else b)"
    by (simp add: s'_def type_key_def Let_def a_def b_def)
  then have "quiet cf 0 0 s'" "host_strokes s' = host_strokes s @ [(?m, k)]"
    using quiet_mods(3,4) [OF b(1) sft(1) l] b sft(2) by (simp_all split: if_splits)
  with s' t(5) that show thesis by blast
qed

lemma send_text_types:
  assumes "quiet cf 0 0 s" "list_all us_typable chars" "\<not> LOCKING_SUPPORT_ENABLE cf"
  obtains s' strokes where "send_loop p cf default_luts interval (chars @ 0 # rest) s = Some s'" "quiet cf 0 0 s'"
    "host_strokes s' = host_strokes s @ strokes" "map us_char strokes = map Some chars"
  using assms
proof (induction chars arbitrary: s thesis)
  case Nil
  then show ?case by (simp add: send_loop.simps)
next
  case (Cons c chars)
  have c: "us_typable c" and t: "list_all us_typable chars" using Cons.prems by simp_all
  obtain s1 stroke where h1: "send_char_with_delay cf default_luts c interval s = Some s1" "quiet cf 0 0 s1"
    "host_strokes s1 = host_strokes s @ [stroke]" "us_char stroke = Some c"
    by (rule send_char_types [OF Cons.prems(2) c Cons.prems(4)])
  obtain s' strokes where h2: "send_loop p cf default_luts interval (chars @ 0 # rest) s1 = Some s'" "quiet cf 0 0 s'"
    "host_strokes s' = host_strokes s1 @ strokes" "map us_char strokes = map Some chars"
    by (rule Cons.IH [OF _ h1(2) t Cons.prems(4)])
  have "send_loop p cf default_luts interval ((c # chars) @ 0 # rest) s = Some s'"
    using us_typed(2,3) [OF c] h1(1) h2(1) by (subst send_loop.simps) simp
  then show ?case using Cons.prems(1) [of s' "stroke # strokes"] h1 h2 by simp
qed

end
