(* ===== verification/Unicode.thy ===== *)
theory Unicode
  imports Send_String "HOL-Library.Monad_Syntax"
begin

text \<open>
  Unicode input: the decoder of \<^verbatim>\<open>quantum/unicode/utf8.c\<close>, the input modes of \<^verbatim>\<open>quantum/unicode/unicode.c\<close>, the maps of
  \<^verbatim>\<open>quantum/unicode/unicodemap.c\<close>, the mnemonics of \<^verbatim>\<open>quantum/unicode/ucis.c\<close> and the handlers \<open>process_unicode_common\<close>, \<open>process_unicode\<close>,
  \<open>process_unicodemap\<close> and \<open>process_ucis\<close>. Strings are as in \<open>Send_String\<close>, a read past the memory of one or of a table gives \<open>None\<close>; \<open>char\<close>
  is unsigned, as the builds set it. The songs of the input modes and the debug output are not modelled.
\<close>

subsection \<open>UTF-8\<close>

definition byte_part :: "uint8 \<Rightarrow> uint8 \<Rightarrow> nat \<Rightarrow> int" where
  "byte_part c m n = push_bit n (uint (c AND m))"

fun decode_utf8 :: "uint8 list \<Rightarrow> (int \<times> uint8 list) option" where
  "decode_utf8 [] = None"
| "decode_utf8 (c # str) =
     map_option (\<lambda>(code_point, next). (if 0xD800 \<le> code_point \<and> code_point \<le> 0xDFFF then -1 else code_point, next))
      (if c < 0x80 then Some (uint c, str)
       else if c AND 0xE0 = 0xC0
       then (case str of c1 # next \<Rightarrow> Some (byte_part c 0x1F 6 OR byte_part c1 0x3F 0, next) | _ \<Rightarrow> None)
       else if c AND 0xF0 = 0xE0
       then (case str of c1 # c2 # next \<Rightarrow> Some (byte_part c 0x0F 12 OR byte_part c1 0x3F 6 OR byte_part c2 0x3F 0, next) | _ \<Rightarrow> None)
       else if c AND 0xF8 = 0xF0 \<and> c \<le> 0xF4
       then (case str of
               c1 # c2 # c3 # next \<Rightarrow>
                 Some (byte_part c 0x07 18 OR byte_part c1 0x3F 12 OR byte_part c2 0x3F 6 OR byte_part c3 0x3F 0, next)
             | _ \<Rightarrow> None)
       else Some (-1, str))"

lemma decode_utf8_shorter: "decode_utf8 str = Some (code_point, next) \<Longrightarrow> length next < length str"
  by (cases str) (auto split: if_splits list.splits)

subsection \<open>Input modes\<close>

abbreviation (input) UNICODE_MODE_MACOS :: uint8 where "UNICODE_MODE_MACOS \<equiv> 0"
abbreviation (input) UNICODE_MODE_LINUX :: uint8 where "UNICODE_MODE_LINUX \<equiv> 1"
abbreviation (input) UNICODE_MODE_WINDOWS :: uint8 where "UNICODE_MODE_WINDOWS \<equiv> 2"
abbreviation (input) UNICODE_MODE_BSD :: uint8 where "UNICODE_MODE_BSD \<equiv> 3"
abbreviation (input) UNICODE_MODE_WINCOMPOSE :: uint8 where "UNICODE_MODE_WINCOMPOSE \<equiv> 4"
abbreviation (input) UNICODE_MODE_EMACS :: uint8 where "UNICODE_MODE_EMACS \<equiv> 5"

text \<open>
  The variables of \<^verbatim>\<open>unicode.c\<close> and \<^verbatim>\<open>ucis.c\<close>. \<open>eeconfig_unicodemode\<close> is the byte of the EEPROM that keeps the input mode.
\<close>

record unicode = kbd +
  input_mode :: uint8
  eeconfig_unicodemode :: uint8
  unicode_saved_mods :: uint8
  unicode_saved_led_state :: uint8
  selected_index :: int
  ucis_count :: uint8
  ucis_active :: bool
  ucis_input :: "uint8 list"

text \<open>
  The settings. \<open>selected\<close> is the list \<open>UNICODE_SELECTED_MODES\<close>, empty if it is not defined. A mnemonic is the list of its characters.
\<close>

record 's unicode_config =
  luts :: ascii_luts
  UNICODE_KEY_MAC :: uint8
  UNICODE_KEY_LNX :: uint16
  UNICODE_KEY_WINC :: uint8
  selected :: "uint8 list"
  UNICODE_CYCLE_PERSIST :: bool
  UNICODE_TYPE_DELAY :: uint16
  unicode_input_mode_set_kb :: "uint8 \<Rightarrow> 's \<Rightarrow> 's"
  unicode_map :: "uint32 list"
  ucis_symbol_table :: "(uint8 list \<times> uint32 list) list"

type_synonym 'z unicode_settings = "'z unicode_scheme unicode_config"

text \<open>\<open>for (i = 0; i < selected_count; i++) if (selected[i] == mode) break;\<close>\<close>

fun find_mode :: "uint8 \<Rightarrow> nat \<Rightarrow> uint8 list \<Rightarrow> nat option" where
  "find_mode mode i [] = None"
| "find_mode mode i (m # ms) = (if m = mode then Some i else find_mode mode (i + 1) ms)"

definition unicode_input_mode_init :: "'z unicode_settings \<Rightarrow> 'z unicode_scheme \<Rightarrow> 'z unicode_scheme" where
  "unicode_input_mode_init uc s =
     (let s = s\<lparr>input_mode := eeconfig_unicodemode s\<rparr>;
          s = (if selected uc = [] then s
               else if UNICODE_CYCLE_PERSIST uc
               then (case find_mode (input_mode s) 0 (selected uc) of
                       Some i \<Rightarrow> s\<lparr>selected_index := int i\<rparr>
                     | None \<Rightarrow> s\<lparr>selected_index := 0, input_mode := selected uc ! 0\<rparr>)
               else s\<lparr>selected_index := 0, input_mode := selected uc ! 0\<rparr>)
      in unicode_input_mode_set_kb uc (input_mode s) s)"

definition get_unicode_input_mode :: "'z unicode_scheme \<Rightarrow> uint8" where "get_unicode_input_mode s = input_mode s"

definition persist_unicode_input_mode :: "'z unicode_scheme \<Rightarrow> 'z unicode_scheme" where
  "persist_unicode_input_mode s = s\<lparr>eeconfig_unicodemode := input_mode s\<rparr>"

definition set_unicode_input_mode :: "'z unicode_settings \<Rightarrow> uint8 \<Rightarrow> 'z unicode_scheme \<Rightarrow> 'z unicode_scheme" where
  "set_unicode_input_mode uc mode s = unicode_input_mode_set_kb uc mode (persist_unicode_input_mode (s\<lparr>input_mode := mode\<rparr>))"

text \<open>The remainder has the sign of the dividend, as in C.\<close>

definition c_rem :: "int \<Rightarrow> int \<Rightarrow> int" where "c_rem a b = sgn a * (\<bar>a\<bar> mod \<bar>b\<bar>)"

definition cycle_unicode_input_mode :: "'z unicode_settings \<Rightarrow> int \<Rightarrow> 'z unicode_scheme \<Rightarrow> 'z unicode_scheme" where
  "cycle_unicode_input_mode uc offset s =
     (if selected uc = [] then s
      else let count = int (length (selected uc)); i = c_rem (selected_index s + offset) count; i = (if i < 0 then i + count else i);
               s = s\<lparr>selected_index := i, input_mode := selected uc ! nat i\<rparr>;
               s = (if UNICODE_CYCLE_PERSIST uc then persist_unicode_input_mode s else s)
           in unicode_input_mode_set_kb uc (input_mode s) s)"

definition unicode_input_mode_step :: "'z unicode_settings \<Rightarrow> 'z unicode_scheme \<Rightarrow> 'z unicode_scheme" where
  "unicode_input_mode_step uc s = cycle_unicode_input_mode uc 1 s"
definition unicode_input_mode_step_reverse :: "'z unicode_settings \<Rightarrow> 'z unicode_scheme \<Rightarrow> 'z unicode_scheme" where
  "unicode_input_mode_step_reverse uc s = cycle_unicode_input_mode uc (-1) s"

subsection \<open>Starting and ending an input\<close>

abbreviation (input) num_lock_led :: "uint8 \<Rightarrow> bool" where "num_lock_led l \<equiv> bit l 0"
abbreviation (input) caps_lock_led :: "uint8 \<Rightarrow> bool" where "caps_lock_led l \<equiv> bit l 1"

text \<open>\<open>LCTL(kc)\<close> and \<open>LSFT(kc)\<close>\<close>

abbreviation (input) LCTL :: "uint16 \<Rightarrow> uint16" where "LCTL kc \<equiv> 0x0100 OR kc"
abbreviation (input) LSFT :: "uint16 \<Rightarrow> uint16" where "LSFT kc \<equiv> 0x0200 OR kc"

definition unicode_input_start :: "'z unicode_scheme config \<Rightarrow> 'z unicode_settings \<Rightarrow> 'z unicode_scheme \<Rightarrow> 'z unicode_scheme" where
  "unicode_input_start cf uc s =
     (let s = s\<lparr>unicode_saved_led_state := host_keyboard_leds s\<rparr>;
          s = (if input_mode s = UNICODE_MODE_LINUX \<and> caps_lock_led (unicode_saved_led_state s) then tap_code cf KC_CAPS_LOCK s else s);
          s = s\<lparr>unicode_saved_mods := real_mods s\<rparr>;
          s = clear_weak_mods (clear_mods s);
          s = (if input_mode s = UNICODE_MODE_MACOS then register_code cf (UNICODE_KEY_MAC uc) s
               else if input_mode s = UNICODE_MODE_LINUX then tap_code16 cf (UNICODE_KEY_LNX uc) s
               else if input_mode s = UNICODE_MODE_WINDOWS
               then let s = (if \<not> num_lock_led (unicode_saved_led_state s) then tap_code cf KC_NUM_LOCK s else s)
                    in tap_code cf 0x57 (wait_ms (UNICODE_TYPE_DELAY uc) (register_code cf KC_LEFT_ALT s))
               else if input_mode s = UNICODE_MODE_WINCOMPOSE then tap_code cf 0x18 (tap_code cf (UNICODE_KEY_WINC uc) s)
               else if input_mode s = UNICODE_MODE_EMACS
               then tap_code16 cf 0x28 (tap_code16 cf 0x25 (tap_code16 cf (LCTL 0x1B) s))
               else s)
      in wait_ms (UNICODE_TYPE_DELAY uc) s)"

definition unicode_input_finish :: "'z unicode_scheme config \<Rightarrow> 'z unicode_settings \<Rightarrow> 'z unicode_scheme \<Rightarrow> 'z unicode_scheme" where
  "unicode_input_finish cf uc s =
     (let s = (if input_mode s = UNICODE_MODE_MACOS then unregister_code cf (UNICODE_KEY_MAC uc) s
               else if input_mode s = UNICODE_MODE_LINUX
               then let s = tap_code cf KC_SPACE s
                    in if caps_lock_led (unicode_saved_led_state s) then tap_code cf KC_CAPS_LOCK s else s
               else if input_mode s = UNICODE_MODE_WINDOWS
               then let s = unregister_code cf KC_LEFT_ALT s
                    in if \<not> num_lock_led (unicode_saved_led_state s) then tap_code cf KC_NUM_LOCK s else s
               else if input_mode s = UNICODE_MODE_WINCOMPOSE then tap_code cf 0x28 s
               else if input_mode s = UNICODE_MODE_EMACS then tap_code16 cf 0x28 s
               else s)
      in set_mods (unicode_saved_mods s) s)"

definition unicode_input_cancel :: "'z unicode_scheme config \<Rightarrow> 'z unicode_settings \<Rightarrow> 'z unicode_scheme \<Rightarrow> 'z unicode_scheme" where
  "unicode_input_cancel cf uc s =
     (let s = (if input_mode s = UNICODE_MODE_MACOS then unregister_code cf (UNICODE_KEY_MAC uc) s
               else if input_mode s = UNICODE_MODE_LINUX
               then let s = tap_code cf KC_ESCAPE s
                    in if caps_lock_led (unicode_saved_led_state s) then tap_code cf KC_CAPS_LOCK s else s
               else if input_mode s = UNICODE_MODE_WINCOMPOSE then tap_code cf KC_ESCAPE s
               else if input_mode s = UNICODE_MODE_WINDOWS
               then let s = unregister_code cf KC_LEFT_ALT s
                    in if \<not> num_lock_led (unicode_saved_led_state s) then tap_code cf KC_NUM_LOCK s else s
               else if input_mode s = UNICODE_MODE_EMACS then tap_code16 cf (LCTL 0x0A) s
               else s)
      in set_mods (unicode_saved_mods s) s)"

subsection \<open>Code points\<close>

definition send_nibble_wrapper ::
    "'z unicode_scheme config \<Rightarrow> 'z unicode_settings \<Rightarrow> uint8 \<Rightarrow> 'z unicode_scheme \<Rightarrow> 'z unicode_scheme option" where
  "send_nibble_wrapper cf uc digit s =
     (if input_mode s = UNICODE_MODE_WINDOWS
      then Some (tap_code cf (if digit < 10 then 0x59 + (10 + digit - 1) mod 10 else KC_A + (digit - 10)) s)
      else send_nibble cf (luts uc) digit s)"

definition register_hex :: "'z unicode_scheme config \<Rightarrow> 'z unicode_settings \<Rightarrow> uint16 \<Rightarrow> 'z unicode_scheme \<Rightarrow> 'z unicode_scheme option" where
  "register_hex cf uc hex s =
     fold (\<lambda>i s. s \<bind> send_nibble_wrapper cf uc (ucast (drop_bit (i * 4) hex AND 0xF))) [3, 2, 1, 0] (Some s)"

text \<open>The loop of \<open>register_hex32\<close> over the positions \<open>is\<close>.\<close>

fun hex32_loop ::
    "'z unicode_scheme config \<Rightarrow> 'z unicode_settings \<Rightarrow> uint32 \<Rightarrow> bool \<Rightarrow> nat list \<Rightarrow> bool \<Rightarrow> 'z unicode_scheme \<Rightarrow> 'z unicode_scheme option" where
  "hex32_loop cf uc hex needs_leading_zero [] first_digit s = Some s"
| "hex32_loop cf uc hex needs_leading_zero (i # is) first_digit s =
     (let digit = ucast (drop_bit (i * 4) hex AND 0xF) :: uint8
      in do {
        s \<leftarrow> (if first_digit \<and> needs_leading_zero \<and> 9 < digit then send_nibble_wrapper cf uc 0 s else Some s);
        if digit \<noteq> 0 \<or> \<not> first_digit \<or> i < 4
        then do { s \<leftarrow> send_nibble_wrapper cf uc digit s; hex32_loop cf uc hex needs_leading_zero is False s }
        else hex32_loop cf uc hex needs_leading_zero is first_digit s
      })"

definition register_hex32 :: "'z unicode_scheme config \<Rightarrow> 'z unicode_settings \<Rightarrow> uint32 \<Rightarrow> 'z unicode_scheme \<Rightarrow> 'z unicode_scheme option" where
  "register_hex32 cf uc hex s = hex32_loop cf uc hex (input_mode s = UNICODE_MODE_WINCOMPOSE) [7, 6, 5, 4, 3, 2, 1, 0] True s"

definition register_unicode :: "'z unicode_scheme config \<Rightarrow> 'z unicode_settings \<Rightarrow> uint32 \<Rightarrow> 'z unicode_scheme \<Rightarrow> 'z unicode_scheme option" where
  "register_unicode cf uc code_point s =
     (if 0x10FFFF < code_point \<or> (0xFFFF < code_point \<and> input_mode s = UNICODE_MODE_WINDOWS) then Some s
      else do {
        let s = unicode_input_start cf uc s;
        s \<leftarrow> (if 0xFFFF < code_point \<and> input_mode s = UNICODE_MODE_MACOS
              then let code_point = code_point - 0x10000; lo = code_point AND 0x3FF; hi = drop_bit 10 (code_point AND 0xFFC00)
                   in do { s \<leftarrow> register_hex32 cf uc (hi + 0xD800) s; register_hex32 cf uc (lo + 0xDC00) s }
              else register_hex32 cf uc code_point s);
        Some (unicode_input_finish cf uc s)
      })"

function send_unicode_string ::
    "'z unicode_scheme config \<Rightarrow> 'z unicode_settings \<Rightarrow> uint8 list \<Rightarrow> 'z unicode_scheme \<Rightarrow> 'z unicode_scheme option" where
  "send_unicode_string cf uc str s =
     (case str of
        [] \<Rightarrow> None
      | c # _ \<Rightarrow>
          if c = 0 then Some s
          else (case decode_utf8 str of
                  None \<Rightarrow> None
                | Some (code_point, next) \<Rightarrow>
                    (case (if 0 \<le> code_point then register_unicode cf uc (word_of_int code_point) s else Some s) of
                       None \<Rightarrow> None
                     | Some s \<Rightarrow> send_unicode_string cf uc next s)))"
  by pat_completeness auto
termination
  by (relation "measure (\<lambda>(_, _, str, _). length str)") (auto simp del: decode_utf8.simps dest: decode_utf8_shorter)

declare send_unicode_string.simps [simp del]

subsection \<open>Unicode maps\<close>

abbreviation (input) QK_UNICODEMAP :: uint16 where "QK_UNICODEMAP \<equiv> 0x8000"
abbreviation (input) QK_UNICODEMAP_PAIR :: uint16 where "QK_UNICODEMAP_PAIR \<equiv> 0xC000"
abbreviation (input) QK_UNICODEMAP_PAIR_MAX :: uint16 where "QK_UNICODEMAP_PAIR_MAX \<equiv> 0xFFFF"
abbreviation (input) QK_UNICODE :: uint16 where "QK_UNICODE \<equiv> 0x8000"
abbreviation (input) QK_UNICODE_MAX :: uint16 where "QK_UNICODE_MAX \<equiv> 0xFFFF"

definition UM :: "uint16 \<Rightarrow> uint16" where "UM i = QK_UNICODEMAP OR (i AND 0x3FFF)"
definition UP :: "uint16 \<Rightarrow> uint16 \<Rightarrow> uint16" where "UP i j = QK_UNICODEMAP_PAIR OR (i AND 0x7F) OR push_bit 7 (j AND 0x7F)"
definition QK_UNICODEMAP_GET_INDEX :: "uint16 \<Rightarrow> uint16" where "QK_UNICODEMAP_GET_INDEX kc = kc AND 0x3FFF"
definition QK_UNICODEMAP_PAIR_GET_UNSHIFTED_INDEX :: "uint16 \<Rightarrow> uint16" where "QK_UNICODEMAP_PAIR_GET_UNSHIFTED_INDEX kc = kc AND 0x7F"
definition QK_UNICODEMAP_PAIR_GET_SHIFTED_INDEX :: "uint16 \<Rightarrow> uint16" where
  "QK_UNICODEMAP_PAIR_GET_SHIFTED_INDEX kc = drop_bit 7 kc AND 0x7F"
definition QK_UNICODE_GET_CODE_POINT :: "uint16 \<Rightarrow> uint16" where "QK_UNICODE_GET_CODE_POINT kc = kc AND 0x7FFF"

text \<open>The index is returned as an 8-bit number.\<close>

definition unicodemap_index :: "uint16 \<Rightarrow> 'z kbd_scheme \<Rightarrow> uint8" where
  "unicodemap_index kc s =
     (if QK_UNICODEMAP_PAIR \<le> kc
      then let mods = real_mods s OR weak_mods s OR oneshot_mods s; shift = mods AND MOD_MASK_SHIFT \<noteq> 0;
               caps = caps_lock_led (host_keyboard_leds s)
           in ucast (if shift \<noteq> caps then QK_UNICODEMAP_PAIR_GET_SHIFTED_INDEX kc else QK_UNICODEMAP_PAIR_GET_UNSHIFTED_INDEX kc)
      else ucast (QK_UNICODEMAP_GET_INDEX kc))"

definition unicodemap_get_code_point :: "'z unicode_settings \<Rightarrow> uint8 \<Rightarrow> uint32 option" where
  "unicodemap_get_code_point uc index = (if unat index < length (unicode_map uc) then Some (unicode_map uc ! unat index) else None)"

definition register_unicodemap :: "'z unicode_scheme config \<Rightarrow> 'z unicode_settings \<Rightarrow> uint8 \<Rightarrow> 'z unicode_scheme \<Rightarrow> 'z unicode_scheme option" where
  "register_unicodemap cf uc index s =
     do { code_point \<leftarrow> unicodemap_get_code_point uc index; register_unicode cf uc code_point s }"

subsection \<open>Mnemonics\<close>

text \<open>The symbol table has at most 255 entries, as its index has 8 bits.\<close>

definition UCIS_MAX_INPUT_LENGTH :: nat where "UCIS_MAX_INPUT_LENGTH = 32"
definition UCIS_MAX_CODE_POINTS :: nat where "UCIS_MAX_CODE_POINTS = 3"

definition ucis_start :: "'z unicode_scheme config \<Rightarrow> 'z unicode_settings \<Rightarrow> 'z unicode_scheme \<Rightarrow> 'z unicode_scheme option" where
  "ucis_start cf uc s = register_unicode cf uc 0x2328 (s\<lparr>ucis_count := 0, ucis_active := True\<rparr>)"

definition keycode_to_char :: "uint16 \<Rightarrow> uint8" where
  "keycode_to_char kc =
     (if KC_A \<le> kc \<and> kc \<le> KC_Z then ucast (97 + (kc - KC_A)) else if 0x1E \<le> kc \<and> kc \<le> 0x26 then ucast (49 + (kc - 0x1E))
      else if kc = 0x27 then 48 else 0)"

definition ucis_add :: "uint16 \<Rightarrow> 'z unicode_scheme \<Rightarrow> (bool \<times> 'z unicode_scheme) option" where
  "ucis_add kc s =
     (let c = keycode_to_char kc
      in if c \<noteq> 0
         then (if unat (ucis_count s) < length (ucis_input s)
               then Some (True, s\<lparr>ucis_input := (ucis_input s)[unat (ucis_count s) := c], ucis_count := ucis_count s + 1\<rparr>)
               else None)
         else Some (False, s))"

definition ucis_remove_last :: "'z unicode_scheme \<Rightarrow> bool \<times> 'z unicode_scheme" where
  "ucis_remove_last s = (if ucis_count s \<noteq> 0 then (True, s\<lparr>ucis_count := ucis_count s - 1\<rparr>) else (False, s))"

text \<open>\<open>match_mnemonic\<close> from position \<open>i\<close> on: the rest of the input array and of the mnemonic, whose end reads as 0.\<close>

fun match_from :: "nat \<Rightarrow> nat \<Rightarrow> uint8 list \<Rightarrow> uint8 list \<Rightarrow> bool option" where
  "match_from n i [] mnemonic = None"
| "match_from n i (c # input) mnemonic =
     (if c = 0 then Some True
      else if n < i \<or> c \<noteq> (case mnemonic of [] \<Rightarrow> 0 | m # _ \<Rightarrow> m) then Some False
      else match_from n (i + 1) input (tl mnemonic))"

definition match_mnemonic :: "uint8 list \<Rightarrow> 'z unicode_scheme \<Rightarrow> bool option" where
  "match_mnemonic mnemonic s = match_from (unat (ucis_count s)) 0 (ucis_input s) mnemonic"

fun find_mnemonic :: "'z unicode_scheme \<Rightarrow> nat \<Rightarrow> (uint8 list \<times> uint32 list) list \<Rightarrow> nat option option" where
  "find_mnemonic s i [] = Some None"
| "find_mnemonic s i ((mnemonic, code_points) # table) =
     do { found \<leftarrow> match_mnemonic mnemonic s; if found then Some (Some i) else find_mnemonic s (i + 1) table }"

definition register_ucis :: "'z unicode_scheme config \<Rightarrow> 'z unicode_settings \<Rightarrow> nat \<Rightarrow> 'z unicode_scheme \<Rightarrow> 'z unicode_scheme option" where
  "register_ucis cf uc index s =
     fold (\<lambda>code_point s. s \<bind> register_unicode cf uc code_point)
       (takeWhile (\<lambda>code_point. code_point \<noteq> 0) (take UCIS_MAX_CODE_POINTS (snd (ucis_symbol_table uc ! index)))) (Some s)"

definition ucis_finish :: "'z unicode_scheme config \<Rightarrow> 'z unicode_settings \<Rightarrow> 'z unicode_scheme \<Rightarrow> 'z unicode_scheme option" where
  "ucis_finish cf uc s =
     do {
       found \<leftarrow> find_mnemonic s 0 (ucis_symbol_table uc);
       s \<leftarrow> (case found of
               None \<Rightarrow> Some s
             | Some i \<Rightarrow> register_ucis cf uc i (fold (\<lambda>_. tap_code cf KC_BACKSPACE) [0..<unat (ucis_count s) + 1] s));
       Some (s\<lparr>ucis_active := False\<rparr>)
     }"

definition ucis_cancel :: "'z unicode_scheme \<Rightarrow> 'z unicode_scheme" where
  "ucis_cancel s = s\<lparr>ucis_count := 0, ucis_active := False\<rparr>"

subsection \<open>Handlers\<close>

definition process_unicode ::
    "'z unicode_scheme config \<Rightarrow> 'z unicode_settings \<Rightarrow> uint16 \<Rightarrow> keyrecord_t \<Rightarrow> 'z unicode_scheme \<Rightarrow> (bool \<times> 'z unicode_scheme) option" where
  "process_unicode cf uc kc r s =
     (if pressed (event r) \<and> QK_UNICODE \<le> kc \<and> kc \<le> QK_UNICODE_MAX
      then map_option (Pair True) (register_unicode cf uc (ucast (QK_UNICODE_GET_CODE_POINT kc)) s) else Some (True, s))"

definition process_unicodemap ::
    "'z unicode_scheme config \<Rightarrow> 'z unicode_settings \<Rightarrow> uint16 \<Rightarrow> keyrecord_t \<Rightarrow> 'z unicode_scheme \<Rightarrow> (bool \<times> 'z unicode_scheme) option" where
  "process_unicodemap cf uc kc r s =
     (if QK_UNICODEMAP \<le> kc \<and> kc \<le> QK_UNICODEMAP_PAIR_MAX \<and> pressed (event r)
      then map_option (Pair True) (register_unicodemap cf uc (unicodemap_index kc s) s) else Some (True, s))"

definition process_ucis ::
    "'z unicode_scheme config \<Rightarrow> 'z unicode_settings \<Rightarrow> uint16 \<Rightarrow> keyrecord_t \<Rightarrow> 'z unicode_scheme \<Rightarrow> (bool \<times> 'z unicode_scheme) option" where
  "process_ucis cf uc kc r s =
     (if ucis_active s \<and> pressed (event r)
      then let special = (kc = KC_SPACE \<or> kc = 0x28 \<or> kc = KC_ESCAPE \<or> kc = KC_BACKSPACE)
           in if UCIS_MAX_INPUT_LENGTH \<le> unat (ucis_count s) \<and> \<not> special then Some (False, s)
              else do {
                (added, s) \<leftarrow> ucis_add kc s;
                if added then Some (True, s)
                else if kc = KC_BACKSPACE then Some (ucis_remove_last s)
                else if kc = KC_ESCAPE then Some (False, ucis_cancel s)
                else if kc = KC_SPACE \<or> kc = 0x28 then map_option (Pair False) (ucis_finish cf uc s)
                else Some (True, s)
              }
      else Some (True, s))"

datatype unicode_method = UNICODE_ENABLE | UNICODEMAP_ENABLE | UCIS_ENABLE

definition process_unicode_common ::
    "unicode_method option \<Rightarrow> 'z unicode_scheme config \<Rightarrow> 'z unicode_settings \<Rightarrow> uint16 \<Rightarrow> keyrecord_t \<Rightarrow> 'z unicode_scheme
     \<Rightarrow> (bool \<times> 'z unicode_scheme) option" where
  "process_unicode_common enabled cf uc kc r s =
     (let shifted = real_mods s AND MOD_MASK_SHIFT \<noteq> 0;
          s = (if pressed (event r)
               then (if kc = 0x7C30
                     then (if shifted then unicode_input_mode_step_reverse uc s else unicode_input_mode_step uc s)
                     else if kc = 0x7C31
                     then (if shifted then unicode_input_mode_step uc s else unicode_input_mode_step_reverse uc s)
                     else if kc = 0x7C32 then set_unicode_input_mode uc UNICODE_MODE_MACOS s
                     else if kc = 0x7C33 then set_unicode_input_mode uc UNICODE_MODE_LINUX s
                     else if kc = 0x7C34 then set_unicode_input_mode uc UNICODE_MODE_WINDOWS s
                     else if kc = 0x7C35 then set_unicode_input_mode uc UNICODE_MODE_BSD s
                     else if kc = 0x7C36 then set_unicode_input_mode uc UNICODE_MODE_WINCOMPOSE s
                     else if kc = 0x7C37 then set_unicode_input_mode uc UNICODE_MODE_EMACS s
                     else s)
               else s)
      in case enabled of
           None \<Rightarrow> Some (True, s)
         | Some UNICODE_ENABLE \<Rightarrow> process_unicode cf uc kc r s
         | Some UNICODEMAP_ENABLE \<Rightarrow> process_unicodemap cf uc kc r s
         | Some UCIS_ENABLE \<Rightarrow> process_ucis cf uc kc r s)"

end
