(* ===== verification/Unicode_Props.thy ===== *)
theory Unicode_Props
  imports Unicode Feature_Props
begin

text \<open>
  What Unicode input sends: the decoder of UTF-8 against the encoding, the digits of a code point, the strokes of the input mode for Linux, and
  the comparison of mnemonics.
\<close>

subsection \<open>UTF-8\<close>

definition utf8_encode :: "nat \<Rightarrow> uint8 list" where
  "utf8_encode cp =
     (if cp < 0x80 then [of_nat cp]
      else if cp < 0x800 then [of_nat (0xC0 + cp div 64), of_nat (0x80 + cp mod 64)]
      else if cp < 0x10000 then [of_nat (0xE0 + cp div 4096), of_nat (0x80 + cp div 64 mod 64), of_nat (0x80 + cp mod 64)]
      else [of_nat (0xF0 + cp div 262144), of_nat (0x80 + cp div 4096 mod 64), of_nat (0x80 + cp div 64 mod 64), of_nat (0x80 + cp mod 64)])"

definition scalar_value :: "nat \<Rightarrow> bool" where
  "scalar_value cp \<longleftrightarrow> cp \<le> 0x10FFFF \<and> \<not> (0xD800 \<le> cp \<and> cp \<le> 0xDFFF)"

lemma lead_bytes:
  "list_all (\<lambda>a. let c = of_nat (0xC0 + a) :: uint8 in \<not> c < 0x80 \<and> c AND 0xE0 = 0xC0 \<and> uint (c AND 0x1F) = int a) [0..<32]"
  "list_all (\<lambda>a. let c = of_nat (0xE0 + a) :: uint8
     in \<not> c < 0x80 \<and> c AND 0xE0 \<noteq> 0xC0 \<and> c AND 0xF0 = 0xE0 \<and> uint (c AND 0x0F) = int a) [0..<16]"
  "list_all (\<lambda>a. let c = of_nat (0xF0 + a) :: uint8
     in \<not> c < 0x80 \<and> c AND 0xE0 \<noteq> 0xC0 \<and> c AND 0xF0 \<noteq> 0xE0 \<and> c AND 0xF8 = 0xF0 \<and> c \<le> 0xF4 \<and> uint (c AND 0x07) = int a) [0..<5]"
  "list_all (\<lambda>a. uint (of_nat (0x80 + a) AND 0x3F :: uint8) = int a) [0..<64]"
  by code_simp+

lemma part_or: "0 \<le> b \<Longrightarrow> b < 2 ^ n \<Longrightarrow> push_bit n a OR b = 2 ^ n * a + (b :: int)"
proof -
  assume "0 \<le> b" "b < 2 ^ n"
  then have b: "b = take_bit n b" by (simp add: take_bit_int_eq_self)
  have "push_bit n a AND take_bit n b = 0" by (auto simp: bit_eq_iff bit_simps)
  then have "push_bit n a AND b = 0" using b by simp
  then show ?thesis by (simp add: disjunctive_add_eq_or [symmetric] push_bit_eq_mult mult.commute)
qed

lemma parts_join: "push_bit n (int (x div 2 ^ n)) OR int (x mod 2 ^ n) = int x"
proof -
  have "int (x mod 2 ^ n) < int (2 ^ n)" by (simp only: of_nat_less_iff) simp
  then have "push_bit n (int (x div 2 ^ n)) OR int (x mod 2 ^ n) = 2 ^ n * int (x div 2 ^ n) + int (x mod 2 ^ n)" by (simp add: part_or)
  also have "\<dots> = int (2 ^ n * (x div 2 ^ n) + x mod 2 ^ n)" by (simp only: of_nat_add of_nat_mult of_nat_power of_nat_numeral)
  finally show ?thesis unfolding mult_div_mod_eq .
qed

lemma lead_byte_facts:
  "a < 32 \<Longrightarrow> \<not> (of_nat (0xC0 + a) :: uint8) < 0x80 \<and> (of_nat (0xC0 + a) :: uint8) AND 0xE0 = 0xC0
     \<and> byte_part (of_nat (0xC0 + a)) 0x1F n = push_bit n (int a)"
  "a < 16 \<Longrightarrow> \<not> (of_nat (0xE0 + a) :: uint8) < 0x80 \<and> (of_nat (0xE0 + a) :: uint8) AND 0xE0 \<noteq> 0xC0
     \<and> (of_nat (0xE0 + a) :: uint8) AND 0xF0 = 0xE0 \<and> byte_part (of_nat (0xE0 + a)) 0x0F n = push_bit n (int a)"
  "a < 5 \<Longrightarrow> \<not> (of_nat (0xF0 + a) :: uint8) < 0x80 \<and> (of_nat (0xF0 + a) :: uint8) AND 0xE0 \<noteq> 0xC0
     \<and> (of_nat (0xF0 + a) :: uint8) AND 0xF0 \<noteq> 0xE0 \<and> (of_nat (0xF0 + a) :: uint8) AND 0xF8 = 0xF0
     \<and> (of_nat (0xF0 + a) :: uint8) \<le> 0xF4 \<and> byte_part (of_nat (0xF0 + a)) 0x07 n = push_bit n (int a)"
  "a < 64 \<Longrightarrow> byte_part (of_nat (0x80 + a)) 0x3F n = push_bit n (int a)"
  using lead_bytes unfolding list_all_iff Let_def byte_part_def by (simp_all del: of_nat_add)

lemma low_parts:
  "(cp :: nat) mod 4096 mod 64 = cp mod 64" "cp mod 4096 div 64 = cp div 64 mod 64"
  "cp mod 262144 mod 4096 = cp mod 4096" "cp mod 262144 div 4096 = cp div 4096 mod 64"
proof -
  show "cp mod 4096 mod 64 = cp mod 64" "cp mod 262144 mod 4096 = cp mod 4096" by (simp_all add: mod_mod_cancel)
  show "cp mod 4096 div 64 = cp div 64 mod 64" using mod_mult2_eq [of cp 64 64] by simp
  show "cp mod 262144 div 4096 = cp div 4096 mod 64" using mod_mult2_eq [of cp 4096 64] by simp
qed

lemma decode_encode:
  assumes "scalar_value cp"
  shows "decode_utf8 (utf8_encode cp @ rest) = Some (int cp, rest)"
proof -
  have a: "cp \<le> 0x10FFFF" "\<not> (0xD800 \<le> int cp \<and> int cp \<le> 0xDFFF)" using assms by (auto simp: scalar_value_def)
  consider "cp < 0x80" | "\<not> cp < 0x80" "cp < 0x800" | "\<not> cp < 0x800" "cp < 0x10000" | "\<not> cp < 0x10000" by linarith
  then show ?thesis
  proof cases
    case 1
    then have "(of_nat cp :: uint8) < 0x80" "uint (of_nat cp :: uint8) = int cp"
      by (simp_all add: word_less_nat_alt unat_of_nat_small uint_nat)
    then show ?thesis using 1 a by (simp add: utf8_encode_def)
  next
    case 2
    have "cp div 64 < 32" using 2 by simp
    note l = lead_byte_facts(1) [OF this] lead_byte_facts(4) [of "cp mod 64"]
    then show ?thesis using 2 a l parts_join [of 6 cp] by (simp add: utf8_encode_def del: of_nat_add)
  next
    case 3
    have "cp div 4096 < 16" using 3 by simp
    note l = lead_byte_facts(2) [OF this] lead_byte_facts(4) [of "cp mod 64"] lead_byte_facts(4) [of "cp div 64 mod 64"]
    show ?thesis using 3 a l parts_join [of 6 "cp mod 4096"] parts_join [of 12 cp]
      by (simp add: utf8_encode_def low_parts del: of_nat_add)
  next
    case 4
    have "cp div 262144 < 5" using 4 a by simp
    note l = lead_byte_facts(3) [OF this] lead_byte_facts(4) [of "cp mod 64"] lead_byte_facts(4) [of "cp div 64 mod 64"]
      lead_byte_facts(4) [of "cp div 4096 mod 64"]
    show ?thesis using 4 a l parts_join [of 6 "cp mod 4096"] parts_join [of 12 "cp mod 262144"] parts_join [of 18 cp]
      by (simp add: utf8_encode_def low_parts del: of_nat_add)
  qed
qed

text \<open>The code points of a text are sent one after the other.\<close>

lemma send_none: "fold (\<lambda>cp s. s \<bind> register_unicode cf uc (of_nat cp)) cps None = None"
  by (induction cps) simp_all

lemma encode_start: "scalar_value cp \<Longrightarrow> cp \<noteq> 0 \<Longrightarrow> \<exists>c str. utf8_encode cp = c # str \<and> c \<noteq> 0"
proof -
  assume a: "scalar_value cp" "cp \<noteq> 0"
  have z: "(of_nat n :: uint8) \<noteq> 0" if "n \<noteq> 0" "n < 256" for n using that unat_of_nat_small [of n, where 'a = 8] by auto
  have "cp div 262144 \<le> 4" using a div_le_mono [of cp 1114111 262144] by (simp add: scalar_value_def)
  then show ?thesis using a z by (auto simp: utf8_encode_def simp del: of_nat_add)
qed

lemma send_encoded:
  assumes "list_all (\<lambda>cp. scalar_value cp \<and> cp \<noteq> 0) cps"
  shows "send_unicode_string cf uc (concat (map utf8_encode cps) @ 0 # rest) s =
    fold (\<lambda>cp s. s \<bind> register_unicode cf uc (of_nat cp)) cps (Some s)"
  using assms
proof (induction cps arbitrary: s)
  case (Cons cp cps)
  have cp: "scalar_value cp" "cp \<noteq> 0" using Cons.prems by simp_all
  obtain c str where c: "utf8_encode cp = c # str" "c \<noteq> 0" using encode_start [OF cp] by blast
  show ?case
    using decode_encode [OF cp(1), of "concat (map utf8_encode cps) @ 0 # rest"] c Cons
    by (subst send_unicode_string.simps)
      (auto simp: send_none simp del: decode_utf8.simps split: option.split)
qed (simp add: send_unicode_string.simps)

subsection \<open>Hexadecimal digits\<close>

definition digit_at :: "uint32 \<Rightarrow> nat \<Rightarrow> uint8" where "digit_at hex i = ucast (drop_bit (i * 4) hex AND 0xF)"

fun sent_digits :: "uint32 \<Rightarrow> nat list \<Rightarrow> bool \<Rightarrow> uint8 list" where
  "sent_digits hex [] first = []"
| "sent_digits hex (i # is) first =
     (if digit_at hex i \<noteq> 0 \<or> \<not> first \<or> i < 4 then digit_at hex i # sent_digits hex is False else sent_digits hex is first)"

definition hex_number :: "nat \<Rightarrow> uint8 list \<Rightarrow> nat" where "hex_number n ds = foldl (\<lambda>n d. n * 16 + unat d) n ds"

lemma unat_digit_at: "unat (digit_at hex i) = unat hex div 16 ^ i mod 16"
proof -
  have "n AND 15 = n mod 16" for n :: nat
    using take_bit_eq_mask [of 4 n] by (simp add: take_bit_eq_mod mask_eq_exp_minus_1)
  moreover have "2 ^ (i * 4) = (16 :: nat) ^ i" by (simp add: mult.commute [of i] power_mult)
  moreover have "unat (drop_bit (i * 4) hex) = unat hex div 2 ^ (i * 4)" by (subst unat_drop_bit_eq) (rule drop_bit_eq_div)
  ultimately have "unat (drop_bit (i * 4) hex AND 0xF) = unat hex div 16 ^ i mod 16" by (simp add: unsigned_and_eq)
  then show ?thesis by (simp add: digit_at_def unsigned_ucast_eq take_bit_eq_mod)
qed

lemma sent_digits_small: "d \<in> set (sent_digits hex is first) \<Longrightarrow> d < 16"
  by (induction "is" arbitrary: first) (auto simp: word_less_nat_alt unat_digit_at split: if_splits)

lemma sent_number:
  assumes "first \<Longrightarrow> unat hex div 16 ^ n = 0"
  shows "hex_number (unat hex div 16 ^ n) (sent_digits hex (rev [0..<n]) first) = unat hex"
  using assms
proof (induction n arbitrary: first)
  case (Suc n)
  have "unat hex div 16 ^ Suc n = unat hex div 16 ^ n div 16" by (simp add: div_mult2_eq [symmetric] mult.commute)
  then have v: "unat hex div 16 ^ Suc n * 16 + unat (digit_at hex n) = unat hex div 16 ^ n"
    by (simp only: unat_digit_at div_mult_mod_eq)
  show ?case
  proof (cases "digit_at hex n \<noteq> 0 \<or> \<not> first \<or> n < 4")
    case True
    then show ?thesis using Suc.IH [of False] v by (simp add: hex_number_def)
  next
    case False
    then have "unat hex div 16 ^ n = 0" "unat hex div 16 ^ Suc n = 0" using v Suc.prems by auto
    then show ?thesis using Suc.IH [of first] False by (auto simp: hex_number_def)
  qed
qed (simp add: hex_number_def)

subsection \<open>The action code leaves the state of the input alone\<close>

lemma unicode_fields:
  assumes "kbd.more s = kbd.more t"
  shows "input_mode s = input_mode t" "unicode_saved_mods s = unicode_saved_mods t" "unicode_saved_led_state s = unicode_saved_led_state t"
  using assms by (cases s; cases t; simp)+

lemma code_more [simp]:
  "kbd.more (register_code cf k s) = kbd.more s" "kbd.more (unregister_code cf k s) = kbd.more s" "kbd.more (wait_ms d s) = kbd.more s"
  by (simp_all add: features_frame.register_code_kept wait_ms_def)

lemma tap_more [simp]:
  "kbd.more (tap_code_delay cf k d s) = kbd.more s" "kbd.more (tap_code cf k s) = kbd.more s"
  by (simp_all add: tap_code_delay_def tap_code_def)

lemma wait_fold: "fold (\<lambda>_. wait_ms 1) [0..<n] s = wait_ms (of_nat n) s"
  by (induction n) (simp_all add: wait_ms_def algebra_simps)

lemma weak_mods_more [simp]:
  "kbd.more (register_weak_mods cf k s) = kbd.more s" "kbd.more (unregister_weak_mods cf k s) = kbd.more s"
  by (simp_all add: register_weak_mods_def unregister_weak_mods_def features_frame.send add_weak_mods_def del_weak_mods_def)

lemma type_key_more: "kbd.more (type_key cf k sh ag dead interval s) = kbd.more s"
  by (simp add: type_key_def Let_def)

lemma send_char_more: "send_char_with_delay cf lt c interval s = Some s' \<Longrightarrow> kbd.more s' = kbd.more s"
  by (auto simp: send_char_with_delay_def type_key_more split: option.splits)

lemma quiet_fields [simp]:
  "quiet cf m w (s\<lparr>unicode_saved_mods := x\<rparr>) = quiet cf m w s" "quiet cf m w (s\<lparr>unicode_saved_led_state := x\<rparr>) = quiet cf m w s"
  by (simp_all add: quiet_def inv_defs is_key_pressed_def)

lemma strokes_fields [simp]:
  "host_strokes (s\<lparr>unicode_saved_mods := x\<rparr>) = host_strokes s" "host_strokes (s\<lparr>unicode_saved_led_state := x\<rparr>) = host_strokes s"
  by (simp_all add: host_strokes_def)

lemma quiet_set_mods: "quiet cf m w s \<Longrightarrow> quiet cf m' w' (s\<lparr>real_mods := m', weak_mods := w'\<rparr>)"
proof -
  let ?s = "s\<lparr>real_mods := m', weak_mods := w'\<rparr>"
  have "is_key_pressed k ?s = is_key_pressed k s" for k by (rule pressed_cong) (simp_all add: use_nkro_def)
  moreover have "kbd_inv cf ?s = kbd_inv cf s" by (simp add: inv_defs)
  ultimately show "quiet cf m w s \<Longrightarrow> quiet cf m' w' ?s" by (simp add: quiet_def)
qed

subsection \<open>The digits that are typed\<close>

definition hex_char :: "uint8 \<Rightarrow> uint8" where "hex_char d = (if d \<le> 9 then d + 48 else d - 10 + 97)"

lemma hex_char_typable: "d < 16 \<Longrightarrow> us_typable (hex_char d) \<and> d AND 0xF = d"
proof -
  assume "d < 16"
  then have "d \<in> set (map of_nat [0..<16])" by (auto simp: word_less_nat_alt intro!: image_eqI [of _ _ "unat d"])
  moreover have "list_all (\<lambda>d. us_typable (hex_char d) \<and> d AND 0xF = d) (map of_nat [0..<16])" by code_simp
  ultimately show ?thesis unfolding list_all_iff by blast
qed

definition plain_input :: "'z unicode_scheme config \<Rightarrow> 'z unicode_settings \<Rightarrow> bool" where
  "plain_input cf uc \<longleftrightarrow> luts uc = default_luts \<and> \<not> LOCKING_SUPPORT_ENABLE cf \<and> UNICODE_KEY_LNX uc = LCTL (LSFT 0x18)"

lemma nibble_types:
  assumes "plain_input cf uc" "quiet cf 0 0 s" "d < 16" "input_mode s \<noteq> UNICODE_MODE_WINDOWS"
  obtains s' stroke where "send_nibble_wrapper cf uc d s = Some s'" "quiet cf 0 0 s'" "kbd.more s' = kbd.more s"
    "host_strokes s' = host_strokes s @ [stroke]" "us_char stroke = Some (hex_char d)"
proof -
  have p: "luts uc = default_luts" "\<not> LOCKING_SUPPORT_ENABLE cf" using assms(1) by (simp_all add: plain_input_def)
  have "send_nibble_wrapper cf uc d s = send_char cf default_luts (hex_char d) s"
    using assms(4) p hex_char_typable [OF assms(3)] by (simp add: send_nibble_wrapper_def send_nibble_def hex_char_def)
  moreover obtain s' stroke where "send_char cf default_luts (hex_char d) s = Some s'" "quiet cf 0 0 s'"
    "host_strokes s' = host_strokes s @ [stroke]" "us_char stroke = Some (hex_char d)"
    unfolding send_char_def using hex_char_typable [OF assms(3)] send_char_types [OF assms(2) _ p(2)] by blast
  ultimately show thesis using that send_char_more unfolding send_char_def by metis
qed

lemma hex32_types:
  assumes "plain_input cf uc" "quiet cf 0 0 s" "input_mode s \<noteq> UNICODE_MODE_WINDOWS"
  obtains s' strokes where "hex32_loop cf uc hex False is first s = Some s'" "quiet cf 0 0 s'" "kbd.more s' = kbd.more s"
    "host_strokes s' = host_strokes s @ strokes" "map us_char strokes = map (\<lambda>d. Some (hex_char d)) (sent_digits hex is first)"
  using assms(2,3)
proof (induction "is" arbitrary: s first thesis)
  case (Cons i "is")
  note digit_at_def [symmetric, simp]
  show ?case
  proof (cases "digit_at hex i \<noteq> 0 \<or> \<not> first \<or> i < 4")
    case True
    have "digit_at hex i < 16" by (simp add: word_less_nat_alt unat_digit_at)
    then obtain s1 stroke where h1: "send_nibble_wrapper cf uc (digit_at hex i) s = Some s1" "quiet cf 0 0 s1" "kbd.more s1 = kbd.more s"
      "host_strokes s1 = host_strokes s @ [stroke]" "us_char stroke = Some (hex_char (digit_at hex i))"
      using nibble_types [OF assms(1) Cons.prems(2) _ Cons.prems(3)] by blast
    have "input_mode s1 \<noteq> UNICODE_MODE_WINDOWS" using Cons.prems(3) unicode_fields(1) [OF h1(3)] by simp
    then obtain s' strokes where h2: "hex32_loop cf uc hex False is False s1 = Some s'" "quiet cf 0 0 s'" "kbd.more s' = kbd.more s1"
      "host_strokes s' = host_strokes s1 @ strokes" "map us_char strokes = map (\<lambda>d. Some (hex_char d)) (sent_digits hex is False)"
      using Cons.IH [OF _ h1(2)] by blast
    show ?thesis using Cons.prems(1) [of s' "stroke # strokes"] True h1 h2 by (auto simp: Let_def)
  next
    case False
    then show ?thesis using Cons.IH [OF _ Cons.prems(2,3), where first = first] Cons.prems(1) by (auto simp: Let_def)
  qed
qed simp

subsection \<open>Input for Linux\<close>

lemma quiet_weak_mods:
  assumes "quiet cf m w s" "e \<noteq> 0"
  shows "quiet cf m (w OR e) (register_weak_mods cf e s)" "host_strokes (register_weak_mods cf e s) = host_strokes s"
    "quiet cf m (w AND NOT e) (unregister_weak_mods cf e s)" "host_strokes (unregister_weak_mods cf e s) = host_strokes s"
proof -
  have u: "s\<lparr>real_mods := m, weak_mods := x\<rparr> = s\<lparr>weak_mods := x\<rparr>" for x using assms(1) by (cases s) (simp add: quiet_def)
  have r: "register_weak_mods cf e s = send_keyboard_report cf (s\<lparr>real_mods := m, weak_mods := w OR e\<rparr>)"
    "unregister_weak_mods cf e s = send_keyboard_report cf (s\<lparr>real_mods := m, weak_mods := w AND NOT e\<rparr>)"
    unfolding u using assms by (simp_all add: register_weak_mods_def unregister_weak_mods_def add_weak_mods_def del_weak_mods_def quiet_def)
  show "quiet cf m (w OR e) (register_weak_mods cf e s)" "host_strokes (register_weak_mods cf e s) = host_strokes s"
    "quiet cf m (w AND NOT e) (unregister_weak_mods cf e s)" "host_strokes (unregister_weak_mods cf e s) = host_strokes s"
    unfolding r using quiet_send [OF assms(1)] by auto
qed

lemma tap_linux_key:
  assumes "quiet cf 0 0 s" "\<not> LOCKING_SUPPORT_ENABLE cf"
  defines "t \<equiv> tap_code16 cf (LCTL (LSFT 0x18)) s"
  shows "quiet cf 0 0 t" "host_strokes t = host_strokes s @ [(3, 0x18)]" "kbd.more t = kbd.more s"
proof -
  have k: "IS_BASIC_KEYCODE (0x18 :: uint8)" "\<not> IS_MODIFIER_KEYCODE (0x318 :: uint16)" "extract_mod_bits 0x318 = 3"
    by (simp_all add: IS_BASIC_KEYCODE_def IS_MODIFIER_KEYCODE_def extract_mod_bits_def shl1_def)
  have w: "(792 :: uint8) = 24" by simp
  define a where "a = register_weak_mods cf 3 s"
  define b where "b = tap_code_delay cf 0x18 (TAP_CODE_DELAY cf) a"
  have t: "t = unregister_weak_mods cf 3 b"
    unfolding t_def b_def a_def using k by (simp add: w tap_code16_def tap_code16_delay_def tap_code_delay_def register_code16_def
        unregister_code16_def wait_fold KC_NO_def)
  have "quiet cf 0 3 a" "host_strokes a = host_strokes s" using quiet_weak_mods(1,2) [OF assms(1), of 3] by (simp_all add: a_def)
  with quiet_tap [OF this(1) k(1) assms(2)] have b: "quiet cf 0 3 b" "host_strokes b = host_strokes s @ [(3, 0x18)]" by (simp_all add: b_def)
  show "quiet cf 0 0 t" "host_strokes t = host_strokes s @ [(3, 0x18)]"
    using quiet_weak_mods(3,4) [OF b(1), of 3] b(2) by (simp_all add: t)
  show "kbd.more t = kbd.more s" by (simp add: t b_def a_def)
qed

text \<open>What comes before and after a code point if Caps Lock is on\<close>

definition caps_stroke :: "uint8 \<Rightarrow> bool \<Rightarrow> (uint8 \<times> uint8) list" where "caps_stroke m on = (if on then [(m, KC_CAPS_LOCK)] else [])"

lemma tap_basic:
  assumes "quiet cf m 0 s" "\<not> LOCKING_SUPPORT_ENABLE cf" "IS_BASIC_KEYCODE k"
  shows "quiet cf m 0 (tap_code cf k s)" "host_strokes (tap_code cf k s) = host_strokes s @ [(m, k)]"
  using quiet_tap [OF assms(1,3,2)] by (simp_all add: tap_code_def)

lemma linux_start:
  assumes "plain_input cf uc" "quiet cf m 0 s" "input_mode s = UNICODE_MODE_LINUX"
  defines "t \<equiv> unicode_input_start cf uc s" and "caps \<equiv> caps_lock_led (host_keyboard_leds s)"
  shows "quiet cf 0 0 t" "host_strokes t = host_strokes s @ caps_stroke m caps @ [(3, 0x18)]"
    "input_mode t = UNICODE_MODE_LINUX" "unicode_saved_mods t = m" "caps_lock_led (unicode_saved_led_state t) = caps"
proof -
  have p: "\<not> LOCKING_SUPPORT_ENABLE cf" "UNICODE_KEY_LNX uc = LCTL (LSFT 0x18)" using assms(1) by (simp_all add: plain_input_def)
  let ?a = "s\<lparr>unicode_saved_led_state := host_keyboard_leds s\<rparr>"
  define b where "b = (if caps then tap_code cf KC_CAPS_LOCK ?a else ?a)"
  have c: "IS_BASIC_KEYCODE (0x39 :: uint8)" by (simp add: IS_BASIC_KEYCODE_def)
  have b: "quiet cf m 0 b" "host_strokes b = host_strokes s @ caps_stroke m caps" "kbd.more b = kbd.more ?a"
    using tap_basic [of cf m ?a, OF _ p(1) c] assms(2) by (simp_all add: b_def caps_stroke_def)
  note fb = unicode_fields [OF b(3)]
  let ?c = "(b\<lparr>unicode_saved_mods := m\<rparr>)\<lparr>real_mods := 0, weak_mods := 0\<rparr>"
  have "quiet cf 0 0 ?c" using b(1) by (intro quiet_set_mods [of cf m 0]) simp
  note d = tap_linux_key [OF this p(1)]
  have "t = wait_ms (UNICODE_TYPE_DELAY uc) (tap_code16 cf (LCTL (LSFT 0x18)) ?c)"
    using fb assms(3) p b(1)
    by (cases caps) (simp_all add: t_def unicode_input_start_def Let_def caps_def b_def clear_mods_def clear_weak_mods_def quiet_def)
  then have t: "quiet cf 0 0 t" "host_strokes t = host_strokes ?c @ [(3, 0x18)]" "kbd.more t = kbd.more ?c" using d by simp_all
  show "quiet cf 0 0 t" by (rule t)
  show "host_strokes t = host_strokes s @ caps_stroke m caps @ [(3, 0x18)]" using t(2) b(2) by simp
  show "input_mode t = UNICODE_MODE_LINUX" "unicode_saved_mods t = m" "caps_lock_led (unicode_saved_led_state t) = caps"
    using unicode_fields [OF t(3)] fb assms(3) by (simp_all add: caps_def)
qed

lemma linux_finish:
  assumes "plain_input cf uc" "quiet cf 0 0 s" "input_mode s = UNICODE_MODE_LINUX"
  defines "t \<equiv> unicode_input_finish cf uc s"
  shows "quiet cf (unicode_saved_mods s) 0 t" "input_mode t = UNICODE_MODE_LINUX"
    "host_strokes t = host_strokes s @ [(0, KC_SPACE)] @ caps_stroke 0 (caps_lock_led (unicode_saved_led_state s))"
proof -
  have p: "\<not> LOCKING_SUPPORT_ENABLE cf" using assms(1) by (simp add: plain_input_def)
  have c: "IS_BASIC_KEYCODE (0x39 :: uint8)" "IS_BASIC_KEYCODE (0x2C :: uint8)" by (simp_all add: IS_BASIC_KEYCODE_def)
  let ?a = "tap_code cf KC_SPACE s"
  note a = tap_basic [OF assms(2) p c(2)]
  define b where "b = (if caps_lock_led (unicode_saved_led_state s) then tap_code cf KC_CAPS_LOCK ?a else ?a)"
  have b: "quiet cf 0 0 b" "host_strokes b = host_strokes s @ [(0, KC_SPACE)] @ caps_stroke 0 (caps_lock_led (unicode_saved_led_state s))"
    "kbd.more b = kbd.more s"
    using a tap_basic [OF a(1) p c(1)] by (simp_all add: b_def caps_stroke_def)
  have fa: "unicode_saved_led_state ?a = unicode_saved_led_state s" by (rule unicode_fields) simp
  have t: "t = b\<lparr>real_mods := unicode_saved_mods s\<rparr>"
    using assms(3) fa unicode_fields(2) [OF b(3)] by (simp add: t_def unicode_input_finish_def b_def set_mods_def Let_def)
  have "b\<lparr>real_mods := x, weak_mods := 0\<rparr> = b\<lparr>real_mods := x\<rparr>" for x using b(1) by (cases b) (simp add: quiet_def)
  then show "quiet cf (unicode_saved_mods s) 0 t" using quiet_set_mods [OF b(1), of "unicode_saved_mods s" 0] t by metis
  show "input_mode t = UNICODE_MODE_LINUX" using unicode_fields(1) [OF b(3)] assms(3) t by simp
  show "host_strokes t = host_strokes s @ [(0, KC_SPACE)] @ caps_stroke 0 (caps_lock_led (unicode_saved_led_state s))" using b(2) t by simp
qed

text \<open>
  The code points an input method like IBus reads from the strokes: \<open>Ctrl+Shift+U\<close>, hexadecimal digits and Space make one.
\<close>

definition hex_value :: "uint8 \<Rightarrow> nat option" where
  "hex_value c = (if 48 \<le> c \<and> c \<le> 57 then Some (unat (c - 48)) else if 97 \<le> c \<and> c \<le> 102 then Some (unat (c - 87)) else None)"

fun ibus :: "nat option \<Rightarrow> (uint8 \<times> uint8) list \<Rightarrow> nat list" where
  "ibus acc [] = []"
| "ibus None (x # strokes) = (if x = (3, 0x18) then ibus (Some 0) strokes else ibus None strokes)"
| "ibus (Some n) (x # strokes) =
     (if x = (0, KC_SPACE) then n # ibus None strokes
      else case Option.bind (us_char x) hex_value of
             Some d \<Rightarrow> ibus (Some (n * 16 + d)) strokes
           | None \<Rightarrow> ibus None strokes)"

lemma hex_char_value: "d < 16 \<Longrightarrow> hex_value (hex_char d) = Some (unat d) \<and> hex_char d \<noteq> 32"
proof -
  assume "d < 16"
  then have "d \<in> set (map of_nat [0..<16])" by (auto simp: word_less_nat_alt intro!: image_eqI [of _ _ "unat d"])
  moreover have "list_all (\<lambda>d. hex_value (hex_char d) = Some (unat d) \<and> hex_char d \<noteq> 32) (map of_nat [0..<16])" by code_simp
  ultimately show ?thesis unfolding list_all_iff by blast
qed

lemma ibus_digits:
  assumes "map us_char strokes = map (\<lambda>d. Some (hex_char d)) ds" "\<forall>d\<in>set ds. d < 16"
  shows "ibus (Some n) (strokes @ (0, KC_SPACE) # rest) = hex_number n ds # ibus None rest"
  using assms
proof (induction ds arbitrary: strokes n)
  case (Cons d ds)
  obtain x xs where x: "strokes = x # xs" "us_char x = Some (hex_char d)" "map us_char xs = map (\<lambda>d. Some (hex_char d)) ds"
    using Cons.prems(1) by (cases strokes) auto
  have "us_char (0, 0x2C) = Some 32" by (simp add: us_char_def us_keys_eval)
  then have "x \<noteq> (0, 0x2C)" using x(2) hex_char_value [of d] Cons.prems(2) by auto
  then show ?case using x hex_char_value [of d] Cons.prems(2) Cons.IH [OF x(3)] by (simp add: hex_number_def)
qed (simp add: hex_number_def)

lemma ibus_caps: "ibus None (caps_stroke m on @ rest) = ibus None rest"
  by (simp add: caps_stroke_def)

lemma register_linux:
  assumes "plain_input cf uc" "quiet cf m 0 s" "input_mode s = UNICODE_MODE_LINUX" "cp \<le> 0x10FFFF"
  obtains s' strokes where "register_unicode cf uc (of_nat cp) s = Some s'" "quiet cf m 0 s'" "input_mode s' = UNICODE_MODE_LINUX"
    "host_strokes s' = host_strokes s @ strokes" "\<forall>rest. ibus None (strokes @ rest) = cp # ibus None rest"
proof -
  define t where "t = unicode_input_start cf uc s"
  note st = linux_start [OF assms(1-3), folded t_def]
  define ps where "ps = rev [0..<8 :: nat]"
  have "ps = [7, 6, 5, 4, 3, 2, 1, 0]" unfolding ps_def by code_simp
  then have r: "register_hex32 cf uc (of_nat cp) t = hex32_loop cf uc (of_nat cp) False ps True t" by (simp add: register_hex32_def st(3))
  have cp: "unat (of_nat cp :: uint32) = cp" using assms(4) by (intro unat_of_nat_small) simp
  have im: "input_mode t \<noteq> UNICODE_MODE_WINDOWS" using st(3) by simp
  obtain u hs where u: "hex32_loop cf uc (of_nat cp) False ps True t = Some u" "quiet cf 0 0 u" "kbd.more u = kbd.more t"
    "host_strokes u = host_strokes t @ hs" "map us_char hs = map (\<lambda>d. Some (hex_char d)) (sent_digits (of_nat cp) ps True)"
    by (rule hex32_types [OF assms(1) st(1) im])
  note fu = unicode_fields [OF u(3)]
  define s' where "s' = unicode_input_finish cf uc u"
  have fi: "quiet cf m 0 s'" "input_mode s' = UNICODE_MODE_LINUX" and
    fs: "host_strokes s' = host_strokes u @ [(0, KC_SPACE)] @ caps_stroke 0 (caps_lock_led (unicode_saved_led_state u))"
    using linux_finish [OF assms(1) u(2), folded s'_def] fu st(3,4) by simp_all
  have "\<not> 0x10FFFF < (of_nat cp :: uint32)" using assms(4) cp by (simp add: word_less_nat_alt)
  then have "register_unicode cf uc (of_nat cp) s = Some s'"
    using assms(3) r u(1) st(3) by (simp add: register_unicode_def t_def [symmetric] s'_def)
  moreover have "hex_number 0 (sent_digits (of_nat cp) ps True) = cp"
    using sent_number [of True "of_nat cp" 8] cp assms(4) by (simp add: ps_def)
  then have "ibus (Some 0) (hs @ (0, KC_SPACE) # rest) = cp # ibus None rest" for rest
    using ibus_digits [OF u(5), of 0 rest] sent_digits_small by metis
  then have "ibus None ((caps_stroke m c @ [(3, 0x18)] @ hs @ [(0, KC_SPACE)] @ caps_stroke 0 c') @ rest) = cp # ibus None rest" for c c' rest
    by (simp add: ibus_caps)
  ultimately show thesis using that fi fs u(4) st(2) by simp
qed

lemma send_linux:
  assumes "plain_input cf uc" "quiet cf m 0 s" "input_mode s = UNICODE_MODE_LINUX" "list_all (\<lambda>cp. cp \<le> 0x10FFFF) cps"
  obtains s' strokes where "fold (\<lambda>cp s. s \<bind> register_unicode cf uc (of_nat cp)) cps (Some s) = Some s'" "quiet cf m 0 s'"
    "host_strokes s' = host_strokes s @ strokes" "ibus None strokes = cps"
  using assms
proof (induction cps arbitrary: s thesis)
  case (Cons cp cps)
  have cp: "cp \<le> 0x10FFFF" and cps: "list_all (\<lambda>cp. cp \<le> 0x10FFFF) cps" using Cons.prems by simp_all
  obtain s1 x where h1: "register_unicode cf uc (of_nat cp) s = Some s1" "quiet cf m 0 s1" "input_mode s1 = UNICODE_MODE_LINUX"
    "host_strokes s1 = host_strokes s @ x" "\<forall>rest. ibus None (x @ rest) = cp # ibus None rest"
    by (rule register_linux [OF Cons.prems(2-4) cp])
  obtain s' xs where h2: "fold (\<lambda>cp s. s \<bind> register_unicode cf uc (of_nat cp)) cps (Some s1) = Some s'" "quiet cf m 0 s'"
    "host_strokes s' = host_strokes s1 @ xs" "ibus None xs = cps"
    by (rule Cons.IH [OF _ Cons.prems(2) h1(2,3) cps])
  show ?case using Cons.prems(1) [of s' "x @ xs"] h1 h2 by simp
qed simp

subsection \<open>Mnemonics\<close>

text \<open>
  The comparison of a mnemonic with the input array: the first \<open>ucis_count\<close> characters are what has been typed. If the array ends there, every
  mnemonic that begins with them matches; if there is another character behind them, left from an earlier input, it has to match too.
\<close>

lemma match_typed:
  assumes "0 \<notin> set xs"
  shows "match_from (i + length xs) i (xs @ 0 # rest) mnemonic = Some (\<exists>more. mnemonic = xs @ more)"
  using assms
proof (induction xs arbitrary: i mnemonic)
  case (Cons x xs)
  then show ?case using Cons.IH [of "Suc i" "tl mnemonic"] by (cases mnemonic) auto
qed simp

lemma match_stale:
  assumes "0 \<notin> set xs" "c \<noteq> 0" "rest \<noteq> []"
  shows "match_from (i + length xs) i (xs @ c # rest) mnemonic = Some (hd rest = 0 \<and> (\<exists>more. mnemonic = xs @ c # more))"
  using assms(1)
proof (induction xs arbitrary: i mnemonic)
  case Nil
  then show ?case using assms(2,3) by (cases mnemonic; cases rest) auto
next
  case (Cons x xs)
  then show ?case using Cons.IH [of "Suc i" "tl mnemonic"] by (cases mnemonic) auto
qed

text \<open>The presses of a list of keys while an input is active.\<close>

fun ucis_typed :: "'z unicode_scheme config \<Rightarrow> 'z unicode_settings \<Rightarrow> keyrecord_t \<Rightarrow> uint16 list \<Rightarrow> 'z unicode_scheme \<Rightarrow> 'z unicode_scheme option" where
  "ucis_typed cf uc r [] s = Some s"
| "ucis_typed cf uc r (kc # kcs) s = do { (_, s) \<leftarrow> process_ucis cf uc kc r s; ucis_typed cf uc r kcs s }"

lemma ucis_typed_collects:
  assumes "ucis_active s" "unat (ucis_count s) = length xs" "ucis_input s = xs @ old" "length (xs @ old) = UCIS_MAX_INPUT_LENGTH"
    and "pressed (event r)" "length xs + length kcs \<le> UCIS_MAX_INPUT_LENGTH" "list_all (\<lambda>kc. keycode_to_char kc \<noteq> 0) kcs"
  obtains s' where "ucis_typed cf uc r kcs s = Some s'" "unat (ucis_count s') = length xs + length kcs"
    "ucis_input s' = xs @ map keycode_to_char kcs @ drop (length kcs) old"
  using assms
proof (induction kcs arbitrary: s xs old thesis)
  case (Cons kc kcs)
  let ?s = "s\<lparr>ucis_input := (ucis_input s)[length xs := keycode_to_char kc], ucis_count := ucis_count s + 1\<rparr>"
  obtain o1 old' where old: "old = o1 # old'" using Cons.prems(5,7) by (cases old) auto
  have lt: "length xs < UCIS_MAX_INPUT_LENGTH" using Cons.prems(7) by simp
  then have n: "unat (ucis_count s + 1) = length xs + 1"
    using Cons.prems(3) by (simp add: unat_word_ariths UCIS_MAX_INPUT_LENGTH_def)
  have "process_ucis cf uc kc r s = Some (True, ?s)"
    using Cons.prems lt by (simp add: process_ucis_def ucis_add_def Let_def)
  moreover obtain s' where "ucis_typed cf uc r kcs ?s = Some s'" "unat (ucis_count s') = length (xs @ [keycode_to_char kc]) + length kcs"
    "ucis_input s' = (xs @ [keycode_to_char kc]) @ map keycode_to_char kcs @ drop (length kcs) old'"
    by (rule Cons.IH [of ?s "xs @ [keycode_to_char kc]" old']) (use Cons.prems n old in \<open>auto\<close>)
  ultimately show ?case using Cons.prems(1) [of s'] old by simp
qed simp

subsection \<open>Input modes and maps\<close>

text \<open>Stepping through the selected modes stays among them, and a step back undoes a step.\<close>

definition mode_selected :: "'z unicode_settings \<Rightarrow> 'z unicode_scheme \<Rightarrow> bool" where
  "mode_selected uc s \<longleftrightarrow> 0 \<le> selected_index s \<and> selected_index s < int (length (selected uc))
     \<and> input_mode s = selected uc ! nat (selected_index s)"

lemma cycle_index:
  assumes "0 \<le> i" "i < n" "d = 1 \<or> d = -1"
  shows "(let j = c_rem (i + d) n in if j < 0 then j + n else j) = (i + d) mod n"
proof (cases "i + d < 0")
  case True
  then have "i = 0" "d = -1" using assms by auto
  then show ?thesis using assms by (cases "n = 1") (auto simp: c_rem_def zmod_minus1)
next
  case False
  then have "c_rem (i + d) n = (i + d) mod n" using assms by (cases "i + d = 0") (auto simp: c_rem_def)
  moreover have "0 \<le> (i + d) mod n" using assms by simp
  ultimately show ?thesis by (simp add: Let_def)
qed

lemma cycle_step:
  assumes "mode_selected uc s" "d = 1 \<or> d = -1" "\<And>m u. unicode_input_mode_set_kb uc m u = u"
  shows "selected_index (cycle_unicode_input_mode uc d s) = (selected_index s + d) mod int (length (selected uc))"
    "mode_selected uc (cycle_unicode_input_mode uc d s)"
proof -
  have r: "0 \<le> selected_index s" "selected_index s < int (length (selected uc))" using assms(1) by (auto simp: mode_selected_def)
  note c = cycle_index [OF r assms(2), unfolded Let_def]
  show i: "selected_index (cycle_unicode_input_mode uc d s) = (selected_index s + d) mod int (length (selected uc))"
    using r assms(3) c by (auto simp: cycle_unicode_input_mode_def persist_unicode_input_mode_def Let_def)
  show "mode_selected uc (cycle_unicode_input_mode uc d s)"
    unfolding mode_selected_def i
    using r assms(3) c by (auto simp: cycle_unicode_input_mode_def persist_unicode_input_mode_def Let_def)
qed

lemma step_back:
  assumes "mode_selected uc s" "\<And>m u. unicode_input_mode_set_kb uc m u = u"
  shows "input_mode (unicode_input_mode_step_reverse uc (unicode_input_mode_step uc s)) = input_mode s"
proof -
  let ?n = "int (length (selected uc))" and ?t = "cycle_unicode_input_mode uc 1 s"
  note t = cycle_step [OF assms(1) _ assms(2), of 1]
  note u = cycle_step [OF t(2) _ assms(2), of "-1"]
  have "selected_index (cycle_unicode_input_mode uc (-1) ?t) = selected_index s"
    using t(1) u(1) assms(1) by (simp add: mode_selected_def mod_diff_left_eq)
  then show ?thesis using u(2) assms(1)
    by (simp add: unicode_input_mode_step_def unicode_input_mode_step_reverse_def mode_selected_def)
qed

text \<open>The index of a map key keeps the low eight of its fourteen bits.\<close>

lemma unicodemap_index_UM: "unicodemap_index (UM i) s = ucast i"
proof -
  have "\<not> 0xC000 \<le> UM i"
  proof
    assume "0xC000 \<le> UM i"
    moreover have "UM i \<le> 0xBFFF"
    proof -
      have "UM i = UM i AND 0xBFFF" by (simp add: UM_def bit.conj_disj_distrib2 and.assoc)
      then show ?thesis by (metis word_and_le1)
    qed
    ultimately show False by (simp add: word_le_nat_alt)
  qed
  then show ?thesis
    by (simp add: unicodemap_index_def QK_UNICODEMAP_GET_INDEX_def) (rule byte_eqI, elim disjE; simp add: UM_def bit_simps)
qed

end
