(* ===== verification/Text_Theorems.thy ===== *)
theory Text_Theorems
  imports Unicode_Props
begin

text \<open>
  Theorems about text: strings that are typed, strings that make the loop run past their end, Unicode text and mnemonics.
\<close>

subsection \<open>Strings\<close>

lemma demo_quiet: "quiet demo_config 0 0 demo_state"
proof -
  have "\<not> is_key_pressed k demo_state" for k
    by (simp add: is_key_pressed_def demo_state_def use_nkro_def plain_config_def KC_NO_def KEYBOARD_REPORT_KEYS_def)
  then show ?thesis using demo_inv by (simp add: quiet_def demo_state_def)
qed

text \<open>
  A string of characters, taps, presses, releases and delays in the encoding of \<open>SEND_STRING\<close> does these one after the other and
  stops at its terminating 0. But the terminator does not stop the loop if it comes right after the prefix of an escape sequence or
  takes the place of the bar that ends a delay: then the loop goes on with the memory behind the string. A character that is not
  ASCII makes it read past the look-up tables.
\<close>

theorem send_string_runs_past_end:
  assumes "luts_ok lt" "list_all ss_valid xs" "list_all isdigit ds" "decimal 0 ds < 2 ^ 31" "\<not> c < 128"
  shows "let send = send_string_with_delay cf lt; pause = wait_ms (ucast interval);
      str = concat (map ss_encode xs); t = fold (ss_run cf lt interval) xs s
    in send (str @ [0] @ rest) interval s = Some t
       \<and> send (str @ [1, 0] @ rest) interval s = send rest interval (pause t)
       \<and> send (str @ [1, 4] @ ds @ [0] @ rest) interval s = send rest interval (pause (wait_ms (of_nat (decimal 0 ds)) t))
       \<and> send (str @ [c] @ rest) interval s = None"
proof -
  let ?t = "fold (ss_run cf lt interval) xs s" and ?loop = "send_loop True cf lt interval"
  have d: "\<not> isdigit 0" by (simp add: isdigit_def)
  have c: "c \<noteq> 0" "c \<noteq> 1" using assms(5) by (auto simp: word_less_nat_alt)
  have "?loop ([0] @ rest) ?t = Some ?t" by (subst send_loop.simps) simp
  moreover have "?loop ([1, 0] @ rest) ?t = ?loop rest (wait_ms (ucast interval) ?t)" by (subst send_loop.simps) (simp add: escape_def)
  moreover have "?loop ([1, 4] @ ds @ [0] @ rest) ?t = ?loop rest (wait_ms (ucast interval) (wait_ms (of_nat (decimal 0 ds)) ?t))"
    by (subst send_loop.simps) (simp add: escape_def delay_digits_decimal [OF assms(3,4) d])
  moreover have "send_char_with_delay cf lt c interval ?t = None" using send_char_defined(1) [OF assms(1)] assms(5) by blast
  then have "?loop ([c] @ rest) ?t = None" using c by (subst send_loop.simps) simp
  ultimately show ?thesis unfolding Let_def send_string_with_delay_def send_items [OF assms(1,2)] by blast
qed

theorem send_string_runs_past_end_witness:
  "let send = send_string_with_delay demo_config default_luts; pause = wait_ms 0;
     t = ss_run demo_config default_luts 0 (Typed 97) demo_state
   in send [97, 0] 0 demo_state = Some t \<and> send [97, 1, 0] 0 demo_state = None
      \<and> send [97, 1, 4, 53, 0, 98, 0] 0 demo_state = send [98, 0] 0 (pause (wait_ms 5 t))
      \<and> send [97, 233, 0] 0 demo_state = None"
proof -
  have h: "list_all ss_valid [Typed 97]" "list_all isdigit [53]" "decimal 0 [53] < 2 ^ 31" "\<not> (233 :: uint8) < 128" "decimal 0 [53] = 5"
    by (simp_all add: isdigit_def decimal_def)
  note r = send_string_runs_past_end [OF default_luts_ok h(1-4), of demo_config 0 demo_state, unfolded Let_def]
  have "send_string_with_delay demo_config default_luts [] 0 u = None" for u
    unfolding send_string_with_delay_def by (subst send_loop.simps) simp
  then show ?thesis using r [of "[]"] r [of "[0]"] r [of "[98, 0]"] h(5) unfolding Let_def by simp
qed

subsection \<open>Unicode\<close>

definition sample_uc :: "unicode unicode_config" where
  "sample_uc = \<lparr>luts = default_luts, UNICODE_KEY_MAC = KC_LEFT_ALT, UNICODE_KEY_LNX = LCTL (LSFT 0x18), UNICODE_KEY_WINC = KC_RIGHT_ALT,
     selected = [UNICODE_MODE_LINUX], UNICODE_CYCLE_PERSIST = True, UNICODE_TYPE_DELAY = 10,
     unicode_input_mode_set_kb = (\<lambda>_ s. s), unicode_map = [], ucis_symbol_table = [(map of_char ''qm'', [0x3A8, 0, 0])]\<rparr>"

definition sample_unicode :: unicode where
  "sample_unicode = kbd.extend demo_state
     (unicode.fields UNICODE_MODE_LINUX UNICODE_MODE_LINUX 0 0 0 0 False (replicate 32 0))"

definition sample_cf :: "unicode config" where "sample_cf = base_config []"






text \<open>
  The letters and digits that are typed after \<open>ucis_start\<close> are collected in an array that is not cleared between inputs, and a
  mnemonic is compared with the array. If the array ends behind the typed characters, every mnemonic that begins with them matches;
  if a character \<open>c\<close> of an earlier, longer input is left there, only a mnemonic that begins with the typed characters and \<open>c\<close> does,
  so the mnemonic that was typed does not match.
\<close>

theorem ucis_remembers_old_input:
  assumes "ucis_active s" "ucis_count s = 0" "length (ucis_input s) = UCIS_MAX_INPUT_LENGTH" "pressed (event r)"
    and "length kcs + 1 < UCIS_MAX_INPUT_LENGTH" "list_all (\<lambda>kc. keycode_to_char kc \<noteq> 0) kcs"
  shows "\<exists>s'. ucis_typed cf uc r kcs s = Some s' \<and>
    (let xs = map keycode_to_char kcs; c = ucis_input s ! length kcs; d = ucis_input s ! (length kcs + 1)
     in (\<forall>mnemonic. match_mnemonic mnemonic s' =
           Some (if c = 0 then \<exists>more. mnemonic = xs @ more else d = 0 \<and> (\<exists>more. mnemonic = xs @ c # more)))
        \<and> (c \<noteq> 0 \<longrightarrow> match_mnemonic xs s' = Some False))"
proof -
  let ?xs = "map keycode_to_char kcs" and ?c = "ucis_input s ! length kcs" and ?d = "ucis_input s ! (length kcs + 1)"
  obtain s' where s': "ucis_typed cf uc r kcs s = Some s'" "unat (ucis_count s') = length kcs"
    "ucis_input s' = ?xs @ drop (length kcs) (ucis_input s)"
    by (rule ucis_typed_collects [of s "[]" "ucis_input s" r kcs cf uc]) (use assms in \<open>auto\<close>)
  have "drop (length kcs) (ucis_input s) = ?c # ?d # drop (length kcs + 2) (ucis_input s)"
    using assms(3,5) by (simp add: Cons_nth_drop_Suc)
  moreover have "0 \<notin> set ?xs" using assms(6) by (auto simp: list_all_iff)
  ultimately have "match_mnemonic mnemonic s' =
      Some (if ?c = 0 then \<exists>more. mnemonic = ?xs @ more else ?d = 0 \<and> (\<exists>more. mnemonic = ?xs @ ?c # more))" for mnemonic
    using match_typed [of ?xs 0 _ mnemonic] match_stale [of ?xs ?c "?d # _" 0 mnemonic] s'(2,3) by (simp add: match_mnemonic_def)
  then show ?thesis using s'(1) by (auto simp: Let_def)
qed

text \<open>The keyboard on which \<open>qmk\<close> has been typed and cancelled; then \<open>qm\<close> is typed, which is in the table.\<close>

definition press_record :: keyrecord_t where "press_record = no_record\<lparr>event := (event no_record)\<lparr>pressed := True, event_type := KEY_EVENT\<rparr>\<rparr>"

definition used_unicode :: unicode where
  "used_unicode = sample_unicode\<lparr>ucis_active := True, ucis_input := map of_char ''qmk'' @ replicate 29 0\<rparr>"

theorem ucis_remembers_old_input_witness:
  "\<exists>s'. ucis_typed sample_cf sample_uc press_record [0x14, 0x10] used_unicode = Some s'
     \<and> match_mnemonic (map of_char ''qm'') s' = Some False"
proof -
  have u: "ucis_active used_unicode" "ucis_count used_unicode = 0" "length (ucis_input used_unicode) = UCIS_MAX_INPUT_LENGTH"
    "ucis_input used_unicode ! 2 = 107"
    by (simp_all add: used_unicode_def sample_unicode_def kbd.defs unicode.defs UCIS_MAX_INPUT_LENGTH_def)
  have k: "map keycode_to_char [0x14, 0x10] = map of_char ''qm''" "list_all (\<lambda>kc. keycode_to_char kc \<noteq> 0) [0x14, 0x10]" by code_simp+
  have l: "length [0x14 :: uint16, 0x10] = 2" "(107 :: uint8) \<noteq> 0" by simp_all
  have "pressed (event press_record)" "length [0x14 :: uint16, 0x10] + 1 < UCIS_MAX_INPUT_LENGTH" by (simp_all add: press_record_def UCIS_MAX_INPUT_LENGTH_def)
  from ucis_remembers_old_input [OF u(1-3) this k(2), of sample_cf sample_uc] show ?thesis
    unfolding Let_def k(1) l(1) u(4) using l(2) by blast
qed

end
