(* ===== verification/Spec2Isabelle.thy ===== *)
theory Spec2Isabelle
  imports Dynamic_Keymap Debounce_Pr Deferred_Exec Matrix_Task Feature_Theorems Replay_Theorems Text_Theorems
begin

text \<open>
  A verification library for the core of the QMK keyboard firmware (\<^verbatim>\<open>src/quantum\<close>, \<^verbatim>\<open>src/tmk_core\<close>,
  \<^verbatim>\<open>src/platforms\<close>, \<^verbatim>\<open>src/drivers\<close>), in the default build with layers, tapping, one-shot keys, extra
  keys and N-key rollover.

  \<^bold>\<open>The parts and how they work together.\<close> The matrix is scanned and debounced; every change of the
  debounced matrix is a key event for \<open>action_exec\<close>. The tapping state machine decides between tap and
  hold and keeps undecided events in its waiting buffer; a decided record goes to \<open>process_record\<close>, which
  looks up the keycode on the highest active layer, translates it to an action and executes it. Actions
  change layers, modifiers, one-shot state and the keyboard report, and each change of the report is sent
  to the host. Settings live in an EEPROM that is emulated in flash by a wear-leveling log.

  \<^bold>\<open>Persistent storage.\<close> \<open>Log_Entry\<close> models the log entries of
  \<^verbatim>\<open>quantum/wear_leveling/wear_leveling_internal.h\<close>, \<open>Backing_Store\<close> the driver interface (a locale
  \<open>backing_store\<close> with what \<^verbatim>\<open>wear_leveling.c\<close> relies on), \<open>Fnv\<close> the checksum of \<^verbatim>\<open>lib/fnv\<close>,
  \<open>Wear_Leveling\<close> every function of \<^verbatim>\<open>wear_leveling.c\<close>; \<open>Wear_Leveling_Log\<close> and \<open>Wear_Leveling_Replay\<close>
  prove that the store always records the cache and that replaying the log restores it. \<open>Legacy_Flash\<close>
  models the embedded-flash driver \<^verbatim>\<open>wear_leveling_legacy.c\<close> over any flash with the contract of
  \<^verbatim>\<open>legacy_flash_ops.h\<close>, the flash of the test platform, which keeps it, and the EEPROM functions of
  \<^verbatim>\<open>drivers/eeprom/eeprom_wear_leveling.c\<close>. C1 to C4 are about this part.

  \<open>Eeprom\<close> adds the byte and word functions of \<^verbatim>\<open>drivers/eeprom/eeprom_driver.c\<close> over any driver with the contract
  \<open>eeprom\<close>, which the emulated EEPROM keeps, and \<open>Dynamic_Keymap\<close> the keymaps and macros that
  \<^verbatim>\<open>quantum/dynamic_keymap.c\<close> stores there; C40 goes from the keymap functions down to the flash.

  \<^bold>\<open>Deferred execution.\<close> \<open>Deferred_Exec\<close> models \<^verbatim>\<open>quantum/deferred_exec.c\<close>: tokens and the table of callbacks, shown to be a
  map (locale \<open>deferred_calls\<close>; C39), and the task that runs what is due (C14), with callbacks that may use the table themselves.

  \<^bold>\<open>Debouncing.\<close> \<open>Debounce\<close>, \<open>Debounce_Pk\<close> and \<open>Debounce_Pr\<close> model the seven algorithms of
  \<^verbatim>\<open>quantum/debounce\<close>; the locale \<open>debouncer\<close> is their common contract (C6) and \<open>Debounce_Timing\<close> runs
  them over sequences of scans with a 32-bit millisecond timer (C7 to C9).

  \<^bold>\<open>Reports and bits.\<close> \<open>Report\<close> models \<^verbatim>\<open>tmk_core/protocol/report.c\<close>: the six-key array and the N-key
  bitmap both implement the locale \<open>key_report\<close> (C10, C11). \<open>Bitwise\<close> is \<^verbatim>\<open>quantum/bitwise.c\<close> (C5).

  \<^bold>\<open>Actions.\<close> \<open>Keycodes\<close> and \<open>Action_Code\<close> hold the keycode ranges, the keymap macros and
  \<open>action_for_keycode\<close> (\<^verbatim>\<open>keycodes.h\<close>, \<^verbatim>\<open>quantum_keycodes.h\<close>, \<^verbatim>\<open>keycode_config.c\<close>, \<^verbatim>\<open>action_code.h\<close>,
  \<^verbatim>\<open>keymap_common.c\<close>; C15 to C17), \<open>Keyboard\<close> the events, the state (a record \<open>kbd\<close> of the global
  variables), the configuration (a record \<open>config\<close> of the compile-time settings and of the functions a
  keyboard provides) and the host interface (\<^verbatim>\<open>host.c\<close>), \<open>Action_Layer\<close> the layers
  (\<^verbatim>\<open>action_layer.c\<close>; C12, C13), \<open>Action_Util\<close> modifiers, one-shot keys and sending
  (\<^verbatim>\<open>action_util.c\<close>; C20), \<open>Action\<close> the execution of actions (\<^verbatim>\<open>action.c\<close>, \<^verbatim>\<open>quantum.c\<close>; C19, C21) and
  \<open>Tapping\<close> the tap-hold state machine (\<^verbatim>\<open>action_tapping.c\<close>; C22 to C26). A record is passed by pointer
  in C, and a pointer may lead into the waiting buffer or to the tapping key while these change: the model
  has the datatype \<open>recptr\<close> for such pointers. What is sent and notified is a log of events in the state.

  \<^bold>\<open>How the action code is verified.\<close> \<open>Action_Inv\<close> states once, as the locales \<open>state_invariant\<close>,
  \<open>action_invariant\<close> and \<open>tapping_invariant\<close>, what a property of the state has to put up with so that
  all operations keep it; its instances are the invariant \<open>kbd_inv\<close> (sizes, indices, and that the host
  has the keys of the report; C18), the indices of the waiting buffer, the validity of a record pointer
  and the direction of a record. \<open>Host_View\<close> derives what the host sees, \<open>Action_Loops\<close> the
  refinement of the ring buffer to a queue (locale \<open>bounded_queue\<close>), that the loops over the buffer end
  and that the recursion is two deep, \<open>Tap_Hold\<close> the life of a mod-tap key from press to release.

  \<^bold>\<open>From the matrix to the actions.\<close> \<open>Matrix_Task\<close> models \<open>matrix_task\<close> of \<^verbatim>\<open>quantum/keyboard.c\<close> with ghost
  detection and tick events, over any debounced matrix; C27 is about the events it feeds to \<open>action_exec\<close> and about
  the rows that ghost detection holds back.

  \<^bold>\<open>Keycode features.\<close> \<open>Features\<close> extends the state by the variables of the features (record \<open>features\<close>) and
  models grave-escape, tri-layer, key lock, layer lock, leader, space cadet and caps word
  (\<^verbatim>\<open>quantum/process_keycode\<close>, \<^verbatim>\<open>layer_lock.c\<close>, \<^verbatim>\<open>leader.c\<close>, \<^verbatim>\<open>caps_word.c\<close>, \<^verbatim>\<open>tri_layer.c\<close>), \<open>Tap_Dance\<close> tap
  dances and \<open>Replay\<close> the features that execute stored records, dynamic macros and the repeat keys.
  \<open>Feature_Chain\<close> puts them into the chain of \<open>process_record_quantum\<close> in its order and shows, in the locale
  \<open>feature_invariant\<close>, that an invariant of the actions is one of the whole chain. \<open>Feature_Props\<close>,
  \<open>Replay_Props\<close> and \<open>Tap_Dance_Props\<close> hold the lemmas on single features, \<open>Feature_Theorems\<close> (C28 to C33) and
  \<open>Replay_Theorems\<close> (C34, C36 to C38) the properties, \<open>Demo\<close> the sample keyboards they are applied to.

  \<^bold>\<open>Text.\<close> \<open>Typing\<close> describes the key strokes a host reads from the reports and what the functions that tap keys add to them.
  \<open>Send_String\<close> models \<^verbatim>\<open>quantum/send_string/send_string.c\<close> with its look-up tables, \<open>Unicode\<close> the decoder, input modes, maps and
  mnemonics of \<^verbatim>\<open>quantum/unicode\<close> and the handlers \<^verbatim>\<open>process_unicode*.c\<close> and \<^verbatim>\<open>process_ucis.c\<close> on a state that extends the keyboard's;
  \<open>Unicode_Props\<close> has their lemmas (decoding inverts encoding, what an input types, cycling through the modes). In
  \<open>Text_Theorems\<close>, C35 shows that text reaches the host as it was sent, and two further theorems say when a string makes the loop run past its
  end and how mnemonics are mixed up with earlier ones.

  \<^bold>\<open>Bounds and fuel.\<close> The loops over the waiting buffer have fuel 8, its size, and C24 shows that more
  does not change the result. \<open>process_record\<close> unrolls its recursion twice, and C21 shows that it satisfies
  the recursive equation. The features that execute records call \<open>process_record\<close> in the chain again:
  \<open>firmware bottom n\<close> is the chain with \<open>n\<close> nested calls and the function \<open>bottom\<close> below them; C28 holds for
  every \<open>n\<close>, and C36 shows that no \<open>n\<close> is enough for the repeat key. Sending a stored macro has the size of its buffer as fuel, which is enough
  for every macro that begins in the buffer (\<open>macro_send_ends\<close>). The loops over strings end because the memory behind a string does;
  reading past it gives \<open>None\<close>. All other functions are total as they stand. Machine integers are words of their
  width; the time is the 16-bit or 32-bit counter of the source and wraps.

  \<^bold>\<open>Not modelled.\<close> Hardware access (pins, USB, flash controllers, I2C, SPI), generated tables and
  third-party code under \<^verbatim>\<open>lib\<close>. Mouse keys, pointing devices, lighting, displays, audio, haptics, split
  transport, VIA and the other handlers of \<^verbatim>\<open>quantum/process_keycode\<close> (combos, auto shift, key overrides, MIDI,
  steno, joystick and others) are not part of the library. The Unicode handlers are modelled, but not put into the chain of features.
  Handlers of the keyboard appear as the list \<open>record_handlers\<close> of the configuration and are assumed to keep the invariants. Debug
  output has no effect on the state and is left out.
\<close>

section \<open>Persistent storage\<close>

lemma wl_inv_iff:
  assumes "backing_store cfg ops contents ready" "valid_config cfg"
  shows "backing_store.wl_inv cfg contents ready s \<longleftrightarrow>
    ready (device s) \<and> length (cache s) = LOGICAL_SIZE cfg \<and> write_address s < BACKING_SIZE cfg
    \<and> records cfg (contents (device s)) (write_address s) (cache s)"
proof -
  have "cell_size cfg dvd wa \<and> blank wa (BACKING_SIZE cfg - wa) m" if "records cfg m wa c" for m wa c
    using that config_facts(3) [OF assms(2)] log_bytes_dvd by (auto simp: records_def)
  then show ?thesis
    by (auto simp: backing_store.wl_inv_def [OF assms(1)] backing_store.appendable_def [OF assms(1)])
qed

text \<open>
  C1. Emulated EEPROM over the embedded flash, end to end. Erase the EEPROM, write any blocks that lie
  inside it, cut the power (only the flash survives: the RAM state and the lock bit of the flash
  controller are arbitrary afterwards) and start again: \<open>eeprom_read_block\<close> returns what the writes,
  in their order, left in the block.
\<close>

theorem eeprom_survives_power_cycle:
  fixes s s' :: "mock_flash wear_leveling" and mc lc
  defines "ops \<equiv> legacy_ops (mock_flash_ops mc) lc"
  assumes layout: "legacy_layout cfg lc mc base" and cfg: "valid_config cfg"
    and flash: "length (FlashBuf (device s)) = MOCK_FLASH_SIZE mc"
    and lock: "unlocked s \<longrightarrow> \<not> flash_locked (device s)"
    and writes: "\<forall>(addr, buf)\<in>set ws. addr + length buf \<le> LOGICAL_SIZE cfg"
    and junk: "8 \<le> length junk"
    and power: "FlashBuf (device s') =
      FlashBuf (device (fold (\<lambda>(addr, buf) s. eeprom_write_block cfg ops buf addr s) ws (eeprom_driver_erase cfg ops s)))"
    and block: "addr + n \<le> LOGICAL_SIZE cfg"
  shows "eeprom_read_block cfg buf addr n (eeprom_driver_init cfg ops junk s') =
    window addr n (fold (\<lambda>(addr, buf) c. patch addr buf c) ws (replicate (LOGICAL_SIZE cfg) 0))"
proof -
  have dev: "mock_ready mc (device s)" using flash by (simp add: mock_ready_def)
  let ?s1 = "fold (\<lambda>(addr, buf) s. eeprom_write_block cfg ops buf addr s) ws (eeprom_driver_erase cfg ops s)"
  note stack = legacy_flash.eeprom_power_cycle
    [OF mock_is_legacy_flash [OF layout] cfg dev _ writes junk, of ?s1, folded ops_def]
  have "mock_ready mc (device ?s1)" using stack(1) lock by blast
  then have "mock_ready mc (device s')" "mock_mem cfg base (device s') = mock_mem cfg base (device ?s1)"
    using power by (simp_all add: mock_ready_def mock_mem_def)
  then show ?thesis using stack(2) lock block by blast
qed

theorem eeprom_survives_power_cycle_witness:
  "eeprom_read_block f072_wl [] 3 2
     (eeprom_driver_init f072_wl (legacy_ops (mock_flash_ops (f072_mock 0)) (f072_legacy 0)) (replicate 8 7)
        \<lparr>cache = [], write_address = 0, unlocked = False,
         device = device (eeprom_write_block f072_wl (legacy_ops (mock_flash_ops (f072_mock 0)) (f072_legacy 0)) [1, 2, 3] 2
           (eeprom_driver_erase f072_wl (legacy_ops (mock_flash_ops (f072_mock 0)) (f072_legacy 0))
             \<lparr>cache = [], write_address = 0, unlocked = False,
              device = \<lparr>FlashBuf = replicate 65536 0, flash_locked = True\<rparr>\<rparr>))\<rparr>)
   = window 3 2 (patch 2 [1, 2, 3] (replicate 1024 0))"
  using eeprom_survives_power_cycle [OF f072_layout [of 0] f072_valid, where
      s = "\<lparr>cache = [], write_address = 0, unlocked = False, device = \<lparr>FlashBuf = replicate 65536 0, flash_locked = True\<rparr>\<rparr>"
      and ws = "[(2, [1, 2, 3])]" and junk = "replicate 8 7" and addr = 3 and n = 2 and buf = "[]"
      and s' = "\<lparr>cache = [], write_address = 0, unlocked = False,
         device = device (eeprom_write_block f072_wl (legacy_ops (mock_flash_ops (f072_mock 0)) (f072_legacy 0)) [1, 2, 3] 2
           (eeprom_driver_erase f072_wl (legacy_ops (mock_flash_ops (f072_mock 0)) (f072_legacy 0))
             \<lparr>cache = [], write_address = 0, unlocked = False,
              device = \<lparr>FlashBuf = replicate 65536 0, flash_locked = True\<rparr>\<rparr>))\<rparr>"]
  by (simp add: f072_wl_def f072_mock_def)

text \<open>
  C2. A write over any backing-store driver, one that may fail at any call included: if it does not
  report failure, the cache has the new bytes, and the store again records the cache and has room for
  another log entry, whether the write was appended to the log or consolidated.
\<close>

theorem wear_leveling_write_recorded:
  assumes driver: "backing_store cfg ops contents ready" and cfg: "valid_config cfg"
    and inv: "ready (device s)" "length (cache s) = LOGICAL_SIZE cfg" "write_address s < BACKING_SIZE cfg"
      "records cfg (contents (device s)) (write_address s) (cache s)"
    and fit: "address + length val \<le> LOGICAL_SIZE cfg"
    and run: "wear_leveling_write cfg ops address val s = (status, s')" "status \<noteq> WEAR_LEVELING_FAILED"
  shows "cache s' = patch address val (cache s) \<and> ready (device s') \<and> write_address s' < BACKING_SIZE cfg
    \<and> records cfg (contents (device s')) (write_address s') (cache s')"
  using backing_store.write_inv [OF driver cfg _ fit run] inv by (auto simp: wl_inv_iff [OF driver cfg])

lemma f072_erased_inv:
  "backing_store.wl_inv f072_wl (\<lambda>d. map (\<lambda>b. NOT b) (mock_mem f072_wl 63488 d)) (mock_ready (f072_mock 0)) f072_erased"
  unfolding wl_inv_iff [OF f072.backing_store_axioms [unfolded f072.store_def] f072_valid] f072_erased_store
  using records_erased [OF f072_valid]
  by (simp add: f072_erased_def mock_ready_def f072_mock_def f072_wl_def log_start_def)

theorem wear_leveling_write_recorded_witness:
  "cache (snd (wear_leveling_write f072_wl (legacy_ops (mock_flash_ops (f072_mock 0)) (f072_legacy 0)) 5 [1, 2] f072_erased))
   = patch 5 [1, 2] (cache f072_erased)"
proof -
  note driver = f072.backing_store_axioms [unfolded f072.store_def, of 0]
  have u: "unlocked f072_erased \<Longrightarrow> \<not> flash_locked (device f072_erased)" by (simp add: f072_erased_def)
  have fit: "5 + length [1, 2 :: uint8] \<le> LOGICAL_SIZE f072_wl" by (simp add: f072_wl_def)
  obtain st s' where w: "wear_leveling_write f072_wl (legacy_ops (mock_flash_ops (f072_mock 0)) (f072_legacy 0)) 5 [1, 2]
      f072_erased = (st, s')" "st \<noteq> WEAR_LEVELING_FAILED"
    using f072.write_total [unfolded f072.store_def, OF f072_valid f072_erased_inv u fit] by blast
  show ?thesis
    using wear_leveling_write_recorded [OF driver f072_valid _ _ _ _ fit w] w(1) f072_erased_inv
    by (simp add: wl_inv_iff [OF driver f072_valid])
qed

text \<open>
  C3. What happens to a damaged log at start-up. If the first log entry has the unused type code and the
  flash is locked, as it is after a reset, then initialisation fails and the cache is all zeros, even
  when the consolidated copy below the log is intact: the consolidation that should save what could be
  read erases without unlocking, and its failure clears the cache.
\<close>

theorem damaged_log_on_locked_flash:
  fixes s :: "mock_flash wear_leveling"
  assumes layout: "legacy_layout cfg lc mc base" and cfg: "valid_config cfg"
    and flash: "length (FlashBuf (device s)) = MOCK_FLASH_SIZE mc" "flash_locked (device s)"
    and damaged: "LOG_ENTRY_GET_TYPE (map (\<lambda>b. NOT b) (window (base + log_start cfg) 2 (FlashBuf (device s)))) = 3"
  shows "\<exists>s'. wear_leveling_init cfg (legacy_ops (mock_flash_ops mc) lc) junk s = (WEAR_LEVELING_FAILED, s')
    \<and> cache s' = replicate (LOGICAL_SIZE cfg) 0 \<and> device s' = device s"
proof -
  let ?ops = "legacy_ops (mock_flash_ops mc) lc" and ?s0 = "wear_leveling_clear_cache cfg s"
  note f = config_facts [OF cfg]
  have w2: "WRITE_SIZE cfg = W2" using layout by (simp add: legacy_layout_def)
  obtain st s1 where 1: "wear_leveling_read_consolidated cfg ?ops junk ?s0 = (st, s1)" by fastforce
  have d1: "device s1 = device s"
    using legacy_read_consolidated_device [OF w2 1] by (simp add: wear_leveling_clear_cache_def)
  have fit: "log_start cfg + 2 \<le> BACKING_SIZE cfg" "log_start cfg < BACKING_SIZE cfg"
    using dvd_add_le [OF f(3,2,6)] w2 f(6) by simp_all
  let ?v = "map (\<lambda>b. NOT b) (window (base + log_start cfg) 2 (FlashBuf (device s)))"
  have rd: "legacy_read (mock_flash_ops mc) lc (log_start cfg) (device s1) = (Some ?v, device s1)"
    using flash_offset [OF layout fit(2)] d1 by (simp add: legacy_read_def mock_flash_ops_def)
  have len: "length ?v = 2" using fit layout flash(1) by (auto simp: legacy_layout_def)
  have ml: "playback_loop cfg ?ops junk (log_start cfg) s1 = (False, log_start cfg + 2, s1)"
    by (rule playback_unused_type [OF w2 fit(2) rd len damaged])
  have c: "wear_leveling_consolidate_force cfg ?ops (s1\<lparr>write_address := log_start cfg + 2\<rparr>)
      = (WEAR_LEVELING_FAILED, s1\<lparr>write_address := log_start cfg + 2\<rparr>)"
    using consolidate_force_locked [OF layout, of "s1\<lparr>write_address := log_start cfg + 2\<rparr>"] flash d1 f(6)
    by (simp add: mock_ready_def)
  have i: "backing_store_init ?ops d = (True, d)" for d by (simp add: legacy_ops_def)
  show ?thesis
    using 1 ml c d1
    by (auto simp: wear_leveling_init_def on_device_def i wear_leveling_playback_log_def wear_leveling_clear_cache_def)
qed

theorem damaged_log_on_locked_flash_witness:
  "\<exists>s'. wear_leveling_init f072_wl (legacy_ops (mock_flash_ops (f072_mock 0)) (f072_legacy 0)) []
      (f072_erased\<lparr>device := \<lparr>FlashBuf = replicate 65536 0, flash_locked = True\<rparr>\<rparr>) = (WEAR_LEVELING_FAILED, s')
    \<and> cache s' = replicate (LOGICAL_SIZE f072_wl) 0
    \<and> device s' = device (f072_erased\<lparr>device := \<lparr>FlashBuf = replicate 65536 0, flash_locked = True\<rparr>\<rparr>)"
  by (rule damaged_log_on_locked_flash [OF f072_layout f072_valid])
    (simp_all add: f072_mock_def window_def f072_wl_def log_start_def LOG_ENTRY_GET_TYPE_def
      mask_eq_exp_minus_1)

text \<open>
  C4. The checksum over the consolidated area: changing any single byte of a buffer, in any way, changes
  its 64-bit FNV-1a hash, so a single damaged byte never goes unnoticed.
\<close>

theorem checksum_detects_byte_change:
  assumes "i < length buf" "b \<noteq> buf ! i"
  shows "fnv_64a_buf (buf[i := b]) FNV1A_64_INIT \<noteq> fnv_64a_buf buf FNV1A_64_INIT"
  using fnv_64a_buf_list_update assms by metis

theorem checksum_detects_byte_change_witness:
  "fnv_64a_buf ([1, 2, 3 :: uint8] [1 := 7]) FNV1A_64_INIT \<noteq> fnv_64a_buf [1, 2, 3] FNV1A_64_INIT"
  by (rule checksum_detects_byte_change) simp_all

section \<open>Bit counting\<close>

text \<open>
  C5. \<open>biton16\<close>, which the layer code uses as \<open>get_highest_layer\<close>, returns the index of the most
  significant on-bit of a 16-bit layer mask, and 0 for the empty mask.
\<close>

theorem biton16_correct: "biton16 w = (if w = 0 then 0 else of_nat (Max (bits_on w)))"
  by (auto simp: biton16_highest highest_exists) (simp add: biton16_def biton_round_def)

section \<open>Debouncing\<close>

text \<open>
  C6. All seven debounce algorithms keep one contract. From a state with their invariant and with a raw
  matrix of the same size, they keep the invariant and the size, every bit of the debounced matrix
  either stays or takes the value of the raw matrix, and the result says exactly whether the
  debounced matrix changed.
\<close>

theorem debounce_contract:
  "debouncer (none_debounce :: uint32 \<Rightarrow> 'r::len matrix \<Rightarrow> bool \<Rightarrow> unit \<times> 'r matrix \<Rightarrow> _) (\<lambda>_ _. True)
   \<and> debouncer (sym_defer_g D16 :: uint32 \<Rightarrow> 'r matrix \<Rightarrow> _) (\<lambda>_ _. True)
   \<and> debouncer (sym_defer_pr D :: uint32 \<Rightarrow> 'r matrix \<Rightarrow> _)
       (\<lambda>st cooked. length (countdowns st) = length cooked \<and> length (last_raw st) = length cooked)
   \<and> debouncer (sym_eager_pr D :: uint32 \<Rightarrow> 'r matrix \<Rightarrow> _) (\<lambda>st cooked. length (debounce_counters st) = length cooked)
   \<and> debouncer (sym_defer_pk D cols :: uint32 \<Rightarrow> 'r matrix \<Rightarrow> _) (defer_pk.pk_inv cols)
   \<and> debouncer (sym_eager_pk D cols :: uint32 \<Rightarrow> 'r matrix \<Rightarrow> _) (eager_pk.pk_inv cols)
   \<and> debouncer (asym_eager_defer_pk D7 cols :: uint32 \<Rightarrow> 'r matrix \<Rightarrow> _) (asym_pk.pk_inv cols)"
  unfolding sym_defer_pk_eq sym_eager_pk_eq asym_eager_defer_pk_eq
  by (intro conjI none.debouncer_axioms defer_g.debouncer_axioms defer_pr.debouncer_axioms eager_pr.debouncer_axioms
      defer_pk.debouncer_axioms eager_pk.debouncer_axioms asym_pk.debouncer_axioms)

text \<open>
  C7. The default per-key algorithm \<open>sym_defer_pk\<close> filters bounces: whenever a scan flips a key of the
  debounced matrix, the raw matrix has shown the new value of that key in every scan since a scan at
  least \<open>DEBOUNCE\<close> milliseconds back.
\<close>

theorem sym_defer_pk_filters:
  fixes R :: "nat \<Rightarrow> 'r::len matrix"
  assumes "0 < D" "steady_clock T" "settled cols st (R 0)" "\<forall>n. length (R n) = length (R 0)" "r < length (R 0)" "c < cols"
    and "bit (snd (snd (scan_run (sym_defer_pk D cols) T R (st, R 0) (Suc n))) ! r) c
      \<noteq> bit (snd (snd (scan_run (sym_defer_pk D cols) T R (st, R 0) n)) ! r) c"
  shows "\<exists>m\<le>Suc n. unat D \<le> T (Suc n) - T m
    \<and> (\<forall>j. m \<le> j \<and> j \<le> Suc n \<longrightarrow>
         bit (R j ! r) c = bit (snd (snd (scan_run (sym_defer_pk D cols) T R (st, R 0) (Suc n))) ! r) c)"
  by (rule sym_defer_pk_run(1) [OF assms])

text \<open>One key, pressed before the first scan at 10 ms and held; scans are 10 ms apart.\<close>

definition press_scan :: "nat \<Rightarrow> 8 matrix" where "press_scan n = (if n = 0 then [0] else [1])"
definition press_start :: "uint8 debounce_state" where
  "press_start = \<lparr>debounce_counters = [0], last_time = 0, counters_need_update = False, matrix_need_update = False,
     cooked_changed = False\<rparr>"

lemma press_setup: "steady_clock (\<lambda>n. 10 * n)" "settled 1 press_start (press_scan 0)"
  "\<forall>n. length (press_scan n) = length (press_scan 0)" "0 < length (press_scan 0)"
  by (auto simp: steady_clock_def settled_def shaped_def press_start_def press_scan_def)

theorem sym_defer_pk_filters_witness:
  "\<exists>m\<le>2. (5::nat) \<le> 10 * 2 - 10 * m \<and> (\<forall>j. m \<le> j \<and> j \<le> 2 \<longrightarrow> bit (press_scan j ! 0) 0)"
proof -
  let ?S = "scan_run (sym_defer_pk 5 1) (\<lambda>n. 10 * n) press_scan (press_start, press_scan 0)"
  have "\<not> bit (snd (snd (?S 1)) ! 0) 0" "bit (snd (snd (?S (Suc 1))) ! 0) 0" by code_simp+
  moreover have "(0 :: uint8) < 5" "unat (5 :: uint8) = 5" "Suc 1 = 2" "(0 :: nat) < 1" by simp_all
  ultimately show ?thesis using sym_defer_pk_filters [OF _ press_setup, of 5 0 1] by metis
qed

text \<open>
  C8. And it is not deaf: a key that the raw matrix has shown steadily for \<open>DEBOUNCE\<close> milliseconds is in
  the debounced matrix with that value.
\<close>

theorem sym_defer_pk_accepts:
  fixes R :: "nat \<Rightarrow> 'r::len matrix"
  assumes "0 < D" "steady_clock T" "settled cols st (R 0)" "\<forall>n. length (R n) = length (R 0)" "r < length (R 0)" "c < cols"
    and "m \<le> n" "unat D \<le> T n - T m" "\<forall>j. m \<le> j \<and> j \<le> n \<longrightarrow> bit (R j ! r) c = x"
  shows "bit (snd (snd (scan_run (sym_defer_pk D cols) T R (st, R 0) n)) ! r) c = x"
  by (rule sym_defer_pk_run(2) [OF assms])

theorem sym_defer_pk_accepts_witness:
  "bit (snd (snd (scan_run (sym_defer_pk 5 1) (\<lambda>n. 10 * n) press_scan (press_start, press_scan 0) 2)) ! 0) 0 = True"
  by (rule sym_defer_pk_accepts [OF _ press_setup, where m = 1]) (auto simp: press_scan_def)

text \<open>
  C9. The eager algorithm \<open>sym_eager_pk\<close> reports a change at once and then ignores the key for \<open>DEBOUNCE\<close> milliseconds, and no
  longer: two flips of the same key of the debounced matrix are at least \<open>DEBOUNCE\<close> milliseconds apart, and in every scan
  in which the last flip is at least that old, or there was none, the debounced matrix shows the raw value.
\<close>

theorem sym_eager_pk_lockout:
  fixes R :: "nat \<Rightarrow> 'r::len matrix" and D T cols st r c
  defines "V \<equiv> \<lambda>j. bit (snd (snd (scan_run (sym_eager_pk D cols) T R (st, R 0) j)) ! r) c"
  assumes "0 < D" "steady_clock T" "settled cols st (R 0)" "\<forall>n. length (R n) = length (R 0)" "r < length (R 0)" "c < cols"
  shows "(flips V m \<and> flips V n \<and> m < n \<longrightarrow> unat D \<le> T n - T m)
    \<and> ((\<forall>m<n. flips V m \<longrightarrow> unat D \<le> T n - T m) \<longrightarrow> V n = bit (R n ! r) c)"
proof -
  note tr = sym_eager_pk_tracks [OF assms(2-5), of n]
  obtain v k where "eager_life T (unat D) (\<lambda>j. bit (R j ! r) c) V n (v, k)"
    using tr assms(6,7) unfolding eager_tracks_def V_def by (metis surj_pair)
  then show ?thesis using eager_life_follows [of T "unat D" _ V n v k] tr assms(6,7) by (auto simp: V_def)
qed

text \<open>A key that bounces: it is down in scan 1 only. The scans are two milliseconds apart.\<close>

definition bounce_scan :: "nat \<Rightarrow> uint8 list" where "bounce_scan n = [if n = 1 then 1 else 0]"

theorem sym_eager_pk_lockout_witness:
  "map (\<lambda>j. bit (snd (snd (scan_run (sym_eager_pk 5 1) (\<lambda>n. 2 * n) bounce_scan (press_start, bounce_scan 0) j)) ! 0) 0) [0, 1, 2, 4]
     = [False, True, True, False]"
proof -
  define V where "V = (\<lambda>j. bit (snd (snd (scan_run (sym_eager_pk 5 1) (\<lambda>n. 2 * n) bounce_scan (press_start, bounce_scan 0) j)) ! 0) 0)"
  have "steady_clock (\<lambda>n. 2 * n)" "settled 1 press_start (bounce_scan 0)" "\<forall>n. length (bounce_scan n) = length (bounce_scan 0)"
    "0 < length (bounce_scan 0)"
    by (auto simp: steady_clock_def settled_def shaped_def press_start_def bounce_scan_def)
  then have r: "(flips V m \<and> flips V n \<and> m < n \<longrightarrow> unat (5 :: uint8) \<le> 2 * n - 2 * m)
      \<and> ((\<forall>m<n. flips V m \<longrightarrow> unat (5 :: uint8) \<le> 2 * n - 2 * m) \<longrightarrow> V n = bit (bounce_scan n ! 0) 0)" for m n
    unfolding V_def by (intro sym_eager_pk_lockout) simp_all
  have raw: "bit (bounce_scan n ! 0) 0 \<longleftrightarrow> n = 1" for n by (simp add: bounce_scan_def)
  have v0: "\<not> V 0" "\<not> flips V 0" by (simp_all add: V_def bounce_scan_def flips_def)
  then have v1: "V 1" using r [of _ 1] raw by simp
  then have f1: "flips V 1" using v0 by (simp add: flips_def)
  have f: "\<not> flips V 2" "\<not> flips V 3" using r [of 1 2] r [of 1 3] f1 by auto
  have v2: "V 2" using f(1) v1 by (simp add: flips_def)
  have "m = 1" if "m < 4" "flips V m" for m using that v0 f by (auto simp: less_Suc_eq numeral_eq_Suc)
  then have "\<forall>m<4. flips V m \<longrightarrow> unat (5 :: uint8) \<le> 2 * 4 - 2 * m" by fastforce
  then have "\<not> V 4" using r [of _ 4] raw by simp
  then show ?thesis using v0 v1 v2 by (simp add: V_def)
qed

section \<open>Keyboard reports\<close>

text \<open>
  C10. No stuck keys: after the release of a key, and any further presses and releases of other keys, the
  key is not in the report, in six-key and in N-key rollover mode alike.
\<close>

theorem released_key_not_reported:
  assumes "report_ok s" "k \<noteq> 0" "\<forall>(down, j)\<in>set es. j \<noteq> 0 \<and> (down \<longrightarrow> j \<noteq> k)"
  shows "\<not> is_key_pressed k (report.events es (del_key_from_report k s))"
  using report.released_not_pressed [OF assms] by simp

theorem released_key_not_reported_witness:
  "\<not> is_key_pressed 4 (report.events [(True, 5), (False, 6)] (del_key_from_report 4
      \<lparr>keys = [4, 6, 0, 0, 0, 0], bits = replicate 30 0, keyboard_protocol = True, keymap_config = plain_config\<rparr>))"
  by (rule released_key_not_reported) (auto simp: report_ok_def KEYBOARD_REPORT_KEYS_def NKRO_REPORT_BITS_def)

text \<open>
  C11. What a report operation does to the set of reported keys: adding a key adds exactly that key if
  the report has room for it (a free slot, or a code inside the bitmap) and nothing otherwise, deleting
  removes exactly that key, and clearing removes all keys.
\<close>

theorem report_operations:
  assumes "report_ok s" "k \<noteq> 0"
  shows "(is_key_pressed j (add_key_to_report k s) \<longleftrightarrow> is_key_pressed j s \<or> (j = k \<and> has_room s k))
    \<and> (is_key_pressed j (del_key_from_report k s) \<longleftrightarrow> is_key_pressed j s \<and> j \<noteq> k)
    \<and> \<not> is_key_pressed j (clear_keys_from_report s)"
  using report.pressed_add [OF assms, of j] report.pressed_del [OF assms, of j] report.pressed_clear [OF assms(1), of j]
  by (intro conjI)

theorem report_operations_witness:
  "is_key_pressed 7 (add_key_to_report 7 \<lparr>keys = [4, 6, 0, 0, 0, 0], bits = replicate 30 0, keyboard_protocol = True, keymap_config = plain_config\<rparr>)"
proof -
  let ?s = "\<lparr>keys = [4, 6, 0, 0, 0, 0], bits = replicate 30 0, keyboard_protocol = True, keymap_config = plain_config\<rparr> :: report_state"
  have ok: "report_ok ?s" "has_room ?s 7" "(7 :: uint8) \<noteq> 0"
    by (simp_all add: report_ok_def has_room_def use_nkro_def plain_config_def KEYBOARD_REPORT_KEYS_def NKRO_REPORT_BITS_def)
  show ?thesis using report_operations [OF ok(1,3)] ok(2) by blast
qed

section \<open>Keycodes and layers\<close>

text \<open>
  C12. A key releases what it pressed. The action that a release executes is the one its press executed,
  whatever layers were switched and whatever other keys were pressed in between, as long as the layer
  cache was not disabled and the remapping options did not change.
\<close>

theorem release_action_matches_press:
  assumes "cache_ok cf (source_layers_cache s)" "in_matrix cf k" "\<not> disable_action_cache s"
    and "\<forall>(j, l)\<in>set us. in_matrix cf j \<and> j \<noteq> k"
    and "source_layers_cache s' = source_layers_cache
      (fold (\<lambda>(j, l). update_source_layers_cache cf j l) us (snd (store_or_get_action cf True k s)))"
    and "keymap_config s' = keymap_config s" "\<not> disable_action_cache s'"
  shows "fst (store_or_get_action cf False k s') = fst (store_or_get_action cf True k s)"
  by (rule stored_action [OF assms])

theorem release_action_matches_press_witness:
  "fst (store_or_get_action demo_config False \<lparr>row = 0, col = 1\<rparr>
      ((snd (store_or_get_action demo_config True \<lparr>row = 0, col = 1\<rparr> demo_state))\<lparr>layer_state := 2\<rparr>))
   = fst (store_or_get_action demo_config True \<lparr>row = 0, col = 1\<rparr> demo_state)"
  by (rule release_action_matches_press [where us = "[]"])
    (simp_all add: demo_config_def base_config_def demo_state_def cache_ok_def in_matrix_def store_or_get_action_def Let_def
      update_source_layers_cache_def)

text \<open>
  C13. The layer a key is on: the highest layer that is on and not transparent for the key, and layer 0
  if there is none.
\<close>

theorem layer_lookup:
  "(let l = unat (layer_switch_get_layer cf s k)
    in l < 16 \<and> (opaque cf s k l \<or> l = 0) \<and> (\<forall>j. l < j \<and> j < 16 \<longrightarrow> \<not> opaque cf s k j))"
proof (cases "\<exists>i<16. opaque cf s k i")
  case True
  then show ?thesis using layer_switch_get_layer_spec(1) [OF True] by (simp add: Let_def)
next
  case False
  then show ?thesis using layer_switch_get_layer_spec(2) [OF False] by (simp add: Let_def)
qed

theorem layer_lookup_witness:
  "\<not> opaque demo_config (demo_state\<lparr>layer_state := 2\<rparr>) \<lparr>row = 0, col = 1\<rparr> 2
   \<and> opaque demo_config (demo_state\<lparr>layer_state := 2\<rparr>) \<lparr>row = 0, col = 1\<rparr> 1"
proof -
  have "layer_switch_get_layer demo_config (demo_state\<lparr>layer_state := 2\<rparr>) \<lparr>row = 0, col = 1\<rparr> = 1" by code_simp
  then show ?thesis
    using layer_lookup [of demo_config "demo_state\<lparr>layer_state := 2\<rparr>" "\<lparr>row = 0, col = 1\<rparr>"] by (simp add: Let_def)
qed

text \<open>
  Three layers tied together: layer \<open>c\<close> is on exactly when \<open>a\<close> and \<open>b\<close> are, and no other layer is
  touched.
\<close>

theorem tri_layer:
  assumes "unat a < 16" "unat b < 16" "unat c < 16"
  shows "bit (update_tri_layer_state st a b c) i \<longleftrightarrow> (if i = unat c then bit st (unat a) \<and> bit st (unat b) else bit st i)"
  by (rule tri_layer_bits [OF assms])

theorem tri_layer_witness: "bit (update_tri_layer_state 6 1 2 3) 3 \<longleftrightarrow> bit (6 :: uint16) 1 \<and> bit (6 :: uint16) 2"
  using tri_layer [of 1 2 3 6 3] by simp

text \<open>
  C15. The keymap macros and their decoding: a key written \<open>LT(layer, kc)\<close>, \<open>MT(mod, kc)\<close>, \<open>MO(layer)\<close>
  or \<open>OSL(layer)\<close> becomes an action with that layer, those modifiers and that keycode, after the
  remapping options of the user.
\<close>

theorem keymap_macros_decode:
  "kind_id (action_for_keycode swap cfg (LT l k)) = ACT_LAYER_TAP
   \<and> layer_tap_val (action_for_keycode swap cfg (LT l k)) = l AND 0xF
   \<and> layer_tap_code (action_for_keycode swap cfg (LT l k)) = low8 (keycode_config cfg (ucast k))
   \<and> kind_id (action_for_keycode swap cfg (MT m k)) = ACT_LMODS_TAP OR (drop_bit 4 (mod_config cfg (m AND 0x1F)) AND 1)
   \<and> key_mods (action_for_keycode swap cfg (MT m k)) = mod_config cfg (m AND 0x1F) AND 0xF
   \<and> key_code (action_for_keycode swap cfg (MT m k)) = low8 (keycode_config cfg (ucast k))
   \<and> layer_tap_val (action_for_keycode swap cfg (MO l)) = l AND 0x1F
   \<and> layer_tap_code (action_for_keycode swap cfg (MO l)) = OP_ON_OFF
   \<and> layer_tap_val (action_for_keycode swap cfg (OSL l)) = l AND 0x1F
   \<and> layer_tap_code (action_for_keycode swap cfg (OSL l)) = OP_ONESHOT"
  by (intro conjI layer_tap_decodes mod_tap_decodes layer_key_decodes)

text \<open>
  C16. \<open>LM(layer, mod)\<close> with a right-hand modifier switches another layer: the flag of the right hand,
  bit 4 of the modifiers, is shifted into the layer number, so every even layer \<open>l\<close> becomes \<open>l + 1\<close>.
\<close>

theorem layer_mod_wrong_layer:
  assumes "mod_config cfg (m AND 0x1F) = m AND 0x1F"
  shows "layer_mods_layer (action_for_keycode swap cfg (LM l m)) = (l AND 0xF) OR (drop_bit 4 m AND 1)
    \<and> layer_mods_mods (action_for_keycode swap cfg (LM l m)) = (if bit m 4 then push_bit 4 m else m AND 0xF)"
  using layer_mod_decodes [OF assms] by simp

theorem layer_mod_wrong_layer_witness: "layer_mods_layer (action_for_keycode False plain_config (LM 2 MOD_RCTL)) = 3"
proof -
  have "mod_config plain_config (MOD_RCTL AND 0x1F) = MOD_RCTL AND 0x1F" by code_simp
  then show ?thesis using layer_mod_wrong_layer [of plain_config MOD_RCTL False 2] by simp
qed

text \<open>
  C17. With the GUI keys disabled, a modifier setting loses its right-hand flag: the right-hand control
  of \<open>RCTL\<close> or \<open>RCTL_T\<close> is sent as the left-hand one.
\<close>

theorem no_gui_forgets_right_hand: "no_gui cfg \<longrightarrow> \<not> bit (mod_config cfg m) 4"
proof
  assume "no_gui cfg"
  then have "\<not> bit (mod_config cfg m AND 0x10) 4" by (simp add: no_gui_drops_right)
  then show "\<not> bit (mod_config cfg m) 4" by (simp add: bit_simps)
qed

theorem no_gui_forgets_right_hand_witness: "\<not> bit (mod_config (plain_config\<lparr>no_gui := True\<rparr>) MOD_RCTL) 4"
  using no_gui_forgets_right_hand [of "plain_config\<lparr>no_gui := True\<rparr>" MOD_RCTL] by (simp add: plain_config_def)

section \<open>Executing actions\<close>

text \<open>
  C18. The invariant of the action code. Whatever events arrive, and whatever the keyboard's own functions
  do as long as they keep the invariant too: the caches and buffers keep their sizes, the indices stay in
  range, and the keys of the report are exactly the keys of the last report the host received, so no key
  is ever stuck on the host.
\<close>

theorem action_exec_invariant:
  assumes "hooks_keep cf (kbd_inv cf)" "kbd_inv cf s"
  shows "kbd_inv cf (fold (action_exec cf) evs s)
    \<and> (driver (fold (action_exec cf) evs s) \<longrightarrow>
         host_pressed k (fold (action_exec cf) evs s) = is_key_pressed k (fold (action_exec cf) evs s))"
proof -
  have "kbd_inv cf (fold (action_exec cf) evs s)" using assms(2)
    by (induction evs arbitrary: s) (simp_all add: inv.action_exec_kept [OF assms(1)])
  then show ?thesis using host_pressed_iff by blast
qed

theorem action_exec_invariant_witness:
  "kbd_inv demo_config (fold (action_exec demo_config) [key_event \<lparr>row = 0, col = 1\<rparr> 10 True, tick_event 20] demo_state)"
  using action_exec_invariant [OF demo_hooks demo_inv] by blast

text \<open>
  C19. Registering a basic key reaches the host: afterwards the host sees exactly the keys it saw before
  and this one, if the report had room for it; unregistering takes exactly this key away.
\<close>

theorem register_code_reaches_host:
  assumes "kbd_inv cf s" "driver s" "IS_BASIC_KEYCODE k" "\<not> LOCKING_SUPPORT_ENABLE cf"
  shows "(host_pressed j (register_code cf k s) \<longleftrightarrow> host_pressed j s \<or> (j = k \<and> has_room s k))
    \<and> (host_pressed j (unregister_code cf k s) \<longleftrightarrow> host_pressed j s \<and> j \<noteq> k)"
  using register_code_host [OF assms] by blast

theorem register_code_reaches_host_witness: "host_pressed 4 (register_code demo_config 4 demo_state)"
proof -
  have "driver demo_state" "IS_BASIC_KEYCODE (4 :: uint8)" "\<not> LOCKING_SUPPORT_ENABLE demo_config" "has_room demo_state 4"
    by (simp_all add: demo_state_def demo_config_def base_config_def IS_BASIC_KEYCODE_def has_room_def use_nkro_def plain_config_def)
  then show ?thesis using register_code_reaches_host [OF demo_inv] by blast
qed

text \<open>
  C20. One-shot modifiers: a report is sent with the real, the weak and the one-shot modifiers, and if it
  carries a key the one-shot modifiers are used up; a report without a key keeps them.
\<close>

theorem oneshot_mods_used_once:
  assumes "kbd_inv cf s" "driver s" "\<not> has_oneshot_mods_timed_out cf s" "suppressed_mods s = 0" "weak_override_mods s = 0"
  shows "host_mods (send_keyboard_report cf s) = real_mods s OR weak_mods s OR oneshot_mods s
    \<and> oneshot_mods (send_keyboard_report cf s) = (if has_anykey s \<noteq> 0 then 0 else oneshot_mods s)"
  using oneshot_mods_used [of cf s] assms by (simp add: kbd_inv_def)

theorem oneshot_mods_used_once_witness:
  "host_mods (send_keyboard_report demo_config (demo_state\<lparr>oneshot_mods := 2\<rparr>)) = 2"
proof -
  have "kbd_inv demo_config (demo_state\<lparr>oneshot_mods := 2\<rparr>)" using demo_inv by (rule inv_record.kept)
  then show ?thesis
    using oneshot_mods_used_once [of demo_config "demo_state\<lparr>oneshot_mods := 2\<rparr>"]
    by (simp add: demo_state_def demo_config_def base_config_def has_oneshot_mods_timed_out_def)
qed

text \<open>
  C21. \<open>process_record\<close> is recursive in the source, through \<open>process_action\<close>, which releases the key that
  used a one-shot layer. The definition unrolls the recursion twice, and that is all of it: it satisfies
  the recursive equation of the source, if the keyboard's own functions leave the record pointer valid
  and do not turn a release into a press.
\<close>

theorem process_record_recursion:
  assumes "hooks_keep cf (release_ptr p)" "hooks_keep cf (valid_ptr p)" "valid_ptr p s"
  shows "process_record cf p s = process_record_level cf (process_record cf) p s"
  by (rule process_record_unfold [OF assms])

theorem process_record_recursion_witness:
  "process_record demo_config Arg demo_state = process_record_level demo_config (process_record demo_config) Arg demo_state"
  by (rule process_record_recursion [OF demo_hooks demo_hooks]) (simp add: valid_ptr_def)

section \<open>Tap-hold keys\<close>

text \<open>The waiting buffer as it is meant: a list of at most seven records.\<close>

definition queue_enq :: "keyrecord_t \<Rightarrow> keyrecord_t list \<Rightarrow> bool \<times> keyrecord_t list" where
  "queue_enq r q = (if IS_NOEVENT (event r) then (True, q) else if length q = 7 then (False, q) else (True, q @ [r]))"

text \<open>
  C22. The ring of eight slots implements that list: queueing, taking the oldest record, clearing, and
  the search for the other event of a key.
\<close>

theorem waiting_buffer_refines_queue:
  assumes "ring_ok s"
  shows "map_prod id waiting_records (waiting_buffer_enq r s) = queue_enq r (waiting_records s)
    \<and> (waiting_records s \<noteq> [] \<longrightarrow> waiting_records (pop_tail s) = tl (waiting_records s)
         \<and> waiting_buffer s ! waiting_buffer_tail s = hd (waiting_records s))
    \<and> waiting_records (waiting_buffer_clear s) = []
    \<and> (waiting_buffer_typed ev s \<longleftrightarrow>
         (\<exists>r\<in>set (waiting_records s). key ev = key (event r) \<and> pressed ev \<noteq> pressed (event r)))
    \<and> ring_ok (snd (waiting_buffer_enq r s)) \<and> ring_ok (pop_tail s) \<and> ring_ok (waiting_buffer_clear s)"
proof -
  have "map_prod id waiting_records (waiting_buffer_enq r s) = queue_enq r (waiting_records s)"
  proof (cases "IS_NOEVENT (event r)")
    case False
    then show ?thesis using waiting.enq_room [OF assms False] waiting.enq_full [OF assms False] waiting.bounded [OF assms]
      by (cases "length (waiting_records s) = 7") (auto simp: queue_enq_def WAITING_BUFFER_SIZE_def map_prod_def split: prod.splits)
  qed (simp add: queue_enq_def waiting.enq_ignored)
  then show ?thesis
    using waiting.inv_ops [OF assms] waiting.pop_head [OF assms] waiting.clear_empty [OF assms] oldest_record [OF assms]
    by (simp add: typed_iff)
qed

theorem waiting_buffer_refines_queue_witness:
  "waiting_records (snd (waiting_buffer_enq (record_of (key_event \<lparr>row = 0, col = 1\<rparr> 10 True)) demo_state))
   = [record_of (key_event \<lparr>row = 0, col = 1\<rparr> 10 True)]"
proof -
  have "ring_ok demo_state" "waiting_records demo_state = []" by code_simp+
  then have "map_prod id waiting_records (waiting_buffer_enq (record_of (key_event \<lparr>row = 0, col = 1\<rparr> 10 True)) demo_state)
      = queue_enq (record_of (key_event \<lparr>row = 0, col = 1\<rparr> 10 True)) []"
    using waiting_buffer_refines_queue [of demo_state] by metis
  from arg_cong [where f = snd, OF this] show ?thesis by (simp add: queue_enq_def) (simp add: event_defs)
qed

text \<open>
  C23. The buffer runs over: when an event has to wait and seven records are waiting already, everything
  is dropped. No key and no modifier is left in the report, the buffer is empty and no tap-hold key is
  pending.
\<close>

theorem waiting_buffer_overflow:
  assumes "process_tapping cf Arg s = (False, s1)" "ring_ok s1" "length (waiting_records s1) = 7"
    "IS_EVENT (event (arg_record s1))" "report_ok s1"
  shows "waiting_records (action_tapping_process cf s) = [] \<and> tapping_key (action_tapping_process cf s) = no_record
    \<and> (\<forall>k. \<not> is_key_pressed k (action_tapping_process cf s))
    \<and> real_mods (action_tapping_process cf s) = 0 \<and> weak_mods (action_tapping_process cf s) = 0"
proof -
  let ?c = "(waiting_buffer_clear (clear_keyboard cf s1))\<lparr>tapping_key := no_record\<rparr>"
  have "\<not> IS_NOEVENT (event (arg_record s1))" using assms(4) by (simp add: IS_EVENT_def IS_NOEVENT_def)
  then have "waiting_buffer_enq (arg_record s1) s1 = (False, s1)"
    using waiting.enq_full [OF assms(2)] assms(3) by (simp add: WAITING_BUFFER_SIZE_def)
  moreover have "process_waiting cf WAITING_BUFFER_SIZE ?c = ?c"
    by (simp add: WAITING_BUFFER_SIZE_def numeral_eq_Suc waiting_buffer_clear_def)
  ultimately have e: "action_tapping_process cf s = flow_tap_expire cf ?c"
    using assms(1) by (simp add: action_tapping_process_def)
  have x: "waiting_records (flow_tap_expire cf ?c) = []" "tapping_key (flow_tap_expire cf ?c) = no_record"
    "real_mods (flow_tap_expire cf ?c) = real_mods (clear_keyboard cf s1)"
    "weak_mods (flow_tap_expire cf ?c) = weak_mods (clear_keyboard cf s1)"
    by (simp_all add: flow_tap_expire_def waiting_records_def empty_slots waiting_buffer_clear_def)
  have "is_key_pressed k (flow_tap_expire cf ?c) = is_key_pressed k (clear_keyboard cf s1)" for k
    by (rule pressed_cong) (simp_all add: flow_tap_expire_def waiting_buffer_clear_def use_nkro_def)
  then show ?thesis unfolding e using x clear_keyboard_clears [OF assms(5)] by simp
qed

definition full_state :: kbd where
  "full_state = demo_state\<lparr>tapping_key := record_of (key_event \<lparr>row = 0, col = 0\<rparr> 10 True),
     waiting_buffer := replicate 8 (record_of (key_event \<lparr>row = 0, col = 1\<rparr> 20 True)), waiting_buffer_head := 7,
     arg_record := record_of (key_event \<lparr>row = 0, col = 1\<rparr> 30 True)\<rparr>"

theorem waiting_buffer_overflow_witness: "waiting_records (action_tapping_process demo_config full_state) = []"
proof -
  let ?s1 = "snd (process_tapping demo_config Arg full_state)"
  have "fst (process_tapping demo_config Arg full_state) = False" "ring_ok ?s1" "length (waiting_records ?s1) = 7"
    "IS_EVENT (event (arg_record ?s1))" "report_ok ?s1" by code_simp+
  then show ?thesis using waiting_buffer_overflow [of demo_config full_state ?s1] by (simp add: prod_eq_iff)
qed

text \<open>
  C24. The loops over the waiting buffer end. Their fuel of eight rounds is enough, since more does not
  change the result, if the keyboard's own functions do not move the head or the tail of the buffer.
\<close>

theorem waiting_loops_end:
  assumes "\<forall>h t. hooks_keep cf (at_indices h t)" "ring_ok s" "WAITING_BUFFER_SIZE \<le> n"
  shows "process_waiting cf n s = process_waiting cf WAITING_BUFFER_SIZE s
    \<and> process_regular cf n s = process_regular cf WAITING_BUFFER_SIZE s
    \<and> chordal_hold_taps_until cf k n s = chordal_hold_taps_until cf k WAITING_BUFFER_SIZE s
    \<and> flow_tap_settle cf n t s = flow_tap_settle cf WAITING_BUFFER_SIZE t s"
proof -
  have "waiting_count s \<le> n" "waiting_count s \<le> WAITING_BUFFER_SIZE" using waiting_count_less [of s] assms(3) by simp_all
  moreover have "hooks_keep cf (at_indices h t)" for h t using assms(1) by blast
  ultimately show ?thesis using assms(2)
    by (intro conjI process_waiting_fuel process_regular_fuel chordal_hold_taps_until_fuel flow_tap_settle_fuel)
      (simp_all add: ring_ok_def)
qed

theorem waiting_loops_end_witness:
  "process_waiting demo_config 100 demo_state = process_waiting demo_config WAITING_BUFFER_SIZE demo_state"
proof -
  have "ring_ok demo_state" by code_simp
  then show ?thesis using waiting_loops_end [of demo_config demo_state 100] demo_hooks by (simp add: WAITING_BUFFER_SIZE_def)
qed

text \<open>
  C25. A mod-tap key that is released within its tapping term is a tap, for every keymap, term and time,
  with any number of clock ticks in between: the host receives one report with the tapped key and one
  without it, and no modifier. The keyboard has no code of its own, and nothing was down before.
\<close>

theorem mod_tap_tapped:
  assumes "bare cf" "calm cf s" "IS_NOEVENT (event (tapping_key s))" "reported 0 [0, 0, 0, 0, 0, 0] (s\<lparr>weak_mods := 0\<rparr>)"
    and "mod_tap_at cf s k (layer_switch_get_layer cf s k) a"
    and "\<forall>t'\<in>set (ts @ [t1]). in_term cf k (layer_switch_get_layer cf s k) t t'"
  shows "out (fold (action_exec cf) (key_event k t True # map tick_event ts @ [key_event k t1 False]) s) =
    out s @ [SendKeyboard 0 [key_code a, 0, 0, 0, 0, 0], SendKeyboard 0 [0, 0, 0, 0, 0, 0]]"
proof -
  let ?l = "layer_switch_get_layer cf s k" and ?s1 = "action_exec cf (key_event k t True) s"
  note p = press_held [OF assms(1-5), of t]
  let ?s2 = "fold (\<lambda>t. action_exec cf (tick_event t)) ts ?s1"
  have h: "held cf k ?l a t ?s2" "out ?s2 = out ?s1" using ticks_keep_held [OF assms(1) p(1), of ts] assms(6) by simp_all
  have "in_term cf k ?l t t1" using assms(6) by simp
  from release_in_term [OF assms(1) h(1) this] show ?thesis using h(2) p(2) by (simp add: fold_map comp_def)
qed

definition demo_mod_tap :: action_t where "demo_mod_tap = action_for_keycode False plain_config (MT 2 4)"

lemma demo_ready:
  "bare demo_config" "calm demo_config demo_state" "IS_NOEVENT (event (tapping_key demo_state))"
  "reported 0 [0, 0, 0, 0, 0, 0] (demo_state\<lparr>weak_mods := 0\<rparr>)"
  "layer_switch_get_layer demo_config demo_state \<lparr>row = 0, col = 0\<rparr> = 0"
  "mod_tap_at demo_config demo_state \<lparr>row = 0, col = 0\<rparr> 0 demo_mod_tap"
  "key_code demo_mod_tap = 4" "action_mods demo_mod_tap = 2"
  by (simp add: bare_def demo_config_def base_config_def) code_simp+

theorem mod_tap_tapped_witness:
  "out (fold (action_exec demo_config) (key_event \<lparr>row = 0, col = 0\<rparr> 10 True # map tick_event [20, 100]
      @ [key_event \<lparr>row = 0, col = 0\<rparr> 150 False]) demo_state) = [SendKeyboard 0 [4, 0, 0, 0, 0, 0], SendKeyboard 0 [0, 0, 0, 0, 0, 0]]"
proof -
  have "\<forall>t'\<in>set ([20, 100] @ [150]). in_term demo_config \<lparr>row = 0, col = 0\<rparr> 0 10 t'" by code_simp
  then show ?thesis
    using mod_tap_tapped [OF demo_ready(1-4), of "\<lparr>row = 0, col = 0\<rparr>" demo_mod_tap "[20, 100]" 150 10] demo_ready(5-7)
    by (simp add: demo_state_def)
qed

text \<open>
  C26. A mod-tap key that is still down at the first clock tick after its term is the modifier: that tick
  reports the modifier, the release takes it back, and the tapped key is never sent.
\<close>

theorem mod_tap_held:
  assumes "bare cf" "calm cf s" "IS_NOEVENT (event (tapping_key s))" "reported 0 [0, 0, 0, 0, 0, 0] (s\<lparr>weak_mods := 0\<rparr>)"
    and "mod_tap_at cf s k (layer_switch_get_layer cf s k) a" "action_mods a \<noteq> 0"
    and "\<forall>t'\<in>set ts. in_term cf k (layer_switch_get_layer cf s k) t t'" "\<not> in_term cf k (layer_switch_get_layer cf s k) t t1"
  shows "out (fold (action_exec cf)
      (key_event k t True # map tick_event ts @ tick_event t1 # map tick_event us @ [key_event k t2 False]) s) =
    out s @ [SendKeyboard (action_mods a) [0, 0, 0, 0, 0, 0], SendKeyboard 0 [0, 0, 0, 0, 0, 0]]"
proof -
  let ?l = "layer_switch_get_layer cf s k" and ?s1 = "action_exec cf (key_event k t True) s"
  note p = press_held [OF assms(1-5), of t]
  let ?s2 = "fold (\<lambda>t. action_exec cf (tick_event t)) ts ?s1"
  have h: "held cf k ?l a t ?s2" "out ?s2 = out ?s1" using ticks_keep_held [OF assms(1) p(1) assms(7)] by simp_all
  note d = tick_settles_hold [OF assms(1) h(1) assms(8) assms(6)]
  let ?s3 = "fold (\<lambda>t. action_exec cf (tick_event t)) us (action_exec cf (tick_event t1) ?s2)"
  have d3: "down cf k ?l a ?s3" "out ?s3 = out (action_exec cf (tick_event t1) ?s2)"
    using ticks_keep_down [OF assms(1) d(1), of us] by simp_all
  from release_after_hold [OF assms(1) d3(1) assms(6), of t2] show ?thesis
    using d3(2) d(2) h(2) p(2) by (simp add: fold_map comp_def)
qed

theorem mod_tap_held_witness:
  "out (fold (action_exec demo_config) (key_event \<lparr>row = 0, col = 0\<rparr> 10 True # map tick_event [20, 100] @ tick_event 250
      # map tick_event [260] @ [key_event \<lparr>row = 0, col = 0\<rparr> 300 False]) demo_state)
   = [SendKeyboard 2 [0, 0, 0, 0, 0, 0], SendKeyboard 0 [0, 0, 0, 0, 0, 0]]"
proof -
  have "\<forall>t'\<in>set [20, 100]. in_term demo_config \<lparr>row = 0, col = 0\<rparr> 0 10 t'" "\<not> in_term demo_config \<lparr>row = 0, col = 0\<rparr> 0 10 250"
    by code_simp+
  then show ?thesis
    using mod_tap_held [OF demo_ready(1-4), of "\<lparr>row = 0, col = 0\<rparr>" demo_mod_tap "[20, 100]" 10 250 "[260]" 300] demo_ready(5-8)
    by (simp add: demo_state_def)
qed

section \<open>From the matrix to the actions\<close>

text \<open>At power-on no key is down, and no event has happened.\<close>

definition keyboard_start :: "'z kbd_scheme config \<Rightarrow> uint16 \<Rightarrow> 'z kbd_scheme \<Rightarrow> 'r::len matrix matrix_task_state \<times> keyevent_t list \<times> 'z kbd_scheme" where
  "keyboard_start cf t s = (\<lparr>matrix_previous = replicate (unat (MATRIX_ROWS cf)) 0, last_tick = t\<rparr>, [], s)"

text \<open>
  C27. The main loop: run \<open>matrix_task\<close> over any sequence of debounced matrices, at any times, with or
  without ghost detection, and let \<open>action_exec\<close> execute the events. Then every key gets presses and
  releases in turn, starting with a press, and the last one says whether the key is down in the matrix
  that was processed. When the last matrix could be read, that is its value there, unless ghost detection is on and the row is
  ambiguous, that is, it shares two columns of pressed keys with another row: then the key stays as it was. The
  invariant of the action code holds all the time.
\<close>

theorem key_events_alternate:
  fixes scans :: "(uint16 \<times> bool \<times> 'r::len matrix) list"
  assumes "unat (MATRIX_COLS cf) \<le> LENGTH('r)" "r < unat (MATRIX_ROWS cf)" "c < unat (MATRIX_COLS cf)"
    and "hooks_keep cf (kbd_inv cf)" "kbd_inv cf s"
    and run: "fold (traced_scan (action_exec cf) ghost cf) scans (keyboard_start cf t0 s) = (mt, log, s')"
  shows "alternates False (presses (pos r c) log)
    \<and> level False (presses (pos r c) log) = bit (matrix_previous mt ! r) c
    \<and> (\<forall>before t m. scans = before @ [(t, True, m)] \<longrightarrow>
          level False (presses (pos r c) log) =
            (if ghost \<and> ambiguous_row cf m r
             then level False (presses (pos r c) (fst (snd (fold (traced_scan (action_exec cf) ghost cf) before (keyboard_start cf t0 s)))))
             else bit (m ! r) c))
    \<and> fold (scan_step (action_exec cf) ghost cf) scans (fst (keyboard_start cf t0 s), s) = (mt, s') \<and> kbd_inv cf s'"
proof -
  have start: "tracks cf r c (keyboard_start cf t0 s :: 'r matrix matrix_task_state \<times> keyevent_t list \<times> _)"
    using assms(2) by (simp add: tracks_def keyboard_start_def presses_def level_def)
  note tr = scans_track [OF assms(1-3), of "keyboard_start cf t0 s" "action_exec cf" ghost, OF start]
  have alt: "alternates False (presses (pos r c) log)" and lev: "level False (presses (pos r c) log) = bit (matrix_previous mt ! r) c"
    using tr [of scans] by (simp_all add: run tracks_def)
  have same: "fold (scan_step (action_exec cf) ghost cf) scans (fst (keyboard_start cf t0 s), s) = (mt, s')"
    using traced_scans [of "action_exec cf" ghost cf scans "keyboard_start cf t0 s"] unfolding run by (simp add: keyboard_start_def)
  have keeps: "kbd_inv cf s'"
    using scans_kept [of "kbd_inv cf" "action_exec cf" s ghost cf scans "fst (keyboard_start cf t0 s)"] assms(5)
      inv.action_exec_kept [OF assms(4)] inv_record.kept(1) [of cf] unfolding same by simp
  have "level False (presses (pos r c) log) =
      (if ghost \<and> ambiguous_row cf m r
       then level False (presses (pos r c) (fst (snd (fold (traced_scan (action_exec cf) ghost cf) before (keyboard_start cf t0 s)))))
       else bit (m ! r) c)"
    if a: "scans = before @ [(t, True, m)]" for before t m
  proof -
    obtain mt1 log1 s1 where b: "fold (traced_scan (action_exec cf) ghost cf) before (keyboard_start cf t0 s) = (mt1, log1, s1)"
      by (cases "fold (traced_scan (action_exec cf) ghost cf) before (keyboard_start cf t0 s)")
    have l1: "length (matrix_previous mt1) = unat (MATRIX_ROWS cf)" "level False (presses (pos r c) log1) = bit (matrix_previous mt1 ! r) c"
      using tr [of before] by (simp_all add: b tracks_def)
    have "traced_scan (action_exec cf) ghost cf (t, True, m) (mt1, log1, s1) = (mt, log, s')" using run b by (simp add: a)
    then have "matrix_previous mt ! r = (if ghost \<and> ambiguous_row cf m r then matrix_previous mt1 ! r else m ! r)"
      using scan_processed [OF assms(1) l1(1) assms(2), of "traced (action_exec cf)" "now \<circ> snd" ghost m "(log1, s1\<lparr>now := t\<rparr>)"]
      by (simp add: traced_scan_def)
    then show ?thesis unfolding lev b using l1(2) by simp
  qed
  then show ?thesis using alt lev same keeps by blast
qed

text \<open>
  A press and a release, and three keys of a rectangle: with ghost detection the key that is read in the ambiguous rows is not reported.
\<close>

theorem key_events_alternate_witness:
  "let scan = \<lambda>ghost scans. presses (pos 0 1) (fst (snd (fold (traced_scan (action_exec demo_config) ghost demo_config) scans
       (keyboard_start demo_config 0 demo_state))))
   in alternates False (scan False [(5, True, [2 :: uint8, 0]), (9, True, [0, 0])])
      \<and> \<not> level False (scan False [(5, True, [2 :: uint8, 0]), (9, True, [0, 0])])
      \<and> level False (scan False [(5, True, [1 :: uint8, 3]), (9, True, [3, 3])])
      \<and> \<not> level False (scan True [(5, True, [1 :: uint8, 3]), (9, True, [3, 3])])"
proof -
  define P where "P ghost scans = presses (pos 0 1) (fst (snd (fold (traced_scan (action_exec demo_config) ghost demo_config) scans
    (keyboard_start demo_config 0 demo_state))))" for ghost and scans :: "(uint16 \<times> bool \<times> uint8 list) list"
  have h: "unat (MATRIX_COLS demo_config) \<le> LENGTH(8)" "0 < unat (MATRIX_ROWS demo_config)" "1 < unat (MATRIX_COLS demo_config)"
    "1 < unat (MATRIX_ROWS demo_config)"
    by (simp_all add: demo_config_def base_config_def)
  have alt: "alternates False (P ghost scans)" for ghost scans
    unfolding P_def using key_events_alternate [OF h(1-3) demo_hooks demo_inv, of ghost scans 0] by (metis prod.collapse)
  have last: "level False (P ghost (before @ [(t, True, m)])) =
      (if ghost \<and> ambiguous_row demo_config m 0 then level False (P ghost before) else bit (m ! 0) 1)" for ghost before t m
    unfolding P_def using key_events_alternate [OF h(1-3) demo_hooks demo_inv, of ghost "before @ [(t, True, m)]" 0] by (metis prod.collapse)
  have down: "real_down demo_config [3 :: uint8, 3] 0 0" "real_down demo_config [3 :: uint8, 3] 0 1"
    "real_down demo_config [3 :: uint8, 3] 1 0" "real_down demo_config [3 :: uint8, 3] 1 1" by code_simp+
  then have two: "ambiguous_row demo_config [3 :: uint8, 3] 0" unfolding ambiguous_row_def using h(4) by (metis zero_neq_one)
  have one: "\<not> ambiguous_row demo_config [1 :: uint8, 3] 0" by (auto simp: ambiguous_row_def real_down_def bit_simps)
  have "\<not> level False (P False [(5, True, [2, 0]), (9, True, [0, 0])])" using last [of False "[(5, True, [2, 0])]"] by simp
  moreover have "level False (P False [(5, True, [1, 3]), (9, True, [3, 3])])" using last [of False "[(5, True, [1, 3])]"] by simp
  moreover have "\<not> level False (P True [(5, True, [1, 3]), (9, True, [3, 3])])"
    using last [of True "[(5, True, [1, 3])]"] last [of True "[]"] one two by simp
  ultimately show ?thesis using alt [of False "[(5, True, [2, 0]), (9, True, [0, 0])]"] by (simp add: Let_def P_def)
qed

end
